(* ===== verification/Wsfs_Prelude.thy ===== *)
theory Wsfs_Prelude
  imports Main "HOL-Library.Word" "HOL-Library.Sublist" "HOL-Library.AList"
begin

unbundle bit_operations_syntax

text \<open>
  Shared vocabulary of the development: the machine integers of the Go sources as words, Go
  strings and byte slices, the error values the model distinguishes, little-endian integer
  encoding, and the few operations of Go's \<^verbatim>\<open>strings\<close>/\<^verbatim>\<open>bytes\<close> packages the program uses.
  The generic lemmas are declared \<open>[simp]\<close> or collected in \<open>wsfs_simps\<close> (definitions that a
  component proof unfolds) and \<open>go_string\<close> (facts about the string operations).
\<close>

named_theorems wsfs_simps \<open>definitions unfolded by the component proofs\<close>
named_theorems go_string \<open>Go string operations in terms of the list library\<close>

section \<open>Integers, bytes, strings\<close>

type_synonym u8 = "8 word"
type_synonym u16 = "16 word"
type_synonym u32 = "32 word"
type_synonym u64 = "64 word"
type_synonym i64 = "64 word" \<comment> \<open>Go's \<^verbatim>\<open>int64\<close>; read with \<open>sint\<close>\<close>
type_synonym bytes = "u8 list"

text \<open>
  A Go string is a sequence of bytes; the model uses HOL's \<open>string\<close>, whose characters are
  bytes as well. The two conversions are Go's \<^verbatim>\<open>[]byte(s)\<close> and \<^verbatim>\<open>string(b)\<close>.
\<close>

definition bytes_of :: "string \<Rightarrow> bytes" where
  "bytes_of s = map of_char s"

definition string_of :: "bytes \<Rightarrow> string" where
  "string_of bs = map (\<lambda>b. char_of (unat b)) bs"

lemma length_bytes_of [simp]: "length (bytes_of s) = length s"
  by (simp add: bytes_of_def)

lemma length_string_of [simp]: "length (string_of b) = length b"
  by (simp add: string_of_def)

lemma unat_of_char [simp]: "unat (of_char c :: u8) = of_char c"
proof -
  have "(of_char c :: u8) = of_nat (of_char c)"
    by (simp add: of_char_def)
  moreover have "of_char c < (256::nat)"
    using nat_of_char_less_256 by simp
  ultimately show ?thesis
    by (simp add: unat_of_nat)
qed

lemma string_of_bytes_of [simp]: "string_of (bytes_of s) = s"
  by (simp add: bytes_of_def string_of_def comp_def)

lemma bytes_of_string_of [simp]: "bytes_of (string_of b) = b"
proof -
  have "of_char (char_of (unat x)) = x" for x :: u8
  proof -
    have "unat x < 256"
      using unsigned_less [of x] by simp
    then show ?thesis
      by (simp add: word_unat_eq_iff)
  qed
  then show ?thesis
    by (simp add: bytes_of_def string_of_def comp_def)
qed

lemma bytes_of_eq_iff [simp]: "bytes_of s = bytes_of t \<longleftrightarrow> s = t"
  by (metis string_of_bytes_of)

lemma bytes_of_Nil [simp]: "bytes_of [] = []" and string_of_Nil [simp]: "string_of [] = []"
  by (simp_all add: bytes_of_def string_of_def)

section \<open>Errors\<close>

text \<open>
  The Go \<^verbatim>\<open>error\<close> values that the modelled code compares or produces. \<open>NetError\<close> stands for
  whatever the WebSocket library returns.
\<close>

datatype goerr =
    EOF | ErrUnexpectedEOF | ErrShortBuffer | ErrShortWrite | ErrStringTooLong
  | NetError string

section \<open>Little-endian integers (encoding/binary)\<close>

primrec le_bytes :: "nat \<Rightarrow> 'a::len word \<Rightarrow> bytes" where
  "le_bytes 0 w = []"
| "le_bytes (Suc n) w = ucast w # le_bytes n (drop_bit 8 w)"

primrec le_word :: "bytes \<Rightarrow> 'a::len word" where
  "le_word [] = 0"
| "le_word (b # bs) = ucast b OR push_bit 8 (le_word bs)"

lemma length_le_bytes [simp]: "length (le_bytes n w) = n"
  by (induction n arbitrary: w) simp_all

lemma le_word_le_bytes_take: "le_word (le_bytes n (w :: 'a::len word)) = take_bit (8 * n) w"
proof (induction n arbitrary: w)
  case (Suc n)
  show ?case
    by (rule bit_word_eqI) (auto simp: Suc bit_simps not_le not_less)
qed simp

lemma le_word_le_bytes: "LENGTH('a) \<le> 8 * n \<Longrightarrow> le_word (le_bytes n (w :: 'a::len word)) = w"
  by (simp add: le_word_le_bytes_take take_bit_word_eq_self)

text \<open>\<^verbatim>\<open>binary.LittleEndian.PutUintN\<close> writes the bytes, \<^verbatim>\<open>UintN(b)\<close> reads the first ones of \<open>b\<close>.\<close>

definition PutUint8 :: "u8 \<Rightarrow> bytes" where "PutUint8 x = [x]"
definition PutUint16 :: "u16 \<Rightarrow> bytes" where "PutUint16 x = le_bytes 2 x"
definition PutUint32 :: "u32 \<Rightarrow> bytes" where "PutUint32 x = le_bytes 4 x"
definition PutUint64 :: "u64 \<Rightarrow> bytes" where "PutUint64 x = le_bytes 8 x"

definition Uint8 :: "bytes \<Rightarrow> u8" where "Uint8 b = le_word (take 1 b)"
definition Uint16 :: "bytes \<Rightarrow> u16" where "Uint16 b = le_word (take 2 b)"
definition Uint32 :: "bytes \<Rightarrow> u32" where "Uint32 b = le_word (take 4 b)"
definition Uint64 :: "bytes \<Rightarrow> u64" where "Uint64 b = le_word (take 8 b)"

lemma length_PutUint [simp]:
  "length (PutUint8 a) = 1" "length (PutUint16 b) = 2" "length (PutUint32 c) = 4"
  "length (PutUint64 d) = 8"
  by (simp_all add: PutUint8_def PutUint16_def PutUint32_def PutUint64_def)

lemma Uint_PutUint [simp]:
  "Uint8 (PutUint8 a @ xs) = a" "Uint16 (PutUint16 b @ xs) = b"
  "Uint32 (PutUint32 c @ xs) = c" "Uint64 (PutUint64 d @ xs) = d"
  by (simp_all add: Uint8_def Uint16_def Uint32_def Uint64_def
      PutUint8_def PutUint16_def PutUint32_def PutUint64_def le_word_le_bytes)

lemma Uint_PutUint_only [simp]:
  "Uint8 (PutUint8 a) = a" "Uint16 (PutUint16 b) = b"
  "Uint32 (PutUint32 c) = c" "Uint64 (PutUint64 d) = d"
  using Uint_PutUint [where xs = "[]"] by simp_all

section \<open>Go's strings package\<close>

definition HasPrefix :: "'a list \<Rightarrow> 'a list \<Rightarrow> bool" where
  "HasPrefix s p \<longleftrightarrow> take (length p) s = p"

definition HasSuffix :: "'a list \<Rightarrow> 'a list \<Rightarrow> bool" where
  "HasSuffix s p \<longleftrightarrow> length p \<le> length s \<and> drop (length s - length p) s = p"

primrec Contains :: "'a list \<Rightarrow> 'a list \<Rightarrow> bool" where
  "Contains [] p \<longleftrightarrow> p = []"
| "Contains (c # s) p \<longleftrightarrow> HasPrefix (c # s) p \<or> Contains s p"

definition TrimPrefix :: "'a list \<Rightarrow> 'a list \<Rightarrow> 'a list" where
  "TrimPrefix s p = (if HasPrefix s p then drop (length p) s else s)"

definition TrimSuffix :: "'a list \<Rightarrow> 'a list \<Rightarrow> 'a list" where
  "TrimSuffix s p = (if HasSuffix s p then take (length s - length p) s else s)"

text \<open>\<^verbatim>\<open>IndexByte\<close>: \<open>None\<close> stands for Go's \<open>-1\<close>.\<close>

primrec IndexByte :: "'a list \<Rightarrow> 'a \<Rightarrow> nat option" where
  "IndexByte [] c = None"
| "IndexByte (x # xs) c = (if x = c then Some 0 else map_option Suc (IndexByte xs c))"

text \<open>\<^verbatim>\<open>strings.Split(s, sep)\<close> for a one-byte separator: never the empty list.\<close>

primrec Split :: "'a \<Rightarrow> 'a list \<Rightarrow> 'a list list" where
  "Split c [] = [[]]"
| "Split c (x # xs) = (if x = c then [] # Split c xs
     else (case Split c xs of [] \<Rightarrow> [[x]] | p # ps \<Rightarrow> (x # p) # ps))"

lemma HasPrefix_iff_prefix [go_string]: "HasPrefix s p \<longleftrightarrow> prefix p s"
  by (metis HasPrefix_def append_eq_conv_conj prefix_def take_is_prefix)

lemma HasSuffix_iff_suffix [go_string]: "HasSuffix s p \<longleftrightarrow> suffix p s"
  by (auto simp: HasSuffix_def suffix_def) (metis append_take_drop_id)

lemma Contains_iff_sublist [go_string]: "Contains s p \<longleftrightarrow> sublist p s"
  by (induction s) (auto simp: HasPrefix_iff_prefix sublist_Cons_right)

lemma TrimPrefix_append [simp]: "TrimPrefix (p @ s) p = s"
  by (simp add: TrimPrefix_def HasPrefix_def)

lemma HasPrefix_append [simp]: "HasPrefix (p @ s) p"
  by (simp add: HasPrefix_def)

lemma HasPrefix_Nil [simp]: "HasPrefix s []"
  by (simp add: HasPrefix_def)

lemma Split_nonempty [simp]: "Split c s \<noteq> []"
  by (induction s) (auto split: list.splits)

lemma Split_no_sep: "p \<in> set (Split c s) \<Longrightarrow> c \<notin> set p"
  by (induction s arbitrary: p) (auto split: list.splits if_splits)

lemma IndexByte_Some_less: "IndexByte xs c = Some i \<Longrightarrow> i < length xs"
  by (induction xs arbitrary: i) (auto split: if_splits)

lemma IndexByte_None_iff: "IndexByte xs c = None \<longleftrightarrow> c \<notin> set xs"
  by (induction xs) auto

lemma IndexByte_append: "c \<notin> set k \<Longrightarrow> IndexByte (k @ c # r) c = Some (length k)"
  by (induction k) auto

lemma IndexByte_SomeD: "IndexByte xs c = Some i \<Longrightarrow> xs ! i = c \<and> c \<notin> set (take i xs)"
proof (induction xs arbitrary: i)
  case (Cons x xs)
  then show ?case
    by (cases "x = c") auto
qed simp

end
