(* ===== verification/Wsfs_Const.thy ===== *)
theory Wsfs_Const
  imports Wsfs_Prelude
begin

text \<open>
  The protocol constants of \<^verbatim>\<open>src/src/internal/share/wsfsprotocol/const.go\<close>, under their names there.
\<close>

abbreviation (input) MaxMsgSize :: nat where "MaxMsgSize \<equiv> 8192"
abbreviation (input) MaxCommandLength :: nat where "MaxCommandLength \<equiv> MaxMsgSize"
abbreviation (input) MaxResponseLength :: nat where "MaxResponseLength \<equiv> MaxMsgSize"
abbreviation (input) MaxErrorDescLength :: nat where "MaxErrorDescLength \<equiv> MaxResponseLength - 4"

abbreviation (input) CmdOpen :: u8 where "CmdOpen \<equiv> 1"
abbreviation (input) CmdClose :: u8 where "CmdClose \<equiv> 2"
abbreviation (input) CmdRead :: u8 where "CmdRead \<equiv> 3"
abbreviation (input) CmdReadDir :: u8 where "CmdReadDir \<equiv> 4"
abbreviation (input) CmdReadLink :: u8 where "CmdReadLink \<equiv> 5"
abbreviation (input) CmdWrite :: u8 where "CmdWrite \<equiv> 6"
abbreviation (input) CmdSeek :: u8 where "CmdSeek \<equiv> 7"
abbreviation (input) CmdAllocate :: u8 where "CmdAllocate \<equiv> 8"
abbreviation (input) CmdGetAttr :: u8 where "CmdGetAttr \<equiv> 9"
abbreviation (input) CmdSetAttr :: u8 where "CmdSetAttr \<equiv> 0xa"
abbreviation (input) CmdSync :: u8 where "CmdSync \<equiv> 0xb"
abbreviation (input) CmdMkdir :: u8 where "CmdMkdir \<equiv> 0xc"
abbreviation (input) CmdSymLink :: u8 where "CmdSymLink \<equiv> 0xd"
abbreviation (input) CmdRemove :: u8 where "CmdRemove \<equiv> 0xe"
abbreviation (input) CmdRmDir :: u8 where "CmdRmDir \<equiv> 0xf"
abbreviation (input) CmdFsStat :: u8 where "CmdFsStat \<equiv> 0x10"
abbreviation (input) CmdReadAt :: u8 where "CmdReadAt \<equiv> 0x11"
abbreviation (input) CmdWriteAt :: u8 where "CmdWriteAt \<equiv> 0x12"
abbreviation (input) CmdCopyFileRange :: u8 where "CmdCopyFileRange \<equiv> 0x13"
abbreviation (input) CmdRename :: u8 where "CmdRename \<equiv> 0x14"
abbreviation (input) CmdSetAttrByFD :: u8 where "CmdSetAttrByFD \<equiv> 0x15"
abbreviation (input) CmdReadDirPlus :: u8 where "CmdReadDirPlus \<equiv> 0x16"
abbreviation (input) CmdWriteStreamOpen :: u8 where "CmdWriteStreamOpen \<equiv> 0x17"
abbreviation (input) CmdWriteStreamData :: u8 where "CmdWriteStreamData \<equiv> 0x18"
abbreviation (input) CmdCloneFileRange :: u8 where "CmdCloneFileRange \<equiv> 0x19"
abbreviation (input) CmdGetFileLock :: u8 where "CmdGetFileLock \<equiv> 0x1a"
abbreviation (input) CmdSetFileLock :: u8 where "CmdSetFileLock \<equiv> 0x1b"
abbreviation (input) CmdSetFileLockWait :: u8 where "CmdSetFileLockWait \<equiv> 0x1c"
abbreviation (input) CmdLink :: u8 where "CmdLink \<equiv> 0x1d"
abbreviation (input) CmdSetXAttr :: u8 where "CmdSetXAttr \<equiv> 0x1e"
abbreviation (input) CmdGetXAttr :: u8 where "CmdGetXAttr \<equiv> 0x1f"
abbreviation (input) CmdListXAttr :: u8 where "CmdListXAttr \<equiv> 0x20"
abbreviation (input) CmdRemoveXAttr :: u8 where "CmdRemoveXAttr \<equiv> 0x21"
abbreviation (input) ErrorOK :: u8 where "ErrorOK \<equiv> 0"
abbreviation (input) ErrorPartialResponse :: u8 where "ErrorPartialResponse \<equiv> 1"
abbreviation (input) ErrorUnknown :: u8 where "ErrorUnknown \<equiv> 2"
abbreviation (input) ErrorBusy :: u8 where "ErrorBusy \<equiv> 3"
abbreviation (input) ErrorExists :: u8 where "ErrorExists \<equiv> 4"
abbreviation (input) ErrorNotExists :: u8 where "ErrorNotExists \<equiv> 5"
abbreviation (input) ErrorLoop :: u8 where "ErrorLoop \<equiv> 6"
abbreviation (input) ErrorNoSpace :: u8 where "ErrorNoSpace \<equiv> 7"
abbreviation (input) ErrorNotEmpty :: u8 where "ErrorNotEmpty \<equiv> 8"
abbreviation (input) ErrorInvalid :: u8 where "ErrorInvalid \<equiv> 9"
abbreviation (input) ErrorInvalidFD :: u8 where "ErrorInvalidFD \<equiv> 0xa"
abbreviation (input) ErrorType :: u8 where "ErrorType \<equiv> 0xb"
abbreviation (input) ErrorIO :: u8 where "ErrorIO \<equiv> 0xc"
abbreviation (input) ErrorNotSupport :: u8 where "ErrorNotSupport \<equiv> 0xd"
abbreviation (input) ErrorAccessRestricted :: u8 where "ErrorAccessRestricted \<equiv> 0xe"
abbreviation (input) ErrorTooLong :: u8 where "ErrorTooLong \<equiv> 0xf"
abbreviation (input) ErrorStateBlocked :: u8 where "ErrorStateBlocked \<equiv> 0x10"
abbreviation (input) ErrorSpecialFileBlocked :: u8 where "ErrorSpecialFileBlocked \<equiv> 0x11"
abbreviation (input) ErrorCrossDevice :: u8 where "ErrorCrossDevice \<equiv> 0x12"
abbreviation (input) ErrorNoXAttr :: u8 where "ErrorNoXAttr \<equiv> 0x13"
abbreviation (input) ErrorRange :: u8 where "ErrorRange \<equiv> 0x14"
abbreviation (input) O_RDONLY :: u32 where "O_RDONLY \<equiv> 0"
abbreviation (input) O_WRONLY :: u32 where "O_WRONLY \<equiv> 1"
abbreviation (input) O_RDWR :: u32 where "O_RDWR \<equiv> 2"
abbreviation (input) O_ACCMODE :: u32 where "O_ACCMODE \<equiv> 3"
abbreviation (input) O_TRUNC :: u32 where "O_TRUNC \<equiv> 0x200"
abbreviation (input) O_EXCL :: u32 where "O_EXCL \<equiv> 0x80"
abbreviation (input) O_CREAT :: u32 where "O_CREAT \<equiv> 0x40"
abbreviation (input) O_DIRECTORY :: u32 where "O_DIRECTORY \<equiv> 0x10000"
abbreviation (input) O_APPEND :: u32 where "O_APPEND \<equiv> 0x400"
abbreviation (input) O_SYNC :: u32 where "O_SYNC \<equiv> 0x101000"
abbreviation (input) O_DSYNC :: u32 where "O_DSYNC \<equiv> 0x1000"
abbreviation (input) O_NOFOLLOW :: u32 where "O_NOFOLLOW \<equiv> 0x20000"
abbreviation (input) O_NOATIME :: u32 where "O_NOATIME \<equiv> 0x40000"
abbreviation (input) O_DIRECT :: u32 where "O_DIRECT \<equiv> 0x4000"
abbreviation (input) FALLOC_FL_FALLOCATE :: u32 where "FALLOC_FL_FALLOCATE \<equiv> 0"
abbreviation (input) FALLOC_FL_KEEP_SIZE :: u32 where "FALLOC_FL_KEEP_SIZE \<equiv> 1"
abbreviation (input) FALLOC_FL_PUNCH_HOLE :: u32 where "FALLOC_FL_PUNCH_HOLE \<equiv> 2"
abbreviation (input) FALLOC_FL_COLLAPSE_RANGE :: u32 where "FALLOC_FL_COLLAPSE_RANGE \<equiv> 8"
abbreviation (input) FALLOC_FL_ZERO_RANGE :: u32 where "FALLOC_FL_ZERO_RANGE \<equiv> 0x10"
abbreviation (input) FALLOC_FL_INSERT_RANGE :: u32 where "FALLOC_FL_INSERT_RANGE \<equiv> 0x20"
abbreviation (input) FALLOC_FL_UNSHARE_RANGE :: u32 where "FALLOC_FL_UNSHARE_RANGE \<equiv> 0x40"
abbreviation (input) WHENCE_SET :: u8 where "WHENCE_SET \<equiv> 0"
abbreviation (input) WHENCE_CUR :: u8 where "WHENCE_CUR \<equiv> 1"
abbreviation (input) WHENCE_END :: u8 where "WHENCE_END \<equiv> 2"
abbreviation (input) WHENCE_DATA :: u8 where "WHENCE_DATA \<equiv> 3"
abbreviation (input) WHENCE_HOLE :: u8 where "WHENCE_HOLE \<equiv> 4"
abbreviation (input) RENAME_NOREPLACE :: u32 where "RENAME_NOREPLACE \<equiv> 1"
abbreviation (input) RENAME_EXCHANGE :: u32 where "RENAME_EXCHANGE \<equiv> 2"
abbreviation (input) RENAME_WHITEOUT :: u32 where "RENAME_WHITEOUT \<equiv> 4"
abbreviation (input) OWNER_NN :: u8 where "OWNER_NN \<equiv> 0"
abbreviation (input) OWNER_UN :: u8 where "OWNER_UN \<equiv> 1"
abbreviation (input) OWNER_NG :: u8 where "OWNER_NG \<equiv> 2"
abbreviation (input) OWNER_UG :: u8 where "OWNER_UG \<equiv> 3"
abbreviation (input) SETATTR_SIZE :: u8 where "SETATTR_SIZE \<equiv> 1"
abbreviation (input) SETATTR_MTIME :: u8 where "SETATTR_MTIME \<equiv> 2"
abbreviation (input) SETATTR_MODE :: u8 where "SETATTR_MODE \<equiv> 4"
abbreviation (input) SETATTR_OWNER :: u8 where "SETATTR_OWNER \<equiv> 8"
abbreviation (input) READDIRPLUS_INDICATOR_CONTINUE :: u8 where "READDIRPLUS_INDICATOR_CONTINUE \<equiv> 1"
abbreviation (input) READDIRPLUS_INDICATOR_PREFETCH :: u8 where "READDIRPLUS_INDICATOR_PREFETCH \<equiv> 2"
abbreviation (input) READDIRPLUS_INDICATOR_PREFETCH_SKIP :: u8 where "READDIRPLUS_INDICATOR_PREFETCH_SKIP \<equiv> 3"
abbreviation (input) FILELOCK_UNLOCK :: u8 where "FILELOCK_UNLOCK \<equiv> 0"
abbreviation (input) FILELOCK_READLOCK :: u8 where "FILELOCK_READLOCK \<equiv> 1"
abbreviation (input) FILELOCK_WRITELOCK :: u8 where "FILELOCK_WRITELOCK \<equiv> 2"
abbreviation (input) SETXATTR_NORMAL :: u32 where "SETXATTR_NORMAL \<equiv> 0"
abbreviation (input) SETXATTR_APPEND :: u32 where "SETXATTR_APPEND \<equiv> 1"
abbreviation (input) SETXATTR_CREATE :: u32 where "SETXATTR_CREATE \<equiv> 2"
abbreviation (input) SETXATTR_REPLACE :: u32 where "SETXATTR_REPLACE \<equiv> 3"
abbreviation (input) XATTR_NOFOLLOW :: u32 where "XATTR_NOFOLLOW \<equiv> 0x80000000"
abbreviation (input) MaxCopyFileRangeChunk :: u64 where "MaxCopyFileRangeChunk \<equiv> 0x2000000"

definition OpenFlags :: "u32 list" where
  "OpenFlags = [O_RDONLY, O_WRONLY, O_RDWR, O_TRUNC, O_EXCL, O_CREAT, O_DIRECTORY, O_APPEND, O_SYNC,
     O_DSYNC, O_NOFOLLOW, O_NOATIME, O_DIRECT]"

definition RenameFlags :: "u32 list" where
  "RenameFlags = [RENAME_NOREPLACE, RENAME_EXCHANGE, RENAME_WHITEOUT]"

end
