(* ===== verification/Wsfs_IO.thy ===== *)
theory Wsfs_IO
  imports Wsfs_Prelude
begin

text \<open>
  \<^verbatim>\<open>io.Writer\<close> and \<^verbatim>\<open>io.Reader\<close> as the protocol code uses them, and the program's own message
  buffer (\<^verbatim>\<open>src/src/internal/util/buffer.go\<close>). A writer is a function from the bytes of one
  \<^verbatim>\<open>Write\<close> call to the new writer state and the error; the locale \<open>io_writer\<close> states what the
  encoders rely on, and \<open>Buffer\<close> is proved to provide it. A reader holds the chunks that
  successive \<^verbatim>\<open>Read\<close> calls deliver, so that the loops of \<^verbatim>\<open>io.ReadFull\<close> and of
  \<^verbatim>\<open>readAllToBuffer\<close> are visible; what they return is proved not to depend on the chunking.
\<close>

section \<open>Writers\<close>

type_synonym 'w wprog = "'w \<Rightarrow> 'w \<times> goerr option"
type_synonym 'w writeop = "bytes \<Rightarrow> 'w wprog"

text \<open>\<^verbatim>\<open>if err := step; err != nil { return err }\<close> for each step in turn.\<close>

primrec wseq :: "'w wprog list \<Rightarrow> 'w wprog" where
  "wseq [] w = (w, None)"
| "wseq (p # ps) w = (case p w of (w', None) \<Rightarrow> wseq ps w' | (w', Some e) \<Rightarrow> (w', Some e))"

text \<open>
  \<open>appends content fits p bs\<close>: wherever \<open>length bs\<close> more bytes fit, \<open>p\<close> succeeds, adds exactly
  \<open>bs\<close> to the content and uses up exactly that much room.
\<close>

definition appends :: "('w \<Rightarrow> bytes) \<Rightarrow> ('w \<Rightarrow> nat \<Rightarrow> bool) \<Rightarrow> 'w wprog \<Rightarrow> bytes \<Rightarrow> bool" where
  "appends content fits p bs \<longleftrightarrow>
     (\<forall>w. fits w (length bs) \<longrightarrow>
        (\<exists>w'. p w = (w', None) \<and> content w' = content w @ bs \<and>
              (\<forall>k. fits w (length bs + k) \<longrightarrow> fits w' k)))"

lemma appendsI:
  assumes "\<And>w. fits w (length bs) \<Longrightarrow>
    \<exists>w'. p w = (w', None) \<and> content w' = content w @ bs \<and> (\<forall>k. fits w (length bs + k) \<longrightarrow> fits w' k)"
  shows "appends content fits p bs"
  using assms by (simp add: appends_def)

lemma appendsD:
  assumes "appends content fits p bs" and "fits w (length bs)"
  obtains w' where "p w = (w', None)" and "content w' = content w @ bs"
    and "\<And>k. fits w (length bs + k) \<Longrightarrow> fits w' k"
  using assms by (auto simp: appends_def)

locale io_writer =
  fixes wr :: "bytes \<Rightarrow> 'w \<Rightarrow> 'w \<times> goerr option"
    and content :: "'w \<Rightarrow> bytes"
    and fits :: "'w \<Rightarrow> nat \<Rightarrow> bool"
  assumes wr_appends: "appends content fits (wr bs) bs"
    and fits_mono: "fits w n \<Longrightarrow> m \<le> n \<Longrightarrow> fits w m"
begin

lemma wseq_Nil_appends: "appends content fits (wseq []) []"
  by (rule appendsI) simp

lemma wseq_Cons_appends:
  assumes p: "appends content fits p bs" and ps: "appends content fits (wseq ps) cs"
  shows "appends content fits (wseq (p # ps)) (bs @ cs)"
proof (rule appendsI)
  fix w
  assume fit: "fits w (length (bs @ cs))"
  then have "fits w (length bs)"
    by (rule fits_mono) simp
  from appendsD [OF p this] obtain w1 where
    w1: "p w = (w1, None)" "content w1 = content w @ bs"
    and r1: "\<And>k. fits w (length bs + k) \<Longrightarrow> fits w1 k"
    by metis
  from fit r1 have "fits w1 (length cs)"
    by simp
  from appendsD [OF ps this] obtain w2 where
    w2: "wseq ps w1 = (w2, None)" "content w2 = content w1 @ cs"
    and r2: "\<And>k. fits w1 (length cs + k) \<Longrightarrow> fits w2 k"
    by metis
  show "\<exists>w'. wseq (p # ps) w = (w', None) \<and> content w' = content w @ bs @ cs \<and>
      (\<forall>k. fits w (length (bs @ cs) + k) \<longrightarrow> fits w' k)"
    using w1 w2 r1 r2 by (auto simp: add.assoc)
qed

lemma wseq_single_appends: "appends content fits p bs \<Longrightarrow> appends content fits (wseq [p]) bs"
  using wseq_Cons_appends [OF _ wseq_Nil_appends] by fastforce

lemmas wseq_appends =
  wseq_Nil_appends wseq_single_appends wseq_Cons_appends wr_appends

end

section \<open>util.Buffer\<close>

record Buffer =
  buf_Bytes :: bytes
  buf_written :: nat

definition NewBuffer :: "nat \<Rightarrow> Buffer" where
  "NewBuffer n = \<lparr>buf_Bytes = replicate n 0, buf_written = 0\<rparr>"

text \<open>Writes what fits; a short write is reported as \<^verbatim>\<open>io.ErrShortWrite\<close>.\<close>

definition Buffer_Write :: "bytes \<Rightarrow> Buffer \<Rightarrow> Buffer \<times> nat \<times> goerr option" where
  "Buffer_Write d b =
     (let avail = length (buf_Bytes b) - buf_written b;
          (n, err) = (if length d > avail then (avail, Some ErrShortWrite) else (length d, None))
      in (\<lparr>buf_Bytes = take (buf_written b) (buf_Bytes b) @ take n d
                       @ drop (buf_written b + n) (buf_Bytes b),
            buf_written = buf_written b + n\<rparr>, n, err))"

definition Buffer_Written :: "Buffer \<Rightarrow> nat" where
  "Buffer_Written b = buf_written b"

definition Buffer_Done :: "Buffer \<Rightarrow> Buffer \<times> bytes" where
  "Buffer_Done b = (b\<lparr>buf_written := 0\<rparr>, take (buf_written b) (buf_Bytes b))"

definition Buffer_Grow :: "nat \<Rightarrow> Buffer \<Rightarrow> Buffer" where
  "Buffer_Grow n b = b\<lparr>buf_written := buf_written b + n\<rparr>"

definition Buffer_Reset :: "Buffer \<Rightarrow> Buffer" where
  "Buffer_Reset b = b\<lparr>buf_written := 0\<rparr>"

definition Buffer_write_op :: "bytes \<Rightarrow> Buffer \<Rightarrow> Buffer \<times> goerr option" where
  "Buffer_write_op d b = (case Buffer_Write d b of (b', _, e) \<Rightarrow> (b', e))"

definition Buffer_content :: "Buffer \<Rightarrow> bytes" where
  "Buffer_content b = take (buf_written b) (buf_Bytes b)"

definition Buffer_fits :: "Buffer \<Rightarrow> nat \<Rightarrow> bool" where
  "Buffer_fits b n \<longleftrightarrow> buf_written b + n \<le> length (buf_Bytes b)"

definition Buffer_wf :: "nat \<Rightarrow> Buffer \<Rightarrow> bool" where
  "Buffer_wf n b \<longleftrightarrow> length (buf_Bytes b) = n \<and> buf_written b \<le> n"

lemmas Buffer_defs = Buffer_Write_def Buffer_Written_def Buffer_Done_def Buffer_Grow_def
  Buffer_Reset_def Buffer_write_op_def Buffer_content_def Buffer_fits_def Buffer_wf_def

lemma Buffer_wf_New [simp]: "Buffer_wf n (NewBuffer n)"
  by (simp add: NewBuffer_def Buffer_defs)

lemma Buffer_content_New [simp]: "Buffer_content (NewBuffer n) = []"
  by (simp add: NewBuffer_def Buffer_defs)

lemma Buffer_wf_Write: "Buffer_wf n b \<Longrightarrow> Buffer_wf n (fst (Buffer_write_op d b))"
  by (auto simp: Buffer_defs Let_def)

lemma Buffer_wf_Done: "Buffer_wf n b \<Longrightarrow> Buffer_wf n (fst (Buffer_Done b))"
  by (auto simp: Buffer_defs)

lemma Buffer_Done_content: "snd (Buffer_Done b) = Buffer_content b"
  by (simp add: Buffer_defs)

lemma Buffer_content_length: "Buffer_wf n b \<Longrightarrow> length (Buffer_content b) = Buffer_Written b"
  by (simp add: Buffer_defs)

interpretation buf: io_writer Buffer_write_op Buffer_content Buffer_fits
proof (unfold_locales, rule appendsI)
  fix w and bs :: bytes
  assume "Buffer_fits w (length bs)"
  then show "\<exists>w'. Buffer_write_op bs w = (w', None) \<and>
      Buffer_content w' = Buffer_content w @ bs \<and>
      (\<forall>k. Buffer_fits w (length bs + k) \<longrightarrow> Buffer_fits w' k)"
    by (auto simp: Buffer_defs Let_def)
qed (simp add: Buffer_defs)

section \<open>Readers\<close>

record reader =
  rd_chunks :: "bytes list"
  rd_err :: goerr \<comment> \<open>what \<^verbatim>\<open>Read\<close> returns once the chunks are used up\<close>

type_synonym 'a rprog = "reader \<Rightarrow> reader \<times> (goerr + 'a)"

definition rd_data :: "reader \<Rightarrow> bytes" where
  "rd_data r = concat (rd_chunks r)"

definition NewReader :: "bytes \<Rightarrow> reader" where
  "NewReader b = \<lparr>rd_chunks = (if b = [] then [] else [b]), rd_err = EOF\<rparr>"

lemma rd_data_NewReader [simp]: "rd_data (NewReader b) = b"
  and rd_err_NewReader [simp]: "rd_err (NewReader b) = EOF"
  by (simp_all add: NewReader_def rd_data_def)

text \<open>One \<^verbatim>\<open>Read(p)\<close> with \<open>len(p) = k\<close>: at most one chunk, at most \<open>k\<close> bytes of it.\<close>

definition rd_Read :: "nat \<Rightarrow> reader \<Rightarrow> reader \<times> bytes \<times> goerr option" where
  "rd_Read k r = (case rd_chunks r of
       [] \<Rightarrow> (r, [], Some (rd_err r))
     | c # cs \<Rightarrow> (r\<lparr>rd_chunks := (if length c \<le> k then cs else drop k c # cs)\<rparr>, take k c, None))"

definition rd_size :: "reader \<Rightarrow> nat" where
  "rd_size r = sum_list (map (\<lambda>c. Suc (length c)) (rd_chunks r))"

lemma rd_Read_decreases:
  "rd_Read k r = (r', d, None) \<Longrightarrow> 0 < k \<Longrightarrow> rd_size r' < rd_size r"
  by (cases "rd_chunks r") (auto simp: rd_Read_def rd_size_def split: if_splits)

lemma rd_Read_Some:
  assumes "rd_Read k r = (r', d, None)"
  shows "rd_data r = d @ rd_data r'" and "rd_err r' = rd_err r" and "length d \<le> k"
  using assms by (cases "rd_chunks r"; auto simp: rd_Read_def rd_data_def split: if_splits)+

lemma rd_Read_None:
  assumes "rd_Read k r = (r', d, Some e)"
  shows "r' = r" and "d = []" and "e = rd_err r" and "rd_data r = []"
  using assms by (cases "rd_chunks r"; auto simp: rd_Read_def rd_data_def)+

text \<open>No chunk is empty: the library never returns \<open>(0, nil)\<close> from \<^verbatim>\<open>Read\<close>.\<close>

definition rd_wf :: "reader \<Rightarrow> bool" where
  "rd_wf r \<longleftrightarrow> [] \<notin> set (rd_chunks r)"

lemma rd_wf_Read: "rd_wf r \<Longrightarrow> rd_Read k r = (r', d, e) \<Longrightarrow> rd_wf r'"
  by (cases "rd_chunks r") (auto simp: rd_Read_def rd_wf_def split: if_splits)

lemma rd_wf_NewReader [simp]: "rd_wf (NewReader b)"
  by (simp add: rd_wf_def NewReader_def)

text \<open>\<^verbatim>\<open>io.ReadFull(r, buf)\<close> with \<open>len(buf) = n\<close>; \<open>acc\<close> is what has been read so far.\<close>

function ReadFull_loop :: "nat \<Rightarrow> bytes \<Rightarrow> bytes rprog" where
  "ReadFull_loop n acc r =
     (if n \<le> length acc then (r, Inr acc)
      else case rd_Read (n - length acc) r of
          (r', d, None) \<Rightarrow> ReadFull_loop n (acc @ d) r'
        | (r', d, Some e) \<Rightarrow>
            (r', Inl (if acc \<noteq> [] \<and> e = EOF then ErrUnexpectedEOF else e)))"
  by pat_completeness auto
termination
  by (relation "measure (\<lambda>(n, acc, r). rd_size r)") (auto intro: rd_Read_decreases [OF sym])

declare ReadFull_loop.simps [simp del]

definition io_ReadFull :: "nat \<Rightarrow> bytes rprog" where
  "io_ReadFull n = ReadFull_loop n []"

lemma ReadFull_loop_enough:
  "length acc \<le> n \<Longrightarrow> n - length acc \<le> length (rd_data r) \<Longrightarrow>
   \<exists>r'. ReadFull_loop n acc r = (r', Inr (acc @ take (n - length acc) (rd_data r))) \<and>
        rd_data r' = drop (n - length acc) (rd_data r) \<and> rd_err r' = rd_err r \<and>
        (rd_wf r \<longrightarrow> rd_wf r')"
proof (induction n acc r rule: ReadFull_loop.induct)
  case (1 n acc r)
  show ?case
  proof (cases "n \<le> length acc")
    case True
    with "1.prems" show ?thesis
      by (simp add: ReadFull_loop.simps)
  next
    case False
    obtain r' d e where rd: "rd_Read (n - length acc) r = (r', d, e)"
      using prod_cases3 by blast
    show ?thesis
    proof (cases e)
      case (Some e')
      with False "1.prems" rd show ?thesis
        using rd_Read_None [of "n - length acc" r r' d e'] by auto
    next
      case None
      note facts = rd_Read_Some [OF rd [unfolded None]]
      have "length (acc @ d) \<le> n" "n - length (acc @ d) \<le> length (rd_data r')"
        using facts False "1.prems" by auto
      from "1.IH" [OF False rd [symmetric] refl None this]
      obtain r'' where r'': "ReadFull_loop n (acc @ d) r' =
            (r'', Inr ((acc @ d) @ take (n - length (acc @ d)) (rd_data r')))"
          "rd_data r'' = drop (n - length (acc @ d)) (rd_data r')" "rd_err r'' = rd_err r'"
          "rd_wf r' \<longrightarrow> rd_wf r''"
        by blast
      have "ReadFull_loop n acc r = ReadFull_loop n (acc @ d) r'"
        using False rd None by (subst ReadFull_loop.simps) simp
      then show ?thesis
        using r'' facts rd_wf_Read [OF _ rd] by (simp add: take_append drop_append)
    qed
  qed
qed

lemma ReadFull_loop_short:
  "length acc \<le> n \<Longrightarrow> length (rd_data r) < n - length acc \<Longrightarrow>
   \<exists>r'. ReadFull_loop n acc r =
     (r', Inl (if acc @ rd_data r \<noteq> [] \<and> rd_err r = EOF then ErrUnexpectedEOF else rd_err r))"
proof (induction n acc r rule: ReadFull_loop.induct)
  case (1 n acc r)
  then have False: "\<not> n \<le> length acc" by simp
  obtain r' d e where rd: "rd_Read (n - length acc) r = (r', d, e)"
    using prod_cases3 by blast
  show ?case
  proof (cases e)
    case (Some e')
    with False rd show ?thesis
      using rd_Read_None [of "n - length acc" r r' d e'] by (subst ReadFull_loop.simps) auto
  next
    case None
    note facts = rd_Read_Some [OF rd [unfolded None]]
    have "length (acc @ d) \<le> n" "length (rd_data r') < n - length (acc @ d)"
      using facts False "1.prems" by auto
    from "1.IH" [OF False rd [symmetric] refl None this]
    have "\<exists>r''. ReadFull_loop n (acc @ d) r' = (r'', Inl (if (acc @ d) @ rd_data r' \<noteq> [] \<and>
        rd_err r' = EOF then ErrUnexpectedEOF else rd_err r'))" .
    moreover have "ReadFull_loop n acc r = ReadFull_loop n (acc @ d) r'"
      using False rd None by (subst ReadFull_loop.simps) simp
    moreover have "(acc @ d) @ rd_data r' = acc @ rd_data r" "rd_err r' = rd_err r"
      using facts by simp_all
    ultimately show ?thesis
      by metis
  qed
qed

lemma io_ReadFull_enough:
  assumes "rd_data r = b @ rest" and "length b = n"
  obtains r' where "io_ReadFull n r = (r', Inr b)" and "rd_data r' = rest" and "rd_err r' = rd_err r"
    and "rd_wf r \<longrightarrow> rd_wf r'"
  using ReadFull_loop_enough [of "[]" n r] assms by (auto simp: io_ReadFull_def)

lemma io_ReadFull_short:
  assumes "length (rd_data r) < n"
  obtains r' where "io_ReadFull n r =
    (r', Inl (if rd_data r \<noteq> [] \<and> rd_err r = EOF then ErrUnexpectedEOF else rd_err r))"
  using ReadFull_loop_short [of "[]" n r] assms by (auto simp: io_ReadFull_def)

text \<open>\<^verbatim>\<open>io.ReadAll\<close>: everything up to EOF; any other error is returned.\<close>

definition io_ReadAll :: "bytes rprog" where
  "io_ReadAll r = (r\<lparr>rd_chunks := []\<rparr>, if rd_err r = EOF then Inr (rd_data r) else Inl (rd_err r))"

text \<open>\<^verbatim>\<open>readAllToBuffer(r, dataBuf)\<close> with \<open>len(dataBuf) = cap\<close>, \<open>acc\<close> what \<open>dataBuf\<close> holds so far.\<close>

function readAllToBuffer_loop :: "nat \<Rightarrow> bytes \<Rightarrow> bytes rprog" where
  "readAllToBuffer_loop cap acc r =
     (if length acc < cap then
        (case rd_Read (cap - length acc) r of
           (r', d, Some e) \<Rightarrow> (r', if e = EOF then Inr (acc @ d) else Inl e)
         | (r', d, None) \<Rightarrow> readAllToBuffer_loop cap (acc @ d) r')
      else
        (case rd_Read 1 r of
           (r', d, e) \<Rightarrow> (r', if d \<noteq> [] then Inl ErrShortBuffer
             else (case e of Some e' \<Rightarrow> (if e' = EOF then Inr acc else Inl e') | None \<Rightarrow> Inr []))))"
  by pat_completeness auto
termination
  by (relation "measure (\<lambda>(cap, acc, r). rd_size r)") (auto intro: rd_Read_decreases [OF sym])

declare readAllToBuffer_loop.simps [simp del]

definition readAllToBuffer :: "nat \<Rightarrow> bytes rprog" where
  "readAllToBuffer cap = readAllToBuffer_loop cap []"

lemma readAllToBuffer_loop_eq:
  "rd_wf r \<Longrightarrow> length acc \<le> cap \<Longrightarrow> rd_err r = EOF \<Longrightarrow>
   snd (readAllToBuffer_loop cap acc r) =
     (if length acc + length (rd_data r) \<le> cap then Inr (acc @ rd_data r) else Inl ErrShortBuffer)"
proof (induction cap acc r rule: readAllToBuffer_loop.induct)
  case (1 cap acc r)
  show ?case
  proof (cases "length acc < cap")
    case True
    obtain r' d e where rd: "rd_Read (cap - length acc) r = (r', d, e)"
      using prod_cases3 by blast
    show ?thesis
    proof (cases e)
      case (Some e')
      with True rd "1.prems" show ?thesis
        using rd_Read_None [of "cap - length acc" r r' d e']
        by (subst readAllToBuffer_loop.simps) auto
    next
      case None
      note facts = rd_Read_Some [OF rd [unfolded None]]
      have "snd (readAllToBuffer_loop cap (acc @ d) r') =
          (if length (acc @ d) + length (rd_data r') \<le> cap then Inr ((acc @ d) @ rd_data r')
           else Inl ErrShortBuffer)"
      proof (rule "1.IH" [OF True rd [symmetric] refl None])
        show "rd_wf r'"
          using "1.prems" rd by (blast intro: rd_wf_Read)
      qed (use facts True "1.prems" in auto)
      moreover have "readAllToBuffer_loop cap acc r = readAllToBuffer_loop cap (acc @ d) r'"
        using True rd None by (subst readAllToBuffer_loop.simps) simp
      ultimately show ?thesis
        using facts by simp
    qed
  next
    case False
    with "1.prems" show ?thesis
      by (subst readAllToBuffer_loop.simps; cases "rd_chunks r")
        (auto simp: rd_Read_def rd_wf_def rd_data_def)
  qed
qed

text \<open>
  On a message that arrived whole, \<^verbatim>\<open>readAllToBuffer\<close> returns its bytes when they fit the buffer
  and \<^verbatim>\<open>io.ErrShortBuffer\<close> otherwise, however the message was split into reads.
\<close>

lemma readAllToBuffer_eq:
  "rd_wf r \<Longrightarrow> rd_err r = EOF \<Longrightarrow>
   snd (readAllToBuffer cap r) =
     (if length (rd_data r) \<le> cap then Inr (rd_data r) else Inl ErrShortBuffer)"
  using readAllToBuffer_loop_eq [of r "[]" cap] by (simp add: readAllToBuffer_def)

lemma readAllToBuffer_loop_drained:
  "rd_wf r \<Longrightarrow> readAllToBuffer_loop n acc r = (r', Inr d) \<Longrightarrow> rd_data r' = [] \<and> rd_err r' = rd_err r"
proof (induction n acc r rule: readAllToBuffer_loop.induct)
  case (1 n acc r)
  show ?case
  proof (cases "rd_chunks r")
    case Nil
    with "1.prems" show ?thesis
      by (subst (asm) readAllToBuffer_loop.simps)
        (auto simp: rd_Read_def rd_data_def split: if_splits)
  next
    case (Cons c cs)
    with "1.prems" have c: "c \<noteq> []"
      by (auto simp: rd_wf_def)
    obtain r1 d1 where rd: "rd_Read (n - length acc) r = (r1, d1, None)"
      using Cons by (auto simp: rd_Read_def)
    have lt: "length acc < n"
      using "1.prems" c Cons
      by (subst (asm) readAllToBuffer_loop.simps) (auto simp: rd_Read_def split: if_splits)
    have "readAllToBuffer_loop n (acc @ d1) r1 = (r', Inr d)"
      using "1.prems" lt rd by (subst (asm) readAllToBuffer_loop.simps) simp
    then show ?thesis
      using "1.IH" [OF lt rd [symmetric] refl refl] "1.prems" rd_wf_Read [OF _ rd]
        rd_Read_Some(2) [OF rd] by simp
  qed
qed

lemma readAllToBuffer_whole:
  assumes "rd_wf r" and "rd_err r = EOF" and "length (rd_data r) \<le> n"
  obtains r' where "readAllToBuffer n r = (r', Inr (rd_data r))" and "rd_data r' = []" and "rd_err r' = EOF"
proof -
  obtain r' x where eq: "readAllToBuffer n r = (r', x)"
    by fastforce
  with readAllToBuffer_eq [OF assms(1,2), of n] assms(3) have x: "x = Inr (rd_data r)"
    by simp
  show ?thesis
    using that [of r'] readAllToBuffer_loop_drained [OF assms(1), of n "[]" r'] eq x assms(2)
    by (simp add: readAllToBuffer_def)
qed

section \<open>Sequencing reads\<close>

definition rret :: "'a \<Rightarrow> 'a rprog" where
  "rret x r = (r, Inr x)"

definition rbind :: "'a rprog \<Rightarrow> ('a \<Rightarrow> 'b rprog) \<Rightarrow> 'b rprog" where
  "rbind p f r = (case p r of (r', Inl e) \<Rightarrow> (r', Inl e) | (r', Inr x) \<Rightarrow> f x r')"

text \<open>
  \<open>decodes p bs x\<close>: from any reader whose data starts with \<open>bs\<close>, \<open>p\<close> returns \<open>x\<close> and leaves
  exactly the rest. \<open>decodes_all p bs x\<close>: from a complete message \<open>bs\<close>, \<open>p\<close> returns \<open>x\<close> and
  leaves nothing. \<open>rejects p bs\<close>: on every proper prefix of \<open>bs\<close>, \<open>p\<close> fails.
\<close>

definition decodes :: "'a rprog \<Rightarrow> bytes \<Rightarrow> 'a \<Rightarrow> bool" where
  "decodes p bs x \<longleftrightarrow> (\<forall>r rest. rd_data r = bs @ rest \<longrightarrow>
     (\<exists>r'. p r = (r', Inr x) \<and> rd_data r' = rest \<and> rd_err r' = rd_err r \<and> (rd_wf r \<longrightarrow> rd_wf r')))"

definition decodes_all :: "'a rprog \<Rightarrow> bytes \<Rightarrow> 'a \<Rightarrow> bool" where
  "decodes_all p bs x \<longleftrightarrow> (\<forall>r. rd_data r = bs \<longrightarrow> rd_err r = EOF \<longrightarrow> rd_wf r \<longrightarrow>
     (\<exists>r'. p r = (r', Inr x) \<and> rd_data r' = [] \<and> rd_err r' = EOF))"

definition rejects :: "'a rprog \<Rightarrow> bytes \<Rightarrow> bool" where
  "rejects p bs \<longleftrightarrow> (\<forall>r. strict_prefix (rd_data r) bs \<longrightarrow> (\<exists>r' e. p r = (r', Inl e)))"

lemma decodesE:
  assumes "decodes p bs x" and "rd_data r = bs @ rest"
  obtains r' where "p r = (r', Inr x)" and "rd_data r' = rest" and "rd_err r' = rd_err r"
    and "rd_wf r \<Longrightarrow> rd_wf r'"
  using assms by (auto simp: decodes_def)

lemma decodes_imp_all: "decodes p bs x \<Longrightarrow> decodes_all p bs x"
  unfolding decodes_all_def by (metis append_Nil2 decodesE)

lemma decodes_ReadFull: "length bs = n \<Longrightarrow> decodes (io_ReadFull n) bs bs"
  unfolding decodes_def by (metis io_ReadFull_enough)

lemma decodes_ret: "x = y \<Longrightarrow> decodes (rret x) [] y"
  by (simp add: decodes_def rret_def)

lemma decodes_bind:
  assumes "decodes p bs x" and "decodes (f x) cs y"
  shows "decodes (rbind p f) (bs @ cs) y"
  unfolding decodes_def
proof (intro allI impI)
  fix r rest
  assume "rd_data r = (bs @ cs) @ rest"
  then obtain r' where r': "p r = (r', Inr x)" "rd_data r' = cs @ rest" "rd_err r' = rd_err r"
      "rd_wf r \<longrightarrow> rd_wf r'"
    using decodesE [OF assms(1), of r "cs @ rest"] by (metis append_assoc)
  obtain r'' where "f x r' = (r'', Inr y)" "rd_data r'' = rest" "rd_err r'' = rd_err r'"
      "rd_wf r' \<longrightarrow> rd_wf r''"
    using decodesE [OF assms(2) r'(2)] by metis
  with r' show "\<exists>r'. rbind p f r = (r', Inr y) \<and> rd_data r' = rest \<and> rd_err r' = rd_err r \<and>
      (rd_wf r \<longrightarrow> rd_wf r')"
    by (simp add: rbind_def)
qed

lemma decodes_all_bind:
  assumes "decodes p bs x" and "decodes_all (f x) cs y"
  shows "decodes_all (rbind p f) (bs @ cs) y"
  unfolding decodes_all_def
proof (intro allI impI)
  fix r
  assume r: "rd_data r = bs @ cs" "rd_err r = EOF" "rd_wf r"
  then obtain r' where r': "p r = (r', Inr x)" "rd_data r' = cs" "rd_err r' = EOF" "rd_wf r'"
    using decodesE [OF assms(1)] by metis
  with assms(2) show "\<exists>r'. rbind p f r = (r', Inr y) \<and> rd_data r' = [] \<and> rd_err r' = EOF"
    by (simp add: rbind_def decodes_all_def)
qed

lemma decodes_all_ret: "x = y \<Longrightarrow> decodes_all (rret x) [] y"
  by (simp add: decodes_all_def rret_def)

lemma decodes_all_bind_ret:
  assumes "decodes_all p bs x" and "g x = y"
  shows "decodes_all (rbind p (\<lambda>v. rret (g v))) bs y"
  using assms unfolding decodes_all_def rbind_def rret_def by fastforce

lemma decodes_all_ReadAll: "decodes_all io_ReadAll bs bs"
  by (simp add: decodes_all_def io_ReadAll_def rd_data_def)

lemma decodes_all_readAllToBuffer: "length bs \<le> n \<Longrightarrow> decodes_all (readAllToBuffer n) bs bs"
  unfolding decodes_all_def by (metis readAllToBuffer_whole)

lemma rejects_ReadFull: "length bs = n \<Longrightarrow> rejects (io_ReadFull n) bs"
  unfolding rejects_def by (metis io_ReadFull_short prefix_length_less)

lemma rejects_ret: "rejects (rret x) []"
  by (simp add: rejects_def)

lemma rejects_bind:
  assumes d: "decodes p bs x" and p: "rejects p bs" and f: "rejects (f x) cs"
  shows "rejects (rbind p f) (bs @ cs)"
  unfolding rejects_def
proof (intro allI impI)
  fix r
  assume "strict_prefix (rd_data r) (bs @ cs)"
  then consider "strict_prefix (rd_data r) bs"
    | ds where "rd_data r = bs @ ds" "strict_prefix ds cs"
    by (cases "rd_data r = bs") (auto simp: strict_prefix_def prefix_append)
  then show "\<exists>r' e. rbind p f r = (r', Inl e)"
  proof cases
    case 1
    then show ?thesis
      using p by (fastforce simp: rejects_def rbind_def)
  next
    case 2
    obtain r' where "p r = (r', Inr x)" "rd_data r' = ds"
      using decodesE [OF d 2(1)] by metis
    with f 2(2) show ?thesis
      by (auto simp: rejects_def rbind_def)
  qed
qed

end
