(* ===== verification/Wsfs_Structs.thy ===== *)
theory Wsfs_Structs
  imports Wsfs_IO
begin

text \<open>
  The message structures of the WSFS protocol (\<^verbatim>\<open>src/src/internal/share/wsfsprotocol/struct.go\<close>), one
  record per Go struct, field by field, and the wire format of each as a byte string: integers
  little-endian at their width, strings behind a 16-bit length, nested structs in place, a final
  \<^verbatim>\<open>[]byte\<close> field without a length. The wire format is the specification that the generated
  encoders and decoders of theory \<^verbatim>\<open>Wsfs_Codec\<close> are proved against. The field-less response structs
  and the raw-data responses, which the program never encodes or decodes through these structs, are
  left out.
\<close>

section \<open>Structures\<close>

record Timespec =
  ts_Seconds :: i64
  ts_Nanoseconds :: i64

record FileInfo =
  fi_Size :: u64
  fi_MTime :: Timespec
  fi_Mode :: u32
  fi_Owner :: u8

record Dirent =
  de_Name :: string
  de_Size :: u64
  de_MTime :: Timespec
  de_Mode :: u32
  de_Owner :: u8

record FileLockInfo =
  fl_Type :: u8
  fl_Whence :: u8
  fl_Start :: u64
  fl_Size :: u64

record CmdOpenStruct =
  Open_Path :: string
  Open_OFlag :: u32
  Open_FMode :: u32

record CmdCloseStruct =
  Close_FD :: u32

record CmdReadStruct =
  Read_FD :: u32
  Read_Size :: u64

record CmdReadDirStruct =
  ReadDir_Path :: string

record CmdReadLinkStruct =
  ReadLink_Path :: string

record CmdWriteStruct =
  Write_FD :: u32
  Write_Data :: bytes

record CmdSeekStruct =
  Seek_FD :: u32
  Seek_Whence :: u8
  Seek_Offset :: i64

record CmdAllocateStruct =
  Allocate_FD :: u32
  Allocate_Flag :: u32
  Allocate_Offset :: u64
  Allocate_Size :: u64

record CmdGetAttrStruct =
  GetAttr_Path :: string

record CmdSetAttrStruct =
  SetAttr_Path :: string
  SetAttr_Flag :: u8
  SetAttr_FI :: FileInfo

record CmdSyncStruct =
  Sync_FD :: u32

record CmdMkdirStruct =
  Mkdir_Path :: string
  Mkdir_Mode :: u32

record CmdSymLinkStruct =
  SymLink_TargetPath :: string
  SymLink_FilePath :: string

record CmdRemoveStruct =
  Remove_Path :: string

record CmdRmDirStruct =
  RmDir_Path :: string

record CmdFsStatStruct =
  FsStat_Path :: string

record CmdReadAtStruct =
  ReadAt_FD :: u32
  ReadAt_Offset :: u64
  ReadAt_Size :: u64

record CmdWriteAtStruct =
  WriteAt_FD :: u32
  WriteAt_Offset :: u64
  WriteAt_Data :: bytes

record CmdRenameStruct =
  Rename_OldPath :: string
  Rename_NewPath :: string
  Rename_Flag :: u32

record CmdCopyFileRangeStruct =
  CopyFileRange_SrcFD :: u32
  CopyFileRange_DstFD :: u32
  CopyFileRange_SrcOffset :: u64
  CopyFileRange_DstOffset :: u64
  CopyFileRange_Size :: u64

record CmdCloneFileRangeStruct =
  CloneFileRange_SrcFD :: u32
  CloneFileRange_DstFD :: u32
  CloneFileRange_SrcOffset :: u64
  CloneFileRange_DstOffset :: u64
  CloneFileRange_Size :: u64

record CmdSetAttrByFDStruct =
  SetAttrByFD_FD :: u32
  SetAttrByFD_Flag :: u8
  SetAttrByFD_FI :: FileInfo

record CmdReadDirPlusStruct =
  ReadDirPlus_Path :: string

record CmdWriteStreamOpenStruct =
  WriteStreamOpen_FD :: u32
  WriteStreamOpen_Offset :: u64
  WriteStreamOpen_Data :: bytes

record CmdWriteStreamDataStruct =
  WriteStreamData_IsEnd :: u8
  WriteStreamData_Data :: bytes

record CmdGetFileLockStruct =
  GetFileLock_FD :: u32
  GetFileLock_FileLock :: FileLockInfo

record CmdSetFileLockStruct =
  SetFileLock_FD :: u32
  SetFileLock_FileLock :: FileLockInfo

record CmdSetFileLockWaitStruct =
  SetFileLockWait_FD :: u32
  SetFileLockWait_FileLock :: FileLockInfo

record CmdLinkStruct =
  Link_TargetPath :: string
  Link_FilePath :: string

record CmdSetXAttrStruct =
  SetXAttr_Path :: string
  SetXAttr_Flag :: u32
  SetXAttr_Key :: string
  SetXAttr_Value :: bytes

record CmdGetXAttrStruct =
  GetXAttr_Path :: string
  GetXAttr_Key :: string
  GetXAttr_Mode :: u32

record CmdListXAttrStruct =
  ListXAttr_Path :: string
  ListXAttr_Mode :: u32

record CmdRemoveXAttrStruct =
  RemoveXAttr_Path :: string
  RemoveXAttr_Key :: string
  RemoveXAttr_Mode :: u32

record RspError =
  RspError_Desc :: string

record RspOpen =
  RspOpen_FD :: u32

record RspReadLink =
  RspReadLink_TargetPath :: string

record RspWrite =
  RspWrite_Written :: u64

record RspSeek =
  RspSeek_Offset :: u64

record RspGetAttr =
  RspGetAttr_FI :: FileInfo

record RspFsStat =
  RspFsStat_Total :: u64
  RspFsStat_Free :: u64
  RspFsStat_Available :: u64

record RspWriteAt =
  RspWriteAt_Written :: u64

record RspCopyFileRange =
  RspCopyFileRange_Copied :: u64

record RspWriteStreamClose =
  RspWriteStreamClose_Written :: u64

record RspGetFileLock =
  RspGetFileLock_FileLock :: FileLockInfo

section \<open>Wire format\<close>

definition wire_str :: "string \<Rightarrow> bytes" where
  "wire_str s = PutUint16 (of_nat (length s)) @ bytes_of s"

lemma length_wire_str [simp]: "length (wire_str s) = length s + 2"
  by (simp add: wire_str_def)

definition wire_Timespec :: "Timespec \<Rightarrow> bytes" where
  "wire_Timespec d = PutUint64 (ts_Seconds d) @ PutUint64 (ts_Nanoseconds d)"

definition wire_FileInfo :: "FileInfo \<Rightarrow> bytes" where
  "wire_FileInfo d = PutUint64 (fi_Size d) @ wire_Timespec (fi_MTime d) @ PutUint32 (fi_Mode d) @ PutUint8 (fi_Owner d)"

definition wire_Dirent :: "Dirent \<Rightarrow> bytes" where
  "wire_Dirent d = wire_str (de_Name d) @ PutUint64 (de_Size d) @ wire_Timespec (de_MTime d) @ PutUint32 (de_Mode d) @ PutUint8 (de_Owner d)"

definition wire_FileLockInfo :: "FileLockInfo \<Rightarrow> bytes" where
  "wire_FileLockInfo d = PutUint8 (fl_Type d) @ PutUint8 (fl_Whence d) @ PutUint64 (fl_Start d) @ PutUint64 (fl_Size d)"

definition wire_CmdOpenStruct :: "CmdOpenStruct \<Rightarrow> bytes" where
  "wire_CmdOpenStruct d = wire_str (Open_Path d) @ PutUint32 (Open_OFlag d) @ PutUint32 (Open_FMode d)"

definition wire_CmdCloseStruct :: "CmdCloseStruct \<Rightarrow> bytes" where
  "wire_CmdCloseStruct d = PutUint32 (Close_FD d)"

definition wire_CmdReadStruct :: "CmdReadStruct \<Rightarrow> bytes" where
  "wire_CmdReadStruct d = PutUint32 (Read_FD d) @ PutUint64 (Read_Size d)"

definition wire_CmdReadDirStruct :: "CmdReadDirStruct \<Rightarrow> bytes" where
  "wire_CmdReadDirStruct d = wire_str (ReadDir_Path d)"

definition wire_CmdReadLinkStruct :: "CmdReadLinkStruct \<Rightarrow> bytes" where
  "wire_CmdReadLinkStruct d = wire_str (ReadLink_Path d)"

definition wire_CmdWriteStruct :: "CmdWriteStruct \<Rightarrow> bytes" where
  "wire_CmdWriteStruct d = PutUint32 (Write_FD d) @ Write_Data d"

definition wire_CmdSeekStruct :: "CmdSeekStruct \<Rightarrow> bytes" where
  "wire_CmdSeekStruct d = PutUint32 (Seek_FD d) @ PutUint8 (Seek_Whence d) @ PutUint64 (Seek_Offset d)"

definition wire_CmdAllocateStruct :: "CmdAllocateStruct \<Rightarrow> bytes" where
  "wire_CmdAllocateStruct d = PutUint32 (Allocate_FD d) @ PutUint32 (Allocate_Flag d) @ PutUint64 (Allocate_Offset d) @ PutUint64 (Allocate_Size d)"

definition wire_CmdGetAttrStruct :: "CmdGetAttrStruct \<Rightarrow> bytes" where
  "wire_CmdGetAttrStruct d = wire_str (GetAttr_Path d)"

definition wire_CmdSetAttrStruct :: "CmdSetAttrStruct \<Rightarrow> bytes" where
  "wire_CmdSetAttrStruct d = wire_str (SetAttr_Path d) @ PutUint8 (SetAttr_Flag d) @ wire_FileInfo (SetAttr_FI d)"

definition wire_CmdSyncStruct :: "CmdSyncStruct \<Rightarrow> bytes" where
  "wire_CmdSyncStruct d = PutUint32 (Sync_FD d)"

definition wire_CmdMkdirStruct :: "CmdMkdirStruct \<Rightarrow> bytes" where
  "wire_CmdMkdirStruct d = wire_str (Mkdir_Path d) @ PutUint32 (Mkdir_Mode d)"

definition wire_CmdSymLinkStruct :: "CmdSymLinkStruct \<Rightarrow> bytes" where
  "wire_CmdSymLinkStruct d = wire_str (SymLink_TargetPath d) @ wire_str (SymLink_FilePath d)"

definition wire_CmdRemoveStruct :: "CmdRemoveStruct \<Rightarrow> bytes" where
  "wire_CmdRemoveStruct d = wire_str (Remove_Path d)"

definition wire_CmdRmDirStruct :: "CmdRmDirStruct \<Rightarrow> bytes" where
  "wire_CmdRmDirStruct d = wire_str (RmDir_Path d)"

definition wire_CmdFsStatStruct :: "CmdFsStatStruct \<Rightarrow> bytes" where
  "wire_CmdFsStatStruct d = wire_str (FsStat_Path d)"

definition wire_CmdReadAtStruct :: "CmdReadAtStruct \<Rightarrow> bytes" where
  "wire_CmdReadAtStruct d = PutUint32 (ReadAt_FD d) @ PutUint64 (ReadAt_Offset d) @ PutUint64 (ReadAt_Size d)"

definition wire_CmdWriteAtStruct :: "CmdWriteAtStruct \<Rightarrow> bytes" where
  "wire_CmdWriteAtStruct d = PutUint32 (WriteAt_FD d) @ PutUint64 (WriteAt_Offset d) @ WriteAt_Data d"

definition wire_CmdRenameStruct :: "CmdRenameStruct \<Rightarrow> bytes" where
  "wire_CmdRenameStruct d = wire_str (Rename_OldPath d) @ wire_str (Rename_NewPath d) @ PutUint32 (Rename_Flag d)"

definition wire_CmdCopyFileRangeStruct :: "CmdCopyFileRangeStruct \<Rightarrow> bytes" where
  "wire_CmdCopyFileRangeStruct d = PutUint32 (CopyFileRange_SrcFD d) @ PutUint32 (CopyFileRange_DstFD d) @ PutUint64 (CopyFileRange_SrcOffset d) @ PutUint64 (CopyFileRange_DstOffset d) @ PutUint64 (CopyFileRange_Size d)"

definition wire_CmdCloneFileRangeStruct :: "CmdCloneFileRangeStruct \<Rightarrow> bytes" where
  "wire_CmdCloneFileRangeStruct d = PutUint32 (CloneFileRange_SrcFD d) @ PutUint32 (CloneFileRange_DstFD d) @ PutUint64 (CloneFileRange_SrcOffset d) @ PutUint64 (CloneFileRange_DstOffset d) @ PutUint64 (CloneFileRange_Size d)"

definition wire_CmdSetAttrByFDStruct :: "CmdSetAttrByFDStruct \<Rightarrow> bytes" where
  "wire_CmdSetAttrByFDStruct d = PutUint32 (SetAttrByFD_FD d) @ PutUint8 (SetAttrByFD_Flag d) @ wire_FileInfo (SetAttrByFD_FI d)"

definition wire_CmdReadDirPlusStruct :: "CmdReadDirPlusStruct \<Rightarrow> bytes" where
  "wire_CmdReadDirPlusStruct d = wire_str (ReadDirPlus_Path d)"

definition wire_CmdWriteStreamOpenStruct :: "CmdWriteStreamOpenStruct \<Rightarrow> bytes" where
  "wire_CmdWriteStreamOpenStruct d = PutUint32 (WriteStreamOpen_FD d) @ PutUint64 (WriteStreamOpen_Offset d) @ WriteStreamOpen_Data d"

definition wire_CmdWriteStreamDataStruct :: "CmdWriteStreamDataStruct \<Rightarrow> bytes" where
  "wire_CmdWriteStreamDataStruct d = PutUint8 (WriteStreamData_IsEnd d) @ WriteStreamData_Data d"

definition wire_CmdGetFileLockStruct :: "CmdGetFileLockStruct \<Rightarrow> bytes" where
  "wire_CmdGetFileLockStruct d = PutUint32 (GetFileLock_FD d) @ wire_FileLockInfo (GetFileLock_FileLock d)"

definition wire_CmdSetFileLockStruct :: "CmdSetFileLockStruct \<Rightarrow> bytes" where
  "wire_CmdSetFileLockStruct d = PutUint32 (SetFileLock_FD d) @ wire_FileLockInfo (SetFileLock_FileLock d)"

definition wire_CmdSetFileLockWaitStruct :: "CmdSetFileLockWaitStruct \<Rightarrow> bytes" where
  "wire_CmdSetFileLockWaitStruct d = PutUint32 (SetFileLockWait_FD d) @ wire_FileLockInfo (SetFileLockWait_FileLock d)"

definition wire_CmdLinkStruct :: "CmdLinkStruct \<Rightarrow> bytes" where
  "wire_CmdLinkStruct d = wire_str (Link_TargetPath d) @ wire_str (Link_FilePath d)"

definition wire_CmdSetXAttrStruct :: "CmdSetXAttrStruct \<Rightarrow> bytes" where
  "wire_CmdSetXAttrStruct d = wire_str (SetXAttr_Path d) @ PutUint32 (SetXAttr_Flag d) @ wire_str (SetXAttr_Key d) @ SetXAttr_Value d"

definition wire_CmdGetXAttrStruct :: "CmdGetXAttrStruct \<Rightarrow> bytes" where
  "wire_CmdGetXAttrStruct d = wire_str (GetXAttr_Path d) @ wire_str (GetXAttr_Key d) @ PutUint32 (GetXAttr_Mode d)"

definition wire_CmdListXAttrStruct :: "CmdListXAttrStruct \<Rightarrow> bytes" where
  "wire_CmdListXAttrStruct d = wire_str (ListXAttr_Path d) @ PutUint32 (ListXAttr_Mode d)"

definition wire_CmdRemoveXAttrStruct :: "CmdRemoveXAttrStruct \<Rightarrow> bytes" where
  "wire_CmdRemoveXAttrStruct d = wire_str (RemoveXAttr_Path d) @ wire_str (RemoveXAttr_Key d) @ PutUint32 (RemoveXAttr_Mode d)"

definition wire_RspError :: "RspError \<Rightarrow> bytes" where
  "wire_RspError d = wire_str (RspError_Desc d)"

definition wire_RspOpen :: "RspOpen \<Rightarrow> bytes" where
  "wire_RspOpen d = PutUint32 (RspOpen_FD d)"

definition wire_RspReadLink :: "RspReadLink \<Rightarrow> bytes" where
  "wire_RspReadLink d = wire_str (RspReadLink_TargetPath d)"

definition wire_RspWrite :: "RspWrite \<Rightarrow> bytes" where
  "wire_RspWrite d = PutUint64 (RspWrite_Written d)"

definition wire_RspSeek :: "RspSeek \<Rightarrow> bytes" where
  "wire_RspSeek d = PutUint64 (RspSeek_Offset d)"

definition wire_RspGetAttr :: "RspGetAttr \<Rightarrow> bytes" where
  "wire_RspGetAttr d = wire_FileInfo (RspGetAttr_FI d)"

definition wire_RspFsStat :: "RspFsStat \<Rightarrow> bytes" where
  "wire_RspFsStat d = PutUint64 (RspFsStat_Total d) @ PutUint64 (RspFsStat_Free d) @ PutUint64 (RspFsStat_Available d)"

definition wire_RspWriteAt :: "RspWriteAt \<Rightarrow> bytes" where
  "wire_RspWriteAt d = PutUint64 (RspWriteAt_Written d)"

definition wire_RspCopyFileRange :: "RspCopyFileRange \<Rightarrow> bytes" where
  "wire_RspCopyFileRange d = PutUint64 (RspCopyFileRange_Copied d)"

definition wire_RspWriteStreamClose :: "RspWriteStreamClose \<Rightarrow> bytes" where
  "wire_RspWriteStreamClose d = PutUint64 (RspWriteStreamClose_Written d)"

definition wire_RspGetFileLock :: "RspGetFileLock \<Rightarrow> bytes" where
  "wire_RspGetFileLock d = wire_FileLockInfo (RspGetFileLock_FileLock d)"

lemmas wire_defs = wire_Timespec_def
  wire_FileInfo_def
  wire_Dirent_def
  wire_FileLockInfo_def
  wire_CmdOpenStruct_def
  wire_CmdCloseStruct_def
  wire_CmdReadStruct_def
  wire_CmdReadDirStruct_def
  wire_CmdReadLinkStruct_def
  wire_CmdWriteStruct_def
  wire_CmdSeekStruct_def
  wire_CmdAllocateStruct_def
  wire_CmdGetAttrStruct_def
  wire_CmdSetAttrStruct_def
  wire_CmdSyncStruct_def
  wire_CmdMkdirStruct_def
  wire_CmdSymLinkStruct_def
  wire_CmdRemoveStruct_def
  wire_CmdRmDirStruct_def
  wire_CmdFsStatStruct_def
  wire_CmdReadAtStruct_def
  wire_CmdWriteAtStruct_def
  wire_CmdRenameStruct_def
  wire_CmdCopyFileRangeStruct_def
  wire_CmdCloneFileRangeStruct_def
  wire_CmdSetAttrByFDStruct_def
  wire_CmdReadDirPlusStruct_def
  wire_CmdWriteStreamOpenStruct_def
  wire_CmdWriteStreamDataStruct_def
  wire_CmdGetFileLockStruct_def
  wire_CmdSetFileLockStruct_def
  wire_CmdSetFileLockWaitStruct_def
  wire_CmdLinkStruct_def
  wire_CmdSetXAttrStruct_def
  wire_CmdGetXAttrStruct_def
  wire_CmdListXAttrStruct_def
  wire_CmdRemoveXAttrStruct_def
  wire_RspError_def
  wire_RspOpen_def
  wire_RspReadLink_def
  wire_RspWrite_def
  wire_RspSeek_def
  wire_RspGetAttr_def
  wire_RspFsStat_def
  wire_RspWriteAt_def
  wire_RspCopyFileRange_def
  wire_RspWriteStreamClose_def
  wire_RspGetFileLock_def

end
