(* ===== verification/Wsfs_Codec.thy ===== *)
theory Wsfs_Codec
  imports Wsfs_Structs
begin

text \<open>
  The encoders, decoders and size functions of the protocol structures as the portable build has
  them (\<^verbatim>\<open>struct.gen.go\<close>, \<^verbatim>\<open>string.go\<close>, \<^verbatim>\<open>string-nonamd64.go\<close>): fixed-size fields are collected in a
  stack buffer and flushed before a string, a nested struct or a payload. For every struct: the
  encoder appends exactly the wire format to any \<open>io_writer\<close> with room for it, the size function is
  the length of the wire format, the decoder inverts it and rejects every truncation of it.
\<close>

section \<open>Strings\<close>

definition writeStrLenPrefix :: "'w writeop \<Rightarrow> u16 \<Rightarrow> 'w wprog" where
  "writeStrLenPrefix wr len = wr (PutUint16 len)"

definition WriteStrToWriter :: "'w writeop \<Rightarrow> string \<Rightarrow> 'w wprog" where
  "WriteStrToWriter wr s w =
     (if length s > 0xffff then (w, Some ErrStringTooLong)
      else case writeStrLenPrefix wr (of_nat (length s)) w of
          (w', Some e) \<Rightarrow> (w', Some e)
        | (w', None) \<Rightarrow> if length s = 0 then (w', None) else wr (bytes_of s) w')"

definition readStrLenPrefix :: "u16 rprog" where
  "readStrLenPrefix = rbind (io_ReadFull 2) (\<lambda>buf. rret (Uint16 buf))"

definition ReadStrFromReader :: "string rprog" where
  "ReadStrFromReader = rbind readStrLenPrefix (\<lambda>n.
     if n = 0 then rret [] else rbind (io_ReadFull (unat n)) (\<lambda>buf. rret (string_of buf)))"

section \<open>Sizes\<close>

definition GetTimespecRequiredSize :: "Timespec \<Rightarrow> nat" where
  "GetTimespecRequiredSize d = 16"

definition GetFileInfoRequiredSize :: "FileInfo \<Rightarrow> nat" where
  "GetFileInfoRequiredSize d = GetTimespecRequiredSize (fi_MTime d) + 13"

definition GetDirentRequiredSize :: "Dirent \<Rightarrow> nat" where
  "GetDirentRequiredSize d = length (de_Name d) + GetTimespecRequiredSize (de_MTime d) + 15"

definition GetFileLockInfoRequiredSize :: "FileLockInfo \<Rightarrow> nat" where
  "GetFileLockInfoRequiredSize d = 18"

definition GetCmdOpenStructRequiredSize :: "CmdOpenStruct \<Rightarrow> nat" where
  "GetCmdOpenStructRequiredSize d = length (Open_Path d) + 10"

definition GetCmdCloseStructRequiredSize :: "CmdCloseStruct \<Rightarrow> nat" where
  "GetCmdCloseStructRequiredSize d = 4"

definition GetCmdReadStructRequiredSize :: "CmdReadStruct \<Rightarrow> nat" where
  "GetCmdReadStructRequiredSize d = 12"

definition GetCmdReadDirStructRequiredSize :: "CmdReadDirStruct \<Rightarrow> nat" where
  "GetCmdReadDirStructRequiredSize d = length (ReadDir_Path d) + 2"

definition GetCmdReadLinkStructRequiredSize :: "CmdReadLinkStruct \<Rightarrow> nat" where
  "GetCmdReadLinkStructRequiredSize d = length (ReadLink_Path d) + 2"

definition GetCmdWriteStructRequiredSize :: "CmdWriteStruct \<Rightarrow> nat" where
  "GetCmdWriteStructRequiredSize d = length (Write_Data d) + 4"

definition GetCmdSeekStructRequiredSize :: "CmdSeekStruct \<Rightarrow> nat" where
  "GetCmdSeekStructRequiredSize d = 13"

definition GetCmdAllocateStructRequiredSize :: "CmdAllocateStruct \<Rightarrow> nat" where
  "GetCmdAllocateStructRequiredSize d = 24"

definition GetCmdGetAttrStructRequiredSize :: "CmdGetAttrStruct \<Rightarrow> nat" where
  "GetCmdGetAttrStructRequiredSize d = length (GetAttr_Path d) + 2"

definition GetCmdSetAttrStructRequiredSize :: "CmdSetAttrStruct \<Rightarrow> nat" where
  "GetCmdSetAttrStructRequiredSize d = length (SetAttr_Path d) + GetFileInfoRequiredSize (SetAttr_FI d) + 3"

definition GetCmdSyncStructRequiredSize :: "CmdSyncStruct \<Rightarrow> nat" where
  "GetCmdSyncStructRequiredSize d = 4"

definition GetCmdMkdirStructRequiredSize :: "CmdMkdirStruct \<Rightarrow> nat" where
  "GetCmdMkdirStructRequiredSize d = length (Mkdir_Path d) + 6"

definition GetCmdSymLinkStructRequiredSize :: "CmdSymLinkStruct \<Rightarrow> nat" where
  "GetCmdSymLinkStructRequiredSize d = length (SymLink_TargetPath d) + length (SymLink_FilePath d) + 4"

definition GetCmdRemoveStructRequiredSize :: "CmdRemoveStruct \<Rightarrow> nat" where
  "GetCmdRemoveStructRequiredSize d = length (Remove_Path d) + 2"

definition GetCmdRmDirStructRequiredSize :: "CmdRmDirStruct \<Rightarrow> nat" where
  "GetCmdRmDirStructRequiredSize d = length (RmDir_Path d) + 2"

definition GetCmdFsStatStructRequiredSize :: "CmdFsStatStruct \<Rightarrow> nat" where
  "GetCmdFsStatStructRequiredSize d = length (FsStat_Path d) + 2"

definition GetCmdReadAtStructRequiredSize :: "CmdReadAtStruct \<Rightarrow> nat" where
  "GetCmdReadAtStructRequiredSize d = 20"

definition GetCmdWriteAtStructRequiredSize :: "CmdWriteAtStruct \<Rightarrow> nat" where
  "GetCmdWriteAtStructRequiredSize d = length (WriteAt_Data d) + 12"

definition GetCmdRenameStructRequiredSize :: "CmdRenameStruct \<Rightarrow> nat" where
  "GetCmdRenameStructRequiredSize d = length (Rename_OldPath d) + length (Rename_NewPath d) + 8"

definition GetCmdCopyFileRangeStructRequiredSize :: "CmdCopyFileRangeStruct \<Rightarrow> nat" where
  "GetCmdCopyFileRangeStructRequiredSize d = 32"

definition GetCmdCloneFileRangeStructRequiredSize :: "CmdCloneFileRangeStruct \<Rightarrow> nat" where
  "GetCmdCloneFileRangeStructRequiredSize d = 32"

definition GetCmdSetAttrByFDStructRequiredSize :: "CmdSetAttrByFDStruct \<Rightarrow> nat" where
  "GetCmdSetAttrByFDStructRequiredSize d = GetFileInfoRequiredSize (SetAttrByFD_FI d) + 5"

definition GetCmdReadDirPlusStructRequiredSize :: "CmdReadDirPlusStruct \<Rightarrow> nat" where
  "GetCmdReadDirPlusStructRequiredSize d = length (ReadDirPlus_Path d) + 2"

definition GetCmdWriteStreamOpenStructRequiredSize :: "CmdWriteStreamOpenStruct \<Rightarrow> nat" where
  "GetCmdWriteStreamOpenStructRequiredSize d = length (WriteStreamOpen_Data d) + 12"

definition GetCmdWriteStreamDataStructRequiredSize :: "CmdWriteStreamDataStruct \<Rightarrow> nat" where
  "GetCmdWriteStreamDataStructRequiredSize d = length (WriteStreamData_Data d) + 1"

definition GetCmdGetFileLockStructRequiredSize :: "CmdGetFileLockStruct \<Rightarrow> nat" where
  "GetCmdGetFileLockStructRequiredSize d = GetFileLockInfoRequiredSize (GetFileLock_FileLock d) + 4"

definition GetCmdSetFileLockStructRequiredSize :: "CmdSetFileLockStruct \<Rightarrow> nat" where
  "GetCmdSetFileLockStructRequiredSize d = GetFileLockInfoRequiredSize (SetFileLock_FileLock d) + 4"

definition GetCmdSetFileLockWaitStructRequiredSize :: "CmdSetFileLockWaitStruct \<Rightarrow> nat" where
  "GetCmdSetFileLockWaitStructRequiredSize d = GetFileLockInfoRequiredSize (SetFileLockWait_FileLock d) + 4"

definition GetCmdLinkStructRequiredSize :: "CmdLinkStruct \<Rightarrow> nat" where
  "GetCmdLinkStructRequiredSize d = length (Link_TargetPath d) + length (Link_FilePath d) + 4"

definition GetCmdSetXAttrStructRequiredSize :: "CmdSetXAttrStruct \<Rightarrow> nat" where
  "GetCmdSetXAttrStructRequiredSize d = length (SetXAttr_Path d) + length (SetXAttr_Key d) + length (SetXAttr_Value d) + 8"

definition GetCmdGetXAttrStructRequiredSize :: "CmdGetXAttrStruct \<Rightarrow> nat" where
  "GetCmdGetXAttrStructRequiredSize d = length (GetXAttr_Path d) + length (GetXAttr_Key d) + 8"

definition GetCmdListXAttrStructRequiredSize :: "CmdListXAttrStruct \<Rightarrow> nat" where
  "GetCmdListXAttrStructRequiredSize d = length (ListXAttr_Path d) + 6"

definition GetCmdRemoveXAttrStructRequiredSize :: "CmdRemoveXAttrStruct \<Rightarrow> nat" where
  "GetCmdRemoveXAttrStructRequiredSize d = length (RemoveXAttr_Path d) + length (RemoveXAttr_Key d) + 8"

definition GetRspErrorRequiredSize :: "RspError \<Rightarrow> nat" where
  "GetRspErrorRequiredSize d = length (RspError_Desc d) + 2"

definition GetRspOpenRequiredSize :: "RspOpen \<Rightarrow> nat" where
  "GetRspOpenRequiredSize d = 4"

definition GetRspReadLinkRequiredSize :: "RspReadLink \<Rightarrow> nat" where
  "GetRspReadLinkRequiredSize d = length (RspReadLink_TargetPath d) + 2"

definition GetRspWriteRequiredSize :: "RspWrite \<Rightarrow> nat" where
  "GetRspWriteRequiredSize d = 8"

definition GetRspSeekRequiredSize :: "RspSeek \<Rightarrow> nat" where
  "GetRspSeekRequiredSize d = 8"

definition GetRspGetAttrRequiredSize :: "RspGetAttr \<Rightarrow> nat" where
  "GetRspGetAttrRequiredSize d = GetFileInfoRequiredSize (RspGetAttr_FI d) + 0"

definition GetRspFsStatRequiredSize :: "RspFsStat \<Rightarrow> nat" where
  "GetRspFsStatRequiredSize d = 24"

definition GetRspWriteAtRequiredSize :: "RspWriteAt \<Rightarrow> nat" where
  "GetRspWriteAtRequiredSize d = 8"

definition GetRspCopyFileRangeRequiredSize :: "RspCopyFileRange \<Rightarrow> nat" where
  "GetRspCopyFileRangeRequiredSize d = 8"

definition GetRspWriteStreamCloseRequiredSize :: "RspWriteStreamClose \<Rightarrow> nat" where
  "GetRspWriteStreamCloseRequiredSize d = 8"

definition GetRspGetFileLockRequiredSize :: "RspGetFileLock \<Rightarrow> nat" where
  "GetRspGetFileLockRequiredSize d = GetFileLockInfoRequiredSize (RspGetFileLock_FileLock d) + 0"

lemmas size_defs = GetTimespecRequiredSize_def
  GetFileInfoRequiredSize_def
  GetDirentRequiredSize_def
  GetFileLockInfoRequiredSize_def
  GetCmdOpenStructRequiredSize_def
  GetCmdCloseStructRequiredSize_def
  GetCmdReadStructRequiredSize_def
  GetCmdReadDirStructRequiredSize_def
  GetCmdReadLinkStructRequiredSize_def
  GetCmdWriteStructRequiredSize_def
  GetCmdSeekStructRequiredSize_def
  GetCmdAllocateStructRequiredSize_def
  GetCmdGetAttrStructRequiredSize_def
  GetCmdSetAttrStructRequiredSize_def
  GetCmdSyncStructRequiredSize_def
  GetCmdMkdirStructRequiredSize_def
  GetCmdSymLinkStructRequiredSize_def
  GetCmdRemoveStructRequiredSize_def
  GetCmdRmDirStructRequiredSize_def
  GetCmdFsStatStructRequiredSize_def
  GetCmdReadAtStructRequiredSize_def
  GetCmdWriteAtStructRequiredSize_def
  GetCmdRenameStructRequiredSize_def
  GetCmdCopyFileRangeStructRequiredSize_def
  GetCmdCloneFileRangeStructRequiredSize_def
  GetCmdSetAttrByFDStructRequiredSize_def
  GetCmdReadDirPlusStructRequiredSize_def
  GetCmdWriteStreamOpenStructRequiredSize_def
  GetCmdWriteStreamDataStructRequiredSize_def
  GetCmdGetFileLockStructRequiredSize_def
  GetCmdSetFileLockStructRequiredSize_def
  GetCmdSetFileLockWaitStructRequiredSize_def
  GetCmdLinkStructRequiredSize_def
  GetCmdSetXAttrStructRequiredSize_def
  GetCmdGetXAttrStructRequiredSize_def
  GetCmdListXAttrStructRequiredSize_def
  GetCmdRemoveXAttrStructRequiredSize_def
  GetRspErrorRequiredSize_def
  GetRspOpenRequiredSize_def
  GetRspReadLinkRequiredSize_def
  GetRspWriteRequiredSize_def
  GetRspSeekRequiredSize_def
  GetRspGetAttrRequiredSize_def
  GetRspFsStatRequiredSize_def
  GetRspWriteAtRequiredSize_def
  GetRspCopyFileRangeRequiredSize_def
  GetRspWriteStreamCloseRequiredSize_def
  GetRspGetFileLockRequiredSize_def

section \<open>Encoders\<close>

definition WriteTimespecToWriter :: "'w writeop \<Rightarrow> Timespec \<Rightarrow> 'w wprog" where
  "WriteTimespecToWriter wr d = wseq
     [wr (PutUint64 (ts_Seconds d) @ PutUint64 (ts_Nanoseconds d))]"

definition WriteFileInfoToWriter :: "'w writeop \<Rightarrow> FileInfo \<Rightarrow> 'w wprog" where
  "WriteFileInfoToWriter wr d = wseq
     [wr (PutUint64 (fi_Size d)),
      WriteTimespecToWriter wr (fi_MTime d),
      wr (PutUint32 (fi_Mode d) @ PutUint8 (fi_Owner d))]"

definition WriteDirentToWriter :: "'w writeop \<Rightarrow> Dirent \<Rightarrow> 'w wprog" where
  "WriteDirentToWriter wr d = wseq
     [WriteStrToWriter wr (de_Name d),
      wr (PutUint64 (de_Size d)),
      WriteTimespecToWriter wr (de_MTime d),
      wr (PutUint32 (de_Mode d) @ PutUint8 (de_Owner d))]"

definition WriteFileLockInfoToWriter :: "'w writeop \<Rightarrow> FileLockInfo \<Rightarrow> 'w wprog" where
  "WriteFileLockInfoToWriter wr d = wseq
     [wr (PutUint8 (fl_Type d) @ PutUint8 (fl_Whence d) @ PutUint64 (fl_Start d) @ PutUint64 (fl_Size d))]"

definition WriteCmdOpenStructToWriter :: "'w writeop \<Rightarrow> CmdOpenStruct \<Rightarrow> 'w wprog" where
  "WriteCmdOpenStructToWriter wr d = wseq
     [WriteStrToWriter wr (Open_Path d),
      wr (PutUint32 (Open_OFlag d) @ PutUint32 (Open_FMode d))]"

definition WriteCmdCloseStructToWriter :: "'w writeop \<Rightarrow> CmdCloseStruct \<Rightarrow> 'w wprog" where
  "WriteCmdCloseStructToWriter wr d = wseq
     [wr (PutUint32 (Close_FD d))]"

definition WriteCmdReadStructToWriter :: "'w writeop \<Rightarrow> CmdReadStruct \<Rightarrow> 'w wprog" where
  "WriteCmdReadStructToWriter wr d = wseq
     [wr (PutUint32 (Read_FD d) @ PutUint64 (Read_Size d))]"

definition WriteCmdReadDirStructToWriter :: "'w writeop \<Rightarrow> CmdReadDirStruct \<Rightarrow> 'w wprog" where
  "WriteCmdReadDirStructToWriter wr d = wseq
     [WriteStrToWriter wr (ReadDir_Path d)]"

definition WriteCmdReadLinkStructToWriter :: "'w writeop \<Rightarrow> CmdReadLinkStruct \<Rightarrow> 'w wprog" where
  "WriteCmdReadLinkStructToWriter wr d = wseq
     [WriteStrToWriter wr (ReadLink_Path d)]"

definition WriteCmdWriteStructToWriter :: "'w writeop \<Rightarrow> CmdWriteStruct \<Rightarrow> 'w wprog" where
  "WriteCmdWriteStructToWriter wr d = wseq
     [wr (PutUint32 (Write_FD d)),
      wr (Write_Data d)]"

definition WriteCmdSeekStructToWriter :: "'w writeop \<Rightarrow> CmdSeekStruct \<Rightarrow> 'w wprog" where
  "WriteCmdSeekStructToWriter wr d = wseq
     [wr (PutUint32 (Seek_FD d) @ PutUint8 (Seek_Whence d) @ PutUint64 (Seek_Offset d))]"

definition WriteCmdAllocateStructToWriter :: "'w writeop \<Rightarrow> CmdAllocateStruct \<Rightarrow> 'w wprog" where
  "WriteCmdAllocateStructToWriter wr d = wseq
     [wr (PutUint32 (Allocate_FD d) @ PutUint32 (Allocate_Flag d) @ PutUint64 (Allocate_Offset d) @ PutUint64 (Allocate_Size d))]"

definition WriteCmdGetAttrStructToWriter :: "'w writeop \<Rightarrow> CmdGetAttrStruct \<Rightarrow> 'w wprog" where
  "WriteCmdGetAttrStructToWriter wr d = wseq
     [WriteStrToWriter wr (GetAttr_Path d)]"

definition WriteCmdSetAttrStructToWriter :: "'w writeop \<Rightarrow> CmdSetAttrStruct \<Rightarrow> 'w wprog" where
  "WriteCmdSetAttrStructToWriter wr d = wseq
     [WriteStrToWriter wr (SetAttr_Path d),
      wr (PutUint8 (SetAttr_Flag d)),
      WriteFileInfoToWriter wr (SetAttr_FI d)]"

definition WriteCmdSyncStructToWriter :: "'w writeop \<Rightarrow> CmdSyncStruct \<Rightarrow> 'w wprog" where
  "WriteCmdSyncStructToWriter wr d = wseq
     [wr (PutUint32 (Sync_FD d))]"

definition WriteCmdMkdirStructToWriter :: "'w writeop \<Rightarrow> CmdMkdirStruct \<Rightarrow> 'w wprog" where
  "WriteCmdMkdirStructToWriter wr d = wseq
     [WriteStrToWriter wr (Mkdir_Path d),
      wr (PutUint32 (Mkdir_Mode d))]"

definition WriteCmdSymLinkStructToWriter :: "'w writeop \<Rightarrow> CmdSymLinkStruct \<Rightarrow> 'w wprog" where
  "WriteCmdSymLinkStructToWriter wr d = wseq
     [WriteStrToWriter wr (SymLink_TargetPath d),
      WriteStrToWriter wr (SymLink_FilePath d)]"

definition WriteCmdRemoveStructToWriter :: "'w writeop \<Rightarrow> CmdRemoveStruct \<Rightarrow> 'w wprog" where
  "WriteCmdRemoveStructToWriter wr d = wseq
     [WriteStrToWriter wr (Remove_Path d)]"

definition WriteCmdRmDirStructToWriter :: "'w writeop \<Rightarrow> CmdRmDirStruct \<Rightarrow> 'w wprog" where
  "WriteCmdRmDirStructToWriter wr d = wseq
     [WriteStrToWriter wr (RmDir_Path d)]"

definition WriteCmdFsStatStructToWriter :: "'w writeop \<Rightarrow> CmdFsStatStruct \<Rightarrow> 'w wprog" where
  "WriteCmdFsStatStructToWriter wr d = wseq
     [WriteStrToWriter wr (FsStat_Path d)]"

definition WriteCmdReadAtStructToWriter :: "'w writeop \<Rightarrow> CmdReadAtStruct \<Rightarrow> 'w wprog" where
  "WriteCmdReadAtStructToWriter wr d = wseq
     [wr (PutUint32 (ReadAt_FD d) @ PutUint64 (ReadAt_Offset d) @ PutUint64 (ReadAt_Size d))]"

definition WriteCmdWriteAtStructToWriter :: "'w writeop \<Rightarrow> CmdWriteAtStruct \<Rightarrow> 'w wprog" where
  "WriteCmdWriteAtStructToWriter wr d = wseq
     [wr (PutUint32 (WriteAt_FD d) @ PutUint64 (WriteAt_Offset d)),
      wr (WriteAt_Data d)]"

definition WriteCmdRenameStructToWriter :: "'w writeop \<Rightarrow> CmdRenameStruct \<Rightarrow> 'w wprog" where
  "WriteCmdRenameStructToWriter wr d = wseq
     [WriteStrToWriter wr (Rename_OldPath d),
      WriteStrToWriter wr (Rename_NewPath d),
      wr (PutUint32 (Rename_Flag d))]"

definition WriteCmdCopyFileRangeStructToWriter :: "'w writeop \<Rightarrow> CmdCopyFileRangeStruct \<Rightarrow> 'w wprog" where
  "WriteCmdCopyFileRangeStructToWriter wr d = wseq
     [wr (PutUint32 (CopyFileRange_SrcFD d) @ PutUint32 (CopyFileRange_DstFD d) @ PutUint64 (CopyFileRange_SrcOffset d) @ PutUint64 (CopyFileRange_DstOffset d) @ PutUint64 (CopyFileRange_Size d))]"

definition WriteCmdCloneFileRangeStructToWriter :: "'w writeop \<Rightarrow> CmdCloneFileRangeStruct \<Rightarrow> 'w wprog" where
  "WriteCmdCloneFileRangeStructToWriter wr d = wseq
     [wr (PutUint32 (CloneFileRange_SrcFD d) @ PutUint32 (CloneFileRange_DstFD d) @ PutUint64 (CloneFileRange_SrcOffset d) @ PutUint64 (CloneFileRange_DstOffset d) @ PutUint64 (CloneFileRange_Size d))]"

definition WriteCmdSetAttrByFDStructToWriter :: "'w writeop \<Rightarrow> CmdSetAttrByFDStruct \<Rightarrow> 'w wprog" where
  "WriteCmdSetAttrByFDStructToWriter wr d = wseq
     [wr (PutUint32 (SetAttrByFD_FD d) @ PutUint8 (SetAttrByFD_Flag d)),
      WriteFileInfoToWriter wr (SetAttrByFD_FI d)]"

definition WriteCmdReadDirPlusStructToWriter :: "'w writeop \<Rightarrow> CmdReadDirPlusStruct \<Rightarrow> 'w wprog" where
  "WriteCmdReadDirPlusStructToWriter wr d = wseq
     [WriteStrToWriter wr (ReadDirPlus_Path d)]"

definition WriteCmdWriteStreamOpenStructToWriter :: "'w writeop \<Rightarrow> CmdWriteStreamOpenStruct \<Rightarrow> 'w wprog" where
  "WriteCmdWriteStreamOpenStructToWriter wr d = wseq
     [wr (PutUint32 (WriteStreamOpen_FD d) @ PutUint64 (WriteStreamOpen_Offset d)),
      wr (WriteStreamOpen_Data d)]"

definition WriteCmdWriteStreamDataStructToWriter :: "'w writeop \<Rightarrow> CmdWriteStreamDataStruct \<Rightarrow> 'w wprog" where
  "WriteCmdWriteStreamDataStructToWriter wr d = wseq
     [wr (PutUint8 (WriteStreamData_IsEnd d)),
      wr (WriteStreamData_Data d)]"

definition WriteCmdGetFileLockStructToWriter :: "'w writeop \<Rightarrow> CmdGetFileLockStruct \<Rightarrow> 'w wprog" where
  "WriteCmdGetFileLockStructToWriter wr d = wseq
     [wr (PutUint32 (GetFileLock_FD d)),
      WriteFileLockInfoToWriter wr (GetFileLock_FileLock d)]"

definition WriteCmdSetFileLockStructToWriter :: "'w writeop \<Rightarrow> CmdSetFileLockStruct \<Rightarrow> 'w wprog" where
  "WriteCmdSetFileLockStructToWriter wr d = wseq
     [wr (PutUint32 (SetFileLock_FD d)),
      WriteFileLockInfoToWriter wr (SetFileLock_FileLock d)]"

definition WriteCmdSetFileLockWaitStructToWriter :: "'w writeop \<Rightarrow> CmdSetFileLockWaitStruct \<Rightarrow> 'w wprog" where
  "WriteCmdSetFileLockWaitStructToWriter wr d = wseq
     [wr (PutUint32 (SetFileLockWait_FD d)),
      WriteFileLockInfoToWriter wr (SetFileLockWait_FileLock d)]"

definition WriteCmdLinkStructToWriter :: "'w writeop \<Rightarrow> CmdLinkStruct \<Rightarrow> 'w wprog" where
  "WriteCmdLinkStructToWriter wr d = wseq
     [WriteStrToWriter wr (Link_TargetPath d),
      WriteStrToWriter wr (Link_FilePath d)]"

definition WriteCmdSetXAttrStructToWriter :: "'w writeop \<Rightarrow> CmdSetXAttrStruct \<Rightarrow> 'w wprog" where
  "WriteCmdSetXAttrStructToWriter wr d = wseq
     [WriteStrToWriter wr (SetXAttr_Path d),
      wr (PutUint32 (SetXAttr_Flag d)),
      WriteStrToWriter wr (SetXAttr_Key d),
      wr (SetXAttr_Value d)]"

definition WriteCmdGetXAttrStructToWriter :: "'w writeop \<Rightarrow> CmdGetXAttrStruct \<Rightarrow> 'w wprog" where
  "WriteCmdGetXAttrStructToWriter wr d = wseq
     [WriteStrToWriter wr (GetXAttr_Path d),
      WriteStrToWriter wr (GetXAttr_Key d),
      wr (PutUint32 (GetXAttr_Mode d))]"

definition WriteCmdListXAttrStructToWriter :: "'w writeop \<Rightarrow> CmdListXAttrStruct \<Rightarrow> 'w wprog" where
  "WriteCmdListXAttrStructToWriter wr d = wseq
     [WriteStrToWriter wr (ListXAttr_Path d),
      wr (PutUint32 (ListXAttr_Mode d))]"

definition WriteCmdRemoveXAttrStructToWriter :: "'w writeop \<Rightarrow> CmdRemoveXAttrStruct \<Rightarrow> 'w wprog" where
  "WriteCmdRemoveXAttrStructToWriter wr d = wseq
     [WriteStrToWriter wr (RemoveXAttr_Path d),
      WriteStrToWriter wr (RemoveXAttr_Key d),
      wr (PutUint32 (RemoveXAttr_Mode d))]"

definition WriteRspErrorToWriter :: "'w writeop \<Rightarrow> RspError \<Rightarrow> 'w wprog" where
  "WriteRspErrorToWriter wr d = wseq
     [WriteStrToWriter wr (RspError_Desc d)]"

definition WriteRspOpenToWriter :: "'w writeop \<Rightarrow> RspOpen \<Rightarrow> 'w wprog" where
  "WriteRspOpenToWriter wr d = wseq
     [wr (PutUint32 (RspOpen_FD d))]"

definition WriteRspReadLinkToWriter :: "'w writeop \<Rightarrow> RspReadLink \<Rightarrow> 'w wprog" where
  "WriteRspReadLinkToWriter wr d = wseq
     [WriteStrToWriter wr (RspReadLink_TargetPath d)]"

definition WriteRspWriteToWriter :: "'w writeop \<Rightarrow> RspWrite \<Rightarrow> 'w wprog" where
  "WriteRspWriteToWriter wr d = wseq
     [wr (PutUint64 (RspWrite_Written d))]"

definition WriteRspSeekToWriter :: "'w writeop \<Rightarrow> RspSeek \<Rightarrow> 'w wprog" where
  "WriteRspSeekToWriter wr d = wseq
     [wr (PutUint64 (RspSeek_Offset d))]"

definition WriteRspGetAttrToWriter :: "'w writeop \<Rightarrow> RspGetAttr \<Rightarrow> 'w wprog" where
  "WriteRspGetAttrToWriter wr d = wseq
     [WriteFileInfoToWriter wr (RspGetAttr_FI d)]"

definition WriteRspFsStatToWriter :: "'w writeop \<Rightarrow> RspFsStat \<Rightarrow> 'w wprog" where
  "WriteRspFsStatToWriter wr d = wseq
     [wr (PutUint64 (RspFsStat_Total d) @ PutUint64 (RspFsStat_Free d) @ PutUint64 (RspFsStat_Available d))]"

definition WriteRspWriteAtToWriter :: "'w writeop \<Rightarrow> RspWriteAt \<Rightarrow> 'w wprog" where
  "WriteRspWriteAtToWriter wr d = wseq
     [wr (PutUint64 (RspWriteAt_Written d))]"

definition WriteRspCopyFileRangeToWriter :: "'w writeop \<Rightarrow> RspCopyFileRange \<Rightarrow> 'w wprog" where
  "WriteRspCopyFileRangeToWriter wr d = wseq
     [wr (PutUint64 (RspCopyFileRange_Copied d))]"

definition WriteRspWriteStreamCloseToWriter :: "'w writeop \<Rightarrow> RspWriteStreamClose \<Rightarrow> 'w wprog" where
  "WriteRspWriteStreamCloseToWriter wr d = wseq
     [wr (PutUint64 (RspWriteStreamClose_Written d))]"

definition WriteRspGetFileLockToWriter :: "'w writeop \<Rightarrow> RspGetFileLock \<Rightarrow> 'w wprog" where
  "WriteRspGetFileLockToWriter wr d = wseq
     [WriteFileLockInfoToWriter wr (RspGetFileLock_FileLock d)]"

section \<open>Decoders\<close>

definition ReadTimespecFromReader :: "Timespec rprog" where
  "ReadTimespecFromReader =
     rbind (io_ReadFull 16) (\<lambda>buf.
     rret \<lparr>ts_Seconds = Uint64 buf, ts_Nanoseconds = Uint64 (drop 8 buf)\<rparr>)"

definition ReadFileInfoFromReader :: "FileInfo rprog" where
  "ReadFileInfoFromReader =
     rbind (io_ReadFull 8) (\<lambda>buf1.
     rbind ReadTimespecFromReader (\<lambda>vMTime.
     rbind (io_ReadFull 5) (\<lambda>buf2.
     rret \<lparr>fi_Size = Uint64 buf1, fi_MTime = vMTime, fi_Mode = Uint32 buf2, fi_Owner = Uint8 (drop 4 buf2)\<rparr>)))"

definition ReadDirentFromReader :: "Dirent rprog" where
  "ReadDirentFromReader =
     rbind ReadStrFromReader (\<lambda>vName.
     rbind (io_ReadFull 8) (\<lambda>buf1.
     rbind ReadTimespecFromReader (\<lambda>vMTime.
     rbind (io_ReadFull 5) (\<lambda>buf2.
     rret \<lparr>de_Name = vName, de_Size = Uint64 buf1, de_MTime = vMTime, de_Mode = Uint32 buf2, de_Owner = Uint8 (drop 4 buf2)\<rparr>))))"

definition ReadFileLockInfoFromReader :: "FileLockInfo rprog" where
  "ReadFileLockInfoFromReader =
     rbind (io_ReadFull 18) (\<lambda>buf.
     rret \<lparr>fl_Type = Uint8 buf, fl_Whence = Uint8 (drop 1 buf), fl_Start = Uint64 (drop 2 buf), fl_Size = Uint64 (drop 10 buf)\<rparr>)"

definition ReadCmdOpenStructFromReader :: "CmdOpenStruct rprog" where
  "ReadCmdOpenStructFromReader =
     rbind ReadStrFromReader (\<lambda>vPath.
     rbind (io_ReadFull 8) (\<lambda>buf.
     rret \<lparr>Open_Path = vPath, Open_OFlag = Uint32 buf, Open_FMode = Uint32 (drop 4 buf)\<rparr>))"

definition ReadCmdCloseStructFromReader :: "CmdCloseStruct rprog" where
  "ReadCmdCloseStructFromReader =
     rbind (io_ReadFull 4) (\<lambda>buf.
     rret \<lparr>Close_FD = Uint32 buf\<rparr>)"

definition ReadCmdReadStructFromReader :: "CmdReadStruct rprog" where
  "ReadCmdReadStructFromReader =
     rbind (io_ReadFull 12) (\<lambda>buf.
     rret \<lparr>Read_FD = Uint32 buf, Read_Size = Uint64 (drop 4 buf)\<rparr>)"

definition ReadCmdReadDirStructFromReader :: "CmdReadDirStruct rprog" where
  "ReadCmdReadDirStructFromReader =
     rbind ReadStrFromReader (\<lambda>vPath.
     rret \<lparr>ReadDir_Path = vPath\<rparr>)"

definition ReadCmdReadLinkStructFromReader :: "CmdReadLinkStruct rprog" where
  "ReadCmdReadLinkStructFromReader =
     rbind ReadStrFromReader (\<lambda>vPath.
     rret \<lparr>ReadLink_Path = vPath\<rparr>)"

definition ReadCmdWriteStructFromReader :: "CmdWriteStruct rprog" where
  "ReadCmdWriteStructFromReader =
     rbind (io_ReadFull 4) (\<lambda>buf.
     rbind io_ReadAll (\<lambda>vData.
     rret \<lparr>Write_FD = Uint32 buf, Write_Data = vData\<rparr>))"

definition ReadCmdSeekStructFromReader :: "CmdSeekStruct rprog" where
  "ReadCmdSeekStructFromReader =
     rbind (io_ReadFull 13) (\<lambda>buf.
     rret \<lparr>Seek_FD = Uint32 buf, Seek_Whence = Uint8 (drop 4 buf), Seek_Offset = Uint64 (drop 5 buf)\<rparr>)"

definition ReadCmdAllocateStructFromReader :: "CmdAllocateStruct rprog" where
  "ReadCmdAllocateStructFromReader =
     rbind (io_ReadFull 24) (\<lambda>buf.
     rret \<lparr>Allocate_FD = Uint32 buf, Allocate_Flag = Uint32 (drop 4 buf), Allocate_Offset = Uint64 (drop 8 buf), Allocate_Size = Uint64 (drop 16 buf)\<rparr>)"

definition ReadCmdGetAttrStructFromReader :: "CmdGetAttrStruct rprog" where
  "ReadCmdGetAttrStructFromReader =
     rbind ReadStrFromReader (\<lambda>vPath.
     rret \<lparr>GetAttr_Path = vPath\<rparr>)"

definition ReadCmdSetAttrStructFromReader :: "CmdSetAttrStruct rprog" where
  "ReadCmdSetAttrStructFromReader =
     rbind ReadStrFromReader (\<lambda>vPath.
     rbind (io_ReadFull 1) (\<lambda>buf.
     rbind ReadFileInfoFromReader (\<lambda>vFI.
     rret \<lparr>SetAttr_Path = vPath, SetAttr_Flag = Uint8 buf, SetAttr_FI = vFI\<rparr>)))"

definition ReadCmdSyncStructFromReader :: "CmdSyncStruct rprog" where
  "ReadCmdSyncStructFromReader =
     rbind (io_ReadFull 4) (\<lambda>buf.
     rret \<lparr>Sync_FD = Uint32 buf\<rparr>)"

definition ReadCmdMkdirStructFromReader :: "CmdMkdirStruct rprog" where
  "ReadCmdMkdirStructFromReader =
     rbind ReadStrFromReader (\<lambda>vPath.
     rbind (io_ReadFull 4) (\<lambda>buf.
     rret \<lparr>Mkdir_Path = vPath, Mkdir_Mode = Uint32 buf\<rparr>))"

definition ReadCmdSymLinkStructFromReader :: "CmdSymLinkStruct rprog" where
  "ReadCmdSymLinkStructFromReader =
     rbind ReadStrFromReader (\<lambda>vTargetPath.
     rbind ReadStrFromReader (\<lambda>vFilePath.
     rret \<lparr>SymLink_TargetPath = vTargetPath, SymLink_FilePath = vFilePath\<rparr>))"

definition ReadCmdRemoveStructFromReader :: "CmdRemoveStruct rprog" where
  "ReadCmdRemoveStructFromReader =
     rbind ReadStrFromReader (\<lambda>vPath.
     rret \<lparr>Remove_Path = vPath\<rparr>)"

definition ReadCmdRmDirStructFromReader :: "CmdRmDirStruct rprog" where
  "ReadCmdRmDirStructFromReader =
     rbind ReadStrFromReader (\<lambda>vPath.
     rret \<lparr>RmDir_Path = vPath\<rparr>)"

definition ReadCmdFsStatStructFromReader :: "CmdFsStatStruct rprog" where
  "ReadCmdFsStatStructFromReader =
     rbind ReadStrFromReader (\<lambda>vPath.
     rret \<lparr>FsStat_Path = vPath\<rparr>)"

definition ReadCmdReadAtStructFromReader :: "CmdReadAtStruct rprog" where
  "ReadCmdReadAtStructFromReader =
     rbind (io_ReadFull 20) (\<lambda>buf.
     rret \<lparr>ReadAt_FD = Uint32 buf, ReadAt_Offset = Uint64 (drop 4 buf), ReadAt_Size = Uint64 (drop 12 buf)\<rparr>)"

definition ReadCmdWriteAtStructFromReader :: "CmdWriteAtStruct rprog" where
  "ReadCmdWriteAtStructFromReader =
     rbind (io_ReadFull 12) (\<lambda>buf.
     rbind io_ReadAll (\<lambda>vData.
     rret \<lparr>WriteAt_FD = Uint32 buf, WriteAt_Offset = Uint64 (drop 4 buf), WriteAt_Data = vData\<rparr>))"

definition ReadCmdRenameStructFromReader :: "CmdRenameStruct rprog" where
  "ReadCmdRenameStructFromReader =
     rbind ReadStrFromReader (\<lambda>vOldPath.
     rbind ReadStrFromReader (\<lambda>vNewPath.
     rbind (io_ReadFull 4) (\<lambda>buf.
     rret \<lparr>Rename_OldPath = vOldPath, Rename_NewPath = vNewPath, Rename_Flag = Uint32 buf\<rparr>)))"

definition ReadCmdCopyFileRangeStructFromReader :: "CmdCopyFileRangeStruct rprog" where
  "ReadCmdCopyFileRangeStructFromReader =
     rbind (io_ReadFull 32) (\<lambda>buf.
     rret \<lparr>CopyFileRange_SrcFD = Uint32 buf, CopyFileRange_DstFD = Uint32 (drop 4 buf), CopyFileRange_SrcOffset = Uint64 (drop 8 buf), CopyFileRange_DstOffset = Uint64 (drop 16 buf), CopyFileRange_Size = Uint64 (drop 24 buf)\<rparr>)"

definition ReadCmdCloneFileRangeStructFromReader :: "CmdCloneFileRangeStruct rprog" where
  "ReadCmdCloneFileRangeStructFromReader =
     rbind (io_ReadFull 32) (\<lambda>buf.
     rret \<lparr>CloneFileRange_SrcFD = Uint32 buf, CloneFileRange_DstFD = Uint32 (drop 4 buf), CloneFileRange_SrcOffset = Uint64 (drop 8 buf), CloneFileRange_DstOffset = Uint64 (drop 16 buf), CloneFileRange_Size = Uint64 (drop 24 buf)\<rparr>)"

definition ReadCmdSetAttrByFDStructFromReader :: "CmdSetAttrByFDStruct rprog" where
  "ReadCmdSetAttrByFDStructFromReader =
     rbind (io_ReadFull 5) (\<lambda>buf.
     rbind ReadFileInfoFromReader (\<lambda>vFI.
     rret \<lparr>SetAttrByFD_FD = Uint32 buf, SetAttrByFD_Flag = Uint8 (drop 4 buf), SetAttrByFD_FI = vFI\<rparr>))"

definition ReadCmdReadDirPlusStructFromReader :: "CmdReadDirPlusStruct rprog" where
  "ReadCmdReadDirPlusStructFromReader =
     rbind ReadStrFromReader (\<lambda>vPath.
     rret \<lparr>ReadDirPlus_Path = vPath\<rparr>)"

definition ReadCmdWriteStreamOpenStructFromReader :: "CmdWriteStreamOpenStruct rprog" where
  "ReadCmdWriteStreamOpenStructFromReader =
     rbind (io_ReadFull 12) (\<lambda>buf.
     rbind io_ReadAll (\<lambda>vData.
     rret \<lparr>WriteStreamOpen_FD = Uint32 buf, WriteStreamOpen_Offset = Uint64 (drop 4 buf), WriteStreamOpen_Data = vData\<rparr>))"

definition ReadCmdWriteStreamDataStructFromReader :: "CmdWriteStreamDataStruct rprog" where
  "ReadCmdWriteStreamDataStructFromReader =
     rbind (io_ReadFull 1) (\<lambda>buf.
     rbind io_ReadAll (\<lambda>vData.
     rret \<lparr>WriteStreamData_IsEnd = Uint8 buf, WriteStreamData_Data = vData\<rparr>))"

definition ReadCmdGetFileLockStructFromReader :: "CmdGetFileLockStruct rprog" where
  "ReadCmdGetFileLockStructFromReader =
     rbind (io_ReadFull 4) (\<lambda>buf.
     rbind ReadFileLockInfoFromReader (\<lambda>vFileLock.
     rret \<lparr>GetFileLock_FD = Uint32 buf, GetFileLock_FileLock = vFileLock\<rparr>))"

definition ReadCmdSetFileLockStructFromReader :: "CmdSetFileLockStruct rprog" where
  "ReadCmdSetFileLockStructFromReader =
     rbind (io_ReadFull 4) (\<lambda>buf.
     rbind ReadFileLockInfoFromReader (\<lambda>vFileLock.
     rret \<lparr>SetFileLock_FD = Uint32 buf, SetFileLock_FileLock = vFileLock\<rparr>))"

definition ReadCmdSetFileLockWaitStructFromReader :: "CmdSetFileLockWaitStruct rprog" where
  "ReadCmdSetFileLockWaitStructFromReader =
     rbind (io_ReadFull 4) (\<lambda>buf.
     rbind ReadFileLockInfoFromReader (\<lambda>vFileLock.
     rret \<lparr>SetFileLockWait_FD = Uint32 buf, SetFileLockWait_FileLock = vFileLock\<rparr>))"

definition ReadCmdLinkStructFromReader :: "CmdLinkStruct rprog" where
  "ReadCmdLinkStructFromReader =
     rbind ReadStrFromReader (\<lambda>vTargetPath.
     rbind ReadStrFromReader (\<lambda>vFilePath.
     rret \<lparr>Link_TargetPath = vTargetPath, Link_FilePath = vFilePath\<rparr>))"

definition ReadCmdSetXAttrStructFromReader :: "CmdSetXAttrStruct rprog" where
  "ReadCmdSetXAttrStructFromReader =
     rbind ReadStrFromReader (\<lambda>vPath.
     rbind (io_ReadFull 4) (\<lambda>buf.
     rbind ReadStrFromReader (\<lambda>vKey.
     rbind io_ReadAll (\<lambda>vValue.
     rret \<lparr>SetXAttr_Path = vPath, SetXAttr_Flag = Uint32 buf, SetXAttr_Key = vKey, SetXAttr_Value = vValue\<rparr>))))"

definition ReadCmdGetXAttrStructFromReader :: "CmdGetXAttrStruct rprog" where
  "ReadCmdGetXAttrStructFromReader =
     rbind ReadStrFromReader (\<lambda>vPath.
     rbind ReadStrFromReader (\<lambda>vKey.
     rbind (io_ReadFull 4) (\<lambda>buf.
     rret \<lparr>GetXAttr_Path = vPath, GetXAttr_Key = vKey, GetXAttr_Mode = Uint32 buf\<rparr>)))"

definition ReadCmdListXAttrStructFromReader :: "CmdListXAttrStruct rprog" where
  "ReadCmdListXAttrStructFromReader =
     rbind ReadStrFromReader (\<lambda>vPath.
     rbind (io_ReadFull 4) (\<lambda>buf.
     rret \<lparr>ListXAttr_Path = vPath, ListXAttr_Mode = Uint32 buf\<rparr>))"

definition ReadCmdRemoveXAttrStructFromReader :: "CmdRemoveXAttrStruct rprog" where
  "ReadCmdRemoveXAttrStructFromReader =
     rbind ReadStrFromReader (\<lambda>vPath.
     rbind ReadStrFromReader (\<lambda>vKey.
     rbind (io_ReadFull 4) (\<lambda>buf.
     rret \<lparr>RemoveXAttr_Path = vPath, RemoveXAttr_Key = vKey, RemoveXAttr_Mode = Uint32 buf\<rparr>)))"

definition ReadRspErrorFromReader :: "RspError rprog" where
  "ReadRspErrorFromReader =
     rbind ReadStrFromReader (\<lambda>vDesc.
     rret \<lparr>RspError_Desc = vDesc\<rparr>)"

definition ReadRspOpenFromReader :: "RspOpen rprog" where
  "ReadRspOpenFromReader =
     rbind (io_ReadFull 4) (\<lambda>buf.
     rret \<lparr>RspOpen_FD = Uint32 buf\<rparr>)"

definition ReadRspReadLinkFromReader :: "RspReadLink rprog" where
  "ReadRspReadLinkFromReader =
     rbind ReadStrFromReader (\<lambda>vTargetPath.
     rret \<lparr>RspReadLink_TargetPath = vTargetPath\<rparr>)"

definition ReadRspWriteFromReader :: "RspWrite rprog" where
  "ReadRspWriteFromReader =
     rbind (io_ReadFull 8) (\<lambda>buf.
     rret \<lparr>RspWrite_Written = Uint64 buf\<rparr>)"

definition ReadRspSeekFromReader :: "RspSeek rprog" where
  "ReadRspSeekFromReader =
     rbind (io_ReadFull 8) (\<lambda>buf.
     rret \<lparr>RspSeek_Offset = Uint64 buf\<rparr>)"

definition ReadRspGetAttrFromReader :: "RspGetAttr rprog" where
  "ReadRspGetAttrFromReader =
     rbind ReadFileInfoFromReader (\<lambda>vFI.
     rret \<lparr>RspGetAttr_FI = vFI\<rparr>)"

definition ReadRspFsStatFromReader :: "RspFsStat rprog" where
  "ReadRspFsStatFromReader =
     rbind (io_ReadFull 24) (\<lambda>buf.
     rret \<lparr>RspFsStat_Total = Uint64 buf, RspFsStat_Free = Uint64 (drop 8 buf), RspFsStat_Available = Uint64 (drop 16 buf)\<rparr>)"

definition ReadRspWriteAtFromReader :: "RspWriteAt rprog" where
  "ReadRspWriteAtFromReader =
     rbind (io_ReadFull 8) (\<lambda>buf.
     rret \<lparr>RspWriteAt_Written = Uint64 buf\<rparr>)"

definition ReadRspCopyFileRangeFromReader :: "RspCopyFileRange rprog" where
  "ReadRspCopyFileRangeFromReader =
     rbind (io_ReadFull 8) (\<lambda>buf.
     rret \<lparr>RspCopyFileRange_Copied = Uint64 buf\<rparr>)"

definition ReadRspWriteStreamCloseFromReader :: "RspWriteStreamClose rprog" where
  "ReadRspWriteStreamCloseFromReader =
     rbind (io_ReadFull 8) (\<lambda>buf.
     rret \<lparr>RspWriteStreamClose_Written = Uint64 buf\<rparr>)"

definition ReadRspGetFileLockFromReader :: "RspGetFileLock rprog" where
  "ReadRspGetFileLockFromReader =
     rbind ReadFileLockInfoFromReader (\<lambda>vFileLock.
     rret \<lparr>RspGetFileLock_FileLock = vFileLock\<rparr>)"

definition ReadCmdWriteStructFromReaderWithBuffer :: "nat \<Rightarrow> CmdWriteStruct rprog" where
  "ReadCmdWriteStructFromReaderWithBuffer cap =
     rbind (io_ReadFull 4) (\<lambda>buf.
     rbind (readAllToBuffer cap) (\<lambda>vData.
     rret \<lparr>Write_FD = Uint32 buf, Write_Data = vData\<rparr>))"

definition ReadCmdWriteAtStructFromReaderWithBuffer :: "nat \<Rightarrow> CmdWriteAtStruct rprog" where
  "ReadCmdWriteAtStructFromReaderWithBuffer cap =
     rbind (io_ReadFull 12) (\<lambda>buf.
     rbind (readAllToBuffer cap) (\<lambda>vData.
     rret \<lparr>WriteAt_FD = Uint32 buf, WriteAt_Offset = Uint64 (drop 4 buf), WriteAt_Data = vData\<rparr>))"

definition ReadCmdWriteStreamOpenStructFromReaderWithBuffer :: "nat \<Rightarrow> CmdWriteStreamOpenStruct rprog" where
  "ReadCmdWriteStreamOpenStructFromReaderWithBuffer cap =
     rbind (io_ReadFull 12) (\<lambda>buf.
     rbind (readAllToBuffer cap) (\<lambda>vData.
     rret \<lparr>WriteStreamOpen_FD = Uint32 buf, WriteStreamOpen_Offset = Uint64 (drop 4 buf), WriteStreamOpen_Data = vData\<rparr>))"

definition ReadCmdWriteStreamDataStructFromReaderWithBuffer :: "nat \<Rightarrow> CmdWriteStreamDataStruct rprog" where
  "ReadCmdWriteStreamDataStructFromReaderWithBuffer cap =
     rbind (io_ReadFull 1) (\<lambda>buf.
     rbind (readAllToBuffer cap) (\<lambda>vData.
     rret \<lparr>WriteStreamData_IsEnd = Uint8 buf, WriteStreamData_Data = vData\<rparr>))"

definition ReadCmdSetXAttrStructFromReaderWithBuffer :: "nat \<Rightarrow> CmdSetXAttrStruct rprog" where
  "ReadCmdSetXAttrStructFromReaderWithBuffer cap =
     rbind ReadStrFromReader (\<lambda>vPath.
     rbind (io_ReadFull 4) (\<lambda>buf.
     rbind ReadStrFromReader (\<lambda>vKey.
     rbind (readAllToBuffer cap) (\<lambda>vValue.
     rret \<lparr>SetXAttr_Path = vPath, SetXAttr_Flag = Uint32 buf, SetXAttr_Key = vKey, SetXAttr_Value = vValue\<rparr>))))"

section \<open>Correctness of the size functions\<close>

text \<open>Every size function returns the length of the wire format.\<close>

lemma GetTimespecRequiredSize_eq [simp]: "GetTimespecRequiredSize d = length (wire_Timespec d)"
  by (simp add: GetTimespecRequiredSize_def wire_Timespec_def)

lemma GetFileInfoRequiredSize_eq [simp]: "GetFileInfoRequiredSize d = length (wire_FileInfo d)"
  by (simp add: GetFileInfoRequiredSize_def wire_FileInfo_def)

lemma GetDirentRequiredSize_eq [simp]: "GetDirentRequiredSize d = length (wire_Dirent d)"
  by (simp add: GetDirentRequiredSize_def wire_Dirent_def)

lemma GetFileLockInfoRequiredSize_eq [simp]: "GetFileLockInfoRequiredSize d = length (wire_FileLockInfo d)"
  by (simp add: GetFileLockInfoRequiredSize_def wire_FileLockInfo_def)

lemma GetCmdOpenStructRequiredSize_eq [simp]: "GetCmdOpenStructRequiredSize d = length (wire_CmdOpenStruct d)"
  by (simp add: GetCmdOpenStructRequiredSize_def wire_CmdOpenStruct_def)

lemma GetCmdCloseStructRequiredSize_eq [simp]: "GetCmdCloseStructRequiredSize d = length (wire_CmdCloseStruct d)"
  by (simp add: GetCmdCloseStructRequiredSize_def wire_CmdCloseStruct_def)

lemma GetCmdReadStructRequiredSize_eq [simp]: "GetCmdReadStructRequiredSize d = length (wire_CmdReadStruct d)"
  by (simp add: GetCmdReadStructRequiredSize_def wire_CmdReadStruct_def)

lemma GetCmdReadDirStructRequiredSize_eq [simp]: "GetCmdReadDirStructRequiredSize d = length (wire_CmdReadDirStruct d)"
  by (simp add: GetCmdReadDirStructRequiredSize_def wire_CmdReadDirStruct_def)

lemma GetCmdReadLinkStructRequiredSize_eq [simp]: "GetCmdReadLinkStructRequiredSize d = length (wire_CmdReadLinkStruct d)"
  by (simp add: GetCmdReadLinkStructRequiredSize_def wire_CmdReadLinkStruct_def)

lemma GetCmdWriteStructRequiredSize_eq [simp]: "GetCmdWriteStructRequiredSize d = length (wire_CmdWriteStruct d)"
  by (simp add: GetCmdWriteStructRequiredSize_def wire_CmdWriteStruct_def)

lemma GetCmdSeekStructRequiredSize_eq [simp]: "GetCmdSeekStructRequiredSize d = length (wire_CmdSeekStruct d)"
  by (simp add: GetCmdSeekStructRequiredSize_def wire_CmdSeekStruct_def)

lemma GetCmdAllocateStructRequiredSize_eq [simp]: "GetCmdAllocateStructRequiredSize d = length (wire_CmdAllocateStruct d)"
  by (simp add: GetCmdAllocateStructRequiredSize_def wire_CmdAllocateStruct_def)

lemma GetCmdGetAttrStructRequiredSize_eq [simp]: "GetCmdGetAttrStructRequiredSize d = length (wire_CmdGetAttrStruct d)"
  by (simp add: GetCmdGetAttrStructRequiredSize_def wire_CmdGetAttrStruct_def)

lemma GetCmdSetAttrStructRequiredSize_eq [simp]: "GetCmdSetAttrStructRequiredSize d = length (wire_CmdSetAttrStruct d)"
  by (simp add: GetCmdSetAttrStructRequiredSize_def wire_CmdSetAttrStruct_def)

lemma GetCmdSyncStructRequiredSize_eq [simp]: "GetCmdSyncStructRequiredSize d = length (wire_CmdSyncStruct d)"
  by (simp add: GetCmdSyncStructRequiredSize_def wire_CmdSyncStruct_def)

lemma GetCmdMkdirStructRequiredSize_eq [simp]: "GetCmdMkdirStructRequiredSize d = length (wire_CmdMkdirStruct d)"
  by (simp add: GetCmdMkdirStructRequiredSize_def wire_CmdMkdirStruct_def)

lemma GetCmdSymLinkStructRequiredSize_eq [simp]: "GetCmdSymLinkStructRequiredSize d = length (wire_CmdSymLinkStruct d)"
  by (simp add: GetCmdSymLinkStructRequiredSize_def wire_CmdSymLinkStruct_def)

lemma GetCmdRemoveStructRequiredSize_eq [simp]: "GetCmdRemoveStructRequiredSize d = length (wire_CmdRemoveStruct d)"
  by (simp add: GetCmdRemoveStructRequiredSize_def wire_CmdRemoveStruct_def)

lemma GetCmdRmDirStructRequiredSize_eq [simp]: "GetCmdRmDirStructRequiredSize d = length (wire_CmdRmDirStruct d)"
  by (simp add: GetCmdRmDirStructRequiredSize_def wire_CmdRmDirStruct_def)

lemma GetCmdFsStatStructRequiredSize_eq [simp]: "GetCmdFsStatStructRequiredSize d = length (wire_CmdFsStatStruct d)"
  by (simp add: GetCmdFsStatStructRequiredSize_def wire_CmdFsStatStruct_def)

lemma GetCmdReadAtStructRequiredSize_eq [simp]: "GetCmdReadAtStructRequiredSize d = length (wire_CmdReadAtStruct d)"
  by (simp add: GetCmdReadAtStructRequiredSize_def wire_CmdReadAtStruct_def)

lemma GetCmdWriteAtStructRequiredSize_eq [simp]: "GetCmdWriteAtStructRequiredSize d = length (wire_CmdWriteAtStruct d)"
  by (simp add: GetCmdWriteAtStructRequiredSize_def wire_CmdWriteAtStruct_def)

lemma GetCmdRenameStructRequiredSize_eq [simp]: "GetCmdRenameStructRequiredSize d = length (wire_CmdRenameStruct d)"
  by (simp add: GetCmdRenameStructRequiredSize_def wire_CmdRenameStruct_def)

lemma GetCmdCopyFileRangeStructRequiredSize_eq [simp]: "GetCmdCopyFileRangeStructRequiredSize d = length (wire_CmdCopyFileRangeStruct d)"
  by (simp add: GetCmdCopyFileRangeStructRequiredSize_def wire_CmdCopyFileRangeStruct_def)

lemma GetCmdCloneFileRangeStructRequiredSize_eq [simp]: "GetCmdCloneFileRangeStructRequiredSize d = length (wire_CmdCloneFileRangeStruct d)"
  by (simp add: GetCmdCloneFileRangeStructRequiredSize_def wire_CmdCloneFileRangeStruct_def)

lemma GetCmdSetAttrByFDStructRequiredSize_eq [simp]: "GetCmdSetAttrByFDStructRequiredSize d = length (wire_CmdSetAttrByFDStruct d)"
  by (simp add: GetCmdSetAttrByFDStructRequiredSize_def wire_CmdSetAttrByFDStruct_def)

lemma GetCmdReadDirPlusStructRequiredSize_eq [simp]: "GetCmdReadDirPlusStructRequiredSize d = length (wire_CmdReadDirPlusStruct d)"
  by (simp add: GetCmdReadDirPlusStructRequiredSize_def wire_CmdReadDirPlusStruct_def)

lemma GetCmdWriteStreamOpenStructRequiredSize_eq [simp]: "GetCmdWriteStreamOpenStructRequiredSize d = length (wire_CmdWriteStreamOpenStruct d)"
  by (simp add: GetCmdWriteStreamOpenStructRequiredSize_def wire_CmdWriteStreamOpenStruct_def)

lemma GetCmdWriteStreamDataStructRequiredSize_eq [simp]: "GetCmdWriteStreamDataStructRequiredSize d = length (wire_CmdWriteStreamDataStruct d)"
  by (simp add: GetCmdWriteStreamDataStructRequiredSize_def wire_CmdWriteStreamDataStruct_def)

lemma GetCmdGetFileLockStructRequiredSize_eq [simp]: "GetCmdGetFileLockStructRequiredSize d = length (wire_CmdGetFileLockStruct d)"
  by (simp add: GetCmdGetFileLockStructRequiredSize_def wire_CmdGetFileLockStruct_def)

lemma GetCmdSetFileLockStructRequiredSize_eq [simp]: "GetCmdSetFileLockStructRequiredSize d = length (wire_CmdSetFileLockStruct d)"
  by (simp add: GetCmdSetFileLockStructRequiredSize_def wire_CmdSetFileLockStruct_def)

lemma GetCmdSetFileLockWaitStructRequiredSize_eq [simp]: "GetCmdSetFileLockWaitStructRequiredSize d = length (wire_CmdSetFileLockWaitStruct d)"
  by (simp add: GetCmdSetFileLockWaitStructRequiredSize_def wire_CmdSetFileLockWaitStruct_def)

lemma GetCmdLinkStructRequiredSize_eq [simp]: "GetCmdLinkStructRequiredSize d = length (wire_CmdLinkStruct d)"
  by (simp add: GetCmdLinkStructRequiredSize_def wire_CmdLinkStruct_def)

lemma GetCmdSetXAttrStructRequiredSize_eq [simp]: "GetCmdSetXAttrStructRequiredSize d = length (wire_CmdSetXAttrStruct d)"
  by (simp add: GetCmdSetXAttrStructRequiredSize_def wire_CmdSetXAttrStruct_def)

lemma GetCmdGetXAttrStructRequiredSize_eq [simp]: "GetCmdGetXAttrStructRequiredSize d = length (wire_CmdGetXAttrStruct d)"
  by (simp add: GetCmdGetXAttrStructRequiredSize_def wire_CmdGetXAttrStruct_def)

lemma GetCmdListXAttrStructRequiredSize_eq [simp]: "GetCmdListXAttrStructRequiredSize d = length (wire_CmdListXAttrStruct d)"
  by (simp add: GetCmdListXAttrStructRequiredSize_def wire_CmdListXAttrStruct_def)

lemma GetCmdRemoveXAttrStructRequiredSize_eq [simp]: "GetCmdRemoveXAttrStructRequiredSize d = length (wire_CmdRemoveXAttrStruct d)"
  by (simp add: GetCmdRemoveXAttrStructRequiredSize_def wire_CmdRemoveXAttrStruct_def)

lemma GetRspErrorRequiredSize_eq [simp]: "GetRspErrorRequiredSize d = length (wire_RspError d)"
  by (simp add: GetRspErrorRequiredSize_def wire_RspError_def)

lemma GetRspOpenRequiredSize_eq [simp]: "GetRspOpenRequiredSize d = length (wire_RspOpen d)"
  by (simp add: GetRspOpenRequiredSize_def wire_RspOpen_def)

lemma GetRspReadLinkRequiredSize_eq [simp]: "GetRspReadLinkRequiredSize d = length (wire_RspReadLink d)"
  by (simp add: GetRspReadLinkRequiredSize_def wire_RspReadLink_def)

lemma GetRspWriteRequiredSize_eq [simp]: "GetRspWriteRequiredSize d = length (wire_RspWrite d)"
  by (simp add: GetRspWriteRequiredSize_def wire_RspWrite_def)

lemma GetRspSeekRequiredSize_eq [simp]: "GetRspSeekRequiredSize d = length (wire_RspSeek d)"
  by (simp add: GetRspSeekRequiredSize_def wire_RspSeek_def)

lemma GetRspGetAttrRequiredSize_eq [simp]: "GetRspGetAttrRequiredSize d = length (wire_RspGetAttr d)"
  by (simp add: GetRspGetAttrRequiredSize_def wire_RspGetAttr_def)

lemma GetRspFsStatRequiredSize_eq [simp]: "GetRspFsStatRequiredSize d = length (wire_RspFsStat d)"
  by (simp add: GetRspFsStatRequiredSize_def wire_RspFsStat_def)

lemma GetRspWriteAtRequiredSize_eq [simp]: "GetRspWriteAtRequiredSize d = length (wire_RspWriteAt d)"
  by (simp add: GetRspWriteAtRequiredSize_def wire_RspWriteAt_def)

lemma GetRspCopyFileRangeRequiredSize_eq [simp]: "GetRspCopyFileRangeRequiredSize d = length (wire_RspCopyFileRange d)"
  by (simp add: GetRspCopyFileRangeRequiredSize_def wire_RspCopyFileRange_def)

lemma GetRspWriteStreamCloseRequiredSize_eq [simp]: "GetRspWriteStreamCloseRequiredSize d = length (wire_RspWriteStreamClose d)"
  by (simp add: GetRspWriteStreamCloseRequiredSize_def wire_RspWriteStreamClose_def)

lemma GetRspGetFileLockRequiredSize_eq [simp]: "GetRspGetFileLockRequiredSize d = length (wire_RspGetFileLock d)"
  by (simp add: GetRspGetFileLockRequiredSize_def wire_RspGetFileLock_def)

section \<open>Correctness of the encoders\<close>

lemma appends_eq: "appends content fits p bs \<Longrightarrow> bs = cs \<Longrightarrow> appends content fits p cs"
  by simp

lemma WriteStrToWriter_too_long:
  "0xffff < length s \<Longrightarrow> WriteStrToWriter wr s w = (w, Some ErrStringTooLong)"
  by (simp add: WriteStrToWriter_def)

context io_writer
begin

lemma WriteStrToWriter_appends:
  assumes "length s \<le> 0xffff"
  shows "appends content fits (WriteStrToWriter wr s) (wire_str s)"
proof (cases "s = []")
  case True
  then show ?thesis
    using wr_appends [of "PutUint16 0"]
    by (auto simp: WriteStrToWriter_def writeStrLenPrefix_def wire_str_def appends_def)
next
  case False
  have "WriteStrToWriter wr s = wseq [wr (PutUint16 (of_nat (length s))), wr (bytes_of s)]"
    using False assms
    by (auto simp: fun_eq_iff WriteStrToWriter_def writeStrLenPrefix_def split: prod.split option.split)
  then show ?thesis
    unfolding wire_str_def by (simp only: wseq_Cons_appends wseq_single_appends wr_appends)
qed

lemma WriteTimespecToWriter_appends:
  "appends content fits (WriteTimespecToWriter wr d) (wire_Timespec d)"
  unfolding WriteTimespecToWriter_def
  by (rule appends_eq, (rule wseq_single_appends | rule wseq_Cons_appends | rule wr_appends)+, simp add: wire_Timespec_def)

lemma WriteFileInfoToWriter_appends:
  "appends content fits (WriteFileInfoToWriter wr d) (wire_FileInfo d)"
  unfolding WriteFileInfoToWriter_def
  by (rule appends_eq, (rule wseq_single_appends | rule wseq_Cons_appends | rule wr_appends | rule WriteTimespecToWriter_appends)+, simp add: wire_FileInfo_def)

lemma WriteDirentToWriter_appends:
  "length (de_Name d) \<le> 0xffff \<Longrightarrow> appends content fits (WriteDirentToWriter wr d) (wire_Dirent d)"
  unfolding WriteDirentToWriter_def
  by (rule appends_eq, (rule wseq_single_appends | rule wseq_Cons_appends | rule wr_appends | rule WriteTimespecToWriter_appends | (rule WriteStrToWriter_appends, assumption))+, simp add: wire_Dirent_def)

lemma WriteFileLockInfoToWriter_appends:
  "appends content fits (WriteFileLockInfoToWriter wr d) (wire_FileLockInfo d)"
  unfolding WriteFileLockInfoToWriter_def
  by (rule appends_eq, (rule wseq_single_appends | rule wseq_Cons_appends | rule wr_appends)+, simp add: wire_FileLockInfo_def)

lemma WriteCmdOpenStructToWriter_appends:
  "length (Open_Path d) \<le> 0xffff \<Longrightarrow> appends content fits (WriteCmdOpenStructToWriter wr d) (wire_CmdOpenStruct d)"
  unfolding WriteCmdOpenStructToWriter_def
  by (rule appends_eq, (rule wseq_single_appends | rule wseq_Cons_appends | rule wr_appends | (rule WriteStrToWriter_appends, assumption))+, simp add: wire_CmdOpenStruct_def)

lemma WriteCmdCloseStructToWriter_appends:
  "appends content fits (WriteCmdCloseStructToWriter wr d) (wire_CmdCloseStruct d)"
  unfolding WriteCmdCloseStructToWriter_def
  by (rule appends_eq, (rule wseq_single_appends | rule wseq_Cons_appends | rule wr_appends)+, simp add: wire_CmdCloseStruct_def)

lemma WriteCmdReadStructToWriter_appends:
  "appends content fits (WriteCmdReadStructToWriter wr d) (wire_CmdReadStruct d)"
  unfolding WriteCmdReadStructToWriter_def
  by (rule appends_eq, (rule wseq_single_appends | rule wseq_Cons_appends | rule wr_appends)+, simp add: wire_CmdReadStruct_def)

lemma WriteCmdReadDirStructToWriter_appends:
  "length (ReadDir_Path d) \<le> 0xffff \<Longrightarrow> appends content fits (WriteCmdReadDirStructToWriter wr d) (wire_CmdReadDirStruct d)"
  unfolding WriteCmdReadDirStructToWriter_def
  by (rule appends_eq, (rule wseq_single_appends | rule wseq_Cons_appends | rule wr_appends | (rule WriteStrToWriter_appends, assumption))+, simp add: wire_CmdReadDirStruct_def)

lemma WriteCmdReadLinkStructToWriter_appends:
  "length (ReadLink_Path d) \<le> 0xffff \<Longrightarrow> appends content fits (WriteCmdReadLinkStructToWriter wr d) (wire_CmdReadLinkStruct d)"
  unfolding WriteCmdReadLinkStructToWriter_def
  by (rule appends_eq, (rule wseq_single_appends | rule wseq_Cons_appends | rule wr_appends | (rule WriteStrToWriter_appends, assumption))+, simp add: wire_CmdReadLinkStruct_def)

lemma WriteCmdWriteStructToWriter_appends:
  "appends content fits (WriteCmdWriteStructToWriter wr d) (wire_CmdWriteStruct d)"
  unfolding WriteCmdWriteStructToWriter_def
  by (rule appends_eq, (rule wseq_single_appends | rule wseq_Cons_appends | rule wr_appends)+, simp add: wire_CmdWriteStruct_def)

lemma WriteCmdSeekStructToWriter_appends:
  "appends content fits (WriteCmdSeekStructToWriter wr d) (wire_CmdSeekStruct d)"
  unfolding WriteCmdSeekStructToWriter_def
  by (rule appends_eq, (rule wseq_single_appends | rule wseq_Cons_appends | rule wr_appends)+, simp add: wire_CmdSeekStruct_def)

lemma WriteCmdAllocateStructToWriter_appends:
  "appends content fits (WriteCmdAllocateStructToWriter wr d) (wire_CmdAllocateStruct d)"
  unfolding WriteCmdAllocateStructToWriter_def
  by (rule appends_eq, (rule wseq_single_appends | rule wseq_Cons_appends | rule wr_appends)+, simp add: wire_CmdAllocateStruct_def)

lemma WriteCmdGetAttrStructToWriter_appends:
  "length (GetAttr_Path d) \<le> 0xffff \<Longrightarrow> appends content fits (WriteCmdGetAttrStructToWriter wr d) (wire_CmdGetAttrStruct d)"
  unfolding WriteCmdGetAttrStructToWriter_def
  by (rule appends_eq, (rule wseq_single_appends | rule wseq_Cons_appends | rule wr_appends | (rule WriteStrToWriter_appends, assumption))+, simp add: wire_CmdGetAttrStruct_def)

lemma WriteCmdSetAttrStructToWriter_appends:
  "length (SetAttr_Path d) \<le> 0xffff \<Longrightarrow> appends content fits (WriteCmdSetAttrStructToWriter wr d) (wire_CmdSetAttrStruct d)"
  unfolding WriteCmdSetAttrStructToWriter_def
  by (rule appends_eq, (rule wseq_single_appends | rule wseq_Cons_appends | rule wr_appends | rule WriteFileInfoToWriter_appends | (rule WriteStrToWriter_appends, assumption))+, simp add: wire_CmdSetAttrStruct_def)

lemma WriteCmdSyncStructToWriter_appends:
  "appends content fits (WriteCmdSyncStructToWriter wr d) (wire_CmdSyncStruct d)"
  unfolding WriteCmdSyncStructToWriter_def
  by (rule appends_eq, (rule wseq_single_appends | rule wseq_Cons_appends | rule wr_appends)+, simp add: wire_CmdSyncStruct_def)

lemma WriteCmdMkdirStructToWriter_appends:
  "length (Mkdir_Path d) \<le> 0xffff \<Longrightarrow> appends content fits (WriteCmdMkdirStructToWriter wr d) (wire_CmdMkdirStruct d)"
  unfolding WriteCmdMkdirStructToWriter_def
  by (rule appends_eq, (rule wseq_single_appends | rule wseq_Cons_appends | rule wr_appends | (rule WriteStrToWriter_appends, assumption))+, simp add: wire_CmdMkdirStruct_def)

lemma WriteCmdSymLinkStructToWriter_appends:
  "length (SymLink_TargetPath d) \<le> 0xffff \<Longrightarrow> length (SymLink_FilePath d) \<le> 0xffff \<Longrightarrow> appends content fits (WriteCmdSymLinkStructToWriter wr d) (wire_CmdSymLinkStruct d)"
  unfolding WriteCmdSymLinkStructToWriter_def
  by (rule appends_eq, (rule wseq_single_appends | rule wseq_Cons_appends | rule wr_appends | (rule WriteStrToWriter_appends, assumption))+, simp add: wire_CmdSymLinkStruct_def)

lemma WriteCmdRemoveStructToWriter_appends:
  "length (Remove_Path d) \<le> 0xffff \<Longrightarrow> appends content fits (WriteCmdRemoveStructToWriter wr d) (wire_CmdRemoveStruct d)"
  unfolding WriteCmdRemoveStructToWriter_def
  by (rule appends_eq, (rule wseq_single_appends | rule wseq_Cons_appends | rule wr_appends | (rule WriteStrToWriter_appends, assumption))+, simp add: wire_CmdRemoveStruct_def)

lemma WriteCmdRmDirStructToWriter_appends:
  "length (RmDir_Path d) \<le> 0xffff \<Longrightarrow> appends content fits (WriteCmdRmDirStructToWriter wr d) (wire_CmdRmDirStruct d)"
  unfolding WriteCmdRmDirStructToWriter_def
  by (rule appends_eq, (rule wseq_single_appends | rule wseq_Cons_appends | rule wr_appends | (rule WriteStrToWriter_appends, assumption))+, simp add: wire_CmdRmDirStruct_def)

lemma WriteCmdFsStatStructToWriter_appends:
  "length (FsStat_Path d) \<le> 0xffff \<Longrightarrow> appends content fits (WriteCmdFsStatStructToWriter wr d) (wire_CmdFsStatStruct d)"
  unfolding WriteCmdFsStatStructToWriter_def
  by (rule appends_eq, (rule wseq_single_appends | rule wseq_Cons_appends | rule wr_appends | (rule WriteStrToWriter_appends, assumption))+, simp add: wire_CmdFsStatStruct_def)

lemma WriteCmdReadAtStructToWriter_appends:
  "appends content fits (WriteCmdReadAtStructToWriter wr d) (wire_CmdReadAtStruct d)"
  unfolding WriteCmdReadAtStructToWriter_def
  by (rule appends_eq, (rule wseq_single_appends | rule wseq_Cons_appends | rule wr_appends)+, simp add: wire_CmdReadAtStruct_def)

lemma WriteCmdWriteAtStructToWriter_appends:
  "appends content fits (WriteCmdWriteAtStructToWriter wr d) (wire_CmdWriteAtStruct d)"
  unfolding WriteCmdWriteAtStructToWriter_def
  by (rule appends_eq, (rule wseq_single_appends | rule wseq_Cons_appends | rule wr_appends)+, simp add: wire_CmdWriteAtStruct_def)

lemma WriteCmdRenameStructToWriter_appends:
  "length (Rename_OldPath d) \<le> 0xffff \<Longrightarrow> length (Rename_NewPath d) \<le> 0xffff \<Longrightarrow> appends content fits (WriteCmdRenameStructToWriter wr d) (wire_CmdRenameStruct d)"
  unfolding WriteCmdRenameStructToWriter_def
  by (rule appends_eq, (rule wseq_single_appends | rule wseq_Cons_appends | rule wr_appends | (rule WriteStrToWriter_appends, assumption))+, simp add: wire_CmdRenameStruct_def)

lemma WriteCmdCopyFileRangeStructToWriter_appends:
  "appends content fits (WriteCmdCopyFileRangeStructToWriter wr d) (wire_CmdCopyFileRangeStruct d)"
  unfolding WriteCmdCopyFileRangeStructToWriter_def
  by (rule appends_eq, (rule wseq_single_appends | rule wseq_Cons_appends | rule wr_appends)+, simp add: wire_CmdCopyFileRangeStruct_def)

lemma WriteCmdCloneFileRangeStructToWriter_appends:
  "appends content fits (WriteCmdCloneFileRangeStructToWriter wr d) (wire_CmdCloneFileRangeStruct d)"
  unfolding WriteCmdCloneFileRangeStructToWriter_def
  by (rule appends_eq, (rule wseq_single_appends | rule wseq_Cons_appends | rule wr_appends)+, simp add: wire_CmdCloneFileRangeStruct_def)

lemma WriteCmdSetAttrByFDStructToWriter_appends:
  "appends content fits (WriteCmdSetAttrByFDStructToWriter wr d) (wire_CmdSetAttrByFDStruct d)"
  unfolding WriteCmdSetAttrByFDStructToWriter_def
  by (rule appends_eq, (rule wseq_single_appends | rule wseq_Cons_appends | rule wr_appends | rule WriteFileInfoToWriter_appends)+, simp add: wire_CmdSetAttrByFDStruct_def)

lemma WriteCmdReadDirPlusStructToWriter_appends:
  "length (ReadDirPlus_Path d) \<le> 0xffff \<Longrightarrow> appends content fits (WriteCmdReadDirPlusStructToWriter wr d) (wire_CmdReadDirPlusStruct d)"
  unfolding WriteCmdReadDirPlusStructToWriter_def
  by (rule appends_eq, (rule wseq_single_appends | rule wseq_Cons_appends | rule wr_appends | (rule WriteStrToWriter_appends, assumption))+, simp add: wire_CmdReadDirPlusStruct_def)

lemma WriteCmdWriteStreamOpenStructToWriter_appends:
  "appends content fits (WriteCmdWriteStreamOpenStructToWriter wr d) (wire_CmdWriteStreamOpenStruct d)"
  unfolding WriteCmdWriteStreamOpenStructToWriter_def
  by (rule appends_eq, (rule wseq_single_appends | rule wseq_Cons_appends | rule wr_appends)+, simp add: wire_CmdWriteStreamOpenStruct_def)

lemma WriteCmdWriteStreamDataStructToWriter_appends:
  "appends content fits (WriteCmdWriteStreamDataStructToWriter wr d) (wire_CmdWriteStreamDataStruct d)"
  unfolding WriteCmdWriteStreamDataStructToWriter_def
  by (rule appends_eq, (rule wseq_single_appends | rule wseq_Cons_appends | rule wr_appends)+, simp add: wire_CmdWriteStreamDataStruct_def)

lemma WriteCmdGetFileLockStructToWriter_appends:
  "appends content fits (WriteCmdGetFileLockStructToWriter wr d) (wire_CmdGetFileLockStruct d)"
  unfolding WriteCmdGetFileLockStructToWriter_def
  by (rule appends_eq, (rule wseq_single_appends | rule wseq_Cons_appends | rule wr_appends | rule WriteFileLockInfoToWriter_appends)+, simp add: wire_CmdGetFileLockStruct_def)

lemma WriteCmdSetFileLockStructToWriter_appends:
  "appends content fits (WriteCmdSetFileLockStructToWriter wr d) (wire_CmdSetFileLockStruct d)"
  unfolding WriteCmdSetFileLockStructToWriter_def
  by (rule appends_eq, (rule wseq_single_appends | rule wseq_Cons_appends | rule wr_appends | rule WriteFileLockInfoToWriter_appends)+, simp add: wire_CmdSetFileLockStruct_def)

lemma WriteCmdSetFileLockWaitStructToWriter_appends:
  "appends content fits (WriteCmdSetFileLockWaitStructToWriter wr d) (wire_CmdSetFileLockWaitStruct d)"
  unfolding WriteCmdSetFileLockWaitStructToWriter_def
  by (rule appends_eq, (rule wseq_single_appends | rule wseq_Cons_appends | rule wr_appends | rule WriteFileLockInfoToWriter_appends)+, simp add: wire_CmdSetFileLockWaitStruct_def)

lemma WriteCmdLinkStructToWriter_appends:
  "length (Link_TargetPath d) \<le> 0xffff \<Longrightarrow> length (Link_FilePath d) \<le> 0xffff \<Longrightarrow> appends content fits (WriteCmdLinkStructToWriter wr d) (wire_CmdLinkStruct d)"
  unfolding WriteCmdLinkStructToWriter_def
  by (rule appends_eq, (rule wseq_single_appends | rule wseq_Cons_appends | rule wr_appends | (rule WriteStrToWriter_appends, assumption))+, simp add: wire_CmdLinkStruct_def)

lemma WriteCmdSetXAttrStructToWriter_appends:
  "length (SetXAttr_Path d) \<le> 0xffff \<Longrightarrow> length (SetXAttr_Key d) \<le> 0xffff \<Longrightarrow> appends content fits (WriteCmdSetXAttrStructToWriter wr d) (wire_CmdSetXAttrStruct d)"
  unfolding WriteCmdSetXAttrStructToWriter_def
  by (rule appends_eq, (rule wseq_single_appends | rule wseq_Cons_appends | rule wr_appends | (rule WriteStrToWriter_appends, assumption))+, simp add: wire_CmdSetXAttrStruct_def)

lemma WriteCmdGetXAttrStructToWriter_appends:
  "length (GetXAttr_Path d) \<le> 0xffff \<Longrightarrow> length (GetXAttr_Key d) \<le> 0xffff \<Longrightarrow> appends content fits (WriteCmdGetXAttrStructToWriter wr d) (wire_CmdGetXAttrStruct d)"
  unfolding WriteCmdGetXAttrStructToWriter_def
  by (rule appends_eq, (rule wseq_single_appends | rule wseq_Cons_appends | rule wr_appends | (rule WriteStrToWriter_appends, assumption))+, simp add: wire_CmdGetXAttrStruct_def)

lemma WriteCmdListXAttrStructToWriter_appends:
  "length (ListXAttr_Path d) \<le> 0xffff \<Longrightarrow> appends content fits (WriteCmdListXAttrStructToWriter wr d) (wire_CmdListXAttrStruct d)"
  unfolding WriteCmdListXAttrStructToWriter_def
  by (rule appends_eq, (rule wseq_single_appends | rule wseq_Cons_appends | rule wr_appends | (rule WriteStrToWriter_appends, assumption))+, simp add: wire_CmdListXAttrStruct_def)

lemma WriteCmdRemoveXAttrStructToWriter_appends:
  "length (RemoveXAttr_Path d) \<le> 0xffff \<Longrightarrow> length (RemoveXAttr_Key d) \<le> 0xffff \<Longrightarrow> appends content fits (WriteCmdRemoveXAttrStructToWriter wr d) (wire_CmdRemoveXAttrStruct d)"
  unfolding WriteCmdRemoveXAttrStructToWriter_def
  by (rule appends_eq, (rule wseq_single_appends | rule wseq_Cons_appends | rule wr_appends | (rule WriteStrToWriter_appends, assumption))+, simp add: wire_CmdRemoveXAttrStruct_def)

lemma WriteRspErrorToWriter_appends:
  "length (RspError_Desc d) \<le> 0xffff \<Longrightarrow> appends content fits (WriteRspErrorToWriter wr d) (wire_RspError d)"
  unfolding WriteRspErrorToWriter_def
  by (rule appends_eq, (rule wseq_single_appends | rule wseq_Cons_appends | rule wr_appends | (rule WriteStrToWriter_appends, assumption))+, simp add: wire_RspError_def)

lemma WriteRspOpenToWriter_appends:
  "appends content fits (WriteRspOpenToWriter wr d) (wire_RspOpen d)"
  unfolding WriteRspOpenToWriter_def
  by (rule appends_eq, (rule wseq_single_appends | rule wseq_Cons_appends | rule wr_appends)+, simp add: wire_RspOpen_def)

lemma WriteRspReadLinkToWriter_appends:
  "length (RspReadLink_TargetPath d) \<le> 0xffff \<Longrightarrow> appends content fits (WriteRspReadLinkToWriter wr d) (wire_RspReadLink d)"
  unfolding WriteRspReadLinkToWriter_def
  by (rule appends_eq, (rule wseq_single_appends | rule wseq_Cons_appends | rule wr_appends | (rule WriteStrToWriter_appends, assumption))+, simp add: wire_RspReadLink_def)

lemma WriteRspWriteToWriter_appends:
  "appends content fits (WriteRspWriteToWriter wr d) (wire_RspWrite d)"
  unfolding WriteRspWriteToWriter_def
  by (rule appends_eq, (rule wseq_single_appends | rule wseq_Cons_appends | rule wr_appends)+, simp add: wire_RspWrite_def)

lemma WriteRspSeekToWriter_appends:
  "appends content fits (WriteRspSeekToWriter wr d) (wire_RspSeek d)"
  unfolding WriteRspSeekToWriter_def
  by (rule appends_eq, (rule wseq_single_appends | rule wseq_Cons_appends | rule wr_appends)+, simp add: wire_RspSeek_def)

lemma WriteRspGetAttrToWriter_appends:
  "appends content fits (WriteRspGetAttrToWriter wr d) (wire_RspGetAttr d)"
  unfolding WriteRspGetAttrToWriter_def
  by (rule appends_eq, (rule wseq_single_appends | rule wseq_Cons_appends | rule wr_appends | rule WriteFileInfoToWriter_appends)+, simp add: wire_RspGetAttr_def)

lemma WriteRspFsStatToWriter_appends:
  "appends content fits (WriteRspFsStatToWriter wr d) (wire_RspFsStat d)"
  unfolding WriteRspFsStatToWriter_def
  by (rule appends_eq, (rule wseq_single_appends | rule wseq_Cons_appends | rule wr_appends)+, simp add: wire_RspFsStat_def)

lemma WriteRspWriteAtToWriter_appends:
  "appends content fits (WriteRspWriteAtToWriter wr d) (wire_RspWriteAt d)"
  unfolding WriteRspWriteAtToWriter_def
  by (rule appends_eq, (rule wseq_single_appends | rule wseq_Cons_appends | rule wr_appends)+, simp add: wire_RspWriteAt_def)

lemma WriteRspCopyFileRangeToWriter_appends:
  "appends content fits (WriteRspCopyFileRangeToWriter wr d) (wire_RspCopyFileRange d)"
  unfolding WriteRspCopyFileRangeToWriter_def
  by (rule appends_eq, (rule wseq_single_appends | rule wseq_Cons_appends | rule wr_appends)+, simp add: wire_RspCopyFileRange_def)

lemma WriteRspWriteStreamCloseToWriter_appends:
  "appends content fits (WriteRspWriteStreamCloseToWriter wr d) (wire_RspWriteStreamClose d)"
  unfolding WriteRspWriteStreamCloseToWriter_def
  by (rule appends_eq, (rule wseq_single_appends | rule wseq_Cons_appends | rule wr_appends)+, simp add: wire_RspWriteStreamClose_def)

lemma WriteRspGetFileLockToWriter_appends:
  "appends content fits (WriteRspGetFileLockToWriter wr d) (wire_RspGetFileLock d)"
  unfolding WriteRspGetFileLockToWriter_def
  by (rule appends_eq, (rule wseq_single_appends | rule wseq_Cons_appends | rule wr_appends | rule WriteFileLockInfoToWriter_appends)+, simp add: wire_RspGetFileLock_def)

end

section \<open>Correctness of the decoders\<close>

lemma decodes_eq: "decodes p bs x \<Longrightarrow> bs = cs \<Longrightarrow> decodes p cs x"
  by simp

lemma of_nat_len_u16: "n \<le> 0xffff \<Longrightarrow> unat (of_nat n :: u16) = n"
  by (simp add: unat_of_nat)

lemma of_nat_len_u16_0:
  assumes "n \<le> 0xffff"
  shows "(of_nat n :: u16) = 0 \<longleftrightarrow> n = 0"
proof
  assume "(of_nat n :: u16) = 0"
  then have "unat (of_nat n :: u16) = 0" by (simp only: unat_0)
  then show "n = 0" by (simp only: of_nat_len_u16 [OF assms])
next
  assume "n = 0"
  then show "(of_nat n :: u16) = 0" by simp
qed

lemma readStrLenPrefix_decodes: "decodes readStrLenPrefix (PutUint16 n) n"
proof -
  have "decodes readStrLenPrefix (PutUint16 n @ []) n"
    unfolding readStrLenPrefix_def
    by (rule decodes_bind [OF decodes_ReadFull]) (simp_all add: decodes_ret)
  then show ?thesis by simp
qed

lemma ReadStrFromReader_decodes:
  assumes "length s \<le> 0xffff"
  shows "decodes ReadStrFromReader (wire_str s) s"
proof -
  have n: "unat (of_nat (length s) :: u16) = length s"
    using assms by (rule of_nat_len_u16)
  have z: "(of_nat (length s) :: u16) = 0 \<longleftrightarrow> s = []"
    by (simp only: of_nat_len_u16_0 [OF assms] length_0_conv)
  show ?thesis
    unfolding ReadStrFromReader_def wire_str_def
  proof (rule decodes_bind [OF readStrLenPrefix_decodes])
    show "decodes (if (of_nat (length s) :: u16) = 0 then rret []
        else rbind (io_ReadFull (unat (of_nat (length s) :: u16))) (\<lambda>buf. rret (string_of buf)))
      (bytes_of s) s"
    proof (cases "s = []")
      case True
      then show ?thesis by (simp add: decodes_ret)
    next
      case False
      have "decodes (rbind (io_ReadFull (length s)) (\<lambda>buf. rret (string_of buf))) (bytes_of s @ []) s"
        by (rule decodes_bind [OF decodes_ReadFull]) (simp_all add: decodes_ret)
      with False z n show ?thesis by simp
    qed
  qed
qed

lemma readStrLenPrefix_rejects: "rejects readStrLenPrefix (PutUint16 n)"
proof -
  have "rejects readStrLenPrefix (PutUint16 n @ [])"
    unfolding readStrLenPrefix_def
    by (rule rejects_bind [OF decodes_ReadFull rejects_ReadFull]) (simp_all add: rejects_ret)
  then show ?thesis by simp
qed

lemma ReadStrFromReader_rejects:
  assumes "length s \<le> 0xffff"
  shows "rejects ReadStrFromReader (wire_str s)"
proof -
  have n: "unat (of_nat (length s) :: u16) = length s"
    using assms by (rule of_nat_len_u16)
  have z: "(of_nat (length s) :: u16) = 0 \<longleftrightarrow> s = []"
    by (simp only: of_nat_len_u16_0 [OF assms] length_0_conv)
  show ?thesis
    unfolding ReadStrFromReader_def wire_str_def
  proof (rule rejects_bind [OF readStrLenPrefix_decodes readStrLenPrefix_rejects])
    have "rejects (rbind (io_ReadFull (length s)) (\<lambda>buf. rret (string_of buf))) (bytes_of s @ [])"
      by (rule rejects_bind [OF decodes_ReadFull rejects_ReadFull]) (simp_all add: rejects_ret)
    with z n show "rejects (if (of_nat (length s) :: u16) = 0 then rret []
        else rbind (io_ReadFull (unat (of_nat (length s) :: u16))) (\<lambda>buf. rret (string_of buf)))
      (bytes_of s)"
      by (simp add: rejects_ret)
  qed
qed

lemma ReadTimespecFromReader_decodes: "decodes ReadTimespecFromReader (wire_Timespec d) d"
proof -
  have "decodes ReadTimespecFromReader ((PutUint64 (ts_Seconds d) @ PutUint64 (ts_Nanoseconds d)) @ []) d"
    unfolding ReadTimespecFromReader_def
    by (rule decodes_bind | rule decodes_ret | rule decodes_ReadFull | simp)+
  then show ?thesis by (simp add: wire_Timespec_def)
qed

lemma ReadTimespecFromReader_rejects: "rejects ReadTimespecFromReader (wire_Timespec d)"
proof -
  have "rejects ReadTimespecFromReader ((PutUint64 (ts_Seconds d) @ PutUint64 (ts_Nanoseconds d)) @ [])"
    unfolding ReadTimespecFromReader_def
    by (rule rejects_bind | rule rejects_ret | rule rejects_ReadFull | rule decodes_ReadFull | simp)+
  then show ?thesis by (simp add: wire_Timespec_def)
qed

lemma ReadFileInfoFromReader_decodes: "decodes ReadFileInfoFromReader (wire_FileInfo d) d"
proof -
  have "decodes ReadFileInfoFromReader ((PutUint64 (fi_Size d)) @ (wire_Timespec (fi_MTime d)) @ (PutUint32 (fi_Mode d) @ PutUint8 (fi_Owner d)) @ []) d"
    unfolding ReadFileInfoFromReader_def
    by (rule decodes_bind | rule decodes_ret | rule decodes_ReadFull | rule ReadTimespecFromReader_decodes | simp)+
  then show ?thesis by (simp add: wire_FileInfo_def)
qed

lemma ReadFileInfoFromReader_rejects: "rejects ReadFileInfoFromReader (wire_FileInfo d)"
proof -
  have "rejects ReadFileInfoFromReader ((PutUint64 (fi_Size d)) @ (wire_Timespec (fi_MTime d)) @ (PutUint32 (fi_Mode d) @ PutUint8 (fi_Owner d)) @ [])"
    unfolding ReadFileInfoFromReader_def
    by (rule rejects_bind | rule rejects_ret | rule rejects_ReadFull | rule ReadTimespecFromReader_rejects | rule decodes_ReadFull | rule ReadTimespecFromReader_decodes | simp)+
  then show ?thesis by (simp add: wire_FileInfo_def)
qed

lemma ReadDirentFromReader_decodes:
  assumes "length (de_Name d) \<le> 0xffff"
  shows "decodes ReadDirentFromReader (wire_Dirent d) d"
proof -
  have "decodes ReadDirentFromReader ((wire_str (de_Name d)) @ (PutUint64 (de_Size d)) @ (wire_Timespec (de_MTime d)) @ (PutUint32 (de_Mode d) @ PutUint8 (de_Owner d)) @ []) d"
    unfolding ReadDirentFromReader_def
    by (rule decodes_bind | rule decodes_ret | rule decodes_ReadFull | rule ReadStrFromReader_decodes | rule ReadTimespecFromReader_decodes | simp add: assms)+
  then show ?thesis by (simp add: wire_Dirent_def)
qed

lemma ReadDirentFromReader_rejects:
  assumes "length (de_Name d) \<le> 0xffff"
  shows "rejects ReadDirentFromReader (wire_Dirent d)"
proof -
  have "rejects ReadDirentFromReader ((wire_str (de_Name d)) @ (PutUint64 (de_Size d)) @ (wire_Timespec (de_MTime d)) @ (PutUint32 (de_Mode d) @ PutUint8 (de_Owner d)) @ [])"
    unfolding ReadDirentFromReader_def
    by (rule rejects_bind | rule rejects_ret | rule rejects_ReadFull | rule ReadStrFromReader_rejects | rule ReadTimespecFromReader_rejects | rule decodes_ReadFull | rule ReadStrFromReader_decodes | rule ReadTimespecFromReader_decodes | simp add: assms)+
  then show ?thesis by (simp add: wire_Dirent_def)
qed

lemma ReadFileLockInfoFromReader_decodes: "decodes ReadFileLockInfoFromReader (wire_FileLockInfo d) d"
proof -
  have "decodes ReadFileLockInfoFromReader ((PutUint8 (fl_Type d) @ PutUint8 (fl_Whence d) @ PutUint64 (fl_Start d) @ PutUint64 (fl_Size d)) @ []) d"
    unfolding ReadFileLockInfoFromReader_def
    by (rule decodes_bind | rule decodes_ret | rule decodes_ReadFull | simp)+
  then show ?thesis by (simp add: wire_FileLockInfo_def)
qed

lemma ReadFileLockInfoFromReader_rejects: "rejects ReadFileLockInfoFromReader (wire_FileLockInfo d)"
proof -
  have "rejects ReadFileLockInfoFromReader ((PutUint8 (fl_Type d) @ PutUint8 (fl_Whence d) @ PutUint64 (fl_Start d) @ PutUint64 (fl_Size d)) @ [])"
    unfolding ReadFileLockInfoFromReader_def
    by (rule rejects_bind | rule rejects_ret | rule rejects_ReadFull | rule decodes_ReadFull | simp)+
  then show ?thesis by (simp add: wire_FileLockInfo_def)
qed

lemma ReadCmdOpenStructFromReader_decodes:
  assumes "length (Open_Path d) \<le> 0xffff"
  shows "decodes ReadCmdOpenStructFromReader (wire_CmdOpenStruct d) d"
proof -
  have "decodes ReadCmdOpenStructFromReader ((wire_str (Open_Path d)) @ (PutUint32 (Open_OFlag d) @ PutUint32 (Open_FMode d)) @ []) d"
    unfolding ReadCmdOpenStructFromReader_def
    by (rule decodes_bind | rule decodes_ret | rule decodes_ReadFull | rule ReadStrFromReader_decodes | simp add: assms)+
  then show ?thesis by (simp add: wire_CmdOpenStruct_def)
qed

lemma ReadCmdOpenStructFromReader_rejects:
  assumes "length (Open_Path d) \<le> 0xffff"
  shows "rejects ReadCmdOpenStructFromReader (wire_CmdOpenStruct d)"
proof -
  have "rejects ReadCmdOpenStructFromReader ((wire_str (Open_Path d)) @ (PutUint32 (Open_OFlag d) @ PutUint32 (Open_FMode d)) @ [])"
    unfolding ReadCmdOpenStructFromReader_def
    by (rule rejects_bind | rule rejects_ret | rule rejects_ReadFull | rule ReadStrFromReader_rejects | rule decodes_ReadFull | rule ReadStrFromReader_decodes | simp add: assms)+
  then show ?thesis by (simp add: wire_CmdOpenStruct_def)
qed

lemma ReadCmdCloseStructFromReader_decodes: "decodes ReadCmdCloseStructFromReader (wire_CmdCloseStruct d) d"
proof -
  have "decodes ReadCmdCloseStructFromReader ((PutUint32 (Close_FD d)) @ []) d"
    unfolding ReadCmdCloseStructFromReader_def
    by (rule decodes_bind | rule decodes_ret | rule decodes_ReadFull | simp)+
  then show ?thesis by (simp add: wire_CmdCloseStruct_def)
qed

lemma ReadCmdCloseStructFromReader_rejects: "rejects ReadCmdCloseStructFromReader (wire_CmdCloseStruct d)"
proof -
  have "rejects ReadCmdCloseStructFromReader ((PutUint32 (Close_FD d)) @ [])"
    unfolding ReadCmdCloseStructFromReader_def
    by (rule rejects_bind | rule rejects_ret | rule rejects_ReadFull | rule decodes_ReadFull | simp)+
  then show ?thesis by (simp add: wire_CmdCloseStruct_def)
qed

lemma ReadCmdReadStructFromReader_decodes: "decodes ReadCmdReadStructFromReader (wire_CmdReadStruct d) d"
proof -
  have "decodes ReadCmdReadStructFromReader ((PutUint32 (Read_FD d) @ PutUint64 (Read_Size d)) @ []) d"
    unfolding ReadCmdReadStructFromReader_def
    by (rule decodes_bind | rule decodes_ret | rule decodes_ReadFull | simp)+
  then show ?thesis by (simp add: wire_CmdReadStruct_def)
qed

lemma ReadCmdReadStructFromReader_rejects: "rejects ReadCmdReadStructFromReader (wire_CmdReadStruct d)"
proof -
  have "rejects ReadCmdReadStructFromReader ((PutUint32 (Read_FD d) @ PutUint64 (Read_Size d)) @ [])"
    unfolding ReadCmdReadStructFromReader_def
    by (rule rejects_bind | rule rejects_ret | rule rejects_ReadFull | rule decodes_ReadFull | simp)+
  then show ?thesis by (simp add: wire_CmdReadStruct_def)
qed

lemma ReadCmdReadDirStructFromReader_decodes:
  assumes "length (ReadDir_Path d) \<le> 0xffff"
  shows "decodes ReadCmdReadDirStructFromReader (wire_CmdReadDirStruct d) d"
proof -
  have "decodes ReadCmdReadDirStructFromReader ((wire_str (ReadDir_Path d)) @ []) d"
    unfolding ReadCmdReadDirStructFromReader_def
    by (rule decodes_bind | rule decodes_ret | rule decodes_ReadFull | rule ReadStrFromReader_decodes | simp add: assms)+
  then show ?thesis by (simp add: wire_CmdReadDirStruct_def)
qed

lemma ReadCmdReadDirStructFromReader_rejects:
  assumes "length (ReadDir_Path d) \<le> 0xffff"
  shows "rejects ReadCmdReadDirStructFromReader (wire_CmdReadDirStruct d)"
proof -
  have "rejects ReadCmdReadDirStructFromReader ((wire_str (ReadDir_Path d)) @ [])"
    unfolding ReadCmdReadDirStructFromReader_def
    by (rule rejects_bind | rule rejects_ret | rule rejects_ReadFull | rule ReadStrFromReader_rejects | rule decodes_ReadFull | rule ReadStrFromReader_decodes | simp add: assms)+
  then show ?thesis by (simp add: wire_CmdReadDirStruct_def)
qed

lemma ReadCmdReadLinkStructFromReader_decodes:
  assumes "length (ReadLink_Path d) \<le> 0xffff"
  shows "decodes ReadCmdReadLinkStructFromReader (wire_CmdReadLinkStruct d) d"
proof -
  have "decodes ReadCmdReadLinkStructFromReader ((wire_str (ReadLink_Path d)) @ []) d"
    unfolding ReadCmdReadLinkStructFromReader_def
    by (rule decodes_bind | rule decodes_ret | rule decodes_ReadFull | rule ReadStrFromReader_decodes | simp add: assms)+
  then show ?thesis by (simp add: wire_CmdReadLinkStruct_def)
qed

lemma ReadCmdReadLinkStructFromReader_rejects:
  assumes "length (ReadLink_Path d) \<le> 0xffff"
  shows "rejects ReadCmdReadLinkStructFromReader (wire_CmdReadLinkStruct d)"
proof -
  have "rejects ReadCmdReadLinkStructFromReader ((wire_str (ReadLink_Path d)) @ [])"
    unfolding ReadCmdReadLinkStructFromReader_def
    by (rule rejects_bind | rule rejects_ret | rule rejects_ReadFull | rule ReadStrFromReader_rejects | rule decodes_ReadFull | rule ReadStrFromReader_decodes | simp add: assms)+
  then show ?thesis by (simp add: wire_CmdReadLinkStruct_def)
qed

lemma ReadCmdWriteStructFromReader_decodes: "decodes_all ReadCmdWriteStructFromReader (wire_CmdWriteStruct d) d"
proof -
  have "decodes_all ReadCmdWriteStructFromReader ((PutUint32 (Write_FD d)) @ (Write_Data d)) d"
    unfolding ReadCmdWriteStructFromReader_def
    by (rule decodes_all_bind | rule decodes_all_bind_ret | rule decodes_all_ReadAll | rule decodes_all_readAllToBuffer | rule decodes_ReadFull | simp)+
  then show ?thesis by (simp add: wire_CmdWriteStruct_def)
qed

lemma ReadCmdWriteStructFromReaderWithBuffer_decodes:
  assumes "length (Write_Data d) \<le> cap"
  shows "decodes_all (ReadCmdWriteStructFromReaderWithBuffer cap) (wire_CmdWriteStruct d) d"
proof -
  have "decodes_all (ReadCmdWriteStructFromReaderWithBuffer cap) ((PutUint32 (Write_FD d)) @ (Write_Data d)) d"
    unfolding ReadCmdWriteStructFromReaderWithBuffer_def
    by (rule decodes_all_bind | rule decodes_all_bind_ret | rule decodes_all_ReadAll | rule decodes_all_readAllToBuffer | rule decodes_ReadFull | simp add: assms)+
  then show ?thesis by (simp add: wire_CmdWriteStruct_def)
qed

lemma ReadCmdSeekStructFromReader_decodes: "decodes ReadCmdSeekStructFromReader (wire_CmdSeekStruct d) d"
proof -
  have "decodes ReadCmdSeekStructFromReader ((PutUint32 (Seek_FD d) @ PutUint8 (Seek_Whence d) @ PutUint64 (Seek_Offset d)) @ []) d"
    unfolding ReadCmdSeekStructFromReader_def
    by (rule decodes_bind | rule decodes_ret | rule decodes_ReadFull | simp)+
  then show ?thesis by (simp add: wire_CmdSeekStruct_def)
qed

lemma ReadCmdSeekStructFromReader_rejects: "rejects ReadCmdSeekStructFromReader (wire_CmdSeekStruct d)"
proof -
  have "rejects ReadCmdSeekStructFromReader ((PutUint32 (Seek_FD d) @ PutUint8 (Seek_Whence d) @ PutUint64 (Seek_Offset d)) @ [])"
    unfolding ReadCmdSeekStructFromReader_def
    by (rule rejects_bind | rule rejects_ret | rule rejects_ReadFull | rule decodes_ReadFull | simp)+
  then show ?thesis by (simp add: wire_CmdSeekStruct_def)
qed

lemma ReadCmdAllocateStructFromReader_decodes: "decodes ReadCmdAllocateStructFromReader (wire_CmdAllocateStruct d) d"
proof -
  have "decodes ReadCmdAllocateStructFromReader ((PutUint32 (Allocate_FD d) @ PutUint32 (Allocate_Flag d) @ PutUint64 (Allocate_Offset d) @ PutUint64 (Allocate_Size d)) @ []) d"
    unfolding ReadCmdAllocateStructFromReader_def
    by (rule decodes_bind | rule decodes_ret | rule decodes_ReadFull | simp)+
  then show ?thesis by (simp add: wire_CmdAllocateStruct_def)
qed

lemma ReadCmdAllocateStructFromReader_rejects: "rejects ReadCmdAllocateStructFromReader (wire_CmdAllocateStruct d)"
proof -
  have "rejects ReadCmdAllocateStructFromReader ((PutUint32 (Allocate_FD d) @ PutUint32 (Allocate_Flag d) @ PutUint64 (Allocate_Offset d) @ PutUint64 (Allocate_Size d)) @ [])"
    unfolding ReadCmdAllocateStructFromReader_def
    by (rule rejects_bind | rule rejects_ret | rule rejects_ReadFull | rule decodes_ReadFull | simp)+
  then show ?thesis by (simp add: wire_CmdAllocateStruct_def)
qed

lemma ReadCmdGetAttrStructFromReader_decodes:
  assumes "length (GetAttr_Path d) \<le> 0xffff"
  shows "decodes ReadCmdGetAttrStructFromReader (wire_CmdGetAttrStruct d) d"
proof -
  have "decodes ReadCmdGetAttrStructFromReader ((wire_str (GetAttr_Path d)) @ []) d"
    unfolding ReadCmdGetAttrStructFromReader_def
    by (rule decodes_bind | rule decodes_ret | rule decodes_ReadFull | rule ReadStrFromReader_decodes | simp add: assms)+
  then show ?thesis by (simp add: wire_CmdGetAttrStruct_def)
qed

lemma ReadCmdGetAttrStructFromReader_rejects:
  assumes "length (GetAttr_Path d) \<le> 0xffff"
  shows "rejects ReadCmdGetAttrStructFromReader (wire_CmdGetAttrStruct d)"
proof -
  have "rejects ReadCmdGetAttrStructFromReader ((wire_str (GetAttr_Path d)) @ [])"
    unfolding ReadCmdGetAttrStructFromReader_def
    by (rule rejects_bind | rule rejects_ret | rule rejects_ReadFull | rule ReadStrFromReader_rejects | rule decodes_ReadFull | rule ReadStrFromReader_decodes | simp add: assms)+
  then show ?thesis by (simp add: wire_CmdGetAttrStruct_def)
qed

lemma ReadCmdSetAttrStructFromReader_decodes:
  assumes "length (SetAttr_Path d) \<le> 0xffff"
  shows "decodes ReadCmdSetAttrStructFromReader (wire_CmdSetAttrStruct d) d"
proof -
  have "decodes ReadCmdSetAttrStructFromReader ((wire_str (SetAttr_Path d)) @ (PutUint8 (SetAttr_Flag d)) @ (wire_FileInfo (SetAttr_FI d)) @ []) d"
    unfolding ReadCmdSetAttrStructFromReader_def
    by (rule decodes_bind | rule decodes_ret | rule decodes_ReadFull | rule ReadStrFromReader_decodes | rule ReadFileInfoFromReader_decodes | simp add: assms)+
  then show ?thesis by (simp add: wire_CmdSetAttrStruct_def)
qed

lemma ReadCmdSetAttrStructFromReader_rejects:
  assumes "length (SetAttr_Path d) \<le> 0xffff"
  shows "rejects ReadCmdSetAttrStructFromReader (wire_CmdSetAttrStruct d)"
proof -
  have "rejects ReadCmdSetAttrStructFromReader ((wire_str (SetAttr_Path d)) @ (PutUint8 (SetAttr_Flag d)) @ (wire_FileInfo (SetAttr_FI d)) @ [])"
    unfolding ReadCmdSetAttrStructFromReader_def
    by (rule rejects_bind | rule rejects_ret | rule rejects_ReadFull | rule ReadStrFromReader_rejects | rule ReadFileInfoFromReader_rejects | rule decodes_ReadFull | rule ReadStrFromReader_decodes | rule ReadFileInfoFromReader_decodes | simp add: assms)+
  then show ?thesis by (simp add: wire_CmdSetAttrStruct_def)
qed

lemma ReadCmdSyncStructFromReader_decodes: "decodes ReadCmdSyncStructFromReader (wire_CmdSyncStruct d) d"
proof -
  have "decodes ReadCmdSyncStructFromReader ((PutUint32 (Sync_FD d)) @ []) d"
    unfolding ReadCmdSyncStructFromReader_def
    by (rule decodes_bind | rule decodes_ret | rule decodes_ReadFull | simp)+
  then show ?thesis by (simp add: wire_CmdSyncStruct_def)
qed

lemma ReadCmdSyncStructFromReader_rejects: "rejects ReadCmdSyncStructFromReader (wire_CmdSyncStruct d)"
proof -
  have "rejects ReadCmdSyncStructFromReader ((PutUint32 (Sync_FD d)) @ [])"
    unfolding ReadCmdSyncStructFromReader_def
    by (rule rejects_bind | rule rejects_ret | rule rejects_ReadFull | rule decodes_ReadFull | simp)+
  then show ?thesis by (simp add: wire_CmdSyncStruct_def)
qed

lemma ReadCmdMkdirStructFromReader_decodes:
  assumes "length (Mkdir_Path d) \<le> 0xffff"
  shows "decodes ReadCmdMkdirStructFromReader (wire_CmdMkdirStruct d) d"
proof -
  have "decodes ReadCmdMkdirStructFromReader ((wire_str (Mkdir_Path d)) @ (PutUint32 (Mkdir_Mode d)) @ []) d"
    unfolding ReadCmdMkdirStructFromReader_def
    by (rule decodes_bind | rule decodes_ret | rule decodes_ReadFull | rule ReadStrFromReader_decodes | simp add: assms)+
  then show ?thesis by (simp add: wire_CmdMkdirStruct_def)
qed

lemma ReadCmdMkdirStructFromReader_rejects:
  assumes "length (Mkdir_Path d) \<le> 0xffff"
  shows "rejects ReadCmdMkdirStructFromReader (wire_CmdMkdirStruct d)"
proof -
  have "rejects ReadCmdMkdirStructFromReader ((wire_str (Mkdir_Path d)) @ (PutUint32 (Mkdir_Mode d)) @ [])"
    unfolding ReadCmdMkdirStructFromReader_def
    by (rule rejects_bind | rule rejects_ret | rule rejects_ReadFull | rule ReadStrFromReader_rejects | rule decodes_ReadFull | rule ReadStrFromReader_decodes | simp add: assms)+
  then show ?thesis by (simp add: wire_CmdMkdirStruct_def)
qed

lemma ReadCmdSymLinkStructFromReader_decodes:
  assumes "length (SymLink_TargetPath d) \<le> 0xffff" "length (SymLink_FilePath d) \<le> 0xffff"
  shows "decodes ReadCmdSymLinkStructFromReader (wire_CmdSymLinkStruct d) d"
proof -
  have "decodes ReadCmdSymLinkStructFromReader ((wire_str (SymLink_TargetPath d)) @ (wire_str (SymLink_FilePath d)) @ []) d"
    unfolding ReadCmdSymLinkStructFromReader_def
    by (rule decodes_bind | rule decodes_ret | rule decodes_ReadFull | rule ReadStrFromReader_decodes | simp add: assms)+
  then show ?thesis by (simp add: wire_CmdSymLinkStruct_def)
qed

lemma ReadCmdSymLinkStructFromReader_rejects:
  assumes "length (SymLink_TargetPath d) \<le> 0xffff" "length (SymLink_FilePath d) \<le> 0xffff"
  shows "rejects ReadCmdSymLinkStructFromReader (wire_CmdSymLinkStruct d)"
proof -
  have "rejects ReadCmdSymLinkStructFromReader ((wire_str (SymLink_TargetPath d)) @ (wire_str (SymLink_FilePath d)) @ [])"
    unfolding ReadCmdSymLinkStructFromReader_def
    by (rule rejects_bind | rule rejects_ret | rule rejects_ReadFull | rule ReadStrFromReader_rejects | rule decodes_ReadFull | rule ReadStrFromReader_decodes | simp add: assms)+
  then show ?thesis by (simp add: wire_CmdSymLinkStruct_def)
qed

lemma ReadCmdRemoveStructFromReader_decodes:
  assumes "length (Remove_Path d) \<le> 0xffff"
  shows "decodes ReadCmdRemoveStructFromReader (wire_CmdRemoveStruct d) d"
proof -
  have "decodes ReadCmdRemoveStructFromReader ((wire_str (Remove_Path d)) @ []) d"
    unfolding ReadCmdRemoveStructFromReader_def
    by (rule decodes_bind | rule decodes_ret | rule decodes_ReadFull | rule ReadStrFromReader_decodes | simp add: assms)+
  then show ?thesis by (simp add: wire_CmdRemoveStruct_def)
qed

lemma ReadCmdRemoveStructFromReader_rejects:
  assumes "length (Remove_Path d) \<le> 0xffff"
  shows "rejects ReadCmdRemoveStructFromReader (wire_CmdRemoveStruct d)"
proof -
  have "rejects ReadCmdRemoveStructFromReader ((wire_str (Remove_Path d)) @ [])"
    unfolding ReadCmdRemoveStructFromReader_def
    by (rule rejects_bind | rule rejects_ret | rule rejects_ReadFull | rule ReadStrFromReader_rejects | rule decodes_ReadFull | rule ReadStrFromReader_decodes | simp add: assms)+
  then show ?thesis by (simp add: wire_CmdRemoveStruct_def)
qed

lemma ReadCmdRmDirStructFromReader_decodes:
  assumes "length (RmDir_Path d) \<le> 0xffff"
  shows "decodes ReadCmdRmDirStructFromReader (wire_CmdRmDirStruct d) d"
proof -
  have "decodes ReadCmdRmDirStructFromReader ((wire_str (RmDir_Path d)) @ []) d"
    unfolding ReadCmdRmDirStructFromReader_def
    by (rule decodes_bind | rule decodes_ret | rule decodes_ReadFull | rule ReadStrFromReader_decodes | simp add: assms)+
  then show ?thesis by (simp add: wire_CmdRmDirStruct_def)
qed

lemma ReadCmdRmDirStructFromReader_rejects:
  assumes "length (RmDir_Path d) \<le> 0xffff"
  shows "rejects ReadCmdRmDirStructFromReader (wire_CmdRmDirStruct d)"
proof -
  have "rejects ReadCmdRmDirStructFromReader ((wire_str (RmDir_Path d)) @ [])"
    unfolding ReadCmdRmDirStructFromReader_def
    by (rule rejects_bind | rule rejects_ret | rule rejects_ReadFull | rule ReadStrFromReader_rejects | rule decodes_ReadFull | rule ReadStrFromReader_decodes | simp add: assms)+
  then show ?thesis by (simp add: wire_CmdRmDirStruct_def)
qed

lemma ReadCmdFsStatStructFromReader_decodes:
  assumes "length (FsStat_Path d) \<le> 0xffff"
  shows "decodes ReadCmdFsStatStructFromReader (wire_CmdFsStatStruct d) d"
proof -
  have "decodes ReadCmdFsStatStructFromReader ((wire_str (FsStat_Path d)) @ []) d"
    unfolding ReadCmdFsStatStructFromReader_def
    by (rule decodes_bind | rule decodes_ret | rule decodes_ReadFull | rule ReadStrFromReader_decodes | simp add: assms)+
  then show ?thesis by (simp add: wire_CmdFsStatStruct_def)
qed

lemma ReadCmdFsStatStructFromReader_rejects:
  assumes "length (FsStat_Path d) \<le> 0xffff"
  shows "rejects ReadCmdFsStatStructFromReader (wire_CmdFsStatStruct d)"
proof -
  have "rejects ReadCmdFsStatStructFromReader ((wire_str (FsStat_Path d)) @ [])"
    unfolding ReadCmdFsStatStructFromReader_def
    by (rule rejects_bind | rule rejects_ret | rule rejects_ReadFull | rule ReadStrFromReader_rejects | rule decodes_ReadFull | rule ReadStrFromReader_decodes | simp add: assms)+
  then show ?thesis by (simp add: wire_CmdFsStatStruct_def)
qed

lemma ReadCmdReadAtStructFromReader_decodes: "decodes ReadCmdReadAtStructFromReader (wire_CmdReadAtStruct d) d"
proof -
  have "decodes ReadCmdReadAtStructFromReader ((PutUint32 (ReadAt_FD d) @ PutUint64 (ReadAt_Offset d) @ PutUint64 (ReadAt_Size d)) @ []) d"
    unfolding ReadCmdReadAtStructFromReader_def
    by (rule decodes_bind | rule decodes_ret | rule decodes_ReadFull | simp)+
  then show ?thesis by (simp add: wire_CmdReadAtStruct_def)
qed

lemma ReadCmdReadAtStructFromReader_rejects: "rejects ReadCmdReadAtStructFromReader (wire_CmdReadAtStruct d)"
proof -
  have "rejects ReadCmdReadAtStructFromReader ((PutUint32 (ReadAt_FD d) @ PutUint64 (ReadAt_Offset d) @ PutUint64 (ReadAt_Size d)) @ [])"
    unfolding ReadCmdReadAtStructFromReader_def
    by (rule rejects_bind | rule rejects_ret | rule rejects_ReadFull | rule decodes_ReadFull | simp)+
  then show ?thesis by (simp add: wire_CmdReadAtStruct_def)
qed

lemma ReadCmdWriteAtStructFromReader_decodes: "decodes_all ReadCmdWriteAtStructFromReader (wire_CmdWriteAtStruct d) d"
proof -
  have "decodes_all ReadCmdWriteAtStructFromReader ((PutUint32 (WriteAt_FD d) @ PutUint64 (WriteAt_Offset d)) @ (WriteAt_Data d)) d"
    unfolding ReadCmdWriteAtStructFromReader_def
    by (rule decodes_all_bind | rule decodes_all_bind_ret | rule decodes_all_ReadAll | rule decodes_all_readAllToBuffer | rule decodes_ReadFull | simp)+
  then show ?thesis by (simp add: wire_CmdWriteAtStruct_def)
qed

lemma ReadCmdWriteAtStructFromReaderWithBuffer_decodes:
  assumes "length (WriteAt_Data d) \<le> cap"
  shows "decodes_all (ReadCmdWriteAtStructFromReaderWithBuffer cap) (wire_CmdWriteAtStruct d) d"
proof -
  have "decodes_all (ReadCmdWriteAtStructFromReaderWithBuffer cap) ((PutUint32 (WriteAt_FD d) @ PutUint64 (WriteAt_Offset d)) @ (WriteAt_Data d)) d"
    unfolding ReadCmdWriteAtStructFromReaderWithBuffer_def
    by (rule decodes_all_bind | rule decodes_all_bind_ret | rule decodes_all_ReadAll | rule decodes_all_readAllToBuffer | rule decodes_ReadFull | simp add: assms)+
  then show ?thesis by (simp add: wire_CmdWriteAtStruct_def)
qed

lemma ReadCmdRenameStructFromReader_decodes:
  assumes "length (Rename_OldPath d) \<le> 0xffff" "length (Rename_NewPath d) \<le> 0xffff"
  shows "decodes ReadCmdRenameStructFromReader (wire_CmdRenameStruct d) d"
proof -
  have "decodes ReadCmdRenameStructFromReader ((wire_str (Rename_OldPath d)) @ (wire_str (Rename_NewPath d)) @ (PutUint32 (Rename_Flag d)) @ []) d"
    unfolding ReadCmdRenameStructFromReader_def
    by (rule decodes_bind | rule decodes_ret | rule decodes_ReadFull | rule ReadStrFromReader_decodes | simp add: assms)+
  then show ?thesis by (simp add: wire_CmdRenameStruct_def)
qed

lemma ReadCmdRenameStructFromReader_rejects:
  assumes "length (Rename_OldPath d) \<le> 0xffff" "length (Rename_NewPath d) \<le> 0xffff"
  shows "rejects ReadCmdRenameStructFromReader (wire_CmdRenameStruct d)"
proof -
  have "rejects ReadCmdRenameStructFromReader ((wire_str (Rename_OldPath d)) @ (wire_str (Rename_NewPath d)) @ (PutUint32 (Rename_Flag d)) @ [])"
    unfolding ReadCmdRenameStructFromReader_def
    by (rule rejects_bind | rule rejects_ret | rule rejects_ReadFull | rule ReadStrFromReader_rejects | rule decodes_ReadFull | rule ReadStrFromReader_decodes | simp add: assms)+
  then show ?thesis by (simp add: wire_CmdRenameStruct_def)
qed

lemma ReadCmdCopyFileRangeStructFromReader_decodes: "decodes ReadCmdCopyFileRangeStructFromReader (wire_CmdCopyFileRangeStruct d) d"
proof -
  have "decodes ReadCmdCopyFileRangeStructFromReader ((PutUint32 (CopyFileRange_SrcFD d) @ PutUint32 (CopyFileRange_DstFD d) @ PutUint64 (CopyFileRange_SrcOffset d) @ PutUint64 (CopyFileRange_DstOffset d) @ PutUint64 (CopyFileRange_Size d)) @ []) d"
    unfolding ReadCmdCopyFileRangeStructFromReader_def
    by (rule decodes_bind | rule decodes_ret | rule decodes_ReadFull | simp)+
  then show ?thesis by (simp add: wire_CmdCopyFileRangeStruct_def)
qed

lemma ReadCmdCopyFileRangeStructFromReader_rejects: "rejects ReadCmdCopyFileRangeStructFromReader (wire_CmdCopyFileRangeStruct d)"
proof -
  have "rejects ReadCmdCopyFileRangeStructFromReader ((PutUint32 (CopyFileRange_SrcFD d) @ PutUint32 (CopyFileRange_DstFD d) @ PutUint64 (CopyFileRange_SrcOffset d) @ PutUint64 (CopyFileRange_DstOffset d) @ PutUint64 (CopyFileRange_Size d)) @ [])"
    unfolding ReadCmdCopyFileRangeStructFromReader_def
    by (rule rejects_bind | rule rejects_ret | rule rejects_ReadFull | rule decodes_ReadFull | simp)+
  then show ?thesis by (simp add: wire_CmdCopyFileRangeStruct_def)
qed

lemma ReadCmdCloneFileRangeStructFromReader_decodes: "decodes ReadCmdCloneFileRangeStructFromReader (wire_CmdCloneFileRangeStruct d) d"
proof -
  have "decodes ReadCmdCloneFileRangeStructFromReader ((PutUint32 (CloneFileRange_SrcFD d) @ PutUint32 (CloneFileRange_DstFD d) @ PutUint64 (CloneFileRange_SrcOffset d) @ PutUint64 (CloneFileRange_DstOffset d) @ PutUint64 (CloneFileRange_Size d)) @ []) d"
    unfolding ReadCmdCloneFileRangeStructFromReader_def
    by (rule decodes_bind | rule decodes_ret | rule decodes_ReadFull | simp)+
  then show ?thesis by (simp add: wire_CmdCloneFileRangeStruct_def)
qed

lemma ReadCmdCloneFileRangeStructFromReader_rejects: "rejects ReadCmdCloneFileRangeStructFromReader (wire_CmdCloneFileRangeStruct d)"
proof -
  have "rejects ReadCmdCloneFileRangeStructFromReader ((PutUint32 (CloneFileRange_SrcFD d) @ PutUint32 (CloneFileRange_DstFD d) @ PutUint64 (CloneFileRange_SrcOffset d) @ PutUint64 (CloneFileRange_DstOffset d) @ PutUint64 (CloneFileRange_Size d)) @ [])"
    unfolding ReadCmdCloneFileRangeStructFromReader_def
    by (rule rejects_bind | rule rejects_ret | rule rejects_ReadFull | rule decodes_ReadFull | simp)+
  then show ?thesis by (simp add: wire_CmdCloneFileRangeStruct_def)
qed

lemma ReadCmdSetAttrByFDStructFromReader_decodes: "decodes ReadCmdSetAttrByFDStructFromReader (wire_CmdSetAttrByFDStruct d) d"
proof -
  have "decodes ReadCmdSetAttrByFDStructFromReader ((PutUint32 (SetAttrByFD_FD d) @ PutUint8 (SetAttrByFD_Flag d)) @ (wire_FileInfo (SetAttrByFD_FI d)) @ []) d"
    unfolding ReadCmdSetAttrByFDStructFromReader_def
    by (rule decodes_bind | rule decodes_ret | rule decodes_ReadFull | rule ReadFileInfoFromReader_decodes | simp)+
  then show ?thesis by (simp add: wire_CmdSetAttrByFDStruct_def)
qed

lemma ReadCmdSetAttrByFDStructFromReader_rejects: "rejects ReadCmdSetAttrByFDStructFromReader (wire_CmdSetAttrByFDStruct d)"
proof -
  have "rejects ReadCmdSetAttrByFDStructFromReader ((PutUint32 (SetAttrByFD_FD d) @ PutUint8 (SetAttrByFD_Flag d)) @ (wire_FileInfo (SetAttrByFD_FI d)) @ [])"
    unfolding ReadCmdSetAttrByFDStructFromReader_def
    by (rule rejects_bind | rule rejects_ret | rule rejects_ReadFull | rule ReadFileInfoFromReader_rejects | rule decodes_ReadFull | rule ReadFileInfoFromReader_decodes | simp)+
  then show ?thesis by (simp add: wire_CmdSetAttrByFDStruct_def)
qed

lemma ReadCmdReadDirPlusStructFromReader_decodes:
  assumes "length (ReadDirPlus_Path d) \<le> 0xffff"
  shows "decodes ReadCmdReadDirPlusStructFromReader (wire_CmdReadDirPlusStruct d) d"
proof -
  have "decodes ReadCmdReadDirPlusStructFromReader ((wire_str (ReadDirPlus_Path d)) @ []) d"
    unfolding ReadCmdReadDirPlusStructFromReader_def
    by (rule decodes_bind | rule decodes_ret | rule decodes_ReadFull | rule ReadStrFromReader_decodes | simp add: assms)+
  then show ?thesis by (simp add: wire_CmdReadDirPlusStruct_def)
qed

lemma ReadCmdReadDirPlusStructFromReader_rejects:
  assumes "length (ReadDirPlus_Path d) \<le> 0xffff"
  shows "rejects ReadCmdReadDirPlusStructFromReader (wire_CmdReadDirPlusStruct d)"
proof -
  have "rejects ReadCmdReadDirPlusStructFromReader ((wire_str (ReadDirPlus_Path d)) @ [])"
    unfolding ReadCmdReadDirPlusStructFromReader_def
    by (rule rejects_bind | rule rejects_ret | rule rejects_ReadFull | rule ReadStrFromReader_rejects | rule decodes_ReadFull | rule ReadStrFromReader_decodes | simp add: assms)+
  then show ?thesis by (simp add: wire_CmdReadDirPlusStruct_def)
qed

lemma ReadCmdWriteStreamOpenStructFromReader_decodes: "decodes_all ReadCmdWriteStreamOpenStructFromReader (wire_CmdWriteStreamOpenStruct d) d"
proof -
  have "decodes_all ReadCmdWriteStreamOpenStructFromReader ((PutUint32 (WriteStreamOpen_FD d) @ PutUint64 (WriteStreamOpen_Offset d)) @ (WriteStreamOpen_Data d)) d"
    unfolding ReadCmdWriteStreamOpenStructFromReader_def
    by (rule decodes_all_bind | rule decodes_all_bind_ret | rule decodes_all_ReadAll | rule decodes_all_readAllToBuffer | rule decodes_ReadFull | simp)+
  then show ?thesis by (simp add: wire_CmdWriteStreamOpenStruct_def)
qed

lemma ReadCmdWriteStreamOpenStructFromReaderWithBuffer_decodes:
  assumes "length (WriteStreamOpen_Data d) \<le> cap"
  shows "decodes_all (ReadCmdWriteStreamOpenStructFromReaderWithBuffer cap) (wire_CmdWriteStreamOpenStruct d) d"
proof -
  have "decodes_all (ReadCmdWriteStreamOpenStructFromReaderWithBuffer cap) ((PutUint32 (WriteStreamOpen_FD d) @ PutUint64 (WriteStreamOpen_Offset d)) @ (WriteStreamOpen_Data d)) d"
    unfolding ReadCmdWriteStreamOpenStructFromReaderWithBuffer_def
    by (rule decodes_all_bind | rule decodes_all_bind_ret | rule decodes_all_ReadAll | rule decodes_all_readAllToBuffer | rule decodes_ReadFull | simp add: assms)+
  then show ?thesis by (simp add: wire_CmdWriteStreamOpenStruct_def)
qed

lemma ReadCmdWriteStreamDataStructFromReader_decodes: "decodes_all ReadCmdWriteStreamDataStructFromReader (wire_CmdWriteStreamDataStruct d) d"
proof -
  have "decodes_all ReadCmdWriteStreamDataStructFromReader ((PutUint8 (WriteStreamData_IsEnd d)) @ (WriteStreamData_Data d)) d"
    unfolding ReadCmdWriteStreamDataStructFromReader_def
    by (rule decodes_all_bind | rule decodes_all_bind_ret | rule decodes_all_ReadAll | rule decodes_all_readAllToBuffer | rule decodes_ReadFull | simp)+
  then show ?thesis by (simp add: wire_CmdWriteStreamDataStruct_def)
qed

lemma ReadCmdWriteStreamDataStructFromReaderWithBuffer_decodes:
  assumes "length (WriteStreamData_Data d) \<le> cap"
  shows "decodes_all (ReadCmdWriteStreamDataStructFromReaderWithBuffer cap) (wire_CmdWriteStreamDataStruct d) d"
proof -
  have "decodes_all (ReadCmdWriteStreamDataStructFromReaderWithBuffer cap) ((PutUint8 (WriteStreamData_IsEnd d)) @ (WriteStreamData_Data d)) d"
    unfolding ReadCmdWriteStreamDataStructFromReaderWithBuffer_def
    by (rule decodes_all_bind | rule decodes_all_bind_ret | rule decodes_all_ReadAll | rule decodes_all_readAllToBuffer | rule decodes_ReadFull | simp add: assms)+
  then show ?thesis by (simp add: wire_CmdWriteStreamDataStruct_def)
qed

lemma ReadCmdGetFileLockStructFromReader_decodes: "decodes ReadCmdGetFileLockStructFromReader (wire_CmdGetFileLockStruct d) d"
proof -
  have "decodes ReadCmdGetFileLockStructFromReader ((PutUint32 (GetFileLock_FD d)) @ (wire_FileLockInfo (GetFileLock_FileLock d)) @ []) d"
    unfolding ReadCmdGetFileLockStructFromReader_def
    by (rule decodes_bind | rule decodes_ret | rule decodes_ReadFull | rule ReadFileLockInfoFromReader_decodes | simp)+
  then show ?thesis by (simp add: wire_CmdGetFileLockStruct_def)
qed

lemma ReadCmdGetFileLockStructFromReader_rejects: "rejects ReadCmdGetFileLockStructFromReader (wire_CmdGetFileLockStruct d)"
proof -
  have "rejects ReadCmdGetFileLockStructFromReader ((PutUint32 (GetFileLock_FD d)) @ (wire_FileLockInfo (GetFileLock_FileLock d)) @ [])"
    unfolding ReadCmdGetFileLockStructFromReader_def
    by (rule rejects_bind | rule rejects_ret | rule rejects_ReadFull | rule ReadFileLockInfoFromReader_rejects | rule decodes_ReadFull | rule ReadFileLockInfoFromReader_decodes | simp)+
  then show ?thesis by (simp add: wire_CmdGetFileLockStruct_def)
qed

lemma ReadCmdSetFileLockStructFromReader_decodes: "decodes ReadCmdSetFileLockStructFromReader (wire_CmdSetFileLockStruct d) d"
proof -
  have "decodes ReadCmdSetFileLockStructFromReader ((PutUint32 (SetFileLock_FD d)) @ (wire_FileLockInfo (SetFileLock_FileLock d)) @ []) d"
    unfolding ReadCmdSetFileLockStructFromReader_def
    by (rule decodes_bind | rule decodes_ret | rule decodes_ReadFull | rule ReadFileLockInfoFromReader_decodes | simp)+
  then show ?thesis by (simp add: wire_CmdSetFileLockStruct_def)
qed

lemma ReadCmdSetFileLockStructFromReader_rejects: "rejects ReadCmdSetFileLockStructFromReader (wire_CmdSetFileLockStruct d)"
proof -
  have "rejects ReadCmdSetFileLockStructFromReader ((PutUint32 (SetFileLock_FD d)) @ (wire_FileLockInfo (SetFileLock_FileLock d)) @ [])"
    unfolding ReadCmdSetFileLockStructFromReader_def
    by (rule rejects_bind | rule rejects_ret | rule rejects_ReadFull | rule ReadFileLockInfoFromReader_rejects | rule decodes_ReadFull | rule ReadFileLockInfoFromReader_decodes | simp)+
  then show ?thesis by (simp add: wire_CmdSetFileLockStruct_def)
qed

lemma ReadCmdSetFileLockWaitStructFromReader_decodes: "decodes ReadCmdSetFileLockWaitStructFromReader (wire_CmdSetFileLockWaitStruct d) d"
proof -
  have "decodes ReadCmdSetFileLockWaitStructFromReader ((PutUint32 (SetFileLockWait_FD d)) @ (wire_FileLockInfo (SetFileLockWait_FileLock d)) @ []) d"
    unfolding ReadCmdSetFileLockWaitStructFromReader_def
    by (rule decodes_bind | rule decodes_ret | rule decodes_ReadFull | rule ReadFileLockInfoFromReader_decodes | simp)+
  then show ?thesis by (simp add: wire_CmdSetFileLockWaitStruct_def)
qed

lemma ReadCmdSetFileLockWaitStructFromReader_rejects: "rejects ReadCmdSetFileLockWaitStructFromReader (wire_CmdSetFileLockWaitStruct d)"
proof -
  have "rejects ReadCmdSetFileLockWaitStructFromReader ((PutUint32 (SetFileLockWait_FD d)) @ (wire_FileLockInfo (SetFileLockWait_FileLock d)) @ [])"
    unfolding ReadCmdSetFileLockWaitStructFromReader_def
    by (rule rejects_bind | rule rejects_ret | rule rejects_ReadFull | rule ReadFileLockInfoFromReader_rejects | rule decodes_ReadFull | rule ReadFileLockInfoFromReader_decodes | simp)+
  then show ?thesis by (simp add: wire_CmdSetFileLockWaitStruct_def)
qed

lemma ReadCmdLinkStructFromReader_decodes:
  assumes "length (Link_TargetPath d) \<le> 0xffff" "length (Link_FilePath d) \<le> 0xffff"
  shows "decodes ReadCmdLinkStructFromReader (wire_CmdLinkStruct d) d"
proof -
  have "decodes ReadCmdLinkStructFromReader ((wire_str (Link_TargetPath d)) @ (wire_str (Link_FilePath d)) @ []) d"
    unfolding ReadCmdLinkStructFromReader_def
    by (rule decodes_bind | rule decodes_ret | rule decodes_ReadFull | rule ReadStrFromReader_decodes | simp add: assms)+
  then show ?thesis by (simp add: wire_CmdLinkStruct_def)
qed

lemma ReadCmdLinkStructFromReader_rejects:
  assumes "length (Link_TargetPath d) \<le> 0xffff" "length (Link_FilePath d) \<le> 0xffff"
  shows "rejects ReadCmdLinkStructFromReader (wire_CmdLinkStruct d)"
proof -
  have "rejects ReadCmdLinkStructFromReader ((wire_str (Link_TargetPath d)) @ (wire_str (Link_FilePath d)) @ [])"
    unfolding ReadCmdLinkStructFromReader_def
    by (rule rejects_bind | rule rejects_ret | rule rejects_ReadFull | rule ReadStrFromReader_rejects | rule decodes_ReadFull | rule ReadStrFromReader_decodes | simp add: assms)+
  then show ?thesis by (simp add: wire_CmdLinkStruct_def)
qed

lemma ReadCmdSetXAttrStructFromReader_decodes:
  assumes "length (SetXAttr_Path d) \<le> 0xffff" "length (SetXAttr_Key d) \<le> 0xffff"
  shows "decodes_all ReadCmdSetXAttrStructFromReader (wire_CmdSetXAttrStruct d) d"
proof -
  have "decodes_all ReadCmdSetXAttrStructFromReader ((wire_str (SetXAttr_Path d)) @ (PutUint32 (SetXAttr_Flag d)) @ (wire_str (SetXAttr_Key d)) @ (SetXAttr_Value d)) d"
    unfolding ReadCmdSetXAttrStructFromReader_def
    by (rule decodes_all_bind | rule decodes_all_bind_ret | rule decodes_all_ReadAll | rule decodes_all_readAllToBuffer | rule decodes_ReadFull | rule ReadStrFromReader_decodes | simp add: assms)+
  then show ?thesis by (simp add: wire_CmdSetXAttrStruct_def)
qed

lemma ReadCmdSetXAttrStructFromReaderWithBuffer_decodes:
  assumes "length (SetXAttr_Path d) \<le> 0xffff" "length (SetXAttr_Key d) \<le> 0xffff" "length (SetXAttr_Value d) \<le> cap"
  shows "decodes_all (ReadCmdSetXAttrStructFromReaderWithBuffer cap) (wire_CmdSetXAttrStruct d) d"
proof -
  have "decodes_all (ReadCmdSetXAttrStructFromReaderWithBuffer cap) ((wire_str (SetXAttr_Path d)) @ (PutUint32 (SetXAttr_Flag d)) @ (wire_str (SetXAttr_Key d)) @ (SetXAttr_Value d)) d"
    unfolding ReadCmdSetXAttrStructFromReaderWithBuffer_def
    by (rule decodes_all_bind | rule decodes_all_bind_ret | rule decodes_all_ReadAll | rule decodes_all_readAllToBuffer | rule decodes_ReadFull | rule ReadStrFromReader_decodes | simp add: assms)+
  then show ?thesis by (simp add: wire_CmdSetXAttrStruct_def)
qed

lemma ReadCmdGetXAttrStructFromReader_decodes:
  assumes "length (GetXAttr_Path d) \<le> 0xffff" "length (GetXAttr_Key d) \<le> 0xffff"
  shows "decodes ReadCmdGetXAttrStructFromReader (wire_CmdGetXAttrStruct d) d"
proof -
  have "decodes ReadCmdGetXAttrStructFromReader ((wire_str (GetXAttr_Path d)) @ (wire_str (GetXAttr_Key d)) @ (PutUint32 (GetXAttr_Mode d)) @ []) d"
    unfolding ReadCmdGetXAttrStructFromReader_def
    by (rule decodes_bind | rule decodes_ret | rule decodes_ReadFull | rule ReadStrFromReader_decodes | simp add: assms)+
  then show ?thesis by (simp add: wire_CmdGetXAttrStruct_def)
qed

lemma ReadCmdGetXAttrStructFromReader_rejects:
  assumes "length (GetXAttr_Path d) \<le> 0xffff" "length (GetXAttr_Key d) \<le> 0xffff"
  shows "rejects ReadCmdGetXAttrStructFromReader (wire_CmdGetXAttrStruct d)"
proof -
  have "rejects ReadCmdGetXAttrStructFromReader ((wire_str (GetXAttr_Path d)) @ (wire_str (GetXAttr_Key d)) @ (PutUint32 (GetXAttr_Mode d)) @ [])"
    unfolding ReadCmdGetXAttrStructFromReader_def
    by (rule rejects_bind | rule rejects_ret | rule rejects_ReadFull | rule ReadStrFromReader_rejects | rule decodes_ReadFull | rule ReadStrFromReader_decodes | simp add: assms)+
  then show ?thesis by (simp add: wire_CmdGetXAttrStruct_def)
qed

lemma ReadCmdListXAttrStructFromReader_decodes:
  assumes "length (ListXAttr_Path d) \<le> 0xffff"
  shows "decodes ReadCmdListXAttrStructFromReader (wire_CmdListXAttrStruct d) d"
proof -
  have "decodes ReadCmdListXAttrStructFromReader ((wire_str (ListXAttr_Path d)) @ (PutUint32 (ListXAttr_Mode d)) @ []) d"
    unfolding ReadCmdListXAttrStructFromReader_def
    by (rule decodes_bind | rule decodes_ret | rule decodes_ReadFull | rule ReadStrFromReader_decodes | simp add: assms)+
  then show ?thesis by (simp add: wire_CmdListXAttrStruct_def)
qed

lemma ReadCmdListXAttrStructFromReader_rejects:
  assumes "length (ListXAttr_Path d) \<le> 0xffff"
  shows "rejects ReadCmdListXAttrStructFromReader (wire_CmdListXAttrStruct d)"
proof -
  have "rejects ReadCmdListXAttrStructFromReader ((wire_str (ListXAttr_Path d)) @ (PutUint32 (ListXAttr_Mode d)) @ [])"
    unfolding ReadCmdListXAttrStructFromReader_def
    by (rule rejects_bind | rule rejects_ret | rule rejects_ReadFull | rule ReadStrFromReader_rejects | rule decodes_ReadFull | rule ReadStrFromReader_decodes | simp add: assms)+
  then show ?thesis by (simp add: wire_CmdListXAttrStruct_def)
qed

lemma ReadCmdRemoveXAttrStructFromReader_decodes:
  assumes "length (RemoveXAttr_Path d) \<le> 0xffff" "length (RemoveXAttr_Key d) \<le> 0xffff"
  shows "decodes ReadCmdRemoveXAttrStructFromReader (wire_CmdRemoveXAttrStruct d) d"
proof -
  have "decodes ReadCmdRemoveXAttrStructFromReader ((wire_str (RemoveXAttr_Path d)) @ (wire_str (RemoveXAttr_Key d)) @ (PutUint32 (RemoveXAttr_Mode d)) @ []) d"
    unfolding ReadCmdRemoveXAttrStructFromReader_def
    by (rule decodes_bind | rule decodes_ret | rule decodes_ReadFull | rule ReadStrFromReader_decodes | simp add: assms)+
  then show ?thesis by (simp add: wire_CmdRemoveXAttrStruct_def)
qed

lemma ReadCmdRemoveXAttrStructFromReader_rejects:
  assumes "length (RemoveXAttr_Path d) \<le> 0xffff" "length (RemoveXAttr_Key d) \<le> 0xffff"
  shows "rejects ReadCmdRemoveXAttrStructFromReader (wire_CmdRemoveXAttrStruct d)"
proof -
  have "rejects ReadCmdRemoveXAttrStructFromReader ((wire_str (RemoveXAttr_Path d)) @ (wire_str (RemoveXAttr_Key d)) @ (PutUint32 (RemoveXAttr_Mode d)) @ [])"
    unfolding ReadCmdRemoveXAttrStructFromReader_def
    by (rule rejects_bind | rule rejects_ret | rule rejects_ReadFull | rule ReadStrFromReader_rejects | rule decodes_ReadFull | rule ReadStrFromReader_decodes | simp add: assms)+
  then show ?thesis by (simp add: wire_CmdRemoveXAttrStruct_def)
qed

lemma ReadRspErrorFromReader_decodes:
  assumes "length (RspError_Desc d) \<le> 0xffff"
  shows "decodes ReadRspErrorFromReader (wire_RspError d) d"
proof -
  have "decodes ReadRspErrorFromReader ((wire_str (RspError_Desc d)) @ []) d"
    unfolding ReadRspErrorFromReader_def
    by (rule decodes_bind | rule decodes_ret | rule decodes_ReadFull | rule ReadStrFromReader_decodes | simp add: assms)+
  then show ?thesis by (simp add: wire_RspError_def)
qed

lemma ReadRspErrorFromReader_rejects:
  assumes "length (RspError_Desc d) \<le> 0xffff"
  shows "rejects ReadRspErrorFromReader (wire_RspError d)"
proof -
  have "rejects ReadRspErrorFromReader ((wire_str (RspError_Desc d)) @ [])"
    unfolding ReadRspErrorFromReader_def
    by (rule rejects_bind | rule rejects_ret | rule rejects_ReadFull | rule ReadStrFromReader_rejects | rule decodes_ReadFull | rule ReadStrFromReader_decodes | simp add: assms)+
  then show ?thesis by (simp add: wire_RspError_def)
qed

lemma ReadRspOpenFromReader_decodes: "decodes ReadRspOpenFromReader (wire_RspOpen d) d"
proof -
  have "decodes ReadRspOpenFromReader ((PutUint32 (RspOpen_FD d)) @ []) d"
    unfolding ReadRspOpenFromReader_def
    by (rule decodes_bind | rule decodes_ret | rule decodes_ReadFull | simp)+
  then show ?thesis by (simp add: wire_RspOpen_def)
qed

lemma ReadRspOpenFromReader_rejects: "rejects ReadRspOpenFromReader (wire_RspOpen d)"
proof -
  have "rejects ReadRspOpenFromReader ((PutUint32 (RspOpen_FD d)) @ [])"
    unfolding ReadRspOpenFromReader_def
    by (rule rejects_bind | rule rejects_ret | rule rejects_ReadFull | rule decodes_ReadFull | simp)+
  then show ?thesis by (simp add: wire_RspOpen_def)
qed

lemma ReadRspReadLinkFromReader_decodes:
  assumes "length (RspReadLink_TargetPath d) \<le> 0xffff"
  shows "decodes ReadRspReadLinkFromReader (wire_RspReadLink d) d"
proof -
  have "decodes ReadRspReadLinkFromReader ((wire_str (RspReadLink_TargetPath d)) @ []) d"
    unfolding ReadRspReadLinkFromReader_def
    by (rule decodes_bind | rule decodes_ret | rule decodes_ReadFull | rule ReadStrFromReader_decodes | simp add: assms)+
  then show ?thesis by (simp add: wire_RspReadLink_def)
qed

lemma ReadRspReadLinkFromReader_rejects:
  assumes "length (RspReadLink_TargetPath d) \<le> 0xffff"
  shows "rejects ReadRspReadLinkFromReader (wire_RspReadLink d)"
proof -
  have "rejects ReadRspReadLinkFromReader ((wire_str (RspReadLink_TargetPath d)) @ [])"
    unfolding ReadRspReadLinkFromReader_def
    by (rule rejects_bind | rule rejects_ret | rule rejects_ReadFull | rule ReadStrFromReader_rejects | rule decodes_ReadFull | rule ReadStrFromReader_decodes | simp add: assms)+
  then show ?thesis by (simp add: wire_RspReadLink_def)
qed

lemma ReadRspWriteFromReader_decodes: "decodes ReadRspWriteFromReader (wire_RspWrite d) d"
proof -
  have "decodes ReadRspWriteFromReader ((PutUint64 (RspWrite_Written d)) @ []) d"
    unfolding ReadRspWriteFromReader_def
    by (rule decodes_bind | rule decodes_ret | rule decodes_ReadFull | simp)+
  then show ?thesis by (simp add: wire_RspWrite_def)
qed

lemma ReadRspWriteFromReader_rejects: "rejects ReadRspWriteFromReader (wire_RspWrite d)"
proof -
  have "rejects ReadRspWriteFromReader ((PutUint64 (RspWrite_Written d)) @ [])"
    unfolding ReadRspWriteFromReader_def
    by (rule rejects_bind | rule rejects_ret | rule rejects_ReadFull | rule decodes_ReadFull | simp)+
  then show ?thesis by (simp add: wire_RspWrite_def)
qed

lemma ReadRspSeekFromReader_decodes: "decodes ReadRspSeekFromReader (wire_RspSeek d) d"
proof -
  have "decodes ReadRspSeekFromReader ((PutUint64 (RspSeek_Offset d)) @ []) d"
    unfolding ReadRspSeekFromReader_def
    by (rule decodes_bind | rule decodes_ret | rule decodes_ReadFull | simp)+
  then show ?thesis by (simp add: wire_RspSeek_def)
qed

lemma ReadRspSeekFromReader_rejects: "rejects ReadRspSeekFromReader (wire_RspSeek d)"
proof -
  have "rejects ReadRspSeekFromReader ((PutUint64 (RspSeek_Offset d)) @ [])"
    unfolding ReadRspSeekFromReader_def
    by (rule rejects_bind | rule rejects_ret | rule rejects_ReadFull | rule decodes_ReadFull | simp)+
  then show ?thesis by (simp add: wire_RspSeek_def)
qed

lemma ReadRspGetAttrFromReader_decodes: "decodes ReadRspGetAttrFromReader (wire_RspGetAttr d) d"
proof -
  have "decodes ReadRspGetAttrFromReader ((wire_FileInfo (RspGetAttr_FI d)) @ []) d"
    unfolding ReadRspGetAttrFromReader_def
    by (rule decodes_bind | rule decodes_ret | rule decodes_ReadFull | rule ReadFileInfoFromReader_decodes | simp)+
  then show ?thesis by (simp add: wire_RspGetAttr_def)
qed

lemma ReadRspGetAttrFromReader_rejects: "rejects ReadRspGetAttrFromReader (wire_RspGetAttr d)"
proof -
  have "rejects ReadRspGetAttrFromReader ((wire_FileInfo (RspGetAttr_FI d)) @ [])"
    unfolding ReadRspGetAttrFromReader_def
    by (rule rejects_bind | rule rejects_ret | rule rejects_ReadFull | rule ReadFileInfoFromReader_rejects | rule decodes_ReadFull | rule ReadFileInfoFromReader_decodes | simp)+
  then show ?thesis by (simp add: wire_RspGetAttr_def)
qed

lemma ReadRspFsStatFromReader_decodes: "decodes ReadRspFsStatFromReader (wire_RspFsStat d) d"
proof -
  have "decodes ReadRspFsStatFromReader ((PutUint64 (RspFsStat_Total d) @ PutUint64 (RspFsStat_Free d) @ PutUint64 (RspFsStat_Available d)) @ []) d"
    unfolding ReadRspFsStatFromReader_def
    by (rule decodes_bind | rule decodes_ret | rule decodes_ReadFull | simp)+
  then show ?thesis by (simp add: wire_RspFsStat_def)
qed

lemma ReadRspFsStatFromReader_rejects: "rejects ReadRspFsStatFromReader (wire_RspFsStat d)"
proof -
  have "rejects ReadRspFsStatFromReader ((PutUint64 (RspFsStat_Total d) @ PutUint64 (RspFsStat_Free d) @ PutUint64 (RspFsStat_Available d)) @ [])"
    unfolding ReadRspFsStatFromReader_def
    by (rule rejects_bind | rule rejects_ret | rule rejects_ReadFull | rule decodes_ReadFull | simp)+
  then show ?thesis by (simp add: wire_RspFsStat_def)
qed

lemma ReadRspWriteAtFromReader_decodes: "decodes ReadRspWriteAtFromReader (wire_RspWriteAt d) d"
proof -
  have "decodes ReadRspWriteAtFromReader ((PutUint64 (RspWriteAt_Written d)) @ []) d"
    unfolding ReadRspWriteAtFromReader_def
    by (rule decodes_bind | rule decodes_ret | rule decodes_ReadFull | simp)+
  then show ?thesis by (simp add: wire_RspWriteAt_def)
qed

lemma ReadRspWriteAtFromReader_rejects: "rejects ReadRspWriteAtFromReader (wire_RspWriteAt d)"
proof -
  have "rejects ReadRspWriteAtFromReader ((PutUint64 (RspWriteAt_Written d)) @ [])"
    unfolding ReadRspWriteAtFromReader_def
    by (rule rejects_bind | rule rejects_ret | rule rejects_ReadFull | rule decodes_ReadFull | simp)+
  then show ?thesis by (simp add: wire_RspWriteAt_def)
qed

lemma ReadRspCopyFileRangeFromReader_decodes: "decodes ReadRspCopyFileRangeFromReader (wire_RspCopyFileRange d) d"
proof -
  have "decodes ReadRspCopyFileRangeFromReader ((PutUint64 (RspCopyFileRange_Copied d)) @ []) d"
    unfolding ReadRspCopyFileRangeFromReader_def
    by (rule decodes_bind | rule decodes_ret | rule decodes_ReadFull | simp)+
  then show ?thesis by (simp add: wire_RspCopyFileRange_def)
qed

lemma ReadRspCopyFileRangeFromReader_rejects: "rejects ReadRspCopyFileRangeFromReader (wire_RspCopyFileRange d)"
proof -
  have "rejects ReadRspCopyFileRangeFromReader ((PutUint64 (RspCopyFileRange_Copied d)) @ [])"
    unfolding ReadRspCopyFileRangeFromReader_def
    by (rule rejects_bind | rule rejects_ret | rule rejects_ReadFull | rule decodes_ReadFull | simp)+
  then show ?thesis by (simp add: wire_RspCopyFileRange_def)
qed

lemma ReadRspWriteStreamCloseFromReader_decodes: "decodes ReadRspWriteStreamCloseFromReader (wire_RspWriteStreamClose d) d"
proof -
  have "decodes ReadRspWriteStreamCloseFromReader ((PutUint64 (RspWriteStreamClose_Written d)) @ []) d"
    unfolding ReadRspWriteStreamCloseFromReader_def
    by (rule decodes_bind | rule decodes_ret | rule decodes_ReadFull | simp)+
  then show ?thesis by (simp add: wire_RspWriteStreamClose_def)
qed

lemma ReadRspWriteStreamCloseFromReader_rejects: "rejects ReadRspWriteStreamCloseFromReader (wire_RspWriteStreamClose d)"
proof -
  have "rejects ReadRspWriteStreamCloseFromReader ((PutUint64 (RspWriteStreamClose_Written d)) @ [])"
    unfolding ReadRspWriteStreamCloseFromReader_def
    by (rule rejects_bind | rule rejects_ret | rule rejects_ReadFull | rule decodes_ReadFull | simp)+
  then show ?thesis by (simp add: wire_RspWriteStreamClose_def)
qed

lemma ReadRspGetFileLockFromReader_decodes: "decodes ReadRspGetFileLockFromReader (wire_RspGetFileLock d) d"
proof -
  have "decodes ReadRspGetFileLockFromReader ((wire_FileLockInfo (RspGetFileLock_FileLock d)) @ []) d"
    unfolding ReadRspGetFileLockFromReader_def
    by (rule decodes_bind | rule decodes_ret | rule decodes_ReadFull | rule ReadFileLockInfoFromReader_decodes | simp)+
  then show ?thesis by (simp add: wire_RspGetFileLock_def)
qed

lemma ReadRspGetFileLockFromReader_rejects: "rejects ReadRspGetFileLockFromReader (wire_RspGetFileLock d)"
proof -
  have "rejects ReadRspGetFileLockFromReader ((wire_FileLockInfo (RspGetFileLock_FileLock d)) @ [])"
    unfolding ReadRspGetFileLockFromReader_def
    by (rule rejects_bind | rule rejects_ret | rule rejects_ReadFull | rule ReadFileLockInfoFromReader_rejects | rule decodes_ReadFull | rule ReadFileLockInfoFromReader_decodes | simp)+
  then show ?thesis by (simp add: wire_RspGetFileLock_def)
qed

end
