(* ===== verification/Wsfs_Codec_Amd64.thy ===== *)
theory Wsfs_Codec_Amd64
  imports Wsfs_Codec
begin

text \<open>
  The encoders and decoders of the amd64 build (\<^verbatim>\<open>struct_amd64.gen.go\<close>, \<^verbatim>\<open>string-amd64.go\<close>). They hand
  the memory of each integer field to the writer or the reader with \<^verbatim>\<open>unsafe.Slice\<close>, one call per
  field, where the portable build assembles fields in a stack buffer. The memory image of an integer
  on amd64 is its little-endian byte string. The lemmas show that every encoder appends, and every
  decoder inverts, the same wire format as the portable build, so the two builds interoperate. The
  size functions of the two files are textually the same and are modelled once.
\<close>

section \<open>Memory images\<close>

definition mem_image :: "nat \<Rightarrow> 'a::len word \<Rightarrow> bytes" where
  "mem_image n x = le_bytes n x"

definition mem_load :: "bytes \<Rightarrow> 'a::len word" where
  "mem_load bs = le_word bs"

lemma mem_image_PutUint [simp]:
  "mem_image 1 (a :: u8) = PutUint8 a" "mem_image (Suc 0) (a :: u8) = PutUint8 a"
  "mem_image 2 (b :: u16) = PutUint16 b"
  "mem_image 4 (c :: u32) = PutUint32 c" "mem_image 8 (d :: u64) = PutUint64 d"
  by (simp_all add: mem_image_def PutUint8_def PutUint16_def PutUint32_def PutUint64_def)

lemma mem_load_PutUint [simp]:
  "mem_load (PutUint8 a) = a" "mem_load (PutUint16 b) = b"
  "mem_load (PutUint32 c) = c" "mem_load (PutUint64 d) = d"
  by (simp_all add: mem_load_def PutUint8_def PutUint16_def PutUint32_def PutUint64_def le_word_le_bytes)

section \<open>Strings\<close>

definition writeStrLenPrefix_amd64 :: "'w writeop \<Rightarrow> u16 \<Rightarrow> 'w wprog" where
  "writeStrLenPrefix_amd64 wr len = wr (mem_image 2 len)"

definition readStrLenPrefix_amd64 :: "u16 rprog" where
  "readStrLenPrefix_amd64 = rbind (io_ReadFull 2) (\<lambda>buf. rret (mem_load buf))"

text \<open>The string functions of \<^verbatim>\<open>string.go\<close>, linked with the amd64 length prefix.\<close>

definition WriteStrToWriter_amd64 :: "'w writeop \<Rightarrow> string \<Rightarrow> 'w wprog" where
  "WriteStrToWriter_amd64 wr s w =
     (if length s > 0xffff then (w, Some ErrStringTooLong)
      else case writeStrLenPrefix_amd64 wr (of_nat (length s)) w of
          (w', Some e) \<Rightarrow> (w', Some e)
        | (w', None) \<Rightarrow> if length s = 0 then (w', None) else wr (bytes_of s) w')"

definition ReadStrFromReader_amd64 :: "string rprog" where
  "ReadStrFromReader_amd64 = rbind readStrLenPrefix_amd64 (\<lambda>n.
     if n = 0 then rret [] else rbind (io_ReadFull (unat n)) (\<lambda>buf. rret (string_of buf)))"

lemma io_ReadFull_length:
  assumes "io_ReadFull n r = (r', Inr bs)"
  shows "length bs = n"
proof (cases "n \<le> length (rd_data r)")
  case True
  then have "rd_data r = take n (rd_data r) @ drop n (rd_data r)" "length (take n (rd_data r)) = n"
    by simp_all
  then show ?thesis
    by (rule io_ReadFull_enough) (use assms True in simp)
next
  case False
  then have "length (rd_data r) < n" by simp
  then show ?thesis
    by (rule io_ReadFull_short) (use assms in simp)
qed

lemma readStrLenPrefix_amd64_eq: "readStrLenPrefix_amd64 = readStrLenPrefix"
proof
  fix r
  obtain r' x where rx: "io_ReadFull 2 r = (r', x)" by fastforce
  show "readStrLenPrefix_amd64 r = readStrLenPrefix r"
    using rx io_ReadFull_length [of 2 r r']
    by (cases x) (simp_all add: readStrLenPrefix_amd64_def readStrLenPrefix_def rbind_def rret_def
      mem_load_def Uint16_def)
qed

lemma ReadStrFromReader_amd64_eq: "ReadStrFromReader_amd64 = ReadStrFromReader"
  by (simp add: ReadStrFromReader_amd64_def ReadStrFromReader_def readStrLenPrefix_amd64_eq)

lemma WriteStrToWriter_amd64_eq: "WriteStrToWriter_amd64 = WriteStrToWriter"
  by (simp add: fun_eq_iff WriteStrToWriter_amd64_def WriteStrToWriter_def
      writeStrLenPrefix_amd64_def writeStrLenPrefix_def)

section \<open>Encoders\<close>

definition WriteTimespecToWriter_amd64 :: "'w writeop \<Rightarrow> Timespec \<Rightarrow> 'w wprog" where
  "WriteTimespecToWriter_amd64 wr d = wseq
     [wr (mem_image 8 (ts_Seconds d)),
      wr (mem_image 8 (ts_Nanoseconds d))]"

definition WriteFileInfoToWriter_amd64 :: "'w writeop \<Rightarrow> FileInfo \<Rightarrow> 'w wprog" where
  "WriteFileInfoToWriter_amd64 wr d = wseq
     [wr (mem_image 8 (fi_Size d)),
      WriteTimespecToWriter_amd64 wr (fi_MTime d),
      wr (mem_image 4 (fi_Mode d)),
      wr (mem_image 1 (fi_Owner d))]"

definition WriteDirentToWriter_amd64 :: "'w writeop \<Rightarrow> Dirent \<Rightarrow> 'w wprog" where
  "WriteDirentToWriter_amd64 wr d = wseq
     [WriteStrToWriter_amd64 wr (de_Name d),
      wr (mem_image 8 (de_Size d)),
      WriteTimespecToWriter_amd64 wr (de_MTime d),
      wr (mem_image 4 (de_Mode d)),
      wr (mem_image 1 (de_Owner d))]"

definition WriteFileLockInfoToWriter_amd64 :: "'w writeop \<Rightarrow> FileLockInfo \<Rightarrow> 'w wprog" where
  "WriteFileLockInfoToWriter_amd64 wr d = wseq
     [wr (mem_image 1 (fl_Type d)),
      wr (mem_image 1 (fl_Whence d)),
      wr (mem_image 8 (fl_Start d)),
      wr (mem_image 8 (fl_Size d))]"

definition WriteCmdOpenStructToWriter_amd64 :: "'w writeop \<Rightarrow> CmdOpenStruct \<Rightarrow> 'w wprog" where
  "WriteCmdOpenStructToWriter_amd64 wr d = wseq
     [WriteStrToWriter_amd64 wr (Open_Path d),
      wr (mem_image 4 (Open_OFlag d)),
      wr (mem_image 4 (Open_FMode d))]"

definition WriteCmdCloseStructToWriter_amd64 :: "'w writeop \<Rightarrow> CmdCloseStruct \<Rightarrow> 'w wprog" where
  "WriteCmdCloseStructToWriter_amd64 wr d = wseq
     [wr (mem_image 4 (Close_FD d))]"

definition WriteCmdReadStructToWriter_amd64 :: "'w writeop \<Rightarrow> CmdReadStruct \<Rightarrow> 'w wprog" where
  "WriteCmdReadStructToWriter_amd64 wr d = wseq
     [wr (mem_image 4 (Read_FD d)),
      wr (mem_image 8 (Read_Size d))]"

definition WriteCmdReadDirStructToWriter_amd64 :: "'w writeop \<Rightarrow> CmdReadDirStruct \<Rightarrow> 'w wprog" where
  "WriteCmdReadDirStructToWriter_amd64 wr d = wseq
     [WriteStrToWriter_amd64 wr (ReadDir_Path d)]"

definition WriteCmdReadLinkStructToWriter_amd64 :: "'w writeop \<Rightarrow> CmdReadLinkStruct \<Rightarrow> 'w wprog" where
  "WriteCmdReadLinkStructToWriter_amd64 wr d = wseq
     [WriteStrToWriter_amd64 wr (ReadLink_Path d)]"

definition WriteCmdWriteStructToWriter_amd64 :: "'w writeop \<Rightarrow> CmdWriteStruct \<Rightarrow> 'w wprog" where
  "WriteCmdWriteStructToWriter_amd64 wr d = wseq
     [wr (mem_image 4 (Write_FD d)),
      wr (Write_Data d)]"

definition WriteCmdSeekStructToWriter_amd64 :: "'w writeop \<Rightarrow> CmdSeekStruct \<Rightarrow> 'w wprog" where
  "WriteCmdSeekStructToWriter_amd64 wr d = wseq
     [wr (mem_image 4 (Seek_FD d)),
      wr (mem_image 1 (Seek_Whence d)),
      wr (mem_image 8 (Seek_Offset d))]"

definition WriteCmdAllocateStructToWriter_amd64 :: "'w writeop \<Rightarrow> CmdAllocateStruct \<Rightarrow> 'w wprog" where
  "WriteCmdAllocateStructToWriter_amd64 wr d = wseq
     [wr (mem_image 4 (Allocate_FD d)),
      wr (mem_image 4 (Allocate_Flag d)),
      wr (mem_image 8 (Allocate_Offset d)),
      wr (mem_image 8 (Allocate_Size d))]"

definition WriteCmdGetAttrStructToWriter_amd64 :: "'w writeop \<Rightarrow> CmdGetAttrStruct \<Rightarrow> 'w wprog" where
  "WriteCmdGetAttrStructToWriter_amd64 wr d = wseq
     [WriteStrToWriter_amd64 wr (GetAttr_Path d)]"

definition WriteCmdSetAttrStructToWriter_amd64 :: "'w writeop \<Rightarrow> CmdSetAttrStruct \<Rightarrow> 'w wprog" where
  "WriteCmdSetAttrStructToWriter_amd64 wr d = wseq
     [WriteStrToWriter_amd64 wr (SetAttr_Path d),
      wr (mem_image 1 (SetAttr_Flag d)),
      WriteFileInfoToWriter_amd64 wr (SetAttr_FI d)]"

definition WriteCmdSyncStructToWriter_amd64 :: "'w writeop \<Rightarrow> CmdSyncStruct \<Rightarrow> 'w wprog" where
  "WriteCmdSyncStructToWriter_amd64 wr d = wseq
     [wr (mem_image 4 (Sync_FD d))]"

definition WriteCmdMkdirStructToWriter_amd64 :: "'w writeop \<Rightarrow> CmdMkdirStruct \<Rightarrow> 'w wprog" where
  "WriteCmdMkdirStructToWriter_amd64 wr d = wseq
     [WriteStrToWriter_amd64 wr (Mkdir_Path d),
      wr (mem_image 4 (Mkdir_Mode d))]"

definition WriteCmdSymLinkStructToWriter_amd64 :: "'w writeop \<Rightarrow> CmdSymLinkStruct \<Rightarrow> 'w wprog" where
  "WriteCmdSymLinkStructToWriter_amd64 wr d = wseq
     [WriteStrToWriter_amd64 wr (SymLink_TargetPath d),
      WriteStrToWriter_amd64 wr (SymLink_FilePath d)]"

definition WriteCmdRemoveStructToWriter_amd64 :: "'w writeop \<Rightarrow> CmdRemoveStruct \<Rightarrow> 'w wprog" where
  "WriteCmdRemoveStructToWriter_amd64 wr d = wseq
     [WriteStrToWriter_amd64 wr (Remove_Path d)]"

definition WriteCmdRmDirStructToWriter_amd64 :: "'w writeop \<Rightarrow> CmdRmDirStruct \<Rightarrow> 'w wprog" where
  "WriteCmdRmDirStructToWriter_amd64 wr d = wseq
     [WriteStrToWriter_amd64 wr (RmDir_Path d)]"

definition WriteCmdFsStatStructToWriter_amd64 :: "'w writeop \<Rightarrow> CmdFsStatStruct \<Rightarrow> 'w wprog" where
  "WriteCmdFsStatStructToWriter_amd64 wr d = wseq
     [WriteStrToWriter_amd64 wr (FsStat_Path d)]"

definition WriteCmdReadAtStructToWriter_amd64 :: "'w writeop \<Rightarrow> CmdReadAtStruct \<Rightarrow> 'w wprog" where
  "WriteCmdReadAtStructToWriter_amd64 wr d = wseq
     [wr (mem_image 4 (ReadAt_FD d)),
      wr (mem_image 8 (ReadAt_Offset d)),
      wr (mem_image 8 (ReadAt_Size d))]"

definition WriteCmdWriteAtStructToWriter_amd64 :: "'w writeop \<Rightarrow> CmdWriteAtStruct \<Rightarrow> 'w wprog" where
  "WriteCmdWriteAtStructToWriter_amd64 wr d = wseq
     [wr (mem_image 4 (WriteAt_FD d)),
      wr (mem_image 8 (WriteAt_Offset d)),
      wr (WriteAt_Data d)]"

definition WriteCmdRenameStructToWriter_amd64 :: "'w writeop \<Rightarrow> CmdRenameStruct \<Rightarrow> 'w wprog" where
  "WriteCmdRenameStructToWriter_amd64 wr d = wseq
     [WriteStrToWriter_amd64 wr (Rename_OldPath d),
      WriteStrToWriter_amd64 wr (Rename_NewPath d),
      wr (mem_image 4 (Rename_Flag d))]"

definition WriteCmdCopyFileRangeStructToWriter_amd64 :: "'w writeop \<Rightarrow> CmdCopyFileRangeStruct \<Rightarrow> 'w wprog" where
  "WriteCmdCopyFileRangeStructToWriter_amd64 wr d = wseq
     [wr (mem_image 4 (CopyFileRange_SrcFD d)),
      wr (mem_image 4 (CopyFileRange_DstFD d)),
      wr (mem_image 8 (CopyFileRange_SrcOffset d)),
      wr (mem_image 8 (CopyFileRange_DstOffset d)),
      wr (mem_image 8 (CopyFileRange_Size d))]"

definition WriteCmdCloneFileRangeStructToWriter_amd64 :: "'w writeop \<Rightarrow> CmdCloneFileRangeStruct \<Rightarrow> 'w wprog" where
  "WriteCmdCloneFileRangeStructToWriter_amd64 wr d = wseq
     [wr (mem_image 4 (CloneFileRange_SrcFD d)),
      wr (mem_image 4 (CloneFileRange_DstFD d)),
      wr (mem_image 8 (CloneFileRange_SrcOffset d)),
      wr (mem_image 8 (CloneFileRange_DstOffset d)),
      wr (mem_image 8 (CloneFileRange_Size d))]"

definition WriteCmdSetAttrByFDStructToWriter_amd64 :: "'w writeop \<Rightarrow> CmdSetAttrByFDStruct \<Rightarrow> 'w wprog" where
  "WriteCmdSetAttrByFDStructToWriter_amd64 wr d = wseq
     [wr (mem_image 4 (SetAttrByFD_FD d)),
      wr (mem_image 1 (SetAttrByFD_Flag d)),
      WriteFileInfoToWriter_amd64 wr (SetAttrByFD_FI d)]"

definition WriteCmdReadDirPlusStructToWriter_amd64 :: "'w writeop \<Rightarrow> CmdReadDirPlusStruct \<Rightarrow> 'w wprog" where
  "WriteCmdReadDirPlusStructToWriter_amd64 wr d = wseq
     [WriteStrToWriter_amd64 wr (ReadDirPlus_Path d)]"

definition WriteCmdWriteStreamOpenStructToWriter_amd64 :: "'w writeop \<Rightarrow> CmdWriteStreamOpenStruct \<Rightarrow> 'w wprog" where
  "WriteCmdWriteStreamOpenStructToWriter_amd64 wr d = wseq
     [wr (mem_image 4 (WriteStreamOpen_FD d)),
      wr (mem_image 8 (WriteStreamOpen_Offset d)),
      wr (WriteStreamOpen_Data d)]"

definition WriteCmdWriteStreamDataStructToWriter_amd64 :: "'w writeop \<Rightarrow> CmdWriteStreamDataStruct \<Rightarrow> 'w wprog" where
  "WriteCmdWriteStreamDataStructToWriter_amd64 wr d = wseq
     [wr (mem_image 1 (WriteStreamData_IsEnd d)),
      wr (WriteStreamData_Data d)]"

definition WriteCmdGetFileLockStructToWriter_amd64 :: "'w writeop \<Rightarrow> CmdGetFileLockStruct \<Rightarrow> 'w wprog" where
  "WriteCmdGetFileLockStructToWriter_amd64 wr d = wseq
     [wr (mem_image 4 (GetFileLock_FD d)),
      WriteFileLockInfoToWriter_amd64 wr (GetFileLock_FileLock d)]"

definition WriteCmdSetFileLockStructToWriter_amd64 :: "'w writeop \<Rightarrow> CmdSetFileLockStruct \<Rightarrow> 'w wprog" where
  "WriteCmdSetFileLockStructToWriter_amd64 wr d = wseq
     [wr (mem_image 4 (SetFileLock_FD d)),
      WriteFileLockInfoToWriter_amd64 wr (SetFileLock_FileLock d)]"

definition WriteCmdSetFileLockWaitStructToWriter_amd64 :: "'w writeop \<Rightarrow> CmdSetFileLockWaitStruct \<Rightarrow> 'w wprog" where
  "WriteCmdSetFileLockWaitStructToWriter_amd64 wr d = wseq
     [wr (mem_image 4 (SetFileLockWait_FD d)),
      WriteFileLockInfoToWriter_amd64 wr (SetFileLockWait_FileLock d)]"

definition WriteCmdLinkStructToWriter_amd64 :: "'w writeop \<Rightarrow> CmdLinkStruct \<Rightarrow> 'w wprog" where
  "WriteCmdLinkStructToWriter_amd64 wr d = wseq
     [WriteStrToWriter_amd64 wr (Link_TargetPath d),
      WriteStrToWriter_amd64 wr (Link_FilePath d)]"

definition WriteCmdSetXAttrStructToWriter_amd64 :: "'w writeop \<Rightarrow> CmdSetXAttrStruct \<Rightarrow> 'w wprog" where
  "WriteCmdSetXAttrStructToWriter_amd64 wr d = wseq
     [WriteStrToWriter_amd64 wr (SetXAttr_Path d),
      wr (mem_image 4 (SetXAttr_Flag d)),
      WriteStrToWriter_amd64 wr (SetXAttr_Key d),
      wr (SetXAttr_Value d)]"

definition WriteCmdGetXAttrStructToWriter_amd64 :: "'w writeop \<Rightarrow> CmdGetXAttrStruct \<Rightarrow> 'w wprog" where
  "WriteCmdGetXAttrStructToWriter_amd64 wr d = wseq
     [WriteStrToWriter_amd64 wr (GetXAttr_Path d),
      WriteStrToWriter_amd64 wr (GetXAttr_Key d),
      wr (mem_image 4 (GetXAttr_Mode d))]"

definition WriteCmdListXAttrStructToWriter_amd64 :: "'w writeop \<Rightarrow> CmdListXAttrStruct \<Rightarrow> 'w wprog" where
  "WriteCmdListXAttrStructToWriter_amd64 wr d = wseq
     [WriteStrToWriter_amd64 wr (ListXAttr_Path d),
      wr (mem_image 4 (ListXAttr_Mode d))]"

definition WriteCmdRemoveXAttrStructToWriter_amd64 :: "'w writeop \<Rightarrow> CmdRemoveXAttrStruct \<Rightarrow> 'w wprog" where
  "WriteCmdRemoveXAttrStructToWriter_amd64 wr d = wseq
     [WriteStrToWriter_amd64 wr (RemoveXAttr_Path d),
      WriteStrToWriter_amd64 wr (RemoveXAttr_Key d),
      wr (mem_image 4 (RemoveXAttr_Mode d))]"

definition WriteRspErrorToWriter_amd64 :: "'w writeop \<Rightarrow> RspError \<Rightarrow> 'w wprog" where
  "WriteRspErrorToWriter_amd64 wr d = wseq
     [WriteStrToWriter_amd64 wr (RspError_Desc d)]"

definition WriteRspOpenToWriter_amd64 :: "'w writeop \<Rightarrow> RspOpen \<Rightarrow> 'w wprog" where
  "WriteRspOpenToWriter_amd64 wr d = wseq
     [wr (mem_image 4 (RspOpen_FD d))]"

definition WriteRspReadLinkToWriter_amd64 :: "'w writeop \<Rightarrow> RspReadLink \<Rightarrow> 'w wprog" where
  "WriteRspReadLinkToWriter_amd64 wr d = wseq
     [WriteStrToWriter_amd64 wr (RspReadLink_TargetPath d)]"

definition WriteRspWriteToWriter_amd64 :: "'w writeop \<Rightarrow> RspWrite \<Rightarrow> 'w wprog" where
  "WriteRspWriteToWriter_amd64 wr d = wseq
     [wr (mem_image 8 (RspWrite_Written d))]"

definition WriteRspSeekToWriter_amd64 :: "'w writeop \<Rightarrow> RspSeek \<Rightarrow> 'w wprog" where
  "WriteRspSeekToWriter_amd64 wr d = wseq
     [wr (mem_image 8 (RspSeek_Offset d))]"

definition WriteRspGetAttrToWriter_amd64 :: "'w writeop \<Rightarrow> RspGetAttr \<Rightarrow> 'w wprog" where
  "WriteRspGetAttrToWriter_amd64 wr d = wseq
     [WriteFileInfoToWriter_amd64 wr (RspGetAttr_FI d)]"

definition WriteRspFsStatToWriter_amd64 :: "'w writeop \<Rightarrow> RspFsStat \<Rightarrow> 'w wprog" where
  "WriteRspFsStatToWriter_amd64 wr d = wseq
     [wr (mem_image 8 (RspFsStat_Total d)),
      wr (mem_image 8 (RspFsStat_Free d)),
      wr (mem_image 8 (RspFsStat_Available d))]"

definition WriteRspWriteAtToWriter_amd64 :: "'w writeop \<Rightarrow> RspWriteAt \<Rightarrow> 'w wprog" where
  "WriteRspWriteAtToWriter_amd64 wr d = wseq
     [wr (mem_image 8 (RspWriteAt_Written d))]"

definition WriteRspCopyFileRangeToWriter_amd64 :: "'w writeop \<Rightarrow> RspCopyFileRange \<Rightarrow> 'w wprog" where
  "WriteRspCopyFileRangeToWriter_amd64 wr d = wseq
     [wr (mem_image 8 (RspCopyFileRange_Copied d))]"

definition WriteRspWriteStreamCloseToWriter_amd64 :: "'w writeop \<Rightarrow> RspWriteStreamClose \<Rightarrow> 'w wprog" where
  "WriteRspWriteStreamCloseToWriter_amd64 wr d = wseq
     [wr (mem_image 8 (RspWriteStreamClose_Written d))]"

definition WriteRspGetFileLockToWriter_amd64 :: "'w writeop \<Rightarrow> RspGetFileLock \<Rightarrow> 'w wprog" where
  "WriteRspGetFileLockToWriter_amd64 wr d = wseq
     [WriteFileLockInfoToWriter_amd64 wr (RspGetFileLock_FileLock d)]"

section \<open>Decoders\<close>

definition ReadTimespecFromReader_amd64 :: "Timespec rprog" where
  "ReadTimespecFromReader_amd64 =
     rbind (io_ReadFull 8) (\<lambda>vSeconds.
     rbind (io_ReadFull 8) (\<lambda>vNanoseconds.
     rret \<lparr>ts_Seconds = mem_load vSeconds, ts_Nanoseconds = mem_load vNanoseconds\<rparr>))"

definition ReadFileInfoFromReader_amd64 :: "FileInfo rprog" where
  "ReadFileInfoFromReader_amd64 =
     rbind (io_ReadFull 8) (\<lambda>vSize.
     rbind ReadTimespecFromReader_amd64 (\<lambda>vMTime.
     rbind (io_ReadFull 4) (\<lambda>vMode.
     rbind (io_ReadFull 1) (\<lambda>vOwner.
     rret \<lparr>fi_Size = mem_load vSize, fi_MTime = vMTime, fi_Mode = mem_load vMode, fi_Owner = mem_load vOwner\<rparr>))))"

definition ReadDirentFromReader_amd64 :: "Dirent rprog" where
  "ReadDirentFromReader_amd64 =
     rbind ReadStrFromReader_amd64 (\<lambda>vName.
     rbind (io_ReadFull 8) (\<lambda>vSize.
     rbind ReadTimespecFromReader_amd64 (\<lambda>vMTime.
     rbind (io_ReadFull 4) (\<lambda>vMode.
     rbind (io_ReadFull 1) (\<lambda>vOwner.
     rret \<lparr>de_Name = vName, de_Size = mem_load vSize, de_MTime = vMTime, de_Mode = mem_load vMode, de_Owner = mem_load vOwner\<rparr>)))))"

definition ReadFileLockInfoFromReader_amd64 :: "FileLockInfo rprog" where
  "ReadFileLockInfoFromReader_amd64 =
     rbind (io_ReadFull 1) (\<lambda>vType.
     rbind (io_ReadFull 1) (\<lambda>vWhence.
     rbind (io_ReadFull 8) (\<lambda>vStart.
     rbind (io_ReadFull 8) (\<lambda>vSize.
     rret \<lparr>fl_Type = mem_load vType, fl_Whence = mem_load vWhence, fl_Start = mem_load vStart, fl_Size = mem_load vSize\<rparr>))))"

definition ReadCmdOpenStructFromReader_amd64 :: "CmdOpenStruct rprog" where
  "ReadCmdOpenStructFromReader_amd64 =
     rbind ReadStrFromReader_amd64 (\<lambda>vPath.
     rbind (io_ReadFull 4) (\<lambda>vOFlag.
     rbind (io_ReadFull 4) (\<lambda>vFMode.
     rret \<lparr>Open_Path = vPath, Open_OFlag = mem_load vOFlag, Open_FMode = mem_load vFMode\<rparr>)))"

definition ReadCmdCloseStructFromReader_amd64 :: "CmdCloseStruct rprog" where
  "ReadCmdCloseStructFromReader_amd64 =
     rbind (io_ReadFull 4) (\<lambda>vFD.
     rret \<lparr>Close_FD = mem_load vFD\<rparr>)"

definition ReadCmdReadStructFromReader_amd64 :: "CmdReadStruct rprog" where
  "ReadCmdReadStructFromReader_amd64 =
     rbind (io_ReadFull 4) (\<lambda>vFD.
     rbind (io_ReadFull 8) (\<lambda>vSize.
     rret \<lparr>Read_FD = mem_load vFD, Read_Size = mem_load vSize\<rparr>))"

definition ReadCmdReadDirStructFromReader_amd64 :: "CmdReadDirStruct rprog" where
  "ReadCmdReadDirStructFromReader_amd64 =
     rbind ReadStrFromReader_amd64 (\<lambda>vPath.
     rret \<lparr>ReadDir_Path = vPath\<rparr>)"

definition ReadCmdReadLinkStructFromReader_amd64 :: "CmdReadLinkStruct rprog" where
  "ReadCmdReadLinkStructFromReader_amd64 =
     rbind ReadStrFromReader_amd64 (\<lambda>vPath.
     rret \<lparr>ReadLink_Path = vPath\<rparr>)"

definition ReadCmdWriteStructFromReader_amd64 :: "CmdWriteStruct rprog" where
  "ReadCmdWriteStructFromReader_amd64 =
     rbind (io_ReadFull 4) (\<lambda>vFD.
     rbind io_ReadAll (\<lambda>vData.
     rret \<lparr>Write_FD = mem_load vFD, Write_Data = vData\<rparr>))"

definition ReadCmdSeekStructFromReader_amd64 :: "CmdSeekStruct rprog" where
  "ReadCmdSeekStructFromReader_amd64 =
     rbind (io_ReadFull 4) (\<lambda>vFD.
     rbind (io_ReadFull 1) (\<lambda>vWhence.
     rbind (io_ReadFull 8) (\<lambda>vOffset.
     rret \<lparr>Seek_FD = mem_load vFD, Seek_Whence = mem_load vWhence, Seek_Offset = mem_load vOffset\<rparr>)))"

definition ReadCmdAllocateStructFromReader_amd64 :: "CmdAllocateStruct rprog" where
  "ReadCmdAllocateStructFromReader_amd64 =
     rbind (io_ReadFull 4) (\<lambda>vFD.
     rbind (io_ReadFull 4) (\<lambda>vFlag.
     rbind (io_ReadFull 8) (\<lambda>vOffset.
     rbind (io_ReadFull 8) (\<lambda>vSize.
     rret \<lparr>Allocate_FD = mem_load vFD, Allocate_Flag = mem_load vFlag, Allocate_Offset = mem_load vOffset, Allocate_Size = mem_load vSize\<rparr>))))"

definition ReadCmdGetAttrStructFromReader_amd64 :: "CmdGetAttrStruct rprog" where
  "ReadCmdGetAttrStructFromReader_amd64 =
     rbind ReadStrFromReader_amd64 (\<lambda>vPath.
     rret \<lparr>GetAttr_Path = vPath\<rparr>)"

definition ReadCmdSetAttrStructFromReader_amd64 :: "CmdSetAttrStruct rprog" where
  "ReadCmdSetAttrStructFromReader_amd64 =
     rbind ReadStrFromReader_amd64 (\<lambda>vPath.
     rbind (io_ReadFull 1) (\<lambda>vFlag.
     rbind ReadFileInfoFromReader_amd64 (\<lambda>vFI.
     rret \<lparr>SetAttr_Path = vPath, SetAttr_Flag = mem_load vFlag, SetAttr_FI = vFI\<rparr>)))"

definition ReadCmdSyncStructFromReader_amd64 :: "CmdSyncStruct rprog" where
  "ReadCmdSyncStructFromReader_amd64 =
     rbind (io_ReadFull 4) (\<lambda>vFD.
     rret \<lparr>Sync_FD = mem_load vFD\<rparr>)"

definition ReadCmdMkdirStructFromReader_amd64 :: "CmdMkdirStruct rprog" where
  "ReadCmdMkdirStructFromReader_amd64 =
     rbind ReadStrFromReader_amd64 (\<lambda>vPath.
     rbind (io_ReadFull 4) (\<lambda>vMode.
     rret \<lparr>Mkdir_Path = vPath, Mkdir_Mode = mem_load vMode\<rparr>))"

definition ReadCmdSymLinkStructFromReader_amd64 :: "CmdSymLinkStruct rprog" where
  "ReadCmdSymLinkStructFromReader_amd64 =
     rbind ReadStrFromReader_amd64 (\<lambda>vTargetPath.
     rbind ReadStrFromReader_amd64 (\<lambda>vFilePath.
     rret \<lparr>SymLink_TargetPath = vTargetPath, SymLink_FilePath = vFilePath\<rparr>))"

definition ReadCmdRemoveStructFromReader_amd64 :: "CmdRemoveStruct rprog" where
  "ReadCmdRemoveStructFromReader_amd64 =
     rbind ReadStrFromReader_amd64 (\<lambda>vPath.
     rret \<lparr>Remove_Path = vPath\<rparr>)"

definition ReadCmdRmDirStructFromReader_amd64 :: "CmdRmDirStruct rprog" where
  "ReadCmdRmDirStructFromReader_amd64 =
     rbind ReadStrFromReader_amd64 (\<lambda>vPath.
     rret \<lparr>RmDir_Path = vPath\<rparr>)"

definition ReadCmdFsStatStructFromReader_amd64 :: "CmdFsStatStruct rprog" where
  "ReadCmdFsStatStructFromReader_amd64 =
     rbind ReadStrFromReader_amd64 (\<lambda>vPath.
     rret \<lparr>FsStat_Path = vPath\<rparr>)"

definition ReadCmdReadAtStructFromReader_amd64 :: "CmdReadAtStruct rprog" where
  "ReadCmdReadAtStructFromReader_amd64 =
     rbind (io_ReadFull 4) (\<lambda>vFD.
     rbind (io_ReadFull 8) (\<lambda>vOffset.
     rbind (io_ReadFull 8) (\<lambda>vSize.
     rret \<lparr>ReadAt_FD = mem_load vFD, ReadAt_Offset = mem_load vOffset, ReadAt_Size = mem_load vSize\<rparr>)))"

definition ReadCmdWriteAtStructFromReader_amd64 :: "CmdWriteAtStruct rprog" where
  "ReadCmdWriteAtStructFromReader_amd64 =
     rbind (io_ReadFull 4) (\<lambda>vFD.
     rbind (io_ReadFull 8) (\<lambda>vOffset.
     rbind io_ReadAll (\<lambda>vData.
     rret \<lparr>WriteAt_FD = mem_load vFD, WriteAt_Offset = mem_load vOffset, WriteAt_Data = vData\<rparr>)))"

definition ReadCmdRenameStructFromReader_amd64 :: "CmdRenameStruct rprog" where
  "ReadCmdRenameStructFromReader_amd64 =
     rbind ReadStrFromReader_amd64 (\<lambda>vOldPath.
     rbind ReadStrFromReader_amd64 (\<lambda>vNewPath.
     rbind (io_ReadFull 4) (\<lambda>vFlag.
     rret \<lparr>Rename_OldPath = vOldPath, Rename_NewPath = vNewPath, Rename_Flag = mem_load vFlag\<rparr>)))"

definition ReadCmdCopyFileRangeStructFromReader_amd64 :: "CmdCopyFileRangeStruct rprog" where
  "ReadCmdCopyFileRangeStructFromReader_amd64 =
     rbind (io_ReadFull 4) (\<lambda>vSrcFD.
     rbind (io_ReadFull 4) (\<lambda>vDstFD.
     rbind (io_ReadFull 8) (\<lambda>vSrcOffset.
     rbind (io_ReadFull 8) (\<lambda>vDstOffset.
     rbind (io_ReadFull 8) (\<lambda>vSize.
     rret \<lparr>CopyFileRange_SrcFD = mem_load vSrcFD, CopyFileRange_DstFD = mem_load vDstFD, CopyFileRange_SrcOffset = mem_load vSrcOffset, CopyFileRange_DstOffset = mem_load vDstOffset, CopyFileRange_Size = mem_load vSize\<rparr>)))))"

definition ReadCmdCloneFileRangeStructFromReader_amd64 :: "CmdCloneFileRangeStruct rprog" where
  "ReadCmdCloneFileRangeStructFromReader_amd64 =
     rbind (io_ReadFull 4) (\<lambda>vSrcFD.
     rbind (io_ReadFull 4) (\<lambda>vDstFD.
     rbind (io_ReadFull 8) (\<lambda>vSrcOffset.
     rbind (io_ReadFull 8) (\<lambda>vDstOffset.
     rbind (io_ReadFull 8) (\<lambda>vSize.
     rret \<lparr>CloneFileRange_SrcFD = mem_load vSrcFD, CloneFileRange_DstFD = mem_load vDstFD, CloneFileRange_SrcOffset = mem_load vSrcOffset, CloneFileRange_DstOffset = mem_load vDstOffset, CloneFileRange_Size = mem_load vSize\<rparr>)))))"

definition ReadCmdSetAttrByFDStructFromReader_amd64 :: "CmdSetAttrByFDStruct rprog" where
  "ReadCmdSetAttrByFDStructFromReader_amd64 =
     rbind (io_ReadFull 4) (\<lambda>vFD.
     rbind (io_ReadFull 1) (\<lambda>vFlag.
     rbind ReadFileInfoFromReader_amd64 (\<lambda>vFI.
     rret \<lparr>SetAttrByFD_FD = mem_load vFD, SetAttrByFD_Flag = mem_load vFlag, SetAttrByFD_FI = vFI\<rparr>)))"

definition ReadCmdReadDirPlusStructFromReader_amd64 :: "CmdReadDirPlusStruct rprog" where
  "ReadCmdReadDirPlusStructFromReader_amd64 =
     rbind ReadStrFromReader_amd64 (\<lambda>vPath.
     rret \<lparr>ReadDirPlus_Path = vPath\<rparr>)"

definition ReadCmdWriteStreamOpenStructFromReader_amd64 :: "CmdWriteStreamOpenStruct rprog" where
  "ReadCmdWriteStreamOpenStructFromReader_amd64 =
     rbind (io_ReadFull 4) (\<lambda>vFD.
     rbind (io_ReadFull 8) (\<lambda>vOffset.
     rbind io_ReadAll (\<lambda>vData.
     rret \<lparr>WriteStreamOpen_FD = mem_load vFD, WriteStreamOpen_Offset = mem_load vOffset, WriteStreamOpen_Data = vData\<rparr>)))"

definition ReadCmdWriteStreamDataStructFromReader_amd64 :: "CmdWriteStreamDataStruct rprog" where
  "ReadCmdWriteStreamDataStructFromReader_amd64 =
     rbind (io_ReadFull 1) (\<lambda>vIsEnd.
     rbind io_ReadAll (\<lambda>vData.
     rret \<lparr>WriteStreamData_IsEnd = mem_load vIsEnd, WriteStreamData_Data = vData\<rparr>))"

definition ReadCmdGetFileLockStructFromReader_amd64 :: "CmdGetFileLockStruct rprog" where
  "ReadCmdGetFileLockStructFromReader_amd64 =
     rbind (io_ReadFull 4) (\<lambda>vFD.
     rbind ReadFileLockInfoFromReader_amd64 (\<lambda>vFileLock.
     rret \<lparr>GetFileLock_FD = mem_load vFD, GetFileLock_FileLock = vFileLock\<rparr>))"

definition ReadCmdSetFileLockStructFromReader_amd64 :: "CmdSetFileLockStruct rprog" where
  "ReadCmdSetFileLockStructFromReader_amd64 =
     rbind (io_ReadFull 4) (\<lambda>vFD.
     rbind ReadFileLockInfoFromReader_amd64 (\<lambda>vFileLock.
     rret \<lparr>SetFileLock_FD = mem_load vFD, SetFileLock_FileLock = vFileLock\<rparr>))"

definition ReadCmdSetFileLockWaitStructFromReader_amd64 :: "CmdSetFileLockWaitStruct rprog" where
  "ReadCmdSetFileLockWaitStructFromReader_amd64 =
     rbind (io_ReadFull 4) (\<lambda>vFD.
     rbind ReadFileLockInfoFromReader_amd64 (\<lambda>vFileLock.
     rret \<lparr>SetFileLockWait_FD = mem_load vFD, SetFileLockWait_FileLock = vFileLock\<rparr>))"

definition ReadCmdLinkStructFromReader_amd64 :: "CmdLinkStruct rprog" where
  "ReadCmdLinkStructFromReader_amd64 =
     rbind ReadStrFromReader_amd64 (\<lambda>vTargetPath.
     rbind ReadStrFromReader_amd64 (\<lambda>vFilePath.
     rret \<lparr>Link_TargetPath = vTargetPath, Link_FilePath = vFilePath\<rparr>))"

definition ReadCmdSetXAttrStructFromReader_amd64 :: "CmdSetXAttrStruct rprog" where
  "ReadCmdSetXAttrStructFromReader_amd64 =
     rbind ReadStrFromReader_amd64 (\<lambda>vPath.
     rbind (io_ReadFull 4) (\<lambda>vFlag.
     rbind ReadStrFromReader_amd64 (\<lambda>vKey.
     rbind io_ReadAll (\<lambda>vValue.
     rret \<lparr>SetXAttr_Path = vPath, SetXAttr_Flag = mem_load vFlag, SetXAttr_Key = vKey, SetXAttr_Value = vValue\<rparr>))))"

definition ReadCmdGetXAttrStructFromReader_amd64 :: "CmdGetXAttrStruct rprog" where
  "ReadCmdGetXAttrStructFromReader_amd64 =
     rbind ReadStrFromReader_amd64 (\<lambda>vPath.
     rbind ReadStrFromReader_amd64 (\<lambda>vKey.
     rbind (io_ReadFull 4) (\<lambda>vMode.
     rret \<lparr>GetXAttr_Path = vPath, GetXAttr_Key = vKey, GetXAttr_Mode = mem_load vMode\<rparr>)))"

definition ReadCmdListXAttrStructFromReader_amd64 :: "CmdListXAttrStruct rprog" where
  "ReadCmdListXAttrStructFromReader_amd64 =
     rbind ReadStrFromReader_amd64 (\<lambda>vPath.
     rbind (io_ReadFull 4) (\<lambda>vMode.
     rret \<lparr>ListXAttr_Path = vPath, ListXAttr_Mode = mem_load vMode\<rparr>))"

definition ReadCmdRemoveXAttrStructFromReader_amd64 :: "CmdRemoveXAttrStruct rprog" where
  "ReadCmdRemoveXAttrStructFromReader_amd64 =
     rbind ReadStrFromReader_amd64 (\<lambda>vPath.
     rbind ReadStrFromReader_amd64 (\<lambda>vKey.
     rbind (io_ReadFull 4) (\<lambda>vMode.
     rret \<lparr>RemoveXAttr_Path = vPath, RemoveXAttr_Key = vKey, RemoveXAttr_Mode = mem_load vMode\<rparr>)))"

definition ReadRspErrorFromReader_amd64 :: "RspError rprog" where
  "ReadRspErrorFromReader_amd64 =
     rbind ReadStrFromReader_amd64 (\<lambda>vDesc.
     rret \<lparr>RspError_Desc = vDesc\<rparr>)"

definition ReadRspOpenFromReader_amd64 :: "RspOpen rprog" where
  "ReadRspOpenFromReader_amd64 =
     rbind (io_ReadFull 4) (\<lambda>vFD.
     rret \<lparr>RspOpen_FD = mem_load vFD\<rparr>)"

definition ReadRspReadLinkFromReader_amd64 :: "RspReadLink rprog" where
  "ReadRspReadLinkFromReader_amd64 =
     rbind ReadStrFromReader_amd64 (\<lambda>vTargetPath.
     rret \<lparr>RspReadLink_TargetPath = vTargetPath\<rparr>)"

definition ReadRspWriteFromReader_amd64 :: "RspWrite rprog" where
  "ReadRspWriteFromReader_amd64 =
     rbind (io_ReadFull 8) (\<lambda>vWritten.
     rret \<lparr>RspWrite_Written = mem_load vWritten\<rparr>)"

definition ReadRspSeekFromReader_amd64 :: "RspSeek rprog" where
  "ReadRspSeekFromReader_amd64 =
     rbind (io_ReadFull 8) (\<lambda>vOffset.
     rret \<lparr>RspSeek_Offset = mem_load vOffset\<rparr>)"

definition ReadRspGetAttrFromReader_amd64 :: "RspGetAttr rprog" where
  "ReadRspGetAttrFromReader_amd64 =
     rbind ReadFileInfoFromReader_amd64 (\<lambda>vFI.
     rret \<lparr>RspGetAttr_FI = vFI\<rparr>)"

definition ReadRspFsStatFromReader_amd64 :: "RspFsStat rprog" where
  "ReadRspFsStatFromReader_amd64 =
     rbind (io_ReadFull 8) (\<lambda>vTotal.
     rbind (io_ReadFull 8) (\<lambda>vFree.
     rbind (io_ReadFull 8) (\<lambda>vAvailable.
     rret \<lparr>RspFsStat_Total = mem_load vTotal, RspFsStat_Free = mem_load vFree, RspFsStat_Available = mem_load vAvailable\<rparr>)))"

definition ReadRspWriteAtFromReader_amd64 :: "RspWriteAt rprog" where
  "ReadRspWriteAtFromReader_amd64 =
     rbind (io_ReadFull 8) (\<lambda>vWritten.
     rret \<lparr>RspWriteAt_Written = mem_load vWritten\<rparr>)"

definition ReadRspCopyFileRangeFromReader_amd64 :: "RspCopyFileRange rprog" where
  "ReadRspCopyFileRangeFromReader_amd64 =
     rbind (io_ReadFull 8) (\<lambda>vCopied.
     rret \<lparr>RspCopyFileRange_Copied = mem_load vCopied\<rparr>)"

definition ReadRspWriteStreamCloseFromReader_amd64 :: "RspWriteStreamClose rprog" where
  "ReadRspWriteStreamCloseFromReader_amd64 =
     rbind (io_ReadFull 8) (\<lambda>vWritten.
     rret \<lparr>RspWriteStreamClose_Written = mem_load vWritten\<rparr>)"

definition ReadRspGetFileLockFromReader_amd64 :: "RspGetFileLock rprog" where
  "ReadRspGetFileLockFromReader_amd64 =
     rbind ReadFileLockInfoFromReader_amd64 (\<lambda>vFileLock.
     rret \<lparr>RspGetFileLock_FileLock = vFileLock\<rparr>)"

definition ReadCmdWriteStructFromReaderWithBuffer_amd64 :: "nat \<Rightarrow> CmdWriteStruct rprog" where
  "ReadCmdWriteStructFromReaderWithBuffer_amd64 cap =
     rbind (io_ReadFull 4) (\<lambda>vFD.
     rbind (readAllToBuffer cap) (\<lambda>vData.
     rret \<lparr>Write_FD = mem_load vFD, Write_Data = vData\<rparr>))"

definition ReadCmdWriteAtStructFromReaderWithBuffer_amd64 :: "nat \<Rightarrow> CmdWriteAtStruct rprog" where
  "ReadCmdWriteAtStructFromReaderWithBuffer_amd64 cap =
     rbind (io_ReadFull 4) (\<lambda>vFD.
     rbind (io_ReadFull 8) (\<lambda>vOffset.
     rbind (readAllToBuffer cap) (\<lambda>vData.
     rret \<lparr>WriteAt_FD = mem_load vFD, WriteAt_Offset = mem_load vOffset, WriteAt_Data = vData\<rparr>)))"

definition ReadCmdWriteStreamOpenStructFromReaderWithBuffer_amd64 :: "nat \<Rightarrow> CmdWriteStreamOpenStruct rprog" where
  "ReadCmdWriteStreamOpenStructFromReaderWithBuffer_amd64 cap =
     rbind (io_ReadFull 4) (\<lambda>vFD.
     rbind (io_ReadFull 8) (\<lambda>vOffset.
     rbind (readAllToBuffer cap) (\<lambda>vData.
     rret \<lparr>WriteStreamOpen_FD = mem_load vFD, WriteStreamOpen_Offset = mem_load vOffset, WriteStreamOpen_Data = vData\<rparr>)))"

definition ReadCmdWriteStreamDataStructFromReaderWithBuffer_amd64 :: "nat \<Rightarrow> CmdWriteStreamDataStruct rprog" where
  "ReadCmdWriteStreamDataStructFromReaderWithBuffer_amd64 cap =
     rbind (io_ReadFull 1) (\<lambda>vIsEnd.
     rbind (readAllToBuffer cap) (\<lambda>vData.
     rret \<lparr>WriteStreamData_IsEnd = mem_load vIsEnd, WriteStreamData_Data = vData\<rparr>))"

definition ReadCmdSetXAttrStructFromReaderWithBuffer_amd64 :: "nat \<Rightarrow> CmdSetXAttrStruct rprog" where
  "ReadCmdSetXAttrStructFromReaderWithBuffer_amd64 cap =
     rbind ReadStrFromReader_amd64 (\<lambda>vPath.
     rbind (io_ReadFull 4) (\<lambda>vFlag.
     rbind ReadStrFromReader_amd64 (\<lambda>vKey.
     rbind (readAllToBuffer cap) (\<lambda>vValue.
     rret \<lparr>SetXAttr_Path = vPath, SetXAttr_Flag = mem_load vFlag, SetXAttr_Key = vKey, SetXAttr_Value = vValue\<rparr>))))"

section \<open>Correctness of the encoders\<close>

context io_writer
begin

lemma WriteTimespecToWriter_amd64_appends:
  "appends content fits (WriteTimespecToWriter_amd64 wr d) (wire_Timespec d)"
  unfolding WriteTimespecToWriter_amd64_def
  by (rule appends_eq, (rule wseq_single_appends | rule wseq_Cons_appends | rule wr_appends)+, simp add: wire_Timespec_def)

lemma WriteFileInfoToWriter_amd64_appends:
  "appends content fits (WriteFileInfoToWriter_amd64 wr d) (wire_FileInfo d)"
  unfolding WriteFileInfoToWriter_amd64_def
  by (rule appends_eq, (rule wseq_single_appends | rule wseq_Cons_appends | rule wr_appends | rule WriteTimespecToWriter_amd64_appends)+, simp add: wire_FileInfo_def)

lemma WriteDirentToWriter_amd64_appends:
  "length (de_Name d) \<le> 0xffff \<Longrightarrow> appends content fits (WriteDirentToWriter_amd64 wr d) (wire_Dirent d)"
  unfolding WriteDirentToWriter_amd64_def WriteStrToWriter_amd64_eq
  by (rule appends_eq, (rule wseq_single_appends | rule wseq_Cons_appends | rule wr_appends | rule WriteTimespecToWriter_amd64_appends | (rule WriteStrToWriter_appends, assumption))+, simp add: wire_Dirent_def)

lemma WriteFileLockInfoToWriter_amd64_appends:
  "appends content fits (WriteFileLockInfoToWriter_amd64 wr d) (wire_FileLockInfo d)"
  unfolding WriteFileLockInfoToWriter_amd64_def
  by (rule appends_eq, (rule wseq_single_appends | rule wseq_Cons_appends | rule wr_appends)+, simp add: wire_FileLockInfo_def)

lemma WriteCmdOpenStructToWriter_amd64_appends:
  "length (Open_Path d) \<le> 0xffff \<Longrightarrow> appends content fits (WriteCmdOpenStructToWriter_amd64 wr d) (wire_CmdOpenStruct d)"
  unfolding WriteCmdOpenStructToWriter_amd64_def WriteStrToWriter_amd64_eq
  by (rule appends_eq, (rule wseq_single_appends | rule wseq_Cons_appends | rule wr_appends | (rule WriteStrToWriter_appends, assumption))+, simp add: wire_CmdOpenStruct_def)

lemma WriteCmdCloseStructToWriter_amd64_appends:
  "appends content fits (WriteCmdCloseStructToWriter_amd64 wr d) (wire_CmdCloseStruct d)"
  unfolding WriteCmdCloseStructToWriter_amd64_def
  by (rule appends_eq, (rule wseq_single_appends | rule wseq_Cons_appends | rule wr_appends)+, simp add: wire_CmdCloseStruct_def)

lemma WriteCmdReadStructToWriter_amd64_appends:
  "appends content fits (WriteCmdReadStructToWriter_amd64 wr d) (wire_CmdReadStruct d)"
  unfolding WriteCmdReadStructToWriter_amd64_def
  by (rule appends_eq, (rule wseq_single_appends | rule wseq_Cons_appends | rule wr_appends)+, simp add: wire_CmdReadStruct_def)

lemma WriteCmdReadDirStructToWriter_amd64_appends:
  "length (ReadDir_Path d) \<le> 0xffff \<Longrightarrow> appends content fits (WriteCmdReadDirStructToWriter_amd64 wr d) (wire_CmdReadDirStruct d)"
  unfolding WriteCmdReadDirStructToWriter_amd64_def WriteStrToWriter_amd64_eq
  by (rule appends_eq, (rule wseq_single_appends | rule wseq_Cons_appends | rule wr_appends | (rule WriteStrToWriter_appends, assumption))+, simp add: wire_CmdReadDirStruct_def)

lemma WriteCmdReadLinkStructToWriter_amd64_appends:
  "length (ReadLink_Path d) \<le> 0xffff \<Longrightarrow> appends content fits (WriteCmdReadLinkStructToWriter_amd64 wr d) (wire_CmdReadLinkStruct d)"
  unfolding WriteCmdReadLinkStructToWriter_amd64_def WriteStrToWriter_amd64_eq
  by (rule appends_eq, (rule wseq_single_appends | rule wseq_Cons_appends | rule wr_appends | (rule WriteStrToWriter_appends, assumption))+, simp add: wire_CmdReadLinkStruct_def)

lemma WriteCmdWriteStructToWriter_amd64_appends:
  "appends content fits (WriteCmdWriteStructToWriter_amd64 wr d) (wire_CmdWriteStruct d)"
  unfolding WriteCmdWriteStructToWriter_amd64_def
  by (rule appends_eq, (rule wseq_single_appends | rule wseq_Cons_appends | rule wr_appends)+, simp add: wire_CmdWriteStruct_def)

lemma WriteCmdSeekStructToWriter_amd64_appends:
  "appends content fits (WriteCmdSeekStructToWriter_amd64 wr d) (wire_CmdSeekStruct d)"
  unfolding WriteCmdSeekStructToWriter_amd64_def
  by (rule appends_eq, (rule wseq_single_appends | rule wseq_Cons_appends | rule wr_appends)+, simp add: wire_CmdSeekStruct_def)

lemma WriteCmdAllocateStructToWriter_amd64_appends:
  "appends content fits (WriteCmdAllocateStructToWriter_amd64 wr d) (wire_CmdAllocateStruct d)"
  unfolding WriteCmdAllocateStructToWriter_amd64_def
  by (rule appends_eq, (rule wseq_single_appends | rule wseq_Cons_appends | rule wr_appends)+, simp add: wire_CmdAllocateStruct_def)

lemma WriteCmdGetAttrStructToWriter_amd64_appends:
  "length (GetAttr_Path d) \<le> 0xffff \<Longrightarrow> appends content fits (WriteCmdGetAttrStructToWriter_amd64 wr d) (wire_CmdGetAttrStruct d)"
  unfolding WriteCmdGetAttrStructToWriter_amd64_def WriteStrToWriter_amd64_eq
  by (rule appends_eq, (rule wseq_single_appends | rule wseq_Cons_appends | rule wr_appends | (rule WriteStrToWriter_appends, assumption))+, simp add: wire_CmdGetAttrStruct_def)

lemma WriteCmdSetAttrStructToWriter_amd64_appends:
  "length (SetAttr_Path d) \<le> 0xffff \<Longrightarrow> appends content fits (WriteCmdSetAttrStructToWriter_amd64 wr d) (wire_CmdSetAttrStruct d)"
  unfolding WriteCmdSetAttrStructToWriter_amd64_def WriteStrToWriter_amd64_eq
  by (rule appends_eq, (rule wseq_single_appends | rule wseq_Cons_appends | rule wr_appends | rule WriteFileInfoToWriter_amd64_appends | (rule WriteStrToWriter_appends, assumption))+, simp add: wire_CmdSetAttrStruct_def)

lemma WriteCmdSyncStructToWriter_amd64_appends:
  "appends content fits (WriteCmdSyncStructToWriter_amd64 wr d) (wire_CmdSyncStruct d)"
  unfolding WriteCmdSyncStructToWriter_amd64_def
  by (rule appends_eq, (rule wseq_single_appends | rule wseq_Cons_appends | rule wr_appends)+, simp add: wire_CmdSyncStruct_def)

lemma WriteCmdMkdirStructToWriter_amd64_appends:
  "length (Mkdir_Path d) \<le> 0xffff \<Longrightarrow> appends content fits (WriteCmdMkdirStructToWriter_amd64 wr d) (wire_CmdMkdirStruct d)"
  unfolding WriteCmdMkdirStructToWriter_amd64_def WriteStrToWriter_amd64_eq
  by (rule appends_eq, (rule wseq_single_appends | rule wseq_Cons_appends | rule wr_appends | (rule WriteStrToWriter_appends, assumption))+, simp add: wire_CmdMkdirStruct_def)

lemma WriteCmdSymLinkStructToWriter_amd64_appends:
  "length (SymLink_TargetPath d) \<le> 0xffff \<Longrightarrow> length (SymLink_FilePath d) \<le> 0xffff \<Longrightarrow> appends content fits (WriteCmdSymLinkStructToWriter_amd64 wr d) (wire_CmdSymLinkStruct d)"
  unfolding WriteCmdSymLinkStructToWriter_amd64_def WriteStrToWriter_amd64_eq
  by (rule appends_eq, (rule wseq_single_appends | rule wseq_Cons_appends | rule wr_appends | (rule WriteStrToWriter_appends, assumption))+, simp add: wire_CmdSymLinkStruct_def)

lemma WriteCmdRemoveStructToWriter_amd64_appends:
  "length (Remove_Path d) \<le> 0xffff \<Longrightarrow> appends content fits (WriteCmdRemoveStructToWriter_amd64 wr d) (wire_CmdRemoveStruct d)"
  unfolding WriteCmdRemoveStructToWriter_amd64_def WriteStrToWriter_amd64_eq
  by (rule appends_eq, (rule wseq_single_appends | rule wseq_Cons_appends | rule wr_appends | (rule WriteStrToWriter_appends, assumption))+, simp add: wire_CmdRemoveStruct_def)

lemma WriteCmdRmDirStructToWriter_amd64_appends:
  "length (RmDir_Path d) \<le> 0xffff \<Longrightarrow> appends content fits (WriteCmdRmDirStructToWriter_amd64 wr d) (wire_CmdRmDirStruct d)"
  unfolding WriteCmdRmDirStructToWriter_amd64_def WriteStrToWriter_amd64_eq
  by (rule appends_eq, (rule wseq_single_appends | rule wseq_Cons_appends | rule wr_appends | (rule WriteStrToWriter_appends, assumption))+, simp add: wire_CmdRmDirStruct_def)

lemma WriteCmdFsStatStructToWriter_amd64_appends:
  "length (FsStat_Path d) \<le> 0xffff \<Longrightarrow> appends content fits (WriteCmdFsStatStructToWriter_amd64 wr d) (wire_CmdFsStatStruct d)"
  unfolding WriteCmdFsStatStructToWriter_amd64_def WriteStrToWriter_amd64_eq
  by (rule appends_eq, (rule wseq_single_appends | rule wseq_Cons_appends | rule wr_appends | (rule WriteStrToWriter_appends, assumption))+, simp add: wire_CmdFsStatStruct_def)

lemma WriteCmdReadAtStructToWriter_amd64_appends:
  "appends content fits (WriteCmdReadAtStructToWriter_amd64 wr d) (wire_CmdReadAtStruct d)"
  unfolding WriteCmdReadAtStructToWriter_amd64_def
  by (rule appends_eq, (rule wseq_single_appends | rule wseq_Cons_appends | rule wr_appends)+, simp add: wire_CmdReadAtStruct_def)

lemma WriteCmdWriteAtStructToWriter_amd64_appends:
  "appends content fits (WriteCmdWriteAtStructToWriter_amd64 wr d) (wire_CmdWriteAtStruct d)"
  unfolding WriteCmdWriteAtStructToWriter_amd64_def
  by (rule appends_eq, (rule wseq_single_appends | rule wseq_Cons_appends | rule wr_appends)+, simp add: wire_CmdWriteAtStruct_def)

lemma WriteCmdRenameStructToWriter_amd64_appends:
  "length (Rename_OldPath d) \<le> 0xffff \<Longrightarrow> length (Rename_NewPath d) \<le> 0xffff \<Longrightarrow> appends content fits (WriteCmdRenameStructToWriter_amd64 wr d) (wire_CmdRenameStruct d)"
  unfolding WriteCmdRenameStructToWriter_amd64_def WriteStrToWriter_amd64_eq
  by (rule appends_eq, (rule wseq_single_appends | rule wseq_Cons_appends | rule wr_appends | (rule WriteStrToWriter_appends, assumption))+, simp add: wire_CmdRenameStruct_def)

lemma WriteCmdCopyFileRangeStructToWriter_amd64_appends:
  "appends content fits (WriteCmdCopyFileRangeStructToWriter_amd64 wr d) (wire_CmdCopyFileRangeStruct d)"
  unfolding WriteCmdCopyFileRangeStructToWriter_amd64_def
  by (rule appends_eq, (rule wseq_single_appends | rule wseq_Cons_appends | rule wr_appends)+, simp add: wire_CmdCopyFileRangeStruct_def)

lemma WriteCmdCloneFileRangeStructToWriter_amd64_appends:
  "appends content fits (WriteCmdCloneFileRangeStructToWriter_amd64 wr d) (wire_CmdCloneFileRangeStruct d)"
  unfolding WriteCmdCloneFileRangeStructToWriter_amd64_def
  by (rule appends_eq, (rule wseq_single_appends | rule wseq_Cons_appends | rule wr_appends)+, simp add: wire_CmdCloneFileRangeStruct_def)

lemma WriteCmdSetAttrByFDStructToWriter_amd64_appends:
  "appends content fits (WriteCmdSetAttrByFDStructToWriter_amd64 wr d) (wire_CmdSetAttrByFDStruct d)"
  unfolding WriteCmdSetAttrByFDStructToWriter_amd64_def
  by (rule appends_eq, (rule wseq_single_appends | rule wseq_Cons_appends | rule wr_appends | rule WriteFileInfoToWriter_amd64_appends)+, simp add: wire_CmdSetAttrByFDStruct_def)

lemma WriteCmdReadDirPlusStructToWriter_amd64_appends:
  "length (ReadDirPlus_Path d) \<le> 0xffff \<Longrightarrow> appends content fits (WriteCmdReadDirPlusStructToWriter_amd64 wr d) (wire_CmdReadDirPlusStruct d)"
  unfolding WriteCmdReadDirPlusStructToWriter_amd64_def WriteStrToWriter_amd64_eq
  by (rule appends_eq, (rule wseq_single_appends | rule wseq_Cons_appends | rule wr_appends | (rule WriteStrToWriter_appends, assumption))+, simp add: wire_CmdReadDirPlusStruct_def)

lemma WriteCmdWriteStreamOpenStructToWriter_amd64_appends:
  "appends content fits (WriteCmdWriteStreamOpenStructToWriter_amd64 wr d) (wire_CmdWriteStreamOpenStruct d)"
  unfolding WriteCmdWriteStreamOpenStructToWriter_amd64_def
  by (rule appends_eq, (rule wseq_single_appends | rule wseq_Cons_appends | rule wr_appends)+, simp add: wire_CmdWriteStreamOpenStruct_def)

lemma WriteCmdWriteStreamDataStructToWriter_amd64_appends:
  "appends content fits (WriteCmdWriteStreamDataStructToWriter_amd64 wr d) (wire_CmdWriteStreamDataStruct d)"
  unfolding WriteCmdWriteStreamDataStructToWriter_amd64_def
  by (rule appends_eq, (rule wseq_single_appends | rule wseq_Cons_appends | rule wr_appends)+, simp add: wire_CmdWriteStreamDataStruct_def)

lemma WriteCmdGetFileLockStructToWriter_amd64_appends:
  "appends content fits (WriteCmdGetFileLockStructToWriter_amd64 wr d) (wire_CmdGetFileLockStruct d)"
  unfolding WriteCmdGetFileLockStructToWriter_amd64_def
  by (rule appends_eq, (rule wseq_single_appends | rule wseq_Cons_appends | rule wr_appends | rule WriteFileLockInfoToWriter_amd64_appends)+, simp add: wire_CmdGetFileLockStruct_def)

lemma WriteCmdSetFileLockStructToWriter_amd64_appends:
  "appends content fits (WriteCmdSetFileLockStructToWriter_amd64 wr d) (wire_CmdSetFileLockStruct d)"
  unfolding WriteCmdSetFileLockStructToWriter_amd64_def
  by (rule appends_eq, (rule wseq_single_appends | rule wseq_Cons_appends | rule wr_appends | rule WriteFileLockInfoToWriter_amd64_appends)+, simp add: wire_CmdSetFileLockStruct_def)

lemma WriteCmdSetFileLockWaitStructToWriter_amd64_appends:
  "appends content fits (WriteCmdSetFileLockWaitStructToWriter_amd64 wr d) (wire_CmdSetFileLockWaitStruct d)"
  unfolding WriteCmdSetFileLockWaitStructToWriter_amd64_def
  by (rule appends_eq, (rule wseq_single_appends | rule wseq_Cons_appends | rule wr_appends | rule WriteFileLockInfoToWriter_amd64_appends)+, simp add: wire_CmdSetFileLockWaitStruct_def)

lemma WriteCmdLinkStructToWriter_amd64_appends:
  "length (Link_TargetPath d) \<le> 0xffff \<Longrightarrow> length (Link_FilePath d) \<le> 0xffff \<Longrightarrow> appends content fits (WriteCmdLinkStructToWriter_amd64 wr d) (wire_CmdLinkStruct d)"
  unfolding WriteCmdLinkStructToWriter_amd64_def WriteStrToWriter_amd64_eq
  by (rule appends_eq, (rule wseq_single_appends | rule wseq_Cons_appends | rule wr_appends | (rule WriteStrToWriter_appends, assumption))+, simp add: wire_CmdLinkStruct_def)

lemma WriteCmdSetXAttrStructToWriter_amd64_appends:
  "length (SetXAttr_Path d) \<le> 0xffff \<Longrightarrow> length (SetXAttr_Key d) \<le> 0xffff \<Longrightarrow> appends content fits (WriteCmdSetXAttrStructToWriter_amd64 wr d) (wire_CmdSetXAttrStruct d)"
  unfolding WriteCmdSetXAttrStructToWriter_amd64_def WriteStrToWriter_amd64_eq
  by (rule appends_eq, (rule wseq_single_appends | rule wseq_Cons_appends | rule wr_appends | (rule WriteStrToWriter_appends, assumption))+, simp add: wire_CmdSetXAttrStruct_def)

lemma WriteCmdGetXAttrStructToWriter_amd64_appends:
  "length (GetXAttr_Path d) \<le> 0xffff \<Longrightarrow> length (GetXAttr_Key d) \<le> 0xffff \<Longrightarrow> appends content fits (WriteCmdGetXAttrStructToWriter_amd64 wr d) (wire_CmdGetXAttrStruct d)"
  unfolding WriteCmdGetXAttrStructToWriter_amd64_def WriteStrToWriter_amd64_eq
  by (rule appends_eq, (rule wseq_single_appends | rule wseq_Cons_appends | rule wr_appends | (rule WriteStrToWriter_appends, assumption))+, simp add: wire_CmdGetXAttrStruct_def)

lemma WriteCmdListXAttrStructToWriter_amd64_appends:
  "length (ListXAttr_Path d) \<le> 0xffff \<Longrightarrow> appends content fits (WriteCmdListXAttrStructToWriter_amd64 wr d) (wire_CmdListXAttrStruct d)"
  unfolding WriteCmdListXAttrStructToWriter_amd64_def WriteStrToWriter_amd64_eq
  by (rule appends_eq, (rule wseq_single_appends | rule wseq_Cons_appends | rule wr_appends | (rule WriteStrToWriter_appends, assumption))+, simp add: wire_CmdListXAttrStruct_def)

lemma WriteCmdRemoveXAttrStructToWriter_amd64_appends:
  "length (RemoveXAttr_Path d) \<le> 0xffff \<Longrightarrow> length (RemoveXAttr_Key d) \<le> 0xffff \<Longrightarrow> appends content fits (WriteCmdRemoveXAttrStructToWriter_amd64 wr d) (wire_CmdRemoveXAttrStruct d)"
  unfolding WriteCmdRemoveXAttrStructToWriter_amd64_def WriteStrToWriter_amd64_eq
  by (rule appends_eq, (rule wseq_single_appends | rule wseq_Cons_appends | rule wr_appends | (rule WriteStrToWriter_appends, assumption))+, simp add: wire_CmdRemoveXAttrStruct_def)

lemma WriteRspErrorToWriter_amd64_appends:
  "length (RspError_Desc d) \<le> 0xffff \<Longrightarrow> appends content fits (WriteRspErrorToWriter_amd64 wr d) (wire_RspError d)"
  unfolding WriteRspErrorToWriter_amd64_def WriteStrToWriter_amd64_eq
  by (rule appends_eq, (rule wseq_single_appends | rule wseq_Cons_appends | rule wr_appends | (rule WriteStrToWriter_appends, assumption))+, simp add: wire_RspError_def)

lemma WriteRspOpenToWriter_amd64_appends:
  "appends content fits (WriteRspOpenToWriter_amd64 wr d) (wire_RspOpen d)"
  unfolding WriteRspOpenToWriter_amd64_def
  by (rule appends_eq, (rule wseq_single_appends | rule wseq_Cons_appends | rule wr_appends)+, simp add: wire_RspOpen_def)

lemma WriteRspReadLinkToWriter_amd64_appends:
  "length (RspReadLink_TargetPath d) \<le> 0xffff \<Longrightarrow> appends content fits (WriteRspReadLinkToWriter_amd64 wr d) (wire_RspReadLink d)"
  unfolding WriteRspReadLinkToWriter_amd64_def WriteStrToWriter_amd64_eq
  by (rule appends_eq, (rule wseq_single_appends | rule wseq_Cons_appends | rule wr_appends | (rule WriteStrToWriter_appends, assumption))+, simp add: wire_RspReadLink_def)

lemma WriteRspWriteToWriter_amd64_appends:
  "appends content fits (WriteRspWriteToWriter_amd64 wr d) (wire_RspWrite d)"
  unfolding WriteRspWriteToWriter_amd64_def
  by (rule appends_eq, (rule wseq_single_appends | rule wseq_Cons_appends | rule wr_appends)+, simp add: wire_RspWrite_def)

lemma WriteRspSeekToWriter_amd64_appends:
  "appends content fits (WriteRspSeekToWriter_amd64 wr d) (wire_RspSeek d)"
  unfolding WriteRspSeekToWriter_amd64_def
  by (rule appends_eq, (rule wseq_single_appends | rule wseq_Cons_appends | rule wr_appends)+, simp add: wire_RspSeek_def)

lemma WriteRspGetAttrToWriter_amd64_appends:
  "appends content fits (WriteRspGetAttrToWriter_amd64 wr d) (wire_RspGetAttr d)"
  unfolding WriteRspGetAttrToWriter_amd64_def
  by (rule appends_eq, (rule wseq_single_appends | rule wseq_Cons_appends | rule wr_appends | rule WriteFileInfoToWriter_amd64_appends)+, simp add: wire_RspGetAttr_def)

lemma WriteRspFsStatToWriter_amd64_appends:
  "appends content fits (WriteRspFsStatToWriter_amd64 wr d) (wire_RspFsStat d)"
  unfolding WriteRspFsStatToWriter_amd64_def
  by (rule appends_eq, (rule wseq_single_appends | rule wseq_Cons_appends | rule wr_appends)+, simp add: wire_RspFsStat_def)

lemma WriteRspWriteAtToWriter_amd64_appends:
  "appends content fits (WriteRspWriteAtToWriter_amd64 wr d) (wire_RspWriteAt d)"
  unfolding WriteRspWriteAtToWriter_amd64_def
  by (rule appends_eq, (rule wseq_single_appends | rule wseq_Cons_appends | rule wr_appends)+, simp add: wire_RspWriteAt_def)

lemma WriteRspCopyFileRangeToWriter_amd64_appends:
  "appends content fits (WriteRspCopyFileRangeToWriter_amd64 wr d) (wire_RspCopyFileRange d)"
  unfolding WriteRspCopyFileRangeToWriter_amd64_def
  by (rule appends_eq, (rule wseq_single_appends | rule wseq_Cons_appends | rule wr_appends)+, simp add: wire_RspCopyFileRange_def)

lemma WriteRspWriteStreamCloseToWriter_amd64_appends:
  "appends content fits (WriteRspWriteStreamCloseToWriter_amd64 wr d) (wire_RspWriteStreamClose d)"
  unfolding WriteRspWriteStreamCloseToWriter_amd64_def
  by (rule appends_eq, (rule wseq_single_appends | rule wseq_Cons_appends | rule wr_appends)+, simp add: wire_RspWriteStreamClose_def)

lemma WriteRspGetFileLockToWriter_amd64_appends:
  "appends content fits (WriteRspGetFileLockToWriter_amd64 wr d) (wire_RspGetFileLock d)"
  unfolding WriteRspGetFileLockToWriter_amd64_def
  by (rule appends_eq, (rule wseq_single_appends | rule wseq_Cons_appends | rule wr_appends | rule WriteFileLockInfoToWriter_amd64_appends)+, simp add: wire_RspGetFileLock_def)

end

section \<open>Correctness of the decoders\<close>

lemma ReadTimespecFromReader_amd64_decodes: "decodes ReadTimespecFromReader_amd64 (wire_Timespec d) d"
proof -
  have "decodes ReadTimespecFromReader_amd64 ((PutUint64 (ts_Seconds d)) @ (PutUint64 (ts_Nanoseconds d)) @ []) d"
    unfolding ReadTimespecFromReader_amd64_def
    by (rule decodes_bind | rule decodes_ret | rule decodes_ReadFull | simp)+
  then show ?thesis by (simp add: wire_Timespec_def)
qed

lemma ReadFileInfoFromReader_amd64_decodes: "decodes ReadFileInfoFromReader_amd64 (wire_FileInfo d) d"
proof -
  have "decodes ReadFileInfoFromReader_amd64 ((PutUint64 (fi_Size d)) @ (wire_Timespec (fi_MTime d)) @ (PutUint32 (fi_Mode d)) @ (PutUint8 (fi_Owner d)) @ []) d"
    unfolding ReadFileInfoFromReader_amd64_def
    by (rule decodes_bind | rule decodes_ret | rule decodes_ReadFull | rule ReadTimespecFromReader_amd64_decodes | simp)+
  then show ?thesis by (simp add: wire_FileInfo_def)
qed

lemma ReadDirentFromReader_amd64_decodes:
  assumes "length (de_Name d) \<le> 0xffff"
  shows "decodes ReadDirentFromReader_amd64 (wire_Dirent d) d"
proof -
  have "decodes ReadDirentFromReader_amd64 ((wire_str (de_Name d)) @ (PutUint64 (de_Size d)) @ (wire_Timespec (de_MTime d)) @ (PutUint32 (de_Mode d)) @ (PutUint8 (de_Owner d)) @ []) d"
    unfolding ReadDirentFromReader_amd64_def ReadStrFromReader_amd64_eq
    by (rule decodes_bind | rule decodes_ret | rule decodes_ReadFull | rule ReadStrFromReader_decodes | rule ReadTimespecFromReader_amd64_decodes | simp add: assms)+
  then show ?thesis by (simp add: wire_Dirent_def)
qed

lemma ReadFileLockInfoFromReader_amd64_decodes: "decodes ReadFileLockInfoFromReader_amd64 (wire_FileLockInfo d) d"
proof -
  have "decodes ReadFileLockInfoFromReader_amd64 ((PutUint8 (fl_Type d)) @ (PutUint8 (fl_Whence d)) @ (PutUint64 (fl_Start d)) @ (PutUint64 (fl_Size d)) @ []) d"
    unfolding ReadFileLockInfoFromReader_amd64_def
    by (rule decodes_bind | rule decodes_ret | rule decodes_ReadFull | simp)+
  then show ?thesis by (simp add: wire_FileLockInfo_def)
qed

lemma ReadCmdOpenStructFromReader_amd64_decodes:
  assumes "length (Open_Path d) \<le> 0xffff"
  shows "decodes ReadCmdOpenStructFromReader_amd64 (wire_CmdOpenStruct d) d"
proof -
  have "decodes ReadCmdOpenStructFromReader_amd64 ((wire_str (Open_Path d)) @ (PutUint32 (Open_OFlag d)) @ (PutUint32 (Open_FMode d)) @ []) d"
    unfolding ReadCmdOpenStructFromReader_amd64_def ReadStrFromReader_amd64_eq
    by (rule decodes_bind | rule decodes_ret | rule decodes_ReadFull | rule ReadStrFromReader_decodes | simp add: assms)+
  then show ?thesis by (simp add: wire_CmdOpenStruct_def)
qed

lemma ReadCmdCloseStructFromReader_amd64_decodes: "decodes ReadCmdCloseStructFromReader_amd64 (wire_CmdCloseStruct d) d"
proof -
  have "decodes ReadCmdCloseStructFromReader_amd64 ((PutUint32 (Close_FD d)) @ []) d"
    unfolding ReadCmdCloseStructFromReader_amd64_def
    by (rule decodes_bind | rule decodes_ret | rule decodes_ReadFull | simp)+
  then show ?thesis by (simp add: wire_CmdCloseStruct_def)
qed

lemma ReadCmdReadStructFromReader_amd64_decodes: "decodes ReadCmdReadStructFromReader_amd64 (wire_CmdReadStruct d) d"
proof -
  have "decodes ReadCmdReadStructFromReader_amd64 ((PutUint32 (Read_FD d)) @ (PutUint64 (Read_Size d)) @ []) d"
    unfolding ReadCmdReadStructFromReader_amd64_def
    by (rule decodes_bind | rule decodes_ret | rule decodes_ReadFull | simp)+
  then show ?thesis by (simp add: wire_CmdReadStruct_def)
qed

lemma ReadCmdReadDirStructFromReader_amd64_decodes:
  assumes "length (ReadDir_Path d) \<le> 0xffff"
  shows "decodes ReadCmdReadDirStructFromReader_amd64 (wire_CmdReadDirStruct d) d"
proof -
  have "decodes ReadCmdReadDirStructFromReader_amd64 ((wire_str (ReadDir_Path d)) @ []) d"
    unfolding ReadCmdReadDirStructFromReader_amd64_def ReadStrFromReader_amd64_eq
    by (rule decodes_bind | rule decodes_ret | rule decodes_ReadFull | rule ReadStrFromReader_decodes | simp add: assms)+
  then show ?thesis by (simp add: wire_CmdReadDirStruct_def)
qed

lemma ReadCmdReadLinkStructFromReader_amd64_decodes:
  assumes "length (ReadLink_Path d) \<le> 0xffff"
  shows "decodes ReadCmdReadLinkStructFromReader_amd64 (wire_CmdReadLinkStruct d) d"
proof -
  have "decodes ReadCmdReadLinkStructFromReader_amd64 ((wire_str (ReadLink_Path d)) @ []) d"
    unfolding ReadCmdReadLinkStructFromReader_amd64_def ReadStrFromReader_amd64_eq
    by (rule decodes_bind | rule decodes_ret | rule decodes_ReadFull | rule ReadStrFromReader_decodes | simp add: assms)+
  then show ?thesis by (simp add: wire_CmdReadLinkStruct_def)
qed

lemma ReadCmdWriteStructFromReader_amd64_decodes: "decodes_all ReadCmdWriteStructFromReader_amd64 (wire_CmdWriteStruct d) d"
proof -
  have "decodes_all ReadCmdWriteStructFromReader_amd64 ((PutUint32 (Write_FD d)) @ (Write_Data d)) d"
    unfolding ReadCmdWriteStructFromReader_amd64_def
    by (rule decodes_all_bind | rule decodes_all_bind_ret | rule decodes_all_ReadAll | rule decodes_all_readAllToBuffer | rule decodes_ReadFull | simp)+
  then show ?thesis by (simp add: wire_CmdWriteStruct_def)
qed

lemma ReadCmdWriteStructFromReaderWithBuffer_amd64_decodes:
  assumes "length (Write_Data d) \<le> cap"
  shows "decodes_all (ReadCmdWriteStructFromReaderWithBuffer_amd64 cap) (wire_CmdWriteStruct d) d"
proof -
  have "decodes_all (ReadCmdWriteStructFromReaderWithBuffer_amd64 cap) ((PutUint32 (Write_FD d)) @ (Write_Data d)) d"
    unfolding ReadCmdWriteStructFromReaderWithBuffer_amd64_def
    by (rule decodes_all_bind | rule decodes_all_bind_ret | rule decodes_all_ReadAll | rule decodes_all_readAllToBuffer | rule decodes_ReadFull | simp add: assms)+
  then show ?thesis by (simp add: wire_CmdWriteStruct_def)
qed

lemma ReadCmdSeekStructFromReader_amd64_decodes: "decodes ReadCmdSeekStructFromReader_amd64 (wire_CmdSeekStruct d) d"
proof -
  have "decodes ReadCmdSeekStructFromReader_amd64 ((PutUint32 (Seek_FD d)) @ (PutUint8 (Seek_Whence d)) @ (PutUint64 (Seek_Offset d)) @ []) d"
    unfolding ReadCmdSeekStructFromReader_amd64_def
    by (rule decodes_bind | rule decodes_ret | rule decodes_ReadFull | simp)+
  then show ?thesis by (simp add: wire_CmdSeekStruct_def)
qed

lemma ReadCmdAllocateStructFromReader_amd64_decodes: "decodes ReadCmdAllocateStructFromReader_amd64 (wire_CmdAllocateStruct d) d"
proof -
  have "decodes ReadCmdAllocateStructFromReader_amd64 ((PutUint32 (Allocate_FD d)) @ (PutUint32 (Allocate_Flag d)) @ (PutUint64 (Allocate_Offset d)) @ (PutUint64 (Allocate_Size d)) @ []) d"
    unfolding ReadCmdAllocateStructFromReader_amd64_def
    by (rule decodes_bind | rule decodes_ret | rule decodes_ReadFull | simp)+
  then show ?thesis by (simp add: wire_CmdAllocateStruct_def)
qed

lemma ReadCmdGetAttrStructFromReader_amd64_decodes:
  assumes "length (GetAttr_Path d) \<le> 0xffff"
  shows "decodes ReadCmdGetAttrStructFromReader_amd64 (wire_CmdGetAttrStruct d) d"
proof -
  have "decodes ReadCmdGetAttrStructFromReader_amd64 ((wire_str (GetAttr_Path d)) @ []) d"
    unfolding ReadCmdGetAttrStructFromReader_amd64_def ReadStrFromReader_amd64_eq
    by (rule decodes_bind | rule decodes_ret | rule decodes_ReadFull | rule ReadStrFromReader_decodes | simp add: assms)+
  then show ?thesis by (simp add: wire_CmdGetAttrStruct_def)
qed

lemma ReadCmdSetAttrStructFromReader_amd64_decodes:
  assumes "length (SetAttr_Path d) \<le> 0xffff"
  shows "decodes ReadCmdSetAttrStructFromReader_amd64 (wire_CmdSetAttrStruct d) d"
proof -
  have "decodes ReadCmdSetAttrStructFromReader_amd64 ((wire_str (SetAttr_Path d)) @ (PutUint8 (SetAttr_Flag d)) @ (wire_FileInfo (SetAttr_FI d)) @ []) d"
    unfolding ReadCmdSetAttrStructFromReader_amd64_def ReadStrFromReader_amd64_eq
    by (rule decodes_bind | rule decodes_ret | rule decodes_ReadFull | rule ReadStrFromReader_decodes | rule ReadFileInfoFromReader_amd64_decodes | simp add: assms)+
  then show ?thesis by (simp add: wire_CmdSetAttrStruct_def)
qed

lemma ReadCmdSyncStructFromReader_amd64_decodes: "decodes ReadCmdSyncStructFromReader_amd64 (wire_CmdSyncStruct d) d"
proof -
  have "decodes ReadCmdSyncStructFromReader_amd64 ((PutUint32 (Sync_FD d)) @ []) d"
    unfolding ReadCmdSyncStructFromReader_amd64_def
    by (rule decodes_bind | rule decodes_ret | rule decodes_ReadFull | simp)+
  then show ?thesis by (simp add: wire_CmdSyncStruct_def)
qed

lemma ReadCmdMkdirStructFromReader_amd64_decodes:
  assumes "length (Mkdir_Path d) \<le> 0xffff"
  shows "decodes ReadCmdMkdirStructFromReader_amd64 (wire_CmdMkdirStruct d) d"
proof -
  have "decodes ReadCmdMkdirStructFromReader_amd64 ((wire_str (Mkdir_Path d)) @ (PutUint32 (Mkdir_Mode d)) @ []) d"
    unfolding ReadCmdMkdirStructFromReader_amd64_def ReadStrFromReader_amd64_eq
    by (rule decodes_bind | rule decodes_ret | rule decodes_ReadFull | rule ReadStrFromReader_decodes | simp add: assms)+
  then show ?thesis by (simp add: wire_CmdMkdirStruct_def)
qed

lemma ReadCmdSymLinkStructFromReader_amd64_decodes:
  assumes "length (SymLink_TargetPath d) \<le> 0xffff" "length (SymLink_FilePath d) \<le> 0xffff"
  shows "decodes ReadCmdSymLinkStructFromReader_amd64 (wire_CmdSymLinkStruct d) d"
proof -
  have "decodes ReadCmdSymLinkStructFromReader_amd64 ((wire_str (SymLink_TargetPath d)) @ (wire_str (SymLink_FilePath d)) @ []) d"
    unfolding ReadCmdSymLinkStructFromReader_amd64_def ReadStrFromReader_amd64_eq
    by (rule decodes_bind | rule decodes_ret | rule decodes_ReadFull | rule ReadStrFromReader_decodes | simp add: assms)+
  then show ?thesis by (simp add: wire_CmdSymLinkStruct_def)
qed

lemma ReadCmdRemoveStructFromReader_amd64_decodes:
  assumes "length (Remove_Path d) \<le> 0xffff"
  shows "decodes ReadCmdRemoveStructFromReader_amd64 (wire_CmdRemoveStruct d) d"
proof -
  have "decodes ReadCmdRemoveStructFromReader_amd64 ((wire_str (Remove_Path d)) @ []) d"
    unfolding ReadCmdRemoveStructFromReader_amd64_def ReadStrFromReader_amd64_eq
    by (rule decodes_bind | rule decodes_ret | rule decodes_ReadFull | rule ReadStrFromReader_decodes | simp add: assms)+
  then show ?thesis by (simp add: wire_CmdRemoveStruct_def)
qed

lemma ReadCmdRmDirStructFromReader_amd64_decodes:
  assumes "length (RmDir_Path d) \<le> 0xffff"
  shows "decodes ReadCmdRmDirStructFromReader_amd64 (wire_CmdRmDirStruct d) d"
proof -
  have "decodes ReadCmdRmDirStructFromReader_amd64 ((wire_str (RmDir_Path d)) @ []) d"
    unfolding ReadCmdRmDirStructFromReader_amd64_def ReadStrFromReader_amd64_eq
    by (rule decodes_bind | rule decodes_ret | rule decodes_ReadFull | rule ReadStrFromReader_decodes | simp add: assms)+
  then show ?thesis by (simp add: wire_CmdRmDirStruct_def)
qed

lemma ReadCmdFsStatStructFromReader_amd64_decodes:
  assumes "length (FsStat_Path d) \<le> 0xffff"
  shows "decodes ReadCmdFsStatStructFromReader_amd64 (wire_CmdFsStatStruct d) d"
proof -
  have "decodes ReadCmdFsStatStructFromReader_amd64 ((wire_str (FsStat_Path d)) @ []) d"
    unfolding ReadCmdFsStatStructFromReader_amd64_def ReadStrFromReader_amd64_eq
    by (rule decodes_bind | rule decodes_ret | rule decodes_ReadFull | rule ReadStrFromReader_decodes | simp add: assms)+
  then show ?thesis by (simp add: wire_CmdFsStatStruct_def)
qed

lemma ReadCmdReadAtStructFromReader_amd64_decodes: "decodes ReadCmdReadAtStructFromReader_amd64 (wire_CmdReadAtStruct d) d"
proof -
  have "decodes ReadCmdReadAtStructFromReader_amd64 ((PutUint32 (ReadAt_FD d)) @ (PutUint64 (ReadAt_Offset d)) @ (PutUint64 (ReadAt_Size d)) @ []) d"
    unfolding ReadCmdReadAtStructFromReader_amd64_def
    by (rule decodes_bind | rule decodes_ret | rule decodes_ReadFull | simp)+
  then show ?thesis by (simp add: wire_CmdReadAtStruct_def)
qed

lemma ReadCmdWriteAtStructFromReader_amd64_decodes: "decodes_all ReadCmdWriteAtStructFromReader_amd64 (wire_CmdWriteAtStruct d) d"
proof -
  have "decodes_all ReadCmdWriteAtStructFromReader_amd64 ((PutUint32 (WriteAt_FD d)) @ (PutUint64 (WriteAt_Offset d)) @ (WriteAt_Data d)) d"
    unfolding ReadCmdWriteAtStructFromReader_amd64_def
    by (rule decodes_all_bind | rule decodes_all_bind_ret | rule decodes_all_ReadAll | rule decodes_all_readAllToBuffer | rule decodes_ReadFull | simp)+
  then show ?thesis by (simp add: wire_CmdWriteAtStruct_def)
qed

lemma ReadCmdWriteAtStructFromReaderWithBuffer_amd64_decodes:
  assumes "length (WriteAt_Data d) \<le> cap"
  shows "decodes_all (ReadCmdWriteAtStructFromReaderWithBuffer_amd64 cap) (wire_CmdWriteAtStruct d) d"
proof -
  have "decodes_all (ReadCmdWriteAtStructFromReaderWithBuffer_amd64 cap) ((PutUint32 (WriteAt_FD d)) @ (PutUint64 (WriteAt_Offset d)) @ (WriteAt_Data d)) d"
    unfolding ReadCmdWriteAtStructFromReaderWithBuffer_amd64_def
    by (rule decodes_all_bind | rule decodes_all_bind_ret | rule decodes_all_ReadAll | rule decodes_all_readAllToBuffer | rule decodes_ReadFull | simp add: assms)+
  then show ?thesis by (simp add: wire_CmdWriteAtStruct_def)
qed

lemma ReadCmdRenameStructFromReader_amd64_decodes:
  assumes "length (Rename_OldPath d) \<le> 0xffff" "length (Rename_NewPath d) \<le> 0xffff"
  shows "decodes ReadCmdRenameStructFromReader_amd64 (wire_CmdRenameStruct d) d"
proof -
  have "decodes ReadCmdRenameStructFromReader_amd64 ((wire_str (Rename_OldPath d)) @ (wire_str (Rename_NewPath d)) @ (PutUint32 (Rename_Flag d)) @ []) d"
    unfolding ReadCmdRenameStructFromReader_amd64_def ReadStrFromReader_amd64_eq
    by (rule decodes_bind | rule decodes_ret | rule decodes_ReadFull | rule ReadStrFromReader_decodes | simp add: assms)+
  then show ?thesis by (simp add: wire_CmdRenameStruct_def)
qed

lemma ReadCmdCopyFileRangeStructFromReader_amd64_decodes: "decodes ReadCmdCopyFileRangeStructFromReader_amd64 (wire_CmdCopyFileRangeStruct d) d"
proof -
  have "decodes ReadCmdCopyFileRangeStructFromReader_amd64 ((PutUint32 (CopyFileRange_SrcFD d)) @ (PutUint32 (CopyFileRange_DstFD d)) @ (PutUint64 (CopyFileRange_SrcOffset d)) @ (PutUint64 (CopyFileRange_DstOffset d)) @ (PutUint64 (CopyFileRange_Size d)) @ []) d"
    unfolding ReadCmdCopyFileRangeStructFromReader_amd64_def
    by (rule decodes_bind | rule decodes_ret | rule decodes_ReadFull | simp)+
  then show ?thesis by (simp add: wire_CmdCopyFileRangeStruct_def)
qed

lemma ReadCmdCloneFileRangeStructFromReader_amd64_decodes: "decodes ReadCmdCloneFileRangeStructFromReader_amd64 (wire_CmdCloneFileRangeStruct d) d"
proof -
  have "decodes ReadCmdCloneFileRangeStructFromReader_amd64 ((PutUint32 (CloneFileRange_SrcFD d)) @ (PutUint32 (CloneFileRange_DstFD d)) @ (PutUint64 (CloneFileRange_SrcOffset d)) @ (PutUint64 (CloneFileRange_DstOffset d)) @ (PutUint64 (CloneFileRange_Size d)) @ []) d"
    unfolding ReadCmdCloneFileRangeStructFromReader_amd64_def
    by (rule decodes_bind | rule decodes_ret | rule decodes_ReadFull | simp)+
  then show ?thesis by (simp add: wire_CmdCloneFileRangeStruct_def)
qed

lemma ReadCmdSetAttrByFDStructFromReader_amd64_decodes: "decodes ReadCmdSetAttrByFDStructFromReader_amd64 (wire_CmdSetAttrByFDStruct d) d"
proof -
  have "decodes ReadCmdSetAttrByFDStructFromReader_amd64 ((PutUint32 (SetAttrByFD_FD d)) @ (PutUint8 (SetAttrByFD_Flag d)) @ (wire_FileInfo (SetAttrByFD_FI d)) @ []) d"
    unfolding ReadCmdSetAttrByFDStructFromReader_amd64_def
    by (rule decodes_bind | rule decodes_ret | rule decodes_ReadFull | rule ReadFileInfoFromReader_amd64_decodes | simp)+
  then show ?thesis by (simp add: wire_CmdSetAttrByFDStruct_def)
qed

lemma ReadCmdReadDirPlusStructFromReader_amd64_decodes:
  assumes "length (ReadDirPlus_Path d) \<le> 0xffff"
  shows "decodes ReadCmdReadDirPlusStructFromReader_amd64 (wire_CmdReadDirPlusStruct d) d"
proof -
  have "decodes ReadCmdReadDirPlusStructFromReader_amd64 ((wire_str (ReadDirPlus_Path d)) @ []) d"
    unfolding ReadCmdReadDirPlusStructFromReader_amd64_def ReadStrFromReader_amd64_eq
    by (rule decodes_bind | rule decodes_ret | rule decodes_ReadFull | rule ReadStrFromReader_decodes | simp add: assms)+
  then show ?thesis by (simp add: wire_CmdReadDirPlusStruct_def)
qed

lemma ReadCmdWriteStreamOpenStructFromReader_amd64_decodes: "decodes_all ReadCmdWriteStreamOpenStructFromReader_amd64 (wire_CmdWriteStreamOpenStruct d) d"
proof -
  have "decodes_all ReadCmdWriteStreamOpenStructFromReader_amd64 ((PutUint32 (WriteStreamOpen_FD d)) @ (PutUint64 (WriteStreamOpen_Offset d)) @ (WriteStreamOpen_Data d)) d"
    unfolding ReadCmdWriteStreamOpenStructFromReader_amd64_def
    by (rule decodes_all_bind | rule decodes_all_bind_ret | rule decodes_all_ReadAll | rule decodes_all_readAllToBuffer | rule decodes_ReadFull | simp)+
  then show ?thesis by (simp add: wire_CmdWriteStreamOpenStruct_def)
qed

lemma ReadCmdWriteStreamOpenStructFromReaderWithBuffer_amd64_decodes:
  assumes "length (WriteStreamOpen_Data d) \<le> cap"
  shows "decodes_all (ReadCmdWriteStreamOpenStructFromReaderWithBuffer_amd64 cap) (wire_CmdWriteStreamOpenStruct d) d"
proof -
  have "decodes_all (ReadCmdWriteStreamOpenStructFromReaderWithBuffer_amd64 cap) ((PutUint32 (WriteStreamOpen_FD d)) @ (PutUint64 (WriteStreamOpen_Offset d)) @ (WriteStreamOpen_Data d)) d"
    unfolding ReadCmdWriteStreamOpenStructFromReaderWithBuffer_amd64_def
    by (rule decodes_all_bind | rule decodes_all_bind_ret | rule decodes_all_ReadAll | rule decodes_all_readAllToBuffer | rule decodes_ReadFull | simp add: assms)+
  then show ?thesis by (simp add: wire_CmdWriteStreamOpenStruct_def)
qed

lemma ReadCmdWriteStreamDataStructFromReader_amd64_decodes: "decodes_all ReadCmdWriteStreamDataStructFromReader_amd64 (wire_CmdWriteStreamDataStruct d) d"
proof -
  have "decodes_all ReadCmdWriteStreamDataStructFromReader_amd64 ((PutUint8 (WriteStreamData_IsEnd d)) @ (WriteStreamData_Data d)) d"
    unfolding ReadCmdWriteStreamDataStructFromReader_amd64_def
    by (rule decodes_all_bind | rule decodes_all_bind_ret | rule decodes_all_ReadAll | rule decodes_all_readAllToBuffer | rule decodes_ReadFull | simp)+
  then show ?thesis by (simp add: wire_CmdWriteStreamDataStruct_def)
qed

lemma ReadCmdWriteStreamDataStructFromReaderWithBuffer_amd64_decodes:
  assumes "length (WriteStreamData_Data d) \<le> cap"
  shows "decodes_all (ReadCmdWriteStreamDataStructFromReaderWithBuffer_amd64 cap) (wire_CmdWriteStreamDataStruct d) d"
proof -
  have "decodes_all (ReadCmdWriteStreamDataStructFromReaderWithBuffer_amd64 cap) ((PutUint8 (WriteStreamData_IsEnd d)) @ (WriteStreamData_Data d)) d"
    unfolding ReadCmdWriteStreamDataStructFromReaderWithBuffer_amd64_def
    by (rule decodes_all_bind | rule decodes_all_bind_ret | rule decodes_all_ReadAll | rule decodes_all_readAllToBuffer | rule decodes_ReadFull | simp add: assms)+
  then show ?thesis by (simp add: wire_CmdWriteStreamDataStruct_def)
qed

lemma ReadCmdGetFileLockStructFromReader_amd64_decodes: "decodes ReadCmdGetFileLockStructFromReader_amd64 (wire_CmdGetFileLockStruct d) d"
proof -
  have "decodes ReadCmdGetFileLockStructFromReader_amd64 ((PutUint32 (GetFileLock_FD d)) @ (wire_FileLockInfo (GetFileLock_FileLock d)) @ []) d"
    unfolding ReadCmdGetFileLockStructFromReader_amd64_def
    by (rule decodes_bind | rule decodes_ret | rule decodes_ReadFull | rule ReadFileLockInfoFromReader_amd64_decodes | simp)+
  then show ?thesis by (simp add: wire_CmdGetFileLockStruct_def)
qed

lemma ReadCmdSetFileLockStructFromReader_amd64_decodes: "decodes ReadCmdSetFileLockStructFromReader_amd64 (wire_CmdSetFileLockStruct d) d"
proof -
  have "decodes ReadCmdSetFileLockStructFromReader_amd64 ((PutUint32 (SetFileLock_FD d)) @ (wire_FileLockInfo (SetFileLock_FileLock d)) @ []) d"
    unfolding ReadCmdSetFileLockStructFromReader_amd64_def
    by (rule decodes_bind | rule decodes_ret | rule decodes_ReadFull | rule ReadFileLockInfoFromReader_amd64_decodes | simp)+
  then show ?thesis by (simp add: wire_CmdSetFileLockStruct_def)
qed

lemma ReadCmdSetFileLockWaitStructFromReader_amd64_decodes: "decodes ReadCmdSetFileLockWaitStructFromReader_amd64 (wire_CmdSetFileLockWaitStruct d) d"
proof -
  have "decodes ReadCmdSetFileLockWaitStructFromReader_amd64 ((PutUint32 (SetFileLockWait_FD d)) @ (wire_FileLockInfo (SetFileLockWait_FileLock d)) @ []) d"
    unfolding ReadCmdSetFileLockWaitStructFromReader_amd64_def
    by (rule decodes_bind | rule decodes_ret | rule decodes_ReadFull | rule ReadFileLockInfoFromReader_amd64_decodes | simp)+
  then show ?thesis by (simp add: wire_CmdSetFileLockWaitStruct_def)
qed

lemma ReadCmdLinkStructFromReader_amd64_decodes:
  assumes "length (Link_TargetPath d) \<le> 0xffff" "length (Link_FilePath d) \<le> 0xffff"
  shows "decodes ReadCmdLinkStructFromReader_amd64 (wire_CmdLinkStruct d) d"
proof -
  have "decodes ReadCmdLinkStructFromReader_amd64 ((wire_str (Link_TargetPath d)) @ (wire_str (Link_FilePath d)) @ []) d"
    unfolding ReadCmdLinkStructFromReader_amd64_def ReadStrFromReader_amd64_eq
    by (rule decodes_bind | rule decodes_ret | rule decodes_ReadFull | rule ReadStrFromReader_decodes | simp add: assms)+
  then show ?thesis by (simp add: wire_CmdLinkStruct_def)
qed

lemma ReadCmdSetXAttrStructFromReader_amd64_decodes:
  assumes "length (SetXAttr_Path d) \<le> 0xffff" "length (SetXAttr_Key d) \<le> 0xffff"
  shows "decodes_all ReadCmdSetXAttrStructFromReader_amd64 (wire_CmdSetXAttrStruct d) d"
proof -
  have "decodes_all ReadCmdSetXAttrStructFromReader_amd64 ((wire_str (SetXAttr_Path d)) @ (PutUint32 (SetXAttr_Flag d)) @ (wire_str (SetXAttr_Key d)) @ (SetXAttr_Value d)) d"
    unfolding ReadCmdSetXAttrStructFromReader_amd64_def ReadStrFromReader_amd64_eq
    by (rule decodes_all_bind | rule decodes_all_bind_ret | rule decodes_all_ReadAll | rule decodes_all_readAllToBuffer | rule decodes_ReadFull | rule ReadStrFromReader_decodes | simp add: assms)+
  then show ?thesis by (simp add: wire_CmdSetXAttrStruct_def)
qed

lemma ReadCmdSetXAttrStructFromReaderWithBuffer_amd64_decodes:
  assumes "length (SetXAttr_Path d) \<le> 0xffff" "length (SetXAttr_Key d) \<le> 0xffff" "length (SetXAttr_Value d) \<le> cap"
  shows "decodes_all (ReadCmdSetXAttrStructFromReaderWithBuffer_amd64 cap) (wire_CmdSetXAttrStruct d) d"
proof -
  have "decodes_all (ReadCmdSetXAttrStructFromReaderWithBuffer_amd64 cap) ((wire_str (SetXAttr_Path d)) @ (PutUint32 (SetXAttr_Flag d)) @ (wire_str (SetXAttr_Key d)) @ (SetXAttr_Value d)) d"
    unfolding ReadCmdSetXAttrStructFromReaderWithBuffer_amd64_def ReadStrFromReader_amd64_eq
    by (rule decodes_all_bind | rule decodes_all_bind_ret | rule decodes_all_ReadAll | rule decodes_all_readAllToBuffer | rule decodes_ReadFull | rule ReadStrFromReader_decodes | simp add: assms)+
  then show ?thesis by (simp add: wire_CmdSetXAttrStruct_def)
qed

lemma ReadCmdGetXAttrStructFromReader_amd64_decodes:
  assumes "length (GetXAttr_Path d) \<le> 0xffff" "length (GetXAttr_Key d) \<le> 0xffff"
  shows "decodes ReadCmdGetXAttrStructFromReader_amd64 (wire_CmdGetXAttrStruct d) d"
proof -
  have "decodes ReadCmdGetXAttrStructFromReader_amd64 ((wire_str (GetXAttr_Path d)) @ (wire_str (GetXAttr_Key d)) @ (PutUint32 (GetXAttr_Mode d)) @ []) d"
    unfolding ReadCmdGetXAttrStructFromReader_amd64_def ReadStrFromReader_amd64_eq
    by (rule decodes_bind | rule decodes_ret | rule decodes_ReadFull | rule ReadStrFromReader_decodes | simp add: assms)+
  then show ?thesis by (simp add: wire_CmdGetXAttrStruct_def)
qed

lemma ReadCmdListXAttrStructFromReader_amd64_decodes:
  assumes "length (ListXAttr_Path d) \<le> 0xffff"
  shows "decodes ReadCmdListXAttrStructFromReader_amd64 (wire_CmdListXAttrStruct d) d"
proof -
  have "decodes ReadCmdListXAttrStructFromReader_amd64 ((wire_str (ListXAttr_Path d)) @ (PutUint32 (ListXAttr_Mode d)) @ []) d"
    unfolding ReadCmdListXAttrStructFromReader_amd64_def ReadStrFromReader_amd64_eq
    by (rule decodes_bind | rule decodes_ret | rule decodes_ReadFull | rule ReadStrFromReader_decodes | simp add: assms)+
  then show ?thesis by (simp add: wire_CmdListXAttrStruct_def)
qed

lemma ReadCmdRemoveXAttrStructFromReader_amd64_decodes:
  assumes "length (RemoveXAttr_Path d) \<le> 0xffff" "length (RemoveXAttr_Key d) \<le> 0xffff"
  shows "decodes ReadCmdRemoveXAttrStructFromReader_amd64 (wire_CmdRemoveXAttrStruct d) d"
proof -
  have "decodes ReadCmdRemoveXAttrStructFromReader_amd64 ((wire_str (RemoveXAttr_Path d)) @ (wire_str (RemoveXAttr_Key d)) @ (PutUint32 (RemoveXAttr_Mode d)) @ []) d"
    unfolding ReadCmdRemoveXAttrStructFromReader_amd64_def ReadStrFromReader_amd64_eq
    by (rule decodes_bind | rule decodes_ret | rule decodes_ReadFull | rule ReadStrFromReader_decodes | simp add: assms)+
  then show ?thesis by (simp add: wire_CmdRemoveXAttrStruct_def)
qed

lemma ReadRspErrorFromReader_amd64_decodes:
  assumes "length (RspError_Desc d) \<le> 0xffff"
  shows "decodes ReadRspErrorFromReader_amd64 (wire_RspError d) d"
proof -
  have "decodes ReadRspErrorFromReader_amd64 ((wire_str (RspError_Desc d)) @ []) d"
    unfolding ReadRspErrorFromReader_amd64_def ReadStrFromReader_amd64_eq
    by (rule decodes_bind | rule decodes_ret | rule decodes_ReadFull | rule ReadStrFromReader_decodes | simp add: assms)+
  then show ?thesis by (simp add: wire_RspError_def)
qed

lemma ReadRspOpenFromReader_amd64_decodes: "decodes ReadRspOpenFromReader_amd64 (wire_RspOpen d) d"
proof -
  have "decodes ReadRspOpenFromReader_amd64 ((PutUint32 (RspOpen_FD d)) @ []) d"
    unfolding ReadRspOpenFromReader_amd64_def
    by (rule decodes_bind | rule decodes_ret | rule decodes_ReadFull | simp)+
  then show ?thesis by (simp add: wire_RspOpen_def)
qed

lemma ReadRspReadLinkFromReader_amd64_decodes:
  assumes "length (RspReadLink_TargetPath d) \<le> 0xffff"
  shows "decodes ReadRspReadLinkFromReader_amd64 (wire_RspReadLink d) d"
proof -
  have "decodes ReadRspReadLinkFromReader_amd64 ((wire_str (RspReadLink_TargetPath d)) @ []) d"
    unfolding ReadRspReadLinkFromReader_amd64_def ReadStrFromReader_amd64_eq
    by (rule decodes_bind | rule decodes_ret | rule decodes_ReadFull | rule ReadStrFromReader_decodes | simp add: assms)+
  then show ?thesis by (simp add: wire_RspReadLink_def)
qed

lemma ReadRspWriteFromReader_amd64_decodes: "decodes ReadRspWriteFromReader_amd64 (wire_RspWrite d) d"
proof -
  have "decodes ReadRspWriteFromReader_amd64 ((PutUint64 (RspWrite_Written d)) @ []) d"
    unfolding ReadRspWriteFromReader_amd64_def
    by (rule decodes_bind | rule decodes_ret | rule decodes_ReadFull | simp)+
  then show ?thesis by (simp add: wire_RspWrite_def)
qed

lemma ReadRspSeekFromReader_amd64_decodes: "decodes ReadRspSeekFromReader_amd64 (wire_RspSeek d) d"
proof -
  have "decodes ReadRspSeekFromReader_amd64 ((PutUint64 (RspSeek_Offset d)) @ []) d"
    unfolding ReadRspSeekFromReader_amd64_def
    by (rule decodes_bind | rule decodes_ret | rule decodes_ReadFull | simp)+
  then show ?thesis by (simp add: wire_RspSeek_def)
qed

lemma ReadRspGetAttrFromReader_amd64_decodes: "decodes ReadRspGetAttrFromReader_amd64 (wire_RspGetAttr d) d"
proof -
  have "decodes ReadRspGetAttrFromReader_amd64 ((wire_FileInfo (RspGetAttr_FI d)) @ []) d"
    unfolding ReadRspGetAttrFromReader_amd64_def
    by (rule decodes_bind | rule decodes_ret | rule decodes_ReadFull | rule ReadFileInfoFromReader_amd64_decodes | simp)+
  then show ?thesis by (simp add: wire_RspGetAttr_def)
qed

lemma ReadRspFsStatFromReader_amd64_decodes: "decodes ReadRspFsStatFromReader_amd64 (wire_RspFsStat d) d"
proof -
  have "decodes ReadRspFsStatFromReader_amd64 ((PutUint64 (RspFsStat_Total d)) @ (PutUint64 (RspFsStat_Free d)) @ (PutUint64 (RspFsStat_Available d)) @ []) d"
    unfolding ReadRspFsStatFromReader_amd64_def
    by (rule decodes_bind | rule decodes_ret | rule decodes_ReadFull | simp)+
  then show ?thesis by (simp add: wire_RspFsStat_def)
qed

lemma ReadRspWriteAtFromReader_amd64_decodes: "decodes ReadRspWriteAtFromReader_amd64 (wire_RspWriteAt d) d"
proof -
  have "decodes ReadRspWriteAtFromReader_amd64 ((PutUint64 (RspWriteAt_Written d)) @ []) d"
    unfolding ReadRspWriteAtFromReader_amd64_def
    by (rule decodes_bind | rule decodes_ret | rule decodes_ReadFull | simp)+
  then show ?thesis by (simp add: wire_RspWriteAt_def)
qed

lemma ReadRspCopyFileRangeFromReader_amd64_decodes: "decodes ReadRspCopyFileRangeFromReader_amd64 (wire_RspCopyFileRange d) d"
proof -
  have "decodes ReadRspCopyFileRangeFromReader_amd64 ((PutUint64 (RspCopyFileRange_Copied d)) @ []) d"
    unfolding ReadRspCopyFileRangeFromReader_amd64_def
    by (rule decodes_bind | rule decodes_ret | rule decodes_ReadFull | simp)+
  then show ?thesis by (simp add: wire_RspCopyFileRange_def)
qed

lemma ReadRspWriteStreamCloseFromReader_amd64_decodes: "decodes ReadRspWriteStreamCloseFromReader_amd64 (wire_RspWriteStreamClose d) d"
proof -
  have "decodes ReadRspWriteStreamCloseFromReader_amd64 ((PutUint64 (RspWriteStreamClose_Written d)) @ []) d"
    unfolding ReadRspWriteStreamCloseFromReader_amd64_def
    by (rule decodes_bind | rule decodes_ret | rule decodes_ReadFull | simp)+
  then show ?thesis by (simp add: wire_RspWriteStreamClose_def)
qed

lemma ReadRspGetFileLockFromReader_amd64_decodes: "decodes ReadRspGetFileLockFromReader_amd64 (wire_RspGetFileLock d) d"
proof -
  have "decodes ReadRspGetFileLockFromReader_amd64 ((wire_FileLockInfo (RspGetFileLock_FileLock d)) @ []) d"
    unfolding ReadRspGetFileLockFromReader_amd64_def
    by (rule decodes_bind | rule decodes_ret | rule decodes_ReadFull | rule ReadFileLockInfoFromReader_amd64_decodes | simp)+
  then show ?thesis by (simp add: wire_RspGetFileLock_def)
qed

end
