(* ===== verification/Wsfs_Command.thy ===== *)
theory Wsfs_Command
  imports Wsfs_Const Wsfs_Codec_Amd64
begin

text \<open>
  The commands a client sends, as one datatype with a constructor per request struct, their codes
  (\<^verbatim>\<open>const.go\<close>) and the decoding half of the server's generated dispatcher \<^verbatim>\<open>doCommandCall\<close>
  (\<^verbatim>\<open>src/src/internal/server/wsfs/commandCalls.go\<close>): which decoder a command code selects, with a
  fast buffer of \<^verbatim>\<open>MaxCommandLength\<close> bytes where the request carries a payload. What the dispatcher does
  with the decoded request is in theory \<^verbatim>\<open>Wsfs_Server\<close>.
\<close>

datatype command =
    ReqOpen CmdOpenStruct
  | ReqClose CmdCloseStruct
  | ReqRead CmdReadStruct
  | ReqReadDir CmdReadDirStruct
  | ReqReadLink CmdReadLinkStruct
  | ReqWrite CmdWriteStruct
  | ReqSeek CmdSeekStruct
  | ReqAllocate CmdAllocateStruct
  | ReqGetAttr CmdGetAttrStruct
  | ReqSetAttr CmdSetAttrStruct
  | ReqSync CmdSyncStruct
  | ReqMkdir CmdMkdirStruct
  | ReqSymLink CmdSymLinkStruct
  | ReqRemove CmdRemoveStruct
  | ReqRmDir CmdRmDirStruct
  | ReqFsStat CmdFsStatStruct
  | ReqReadAt CmdReadAtStruct
  | ReqWriteAt CmdWriteAtStruct
  | ReqCopyFileRange CmdCopyFileRangeStruct
  | ReqRename CmdRenameStruct
  | ReqSetAttrByFD CmdSetAttrByFDStruct
  | ReqReadDirPlus CmdReadDirPlusStruct
  | ReqWriteStreamOpen CmdWriteStreamOpenStruct
  | ReqWriteStreamData CmdWriteStreamDataStruct
  | ReqCloneFileRange CmdCloneFileRangeStruct
  | ReqGetFileLock CmdGetFileLockStruct
  | ReqSetFileLock CmdSetFileLockStruct
  | ReqSetFileLockWait CmdSetFileLockWaitStruct
  | ReqLink CmdLinkStruct
  | ReqSetXAttr CmdSetXAttrStruct
  | ReqGetXAttr CmdGetXAttrStruct
  | ReqListXAttr CmdListXAttrStruct
  | ReqRemoveXAttr CmdRemoveXAttrStruct

fun command_code :: "command \<Rightarrow> u8" where
  "command_code (ReqOpen _) = CmdOpen"
| "command_code (ReqClose _) = CmdClose"
| "command_code (ReqRead _) = CmdRead"
| "command_code (ReqReadDir _) = CmdReadDir"
| "command_code (ReqReadLink _) = CmdReadLink"
| "command_code (ReqWrite _) = CmdWrite"
| "command_code (ReqSeek _) = CmdSeek"
| "command_code (ReqAllocate _) = CmdAllocate"
| "command_code (ReqGetAttr _) = CmdGetAttr"
| "command_code (ReqSetAttr _) = CmdSetAttr"
| "command_code (ReqSync _) = CmdSync"
| "command_code (ReqMkdir _) = CmdMkdir"
| "command_code (ReqSymLink _) = CmdSymLink"
| "command_code (ReqRemove _) = CmdRemove"
| "command_code (ReqRmDir _) = CmdRmDir"
| "command_code (ReqFsStat _) = CmdFsStat"
| "command_code (ReqReadAt _) = CmdReadAt"
| "command_code (ReqWriteAt _) = CmdWriteAt"
| "command_code (ReqCopyFileRange _) = CmdCopyFileRange"
| "command_code (ReqRename _) = CmdRename"
| "command_code (ReqSetAttrByFD _) = CmdSetAttrByFD"
| "command_code (ReqReadDirPlus _) = CmdReadDirPlus"
| "command_code (ReqWriteStreamOpen _) = CmdWriteStreamOpen"
| "command_code (ReqWriteStreamData _) = CmdWriteStreamData"
| "command_code (ReqCloneFileRange _) = CmdCloneFileRange"
| "command_code (ReqGetFileLock _) = CmdGetFileLock"
| "command_code (ReqSetFileLock _) = CmdSetFileLock"
| "command_code (ReqSetFileLockWait _) = CmdSetFileLockWait"
| "command_code (ReqLink _) = CmdLink"
| "command_code (ReqSetXAttr _) = CmdSetXAttr"
| "command_code (ReqGetXAttr _) = CmdGetXAttr"
| "command_code (ReqListXAttr _) = CmdListXAttr"
| "command_code (ReqRemoveXAttr _) = CmdRemoveXAttr"

text \<open>Go's \<^verbatim>\<open>switch cmd\<close>; \<open>None\<close> is the default branch.\<close>

definition rmap :: "('a \<Rightarrow> 'b) \<Rightarrow> 'a rprog \<Rightarrow> 'b rprog" where
  "rmap f p = rbind p (\<lambda>x. rret (f x))"

definition decodeCommand :: "u8 \<Rightarrow> command rprog option" where
  "decodeCommand cmd =
     (if cmd = CmdOpen then Some (rmap ReqOpen ReadCmdOpenStructFromReader)
     else if cmd = CmdClose then Some (rmap ReqClose ReadCmdCloseStructFromReader)
     else if cmd = CmdRead then Some (rmap ReqRead ReadCmdReadStructFromReader)
     else if cmd = CmdReadDir then Some (rmap ReqReadDir ReadCmdReadDirStructFromReader)
     else if cmd = CmdReadLink then Some (rmap ReqReadLink ReadCmdReadLinkStructFromReader)
     else if cmd = CmdWrite then Some (rmap ReqWrite (ReadCmdWriteStructFromReaderWithBuffer MaxCommandLength))
     else if cmd = CmdSeek then Some (rmap ReqSeek ReadCmdSeekStructFromReader)
     else if cmd = CmdAllocate then Some (rmap ReqAllocate ReadCmdAllocateStructFromReader)
     else if cmd = CmdGetAttr then Some (rmap ReqGetAttr ReadCmdGetAttrStructFromReader)
     else if cmd = CmdSetAttr then Some (rmap ReqSetAttr ReadCmdSetAttrStructFromReader)
     else if cmd = CmdSync then Some (rmap ReqSync ReadCmdSyncStructFromReader)
     else if cmd = CmdMkdir then Some (rmap ReqMkdir ReadCmdMkdirStructFromReader)
     else if cmd = CmdSymLink then Some (rmap ReqSymLink ReadCmdSymLinkStructFromReader)
     else if cmd = CmdRemove then Some (rmap ReqRemove ReadCmdRemoveStructFromReader)
     else if cmd = CmdRmDir then Some (rmap ReqRmDir ReadCmdRmDirStructFromReader)
     else if cmd = CmdFsStat then Some (rmap ReqFsStat ReadCmdFsStatStructFromReader)
     else if cmd = CmdReadAt then Some (rmap ReqReadAt ReadCmdReadAtStructFromReader)
     else if cmd = CmdWriteAt then Some (rmap ReqWriteAt (ReadCmdWriteAtStructFromReaderWithBuffer MaxCommandLength))
     else if cmd = CmdCopyFileRange then Some (rmap ReqCopyFileRange ReadCmdCopyFileRangeStructFromReader)
     else if cmd = CmdRename then Some (rmap ReqRename ReadCmdRenameStructFromReader)
     else if cmd = CmdSetAttrByFD then Some (rmap ReqSetAttrByFD ReadCmdSetAttrByFDStructFromReader)
     else if cmd = CmdReadDirPlus then Some (rmap ReqReadDirPlus ReadCmdReadDirPlusStructFromReader)
     else if cmd = CmdWriteStreamOpen then Some (rmap ReqWriteStreamOpen (ReadCmdWriteStreamOpenStructFromReaderWithBuffer MaxCommandLength))
     else if cmd = CmdWriteStreamData then Some (rmap ReqWriteStreamData (ReadCmdWriteStreamDataStructFromReaderWithBuffer MaxCommandLength))
     else if cmd = CmdCloneFileRange then Some (rmap ReqCloneFileRange ReadCmdCloneFileRangeStructFromReader)
     else if cmd = CmdGetFileLock then Some (rmap ReqGetFileLock ReadCmdGetFileLockStructFromReader)
     else if cmd = CmdSetFileLock then Some (rmap ReqSetFileLock ReadCmdSetFileLockStructFromReader)
     else if cmd = CmdSetFileLockWait then Some (rmap ReqSetFileLockWait ReadCmdSetFileLockWaitStructFromReader)
     else if cmd = CmdLink then Some (rmap ReqLink ReadCmdLinkStructFromReader)
     else if cmd = CmdSetXAttr then Some (rmap ReqSetXAttr (ReadCmdSetXAttrStructFromReaderWithBuffer MaxCommandLength))
     else if cmd = CmdGetXAttr then Some (rmap ReqGetXAttr ReadCmdGetXAttrStructFromReader)
     else if cmd = CmdListXAttr then Some (rmap ReqListXAttr ReadCmdListXAttrStructFromReader)
     else if cmd = CmdRemoveXAttr then Some (rmap ReqRemoveXAttr ReadCmdRemoveXAttrStructFromReader)
     else None)"

definition decodeCommand_amd64 :: "u8 \<Rightarrow> command rprog option" where
  "decodeCommand_amd64 cmd =
     (if cmd = CmdOpen then Some (rmap ReqOpen ReadCmdOpenStructFromReader_amd64)
     else if cmd = CmdClose then Some (rmap ReqClose ReadCmdCloseStructFromReader_amd64)
     else if cmd = CmdRead then Some (rmap ReqRead ReadCmdReadStructFromReader_amd64)
     else if cmd = CmdReadDir then Some (rmap ReqReadDir ReadCmdReadDirStructFromReader_amd64)
     else if cmd = CmdReadLink then Some (rmap ReqReadLink ReadCmdReadLinkStructFromReader_amd64)
     else if cmd = CmdWrite then Some (rmap ReqWrite (ReadCmdWriteStructFromReaderWithBuffer_amd64 MaxCommandLength))
     else if cmd = CmdSeek then Some (rmap ReqSeek ReadCmdSeekStructFromReader_amd64)
     else if cmd = CmdAllocate then Some (rmap ReqAllocate ReadCmdAllocateStructFromReader_amd64)
     else if cmd = CmdGetAttr then Some (rmap ReqGetAttr ReadCmdGetAttrStructFromReader_amd64)
     else if cmd = CmdSetAttr then Some (rmap ReqSetAttr ReadCmdSetAttrStructFromReader_amd64)
     else if cmd = CmdSync then Some (rmap ReqSync ReadCmdSyncStructFromReader_amd64)
     else if cmd = CmdMkdir then Some (rmap ReqMkdir ReadCmdMkdirStructFromReader_amd64)
     else if cmd = CmdSymLink then Some (rmap ReqSymLink ReadCmdSymLinkStructFromReader_amd64)
     else if cmd = CmdRemove then Some (rmap ReqRemove ReadCmdRemoveStructFromReader_amd64)
     else if cmd = CmdRmDir then Some (rmap ReqRmDir ReadCmdRmDirStructFromReader_amd64)
     else if cmd = CmdFsStat then Some (rmap ReqFsStat ReadCmdFsStatStructFromReader_amd64)
     else if cmd = CmdReadAt then Some (rmap ReqReadAt ReadCmdReadAtStructFromReader_amd64)
     else if cmd = CmdWriteAt then Some (rmap ReqWriteAt (ReadCmdWriteAtStructFromReaderWithBuffer_amd64 MaxCommandLength))
     else if cmd = CmdCopyFileRange then Some (rmap ReqCopyFileRange ReadCmdCopyFileRangeStructFromReader_amd64)
     else if cmd = CmdRename then Some (rmap ReqRename ReadCmdRenameStructFromReader_amd64)
     else if cmd = CmdSetAttrByFD then Some (rmap ReqSetAttrByFD ReadCmdSetAttrByFDStructFromReader_amd64)
     else if cmd = CmdReadDirPlus then Some (rmap ReqReadDirPlus ReadCmdReadDirPlusStructFromReader_amd64)
     else if cmd = CmdWriteStreamOpen then Some (rmap ReqWriteStreamOpen (ReadCmdWriteStreamOpenStructFromReaderWithBuffer_amd64 MaxCommandLength))
     else if cmd = CmdWriteStreamData then Some (rmap ReqWriteStreamData (ReadCmdWriteStreamDataStructFromReaderWithBuffer_amd64 MaxCommandLength))
     else if cmd = CmdCloneFileRange then Some (rmap ReqCloneFileRange ReadCmdCloneFileRangeStructFromReader_amd64)
     else if cmd = CmdGetFileLock then Some (rmap ReqGetFileLock ReadCmdGetFileLockStructFromReader_amd64)
     else if cmd = CmdSetFileLock then Some (rmap ReqSetFileLock ReadCmdSetFileLockStructFromReader_amd64)
     else if cmd = CmdSetFileLockWait then Some (rmap ReqSetFileLockWait ReadCmdSetFileLockWaitStructFromReader_amd64)
     else if cmd = CmdLink then Some (rmap ReqLink ReadCmdLinkStructFromReader_amd64)
     else if cmd = CmdSetXAttr then Some (rmap ReqSetXAttr (ReadCmdSetXAttrStructFromReaderWithBuffer_amd64 MaxCommandLength))
     else if cmd = CmdGetXAttr then Some (rmap ReqGetXAttr ReadCmdGetXAttrStructFromReader_amd64)
     else if cmd = CmdListXAttr then Some (rmap ReqListXAttr ReadCmdListXAttrStructFromReader_amd64)
     else if cmd = CmdRemoveXAttr then Some (rmap ReqRemoveXAttr ReadCmdRemoveXAttrStructFromReader_amd64)
     else None)"

fun wire_command :: "command \<Rightarrow> bytes" where
  "wire_command (ReqOpen d) = wire_CmdOpenStruct d"
| "wire_command (ReqClose d) = wire_CmdCloseStruct d"
| "wire_command (ReqRead d) = wire_CmdReadStruct d"
| "wire_command (ReqReadDir d) = wire_CmdReadDirStruct d"
| "wire_command (ReqReadLink d) = wire_CmdReadLinkStruct d"
| "wire_command (ReqWrite d) = wire_CmdWriteStruct d"
| "wire_command (ReqSeek d) = wire_CmdSeekStruct d"
| "wire_command (ReqAllocate d) = wire_CmdAllocateStruct d"
| "wire_command (ReqGetAttr d) = wire_CmdGetAttrStruct d"
| "wire_command (ReqSetAttr d) = wire_CmdSetAttrStruct d"
| "wire_command (ReqSync d) = wire_CmdSyncStruct d"
| "wire_command (ReqMkdir d) = wire_CmdMkdirStruct d"
| "wire_command (ReqSymLink d) = wire_CmdSymLinkStruct d"
| "wire_command (ReqRemove d) = wire_CmdRemoveStruct d"
| "wire_command (ReqRmDir d) = wire_CmdRmDirStruct d"
| "wire_command (ReqFsStat d) = wire_CmdFsStatStruct d"
| "wire_command (ReqReadAt d) = wire_CmdReadAtStruct d"
| "wire_command (ReqWriteAt d) = wire_CmdWriteAtStruct d"
| "wire_command (ReqCopyFileRange d) = wire_CmdCopyFileRangeStruct d"
| "wire_command (ReqRename d) = wire_CmdRenameStruct d"
| "wire_command (ReqSetAttrByFD d) = wire_CmdSetAttrByFDStruct d"
| "wire_command (ReqReadDirPlus d) = wire_CmdReadDirPlusStruct d"
| "wire_command (ReqWriteStreamOpen d) = wire_CmdWriteStreamOpenStruct d"
| "wire_command (ReqWriteStreamData d) = wire_CmdWriteStreamDataStruct d"
| "wire_command (ReqCloneFileRange d) = wire_CmdCloneFileRangeStruct d"
| "wire_command (ReqGetFileLock d) = wire_CmdGetFileLockStruct d"
| "wire_command (ReqSetFileLock d) = wire_CmdSetFileLockStruct d"
| "wire_command (ReqSetFileLockWait d) = wire_CmdSetFileLockWaitStruct d"
| "wire_command (ReqLink d) = wire_CmdLinkStruct d"
| "wire_command (ReqSetXAttr d) = wire_CmdSetXAttrStruct d"
| "wire_command (ReqGetXAttr d) = wire_CmdGetXAttrStruct d"
| "wire_command (ReqListXAttr d) = wire_CmdListXAttrStruct d"
| "wire_command (ReqRemoveXAttr d) = wire_CmdRemoveXAttrStruct d"

text \<open>The encoder a client uses for each request.\<close>

fun WriteCommandToWriter :: "'w writeop \<Rightarrow> command \<Rightarrow> 'w wprog" where
  "WriteCommandToWriter wr (ReqOpen d) = WriteCmdOpenStructToWriter wr d"
| "WriteCommandToWriter wr (ReqClose d) = WriteCmdCloseStructToWriter wr d"
| "WriteCommandToWriter wr (ReqRead d) = WriteCmdReadStructToWriter wr d"
| "WriteCommandToWriter wr (ReqReadDir d) = WriteCmdReadDirStructToWriter wr d"
| "WriteCommandToWriter wr (ReqReadLink d) = WriteCmdReadLinkStructToWriter wr d"
| "WriteCommandToWriter wr (ReqWrite d) = WriteCmdWriteStructToWriter wr d"
| "WriteCommandToWriter wr (ReqSeek d) = WriteCmdSeekStructToWriter wr d"
| "WriteCommandToWriter wr (ReqAllocate d) = WriteCmdAllocateStructToWriter wr d"
| "WriteCommandToWriter wr (ReqGetAttr d) = WriteCmdGetAttrStructToWriter wr d"
| "WriteCommandToWriter wr (ReqSetAttr d) = WriteCmdSetAttrStructToWriter wr d"
| "WriteCommandToWriter wr (ReqSync d) = WriteCmdSyncStructToWriter wr d"
| "WriteCommandToWriter wr (ReqMkdir d) = WriteCmdMkdirStructToWriter wr d"
| "WriteCommandToWriter wr (ReqSymLink d) = WriteCmdSymLinkStructToWriter wr d"
| "WriteCommandToWriter wr (ReqRemove d) = WriteCmdRemoveStructToWriter wr d"
| "WriteCommandToWriter wr (ReqRmDir d) = WriteCmdRmDirStructToWriter wr d"
| "WriteCommandToWriter wr (ReqFsStat d) = WriteCmdFsStatStructToWriter wr d"
| "WriteCommandToWriter wr (ReqReadAt d) = WriteCmdReadAtStructToWriter wr d"
| "WriteCommandToWriter wr (ReqWriteAt d) = WriteCmdWriteAtStructToWriter wr d"
| "WriteCommandToWriter wr (ReqCopyFileRange d) = WriteCmdCopyFileRangeStructToWriter wr d"
| "WriteCommandToWriter wr (ReqRename d) = WriteCmdRenameStructToWriter wr d"
| "WriteCommandToWriter wr (ReqSetAttrByFD d) = WriteCmdSetAttrByFDStructToWriter wr d"
| "WriteCommandToWriter wr (ReqReadDirPlus d) = WriteCmdReadDirPlusStructToWriter wr d"
| "WriteCommandToWriter wr (ReqWriteStreamOpen d) = WriteCmdWriteStreamOpenStructToWriter wr d"
| "WriteCommandToWriter wr (ReqWriteStreamData d) = WriteCmdWriteStreamDataStructToWriter wr d"
| "WriteCommandToWriter wr (ReqCloneFileRange d) = WriteCmdCloneFileRangeStructToWriter wr d"
| "WriteCommandToWriter wr (ReqGetFileLock d) = WriteCmdGetFileLockStructToWriter wr d"
| "WriteCommandToWriter wr (ReqSetFileLock d) = WriteCmdSetFileLockStructToWriter wr d"
| "WriteCommandToWriter wr (ReqSetFileLockWait d) = WriteCmdSetFileLockWaitStructToWriter wr d"
| "WriteCommandToWriter wr (ReqLink d) = WriteCmdLinkStructToWriter wr d"
| "WriteCommandToWriter wr (ReqSetXAttr d) = WriteCmdSetXAttrStructToWriter wr d"
| "WriteCommandToWriter wr (ReqGetXAttr d) = WriteCmdGetXAttrStructToWriter wr d"
| "WriteCommandToWriter wr (ReqListXAttr d) = WriteCmdListXAttrStructToWriter wr d"
| "WriteCommandToWriter wr (ReqRemoveXAttr d) = WriteCmdRemoveXAttrStructToWriter wr d"

fun WriteCommandToWriter_amd64 :: "'w writeop \<Rightarrow> command \<Rightarrow> 'w wprog" where
  "WriteCommandToWriter_amd64 wr (ReqOpen d) = WriteCmdOpenStructToWriter_amd64 wr d"
| "WriteCommandToWriter_amd64 wr (ReqClose d) = WriteCmdCloseStructToWriter_amd64 wr d"
| "WriteCommandToWriter_amd64 wr (ReqRead d) = WriteCmdReadStructToWriter_amd64 wr d"
| "WriteCommandToWriter_amd64 wr (ReqReadDir d) = WriteCmdReadDirStructToWriter_amd64 wr d"
| "WriteCommandToWriter_amd64 wr (ReqReadLink d) = WriteCmdReadLinkStructToWriter_amd64 wr d"
| "WriteCommandToWriter_amd64 wr (ReqWrite d) = WriteCmdWriteStructToWriter_amd64 wr d"
| "WriteCommandToWriter_amd64 wr (ReqSeek d) = WriteCmdSeekStructToWriter_amd64 wr d"
| "WriteCommandToWriter_amd64 wr (ReqAllocate d) = WriteCmdAllocateStructToWriter_amd64 wr d"
| "WriteCommandToWriter_amd64 wr (ReqGetAttr d) = WriteCmdGetAttrStructToWriter_amd64 wr d"
| "WriteCommandToWriter_amd64 wr (ReqSetAttr d) = WriteCmdSetAttrStructToWriter_amd64 wr d"
| "WriteCommandToWriter_amd64 wr (ReqSync d) = WriteCmdSyncStructToWriter_amd64 wr d"
| "WriteCommandToWriter_amd64 wr (ReqMkdir d) = WriteCmdMkdirStructToWriter_amd64 wr d"
| "WriteCommandToWriter_amd64 wr (ReqSymLink d) = WriteCmdSymLinkStructToWriter_amd64 wr d"
| "WriteCommandToWriter_amd64 wr (ReqRemove d) = WriteCmdRemoveStructToWriter_amd64 wr d"
| "WriteCommandToWriter_amd64 wr (ReqRmDir d) = WriteCmdRmDirStructToWriter_amd64 wr d"
| "WriteCommandToWriter_amd64 wr (ReqFsStat d) = WriteCmdFsStatStructToWriter_amd64 wr d"
| "WriteCommandToWriter_amd64 wr (ReqReadAt d) = WriteCmdReadAtStructToWriter_amd64 wr d"
| "WriteCommandToWriter_amd64 wr (ReqWriteAt d) = WriteCmdWriteAtStructToWriter_amd64 wr d"
| "WriteCommandToWriter_amd64 wr (ReqCopyFileRange d) = WriteCmdCopyFileRangeStructToWriter_amd64 wr d"
| "WriteCommandToWriter_amd64 wr (ReqRename d) = WriteCmdRenameStructToWriter_amd64 wr d"
| "WriteCommandToWriter_amd64 wr (ReqSetAttrByFD d) = WriteCmdSetAttrByFDStructToWriter_amd64 wr d"
| "WriteCommandToWriter_amd64 wr (ReqReadDirPlus d) = WriteCmdReadDirPlusStructToWriter_amd64 wr d"
| "WriteCommandToWriter_amd64 wr (ReqWriteStreamOpen d) = WriteCmdWriteStreamOpenStructToWriter_amd64 wr d"
| "WriteCommandToWriter_amd64 wr (ReqWriteStreamData d) = WriteCmdWriteStreamDataStructToWriter_amd64 wr d"
| "WriteCommandToWriter_amd64 wr (ReqCloneFileRange d) = WriteCmdCloneFileRangeStructToWriter_amd64 wr d"
| "WriteCommandToWriter_amd64 wr (ReqGetFileLock d) = WriteCmdGetFileLockStructToWriter_amd64 wr d"
| "WriteCommandToWriter_amd64 wr (ReqSetFileLock d) = WriteCmdSetFileLockStructToWriter_amd64 wr d"
| "WriteCommandToWriter_amd64 wr (ReqSetFileLockWait d) = WriteCmdSetFileLockWaitStructToWriter_amd64 wr d"
| "WriteCommandToWriter_amd64 wr (ReqLink d) = WriteCmdLinkStructToWriter_amd64 wr d"
| "WriteCommandToWriter_amd64 wr (ReqSetXAttr d) = WriteCmdSetXAttrStructToWriter_amd64 wr d"
| "WriteCommandToWriter_amd64 wr (ReqGetXAttr d) = WriteCmdGetXAttrStructToWriter_amd64 wr d"
| "WriteCommandToWriter_amd64 wr (ReqListXAttr d) = WriteCmdListXAttrStructToWriter_amd64 wr d"
| "WriteCommandToWriter_amd64 wr (ReqRemoveXAttr d) = WriteCmdRemoveXAttrStructToWriter_amd64 wr d"

text \<open>
  Well-formed commands: every string fits its 16-bit length prefix, and the payload of the five
  commands decoded into a fast buffer fits that buffer.
\<close>

fun command_wf :: "command \<Rightarrow> bool" where
  "command_wf (ReqOpen d) = (length (Open_Path d) \<le> 0xffff)"
| "command_wf (ReqClose d) = True"
| "command_wf (ReqRead d) = True"
| "command_wf (ReqReadDir d) = (length (ReadDir_Path d) \<le> 0xffff)"
| "command_wf (ReqReadLink d) = (length (ReadLink_Path d) \<le> 0xffff)"
| "command_wf (ReqWrite d) = (length (Write_Data d) \<le> MaxCommandLength)"
| "command_wf (ReqSeek d) = True"
| "command_wf (ReqAllocate d) = True"
| "command_wf (ReqGetAttr d) = (length (GetAttr_Path d) \<le> 0xffff)"
| "command_wf (ReqSetAttr d) = (length (SetAttr_Path d) \<le> 0xffff)"
| "command_wf (ReqSync d) = True"
| "command_wf (ReqMkdir d) = (length (Mkdir_Path d) \<le> 0xffff)"
| "command_wf (ReqSymLink d) = (length (SymLink_TargetPath d) \<le> 0xffff \<and> length (SymLink_FilePath d) \<le> 0xffff)"
| "command_wf (ReqRemove d) = (length (Remove_Path d) \<le> 0xffff)"
| "command_wf (ReqRmDir d) = (length (RmDir_Path d) \<le> 0xffff)"
| "command_wf (ReqFsStat d) = (length (FsStat_Path d) \<le> 0xffff)"
| "command_wf (ReqReadAt d) = True"
| "command_wf (ReqWriteAt d) = (length (WriteAt_Data d) \<le> MaxCommandLength)"
| "command_wf (ReqCopyFileRange d) = True"
| "command_wf (ReqRename d) = (length (Rename_OldPath d) \<le> 0xffff \<and> length (Rename_NewPath d) \<le> 0xffff)"
| "command_wf (ReqSetAttrByFD d) = True"
| "command_wf (ReqReadDirPlus d) = (length (ReadDirPlus_Path d) \<le> 0xffff)"
| "command_wf (ReqWriteStreamOpen d) = (length (WriteStreamOpen_Data d) \<le> MaxCommandLength)"
| "command_wf (ReqWriteStreamData d) = (length (WriteStreamData_Data d) \<le> MaxCommandLength)"
| "command_wf (ReqCloneFileRange d) = True"
| "command_wf (ReqGetFileLock d) = True"
| "command_wf (ReqSetFileLock d) = True"
| "command_wf (ReqSetFileLockWait d) = True"
| "command_wf (ReqLink d) = (length (Link_TargetPath d) \<le> 0xffff \<and> length (Link_FilePath d) \<le> 0xffff)"
| "command_wf (ReqSetXAttr d) = (length (SetXAttr_Path d) \<le> 0xffff \<and> length (SetXAttr_Key d) \<le> 0xffff \<and> length (SetXAttr_Value d) \<le> MaxCommandLength)"
| "command_wf (ReqGetXAttr d) = (length (GetXAttr_Path d) \<le> 0xffff \<and> length (GetXAttr_Key d) \<le> 0xffff)"
| "command_wf (ReqListXAttr d) = (length (ListXAttr_Path d) \<le> 0xffff)"
| "command_wf (ReqRemoveXAttr d) = (length (RemoveXAttr_Path d) \<le> 0xffff \<and> length (RemoveXAttr_Key d) \<le> 0xffff)"

section \<open>The dispatcher reads what the client wrote\<close>

lemma decodes_all_rmap: "decodes_all p bs x \<Longrightarrow> decodes_all (rmap f p) bs (f x)"
  unfolding rmap_def by (rule decodes_all_bind_ret) simp_all

lemmas Read_decodes =
  ReadCmdOpenStructFromReader_decodes [THEN decodes_imp_all]
  ReadCmdCloseStructFromReader_decodes [THEN decodes_imp_all]
  ReadCmdReadStructFromReader_decodes [THEN decodes_imp_all]
  ReadCmdReadDirStructFromReader_decodes [THEN decodes_imp_all]
  ReadCmdReadLinkStructFromReader_decodes [THEN decodes_imp_all]
  ReadCmdWriteStructFromReaderWithBuffer_decodes
  ReadCmdSeekStructFromReader_decodes [THEN decodes_imp_all]
  ReadCmdAllocateStructFromReader_decodes [THEN decodes_imp_all]
  ReadCmdGetAttrStructFromReader_decodes [THEN decodes_imp_all]
  ReadCmdSetAttrStructFromReader_decodes [THEN decodes_imp_all]
  ReadCmdSyncStructFromReader_decodes [THEN decodes_imp_all]
  ReadCmdMkdirStructFromReader_decodes [THEN decodes_imp_all]
  ReadCmdSymLinkStructFromReader_decodes [THEN decodes_imp_all]
  ReadCmdRemoveStructFromReader_decodes [THEN decodes_imp_all]
  ReadCmdRmDirStructFromReader_decodes [THEN decodes_imp_all]
  ReadCmdFsStatStructFromReader_decodes [THEN decodes_imp_all]
  ReadCmdReadAtStructFromReader_decodes [THEN decodes_imp_all]
  ReadCmdWriteAtStructFromReaderWithBuffer_decodes
  ReadCmdCopyFileRangeStructFromReader_decodes [THEN decodes_imp_all]
  ReadCmdRenameStructFromReader_decodes [THEN decodes_imp_all]
  ReadCmdSetAttrByFDStructFromReader_decodes [THEN decodes_imp_all]
  ReadCmdReadDirPlusStructFromReader_decodes [THEN decodes_imp_all]
  ReadCmdWriteStreamOpenStructFromReaderWithBuffer_decodes
  ReadCmdWriteStreamDataStructFromReaderWithBuffer_decodes
  ReadCmdCloneFileRangeStructFromReader_decodes [THEN decodes_imp_all]
  ReadCmdGetFileLockStructFromReader_decodes [THEN decodes_imp_all]
  ReadCmdSetFileLockStructFromReader_decodes [THEN decodes_imp_all]
  ReadCmdSetFileLockWaitStructFromReader_decodes [THEN decodes_imp_all]
  ReadCmdLinkStructFromReader_decodes [THEN decodes_imp_all]
  ReadCmdSetXAttrStructFromReaderWithBuffer_decodes
  ReadCmdGetXAttrStructFromReader_decodes [THEN decodes_imp_all]
  ReadCmdListXAttrStructFromReader_decodes [THEN decodes_imp_all]
  ReadCmdRemoveXAttrStructFromReader_decodes [THEN decodes_imp_all]

lemma decodeCommand_wire:
  assumes "command_wf c"
  shows "\<exists>p. decodeCommand (command_code c) = Some p \<and> decodes_all p (wire_command c) c"
  using assms
  by (cases c) (simp_all add: decodeCommand_def decodes_all_rmap Read_decodes)

lemmas Read_decodes_amd64 =
  ReadCmdOpenStructFromReader_amd64_decodes [THEN decodes_imp_all]
  ReadCmdCloseStructFromReader_amd64_decodes [THEN decodes_imp_all]
  ReadCmdReadStructFromReader_amd64_decodes [THEN decodes_imp_all]
  ReadCmdReadDirStructFromReader_amd64_decodes [THEN decodes_imp_all]
  ReadCmdReadLinkStructFromReader_amd64_decodes [THEN decodes_imp_all]
  ReadCmdWriteStructFromReaderWithBuffer_amd64_decodes
  ReadCmdSeekStructFromReader_amd64_decodes [THEN decodes_imp_all]
  ReadCmdAllocateStructFromReader_amd64_decodes [THEN decodes_imp_all]
  ReadCmdGetAttrStructFromReader_amd64_decodes [THEN decodes_imp_all]
  ReadCmdSetAttrStructFromReader_amd64_decodes [THEN decodes_imp_all]
  ReadCmdSyncStructFromReader_amd64_decodes [THEN decodes_imp_all]
  ReadCmdMkdirStructFromReader_amd64_decodes [THEN decodes_imp_all]
  ReadCmdSymLinkStructFromReader_amd64_decodes [THEN decodes_imp_all]
  ReadCmdRemoveStructFromReader_amd64_decodes [THEN decodes_imp_all]
  ReadCmdRmDirStructFromReader_amd64_decodes [THEN decodes_imp_all]
  ReadCmdFsStatStructFromReader_amd64_decodes [THEN decodes_imp_all]
  ReadCmdReadAtStructFromReader_amd64_decodes [THEN decodes_imp_all]
  ReadCmdWriteAtStructFromReaderWithBuffer_amd64_decodes
  ReadCmdCopyFileRangeStructFromReader_amd64_decodes [THEN decodes_imp_all]
  ReadCmdRenameStructFromReader_amd64_decodes [THEN decodes_imp_all]
  ReadCmdSetAttrByFDStructFromReader_amd64_decodes [THEN decodes_imp_all]
  ReadCmdReadDirPlusStructFromReader_amd64_decodes [THEN decodes_imp_all]
  ReadCmdWriteStreamOpenStructFromReaderWithBuffer_amd64_decodes
  ReadCmdWriteStreamDataStructFromReaderWithBuffer_amd64_decodes
  ReadCmdCloneFileRangeStructFromReader_amd64_decodes [THEN decodes_imp_all]
  ReadCmdGetFileLockStructFromReader_amd64_decodes [THEN decodes_imp_all]
  ReadCmdSetFileLockStructFromReader_amd64_decodes [THEN decodes_imp_all]
  ReadCmdSetFileLockWaitStructFromReader_amd64_decodes [THEN decodes_imp_all]
  ReadCmdLinkStructFromReader_amd64_decodes [THEN decodes_imp_all]
  ReadCmdSetXAttrStructFromReaderWithBuffer_amd64_decodes
  ReadCmdGetXAttrStructFromReader_amd64_decodes [THEN decodes_imp_all]
  ReadCmdListXAttrStructFromReader_amd64_decodes [THEN decodes_imp_all]
  ReadCmdRemoveXAttrStructFromReader_amd64_decodes [THEN decodes_imp_all]

lemma decodeCommand_amd64_wire:
  assumes "command_wf c"
  shows "\<exists>p. decodeCommand_amd64 (command_code c) = Some p \<and> decodes_all p (wire_command c) c"
  using assms
  by (cases c) (simp_all add: decodeCommand_amd64_def decodes_all_rmap Read_decodes_amd64)

fun has_payload :: "command \<Rightarrow> bool" where
  "has_payload (ReqWrite d) = True"
| "has_payload (ReqWriteAt d) = True"
| "has_payload (ReqWriteStreamOpen d) = True"
| "has_payload (ReqWriteStreamData d) = True"
| "has_payload (ReqSetXAttr d) = True"
| "has_payload _ = False"

lemma rejects_rmap: "rejects p bs \<Longrightarrow> rejects (rmap f p) bs"
  unfolding rejects_def rmap_def rbind_def by fastforce

lemmas Read_rejects =
  ReadCmdOpenStructFromReader_rejects
  ReadCmdCloseStructFromReader_rejects
  ReadCmdReadStructFromReader_rejects
  ReadCmdReadDirStructFromReader_rejects
  ReadCmdReadLinkStructFromReader_rejects
  ReadCmdSeekStructFromReader_rejects
  ReadCmdAllocateStructFromReader_rejects
  ReadCmdGetAttrStructFromReader_rejects
  ReadCmdSetAttrStructFromReader_rejects
  ReadCmdSyncStructFromReader_rejects
  ReadCmdMkdirStructFromReader_rejects
  ReadCmdSymLinkStructFromReader_rejects
  ReadCmdRemoveStructFromReader_rejects
  ReadCmdRmDirStructFromReader_rejects
  ReadCmdFsStatStructFromReader_rejects
  ReadCmdReadAtStructFromReader_rejects
  ReadCmdCopyFileRangeStructFromReader_rejects
  ReadCmdRenameStructFromReader_rejects
  ReadCmdSetAttrByFDStructFromReader_rejects
  ReadCmdReadDirPlusStructFromReader_rejects
  ReadCmdCloneFileRangeStructFromReader_rejects
  ReadCmdGetFileLockStructFromReader_rejects
  ReadCmdSetFileLockStructFromReader_rejects
  ReadCmdSetFileLockWaitStructFromReader_rejects
  ReadCmdLinkStructFromReader_rejects
  ReadCmdGetXAttrStructFromReader_rejects
  ReadCmdListXAttrStructFromReader_rejects
  ReadCmdRemoveXAttrStructFromReader_rejects

lemma decodeCommand_rejects:
  assumes "command_wf c" and "\<not> has_payload c"
  shows "\<exists>p. decodeCommand (command_code c) = Some p \<and> rejects p (wire_command c)"
  using assms
  by (cases c) (simp_all add: decodeCommand_def rejects_rmap Read_rejects)

context io_writer
begin

lemmas Write_appends =
  WriteCmdOpenStructToWriter_appends
  WriteCmdCloseStructToWriter_appends
  WriteCmdReadStructToWriter_appends
  WriteCmdReadDirStructToWriter_appends
  WriteCmdReadLinkStructToWriter_appends
  WriteCmdWriteStructToWriter_appends
  WriteCmdSeekStructToWriter_appends
  WriteCmdAllocateStructToWriter_appends
  WriteCmdGetAttrStructToWriter_appends
  WriteCmdSetAttrStructToWriter_appends
  WriteCmdSyncStructToWriter_appends
  WriteCmdMkdirStructToWriter_appends
  WriteCmdSymLinkStructToWriter_appends
  WriteCmdRemoveStructToWriter_appends
  WriteCmdRmDirStructToWriter_appends
  WriteCmdFsStatStructToWriter_appends
  WriteCmdReadAtStructToWriter_appends
  WriteCmdWriteAtStructToWriter_appends
  WriteCmdCopyFileRangeStructToWriter_appends
  WriteCmdRenameStructToWriter_appends
  WriteCmdSetAttrByFDStructToWriter_appends
  WriteCmdReadDirPlusStructToWriter_appends
  WriteCmdWriteStreamOpenStructToWriter_appends
  WriteCmdWriteStreamDataStructToWriter_appends
  WriteCmdCloneFileRangeStructToWriter_appends
  WriteCmdGetFileLockStructToWriter_appends
  WriteCmdSetFileLockStructToWriter_appends
  WriteCmdSetFileLockWaitStructToWriter_appends
  WriteCmdLinkStructToWriter_appends
  WriteCmdSetXAttrStructToWriter_appends
  WriteCmdGetXAttrStructToWriter_appends
  WriteCmdListXAttrStructToWriter_appends
  WriteCmdRemoveXAttrStructToWriter_appends

lemma WriteCommandToWriter_appends:
  "command_wf c \<Longrightarrow> appends content fits (WriteCommandToWriter wr c) (wire_command c)"
  by (cases c) (simp_all add: Write_appends)

lemmas Write_appends_amd64 =
  WriteCmdOpenStructToWriter_amd64_appends
  WriteCmdCloseStructToWriter_amd64_appends
  WriteCmdReadStructToWriter_amd64_appends
  WriteCmdReadDirStructToWriter_amd64_appends
  WriteCmdReadLinkStructToWriter_amd64_appends
  WriteCmdWriteStructToWriter_amd64_appends
  WriteCmdSeekStructToWriter_amd64_appends
  WriteCmdAllocateStructToWriter_amd64_appends
  WriteCmdGetAttrStructToWriter_amd64_appends
  WriteCmdSetAttrStructToWriter_amd64_appends
  WriteCmdSyncStructToWriter_amd64_appends
  WriteCmdMkdirStructToWriter_amd64_appends
  WriteCmdSymLinkStructToWriter_amd64_appends
  WriteCmdRemoveStructToWriter_amd64_appends
  WriteCmdRmDirStructToWriter_amd64_appends
  WriteCmdFsStatStructToWriter_amd64_appends
  WriteCmdReadAtStructToWriter_amd64_appends
  WriteCmdWriteAtStructToWriter_amd64_appends
  WriteCmdCopyFileRangeStructToWriter_amd64_appends
  WriteCmdRenameStructToWriter_amd64_appends
  WriteCmdSetAttrByFDStructToWriter_amd64_appends
  WriteCmdReadDirPlusStructToWriter_amd64_appends
  WriteCmdWriteStreamOpenStructToWriter_amd64_appends
  WriteCmdWriteStreamDataStructToWriter_amd64_appends
  WriteCmdCloneFileRangeStructToWriter_amd64_appends
  WriteCmdGetFileLockStructToWriter_amd64_appends
  WriteCmdSetFileLockStructToWriter_amd64_appends
  WriteCmdSetFileLockWaitStructToWriter_amd64_appends
  WriteCmdLinkStructToWriter_amd64_appends
  WriteCmdSetXAttrStructToWriter_amd64_appends
  WriteCmdGetXAttrStructToWriter_amd64_appends
  WriteCmdListXAttrStructToWriter_amd64_appends
  WriteCmdRemoveXAttrStructToWriter_amd64_appends

lemma WriteCommandToWriter_amd64_appends:
  "command_wf c \<Longrightarrow> appends content fits (WriteCommandToWriter_amd64 wr c) (wire_command c)"
  by (cases c) (simp_all add: Write_appends_amd64)

end

section \<open>Properties\<close>

text \<open>
  (C23) A truncated command is never mistaken for another one: for a command without a payload
  field, reading any proper prefix of its encoding, whatever ends the stream, is an error.
\<close>

theorem truncated_command_rejected:
  assumes "command_wf c" and "\<not> has_payload c" and "strict_prefix (rd_data r) (wire_command c)"
  shows "\<exists>p r' e. decodeCommand (command_code c) = Some p \<and> p r = (r', Inl e)"
  using decodeCommand_rejects [OF assms(1,2)] assms(3) unfolding rejects_def by blast

theorem truncated_command_rejected_witness:
  "\<exists>p r' e. decodeCommand 12 = Some p \<and> p (NewReader (PutUint16 3 @ [0x2F])) = (r', Inl e)"
proof -
  have "strict_prefix (PutUint16 3 @ [0x2F]) (wire_command (ReqMkdir \<lparr>Mkdir_Path = ''/ab'', Mkdir_Mode = 0\<rparr>))"
    by (auto simp: wire_CmdMkdirStruct_def wire_str_def bytes_of_def strict_prefix_def prefix_def)
  then show ?thesis
    using truncated_command_rejected [of "ReqMkdir \<lparr>Mkdir_Path = ''/ab'', Mkdir_Mode = 0\<rparr>"
        "NewReader (PutUint16 3 @ [0x2F])"]
    by simp
qed

text \<open>
  (C6) Whatever build encodes a command and whatever build decodes it, the dispatcher's decoder
  for the command's code recovers the command: encoding a well-formed command into a buffer with
  room for it succeeds, and reading the bytes back, delivered in chunks of any sizes, gives the
  command and leaves nothing unread.
\<close>

theorem command_roundtrip:
  assumes "command_wf c" and "Buffer_fits b (length (wire_command c))" and "Buffer_content b = []"
    and "enc \<in> {WriteCommandToWriter Buffer_write_op c, WriteCommandToWriter_amd64 Buffer_write_op c}"
    and "dec \<in> {decodeCommand (command_code c), decodeCommand_amd64 (command_code c)}"
  shows "\<exists>b' p. enc b = (b', None) \<and> dec = Some p \<and>
    (\<forall>r. rd_data r = Buffer_content b' \<longrightarrow> rd_err r = EOF \<longrightarrow> rd_wf r \<longrightarrow>
      (\<exists>r'. p r = (r', Inr c) \<and> rd_data r' = []))"
proof -
  have app: "appends Buffer_content Buffer_fits enc (wire_command c)"
    using assms(1,4) buf.WriteCommandToWriter_appends buf.WriteCommandToWriter_amd64_appends by auto
  from appendsD [OF this assms(2)] obtain b' where
    b': "enc b = (b', None)" "Buffer_content b' = wire_command c"
    using assms(3) by (metis append_Nil)
  obtain p where "dec = Some p" "decodes_all p (wire_command c) c"
    using assms(1,5) decodeCommand_wire decodeCommand_amd64_wire by blast
  with b' show ?thesis
    unfolding decodes_all_def by metis
qed

theorem command_roundtrip_witness:
  "\<exists>b' p. WriteCommandToWriter Buffer_write_op (ReqClose \<lparr>Close_FD = 7\<rparr>) (NewBuffer 8192) = (b', None)
    \<and> decodeCommand_amd64 2 = Some p
    \<and> (\<exists>r'. p \<lparr>rd_chunks = [take 1 (Buffer_content b'), drop 1 (Buffer_content b')], rd_err = EOF\<rparr>
        = (r', Inr (ReqClose \<lparr>Close_FD = 7\<rparr>)))"
proof -
  let ?c = "ReqClose \<lparr>Close_FD = 7\<rparr>"
  have fits: "Buffer_fits (NewBuffer 8192) (length (wire_command ?c))"
    by (simp add: Buffer_fits_def NewBuffer_def wire_CmdCloseStruct_def)
  obtain b' p where b': "WriteCommandToWriter Buffer_write_op ?c (NewBuffer 8192) = (b', None)"
    and p: "decodeCommand_amd64 (command_code ?c) = Some p"
    and r: "\<And>r. rd_data r = Buffer_content b' \<Longrightarrow> rd_err r = EOF \<Longrightarrow> rd_wf r \<Longrightarrow>
      \<exists>r'. p r = (r', Inr ?c) \<and> rd_data r' = []"
    using command_roundtrip [of ?c "NewBuffer 8192" "WriteCommandToWriter Buffer_write_op ?c"
        "decodeCommand_amd64 (command_code ?c)"] fits
    by auto
  have "length (Buffer_content b') = 4"
    using b' by (simp add: WriteCmdCloseStructToWriter_def Buffer_defs NewBuffer_def Let_def
        split: if_splits) (auto simp: Buffer_defs)
  then have "rd_wf \<lparr>rd_chunks = [take 1 (Buffer_content b'), drop 1 (Buffer_content b')], rd_err = EOF\<rparr>"
    by (auto simp: rd_wf_def)
  then show ?thesis
    using b' p r [of "\<lparr>rd_chunks = [take 1 (Buffer_content b'), drop 1 (Buffer_content b')], rd_err = EOF\<rparr>"]
    by (auto simp: rd_data_def)
qed

end
