(* ===== verification/Wsfs_Path.thy ===== *)
theory Wsfs_Path
  imports Wsfs_Prelude "HOL-Library.Char_ord"
begin

text \<open>
  Paths: the request-path check \<^verbatim>\<open>util.IsUrlValid\<close> (\<^verbatim>\<open>src/src/internal/util/url.go\<close>,
  \<^verbatim>\<open>url-nonwindows.go\<close>, \<^verbatim>\<open>url-windows.go\<close>), the functions of Go's \<^verbatim>\<open>path\<close> and \<^verbatim>\<open>path/filepath\<close> that the
  server applies to host paths, and the directory a path names when \<open>.\<close> and \<open>..\<close> are resolved. The lemmas
  characterise \<open>IsUrlValid\<close> by path components and show that a valid request path appended to the
  storage root never leaves it.
\<close>

section \<open>Request path check\<close>

definition isUrlValid_os :: "string \<Rightarrow> bool" where
  "isUrlValid_os v = True"

definition IsUrlValid :: "string \<Rightarrow> bool" where
  "IsUrlValid v =
     (if length v = 0 \<or> v ! 0 \<noteq> CHR ''/'' \<or> Contains v ''/../'' \<or> HasSuffix v ''/..''
         \<or> Contains v ''/./'' \<or> HasSuffix v ''/.''
      then False else isUrlValid_os v)"

section \<open>Components and lexical resolution\<close>

abbreviation comps :: "string \<Rightarrow> string list" where
  "comps \<equiv> Split CHR ''/''"

text \<open>The directory reached from \<open>d\<close> by walking along components, as a list of names below the root.\<close>

primrec walk :: "string list \<Rightarrow> string list \<Rightarrow> string list" where
  "walk d [] = d"
| "walk d (c # cs) = walk (if c = [] \<or> c = ''.'' then d else if c = ''..'' then butlast d else d @ [c]) cs"

definition resolve :: "string \<Rightarrow> string list" where
  "resolve p = walk [] (comps p)"

definition inside :: "string \<Rightarrow> string \<Rightarrow> bool" where
  "inside root p \<longleftrightarrow> prefix (resolve root) (resolve p)"

section \<open>path.Clean, filepath.Dir, filepath.Join, filepath.Base\<close>

primrec clean_comps :: "bool \<Rightarrow> string list \<Rightarrow> string list \<Rightarrow> string list" where
  "clean_comps rooted d [] = d"
| "clean_comps rooted d (c # cs) = clean_comps rooted
     (if c = [] \<or> c = ''.'' then d
      else if c = ''..'' then
        (if d \<noteq> [] \<and> last d \<noteq> ''..'' then butlast d else if rooted then d else d @ [c])
      else d @ [c]) cs"

fun join_comps :: "string list \<Rightarrow> string" where
  "join_comps [] = []"
| "join_comps [c] = c"
| "join_comps (c # d # ds) = c @ CHR ''/'' # join_comps (d # ds)"

definition Clean :: "string \<Rightarrow> string" where
  "Clean p =
     (if p = [] then ''.''
      else let rooted = (hd p = CHR ''/''); out = join_comps (clean_comps rooted [] (comps p))
        in if rooted then CHR ''/'' # out else if out = [] then ''.'' else out)"

text \<open>\<open>dir_part\<close>: everything up to and including the last separator.\<close>

definition dir_part :: "string \<Rightarrow> string" where
  "dir_part p = rev (dropWhile (\<lambda>c. c \<noteq> CHR ''/'') (rev p))"

definition Dir :: "string \<Rightarrow> string" where
  "Dir p = Clean (dir_part p)"

definition Join :: "string \<Rightarrow> string \<Rightarrow> string" where
  "Join a b = (if a = [] \<and> b = [] then [] else Clean (join_comps (filter (\<lambda>s. s \<noteq> []) [a, b])))"

definition Base :: "string \<Rightarrow> string" where
  "Base p =
     (if p = [] then ''.''
      else let q = rev (takeWhile (\<lambda>c. c \<noteq> CHR ''/'') (dropWhile (\<lambda>c. c = CHR ''/'') (rev p)))
        in if q = [] then ''/'' else q)"

section \<open>Components of valid paths\<close>

lemma Split_append_sep: "Split c (a @ c # b) = Split c a @ Split c b"
  by (induction a) (auto split: list.splits)

lemma hd_Split_iff:
  "c \<notin> set k \<Longrightarrow> hd (Split c s) = k \<longleftrightarrow> prefix (k @ [c]) s \<or> s = k"
proof (induction s arbitrary: k)
  case (Cons x s)
  show ?case
  proof (cases k)
    case Nil
    then show ?thesis by (auto split: list.splits)
  next
    case (Cons y k')
    with Cons.prems Cons.IH [of k'] show ?thesis
      by (cases "Split c s") (auto split: list.splits)
  qed
qed auto

lemma tl_Split_iff:
  assumes "c \<notin> set k"
  shows "k \<in> set (tl (Split c s)) \<longleftrightarrow> sublist (c # k @ [c]) s \<or> suffix (c # k) s"
proof (induction s)
  case (Cons x s)
  have mem: "k \<in> set (Split c s) \<longleftrightarrow> k = hd (Split c s) \<or> k \<in> set (tl (Split c s))"
    by (cases "Split c s") auto
  show ?case
  proof (cases "x = c")
    case True
    have "k \<in> set (tl (Split c (x # s))) \<longleftrightarrow> k \<in> set (Split c s)"
      using True by simp
    also have "\<dots> \<longleftrightarrow> (prefix (k @ [c]) s \<or> s = k) \<or> sublist (c # k @ [c]) s \<or> suffix (c # k) s"
      using mem hd_Split_iff [OF assms, of s] Cons.IH by metis
    also have "\<dots> \<longleftrightarrow> sublist (c # k @ [c]) (x # s) \<or> suffix (c # k) (x # s)"
      using True by (auto simp: sublist_Cons_right suffix_Cons)
    finally show ?thesis .
  next
    case False
    have "tl (Split c (x # s)) = tl (Split c s)"
      using False by (cases "Split c s") auto
    with False Cons.IH show ?thesis
      by (simp add: sublist_Cons_right suffix_Cons)
  qed
qed simp

lemma IsUrlValid_iff:
  "IsUrlValid v \<longleftrightarrow> (\<exists>w. v = CHR ''/'' # w \<and> ''.'' \<notin> set (comps w) \<and> ''..'' \<notin> set (comps w))"
proof (cases v)
  case (Cons x w)
  show ?thesis
  proof (cases "x = CHR ''/''")
    case True
    have tl: "tl (comps v) = comps w"
      using Cons True by simp
    have "''..'' \<in> set (comps w) \<longleftrightarrow> Contains v ''/../'' \<or> HasSuffix v ''/..''"
      using tl_Split_iff [of "CHR ''/''" "''..''" v] tl by (simp add: go_string)
    moreover have "''.'' \<in> set (comps w) \<longleftrightarrow> Contains v ''/./'' \<or> HasSuffix v ''/.''"
      using tl_Split_iff [of "CHR ''/''" "''.''" v] tl by (simp add: go_string)
    ultimately show ?thesis
      using Cons True by (auto simp: IsUrlValid_def isUrlValid_os_def)
  qed (use Cons in \<open>simp add: IsUrlValid_def\<close>)
qed (simp add: IsUrlValid_def)

section \<open>Valid paths stay inside the storage\<close>

lemma walk_append: "walk d (cs @ ds) = walk (walk d cs) ds"
  by (induction cs arbitrary: d) auto

lemma walk_plain:
  "''.'' \<notin> set cs \<Longrightarrow> ''..'' \<notin> set cs \<Longrightarrow> walk d cs = d @ filter (\<lambda>c. c \<noteq> []) cs"
  by (induction cs arbitrary: d) auto

lemma resolve_valid:
  assumes "IsUrlValid p"
  shows "resolve (root @ p) = resolve root @ filter (\<lambda>c. c \<noteq> []) (comps p)"
proof -
  obtain w where w: "p = CHR ''/'' # w" "''.'' \<notin> set (comps w)" "''..'' \<notin> set (comps w)"
    using assms by (auto simp: IsUrlValid_iff)
  then show ?thesis
    by (simp add: resolve_def Split_append_sep walk_append walk_plain)
qed

lemma inside_valid: "IsUrlValid p \<Longrightarrow> inside root (root @ p)"
  by (simp add: inside_def resolve_valid)

text \<open>Names a directory listing may contain.\<close>

definition proper_name :: "string \<Rightarrow> bool" where
  "proper_name n \<longleftrightarrow> n \<noteq> [] \<and> CHR ''/'' \<notin> set n \<and> n \<noteq> ''.'' \<and> n \<noteq> ''..''"

lemma Split_single: "c \<notin> set n \<Longrightarrow> Split c n = [n]"
  by (induction n) auto

lemma IsUrlValid_slash: "IsUrlValid p \<Longrightarrow> IsUrlValid (p @ ''/'')"
  by (auto simp: IsUrlValid_iff Split_append_sep)

lemma IsUrlValid_name:
  assumes "IsUrlValid (p @ ''/'')" and "proper_name n"
  shows "IsUrlValid (p @ CHR ''/'' # n)"
proof (cases p)
  case Nil
  with assms show ?thesis by (auto simp: IsUrlValid_iff proper_name_def Split_single)
next
  case (Cons x w)
  with assms show ?thesis
    by (auto simp: IsUrlValid_iff proper_name_def Split_single Split_append_sep)
qed

lemma clean_comps_rooted: "''..'' \<notin> set d \<Longrightarrow> clean_comps True d cs = walk d cs"
proof (induction cs arbitrary: d)
  case (Cons c cs)
  have "''..'' \<notin> set (butlast d)" and "d \<noteq> [] \<Longrightarrow> last d \<noteq> ''..''"
    using Cons.prems by (auto dest: in_set_butlastD) (metis last_in_set)
  with Cons show ?case by (cases "d = []") auto
qed simp

lemma walk_proper:
  assumes "\<forall>n \<in> set d. proper_name n" and "\<forall>c \<in> set cs. CHR ''/'' \<notin> set c"
  shows "\<forall>n \<in> set (walk d cs). proper_name n"
  using assms
proof (induction cs arbitrary: d)
  case (Cons c cs)
  have "\<forall>n \<in> set (if c = [] \<or> c = ''.'' then d else if c = ''..'' then butlast d else d @ [c]). proper_name n"
    using Cons.prems by (auto simp: proper_name_def dest: in_set_butlastD)
  with Cons show ?case by simp
qed simp

lemma comps_join_comps: "ds \<noteq> [] \<Longrightarrow> \<forall>n \<in> set ds. CHR ''/'' \<notin> set n \<Longrightarrow> comps (join_comps ds) = ds"
  by (induction ds rule: join_comps.induct) (auto simp: Split_single Split_append_sep)

lemma walk_names: "\<forall>n \<in> set ds. proper_name n \<Longrightarrow> walk d ds = d @ ds"
  by (induction ds arbitrary: d) (auto simp: proper_name_def)

lemma resolve_Clean:
  assumes "hd p = CHR ''/''" and "p \<noteq> []"
  shows "resolve (Clean p) = resolve p"
proof -
  let ?ds = "walk [] (comps p)"
  have ds: "\<forall>n \<in> set ?ds. proper_name n"
    by (rule walk_proper) (auto dest: Split_no_sep)
  have "Clean p = CHR ''/'' # join_comps ?ds"
    using assms by (simp add: Clean_def clean_comps_rooted)
  moreover have "walk [] (comps (CHR ''/'' # join_comps ?ds)) = ?ds"
  proof (cases "?ds = []")
    case False
    then have "comps (join_comps ?ds) = ?ds"
      using ds by (intro comps_join_comps) (auto simp: proper_name_def)
    then show ?thesis
      using walk_names [OF ds, of "[]"] by simp
  qed simp
  ultimately show ?thesis
    by (simp add: resolve_def)
qed

lemma dir_part_append: "CHR ''/'' \<in> set b \<Longrightarrow> dir_part (a @ b) = a @ dir_part b"
  by (simp add: dir_part_def dropWhile_append1)

lemma comps_dir_part:
  assumes "CHR ''/'' \<in> set p"
  obtains u v where "dir_part p = u @ ''/''" and "p = u @ CHR ''/'' # v"
proof -
  have d: "dropWhile (\<lambda>c. c \<noteq> CHR ''/'') (rev p) \<noteq> []"
    using assms by simp
  then have h: "hd (dropWhile (\<lambda>c. c \<noteq> CHR ''/'') (rev p)) = CHR ''/''"
    using hd_dropWhile [of "\<lambda>c. c \<noteq> CHR ''/''" "rev p"] by blast
  obtain u where u: "dropWhile (\<lambda>c. c \<noteq> CHR ''/'') (rev p) = CHR ''/'' # rev u"
    using d h by (metis list.collapse rev_rev_ident)
  have "rev p = takeWhile (\<lambda>c. c \<noteq> CHR ''/'') (rev p) @ CHR ''/'' # rev u"
    using u by (metis takeWhile_dropWhile_id)
  then have "p = u @ CHR ''/'' # rev (takeWhile (\<lambda>c. c \<noteq> CHR ''/'') (rev p))"
    by (metis append.assoc append_Cons append_Nil rev.simps(2) rev_append rev_rev_ident)
  moreover have "dir_part p = u @ ''/''"
    using u by (simp add: dir_part_def)
  ultimately show ?thesis by (rule that [rotated])
qed

text \<open>The parent directory of a path below the root is still not above the root.\<close>

lemma inside_Dir:
  assumes "IsUrlValid p" and "root = [] \<or> hd root = CHR ''/''"
  shows "inside root (Dir (root @ p))"
proof -
  obtain w where w: "p = CHR ''/'' # w" "''.'' \<notin> set (comps w)" "''..'' \<notin> set (comps w)"
    using assms by (auto simp: IsUrlValid_iff)
  then have sep: "CHR ''/'' \<in> set p" by simp
  obtain u v where uv: "dir_part p = u @ ''/''" "p = u @ CHR ''/'' # v"
    using sep by (rule comps_dir_part)
  have "IsUrlValid (u @ ''/'')"
  proof (cases u)
    case (Cons x u')
    with uv w show ?thesis by (auto simp: IsUrlValid_iff Split_append_sep)
  qed (simp add: IsUrlValid_iff)
  moreover have "resolve (Dir (root @ p)) = resolve (root @ u @ ''/'')"
    unfolding Dir_def dir_part_append [OF sep] uv(1)
  proof (rule resolve_Clean)
    show "hd (root @ u @ ''/'') = CHR ''/''"
      using assms(2) uv(2) w(1) by (cases root; cases u) auto
  qed simp
  ultimately show ?thesis
    by (simp add: inside_def resolve_valid)
qed

section \<open>The check on Windows\<close>

text \<open>
  The Windows build adds \<^verbatim>\<open>isUrlValid_os\<close> of \<^verbatim>\<open>url-windows.go\<close>. Strings are UTF-8: the superscript digits
  of the device names, the Unicode white space that \<^verbatim>\<open>strings.TrimSpace\<close> removes and the two
  non-ASCII runes that \<^verbatim>\<open>strings.EqualFold\<close> identifies with the ASCII letters \<open>s\<close> and \<open>k\<close> appear below as
  their encodings.
\<close>

definition superscripts :: "string list" where
  "superscripts = [[CHR 0xC2, CHR 0xB2], [CHR 0xC2, CHR 0xB3], [CHR 0xC2, CHR 0xB9]]"

definition specialDosDeviceNames :: "string list" where
  "specialDosDeviceNames =
     [''AUX'', ''CON'', ''CONIN$'', ''CONOUT$'', ''CLOCK$'', ''CONFIG$'']
     @ [''COM1'', ''COM2'', ''COM3'', ''COM4'', ''COM5'', ''COM6'', ''COM7'', ''COM8'', ''COM9'']
     @ map (\<lambda>d. ''COM'' @ d) superscripts
     @ [''LPT1'', ''LPT2'', ''LPT3'', ''LPT4'', ''LPT5'', ''LPT6'', ''LPT7'', ''LPT8'', ''LPT9'']
     @ map (\<lambda>d. ''LPT'' @ d) superscripts
     @ [''NUL'', ''PRN'']"

definition space_runes :: "string list" where
  "space_runes = [[CHR 0x09], [CHR 0x0A], [CHR 0x0B], [CHR 0x0C], [CHR 0x0D], [CHR 0x20],
     [CHR 0xC2, CHR 0x85], [CHR 0xC2, CHR 0xA0], [CHR 0xE1, CHR 0x9A, CHR 0x80],
     [CHR 0xE2, CHR 0x80, CHR 0xA8], [CHR 0xE2, CHR 0x80, CHR 0xA9], [CHR 0xE2, CHR 0x80, CHR 0xAF],
     [CHR 0xE2, CHR 0x81, CHR 0x9F], [CHR 0xE3, CHR 0x80, CHR 0x80],
     [CHR 0xE2, CHR 0x80, CHR 0x80], [CHR 0xE2, CHR 0x80, CHR 0x81], [CHR 0xE2, CHR 0x80, CHR 0x82],
     [CHR 0xE2, CHR 0x80, CHR 0x83], [CHR 0xE2, CHR 0x80, CHR 0x84], [CHR 0xE2, CHR 0x80, CHR 0x85],
     [CHR 0xE2, CHR 0x80, CHR 0x86], [CHR 0xE2, CHR 0x80, CHR 0x87], [CHR 0xE2, CHR 0x80, CHR 0x88],
     [CHR 0xE2, CHR 0x80, CHR 0x89], [CHR 0xE2, CHR 0x80, CHR 0x8A]]"

fun trim_left :: "string list \<Rightarrow> string \<Rightarrow> string" where
  "trim_left sp [] = []"
| "trim_left sp (x # xs) = (case find (\<lambda>r. r \<noteq> [] \<and> HasPrefix (x # xs) r) sp of
     None \<Rightarrow> x # xs | Some r \<Rightarrow> trim_left sp (drop (length r - 1) xs))"

definition TrimSpace :: "string \<Rightarrow> string" where
  "TrimSpace s = rev (trim_left (map rev space_runes) (rev (trim_left space_runes s)))"

definition ascii_lower :: "char \<Rightarrow> char" where
  "ascii_lower c = (if CHR ''A'' \<le> c \<and> c \<le> CHR ''Z'' then char_of (of_char c + 32 :: nat) else c)"

fun fold_runes :: "string \<Rightarrow> string" where
  "fold_runes [] = []"
| "fold_runes (x # xs) =
     (if HasPrefix (x # xs) [CHR 0xC5, CHR 0xBF] then CHR ''s'' # fold_runes (drop 1 xs)
      else if HasPrefix (x # xs) [CHR 0xE2, CHR 0x84, CHR 0xAA] then CHR ''k'' # fold_runes (drop 2 xs)
      else ascii_lower x # fold_runes xs)"

text \<open>\<^verbatim>\<open>strings.EqualFold(s, nm)\<close> for the names above.\<close>

definition EqualFold :: "string \<Rightarrow> string \<Rightarrow> bool" where
  "EqualFold s nm \<longleftrightarrow> fold_runes s = fold_runes nm"

definition isUrlValid_os_windows :: "string \<Rightarrow> bool" where
  "isUrlValid_os_windows v =
     (if length v \<ge> 2 \<and> v ! 1 = CHR ''/'' then False
      else if Contains v '':'' then False
      else list_all (\<lambda>part.
        let baseName = (case IndexByte part CHR ''.'' of Some idx \<Rightarrow> take idx part | None \<Rightarrow> part);
            baseName = TrimSpace baseName
        in \<not> list_ex (EqualFold baseName) specialDosDeviceNames) (comps v))"

definition IsUrlValid_windows :: "string \<Rightarrow> bool" where
  "IsUrlValid_windows v =
     (if length v = 0 \<or> v ! 0 \<noteq> CHR ''/'' \<or> Contains v ''/../'' \<or> HasSuffix v ''/..''
         \<or> Contains v ''/./'' \<or> HasSuffix v ''/.''
      then False else isUrlValid_os_windows v)"

text \<open>Windows separates components at \<open>/\<close> and at \<open>\\<close>.\<close>

definition comps_windows :: "string \<Rightarrow> string list" where
  "comps_windows p = comps (map (\<lambda>c. if c = CHR 0x5C then CHR ''/'' else c) p)"

section \<open>Properties\<close>

text \<open>
  (C28) The path check accepts exactly the absolute paths none of whose components is \<open>.\<close> or \<open>..\<close>.
\<close>

theorem IsUrlValid_components:
  "IsUrlValid v \<longleftrightarrow> v \<noteq> [] \<and> hd v = CHR ''/''
     \<and> ''.'' \<notin> set (Split CHR ''/'' v) \<and> ''..'' \<notin> set (Split CHR ''/'' v)"
  by (cases v) (auto simp: IsUrlValid_iff)

text \<open>
  (C7) A valid request path stays inside the storage: resolving the host path, storage root and
  request path concatenated, first reaches the directory of the root and then only descends through
  the named components; the parent directory that rename opens is inside the root as well.
\<close>

theorem request_path_confined:
  assumes "IsUrlValid p" and "root = [] \<or> hd root = CHR ''/''"
  shows "resolve (root @ p) = resolve root @ filter (\<lambda>c. c \<noteq> []) (Split CHR ''/'' p)
    \<and> prefix (resolve root) (resolve (Dir (root @ p)))"
  using resolve_valid [OF assms(1)] inside_Dir [OF assms] by (simp add: inside_def)

theorem request_path_confined_witness:
  "resolve (''/srv/data'' @ ''/x/y'') = [''srv'', ''data'', ''x'', ''y'']
   \<and> prefix (resolve ''/srv/data'') (resolve (Dir (''/srv/data'' @ ''/x/y'')))"
proof -
  have "IsUrlValid ''/x/y''" by code_simp
  from request_path_confined [OF this, of "''/srv/data''"] show ?thesis
    by (simp add: resolve_def)
qed

text \<open>
  (C31) On Windows the check does not look at backslashes, which separate components there: it
  accepts a request path that climbs out of the storage.
\<close>

theorem windows_backslash_escapes:
  "\<exists>v. IsUrlValid_windows v \<and> ''..'' \<in> set (comps_windows v)
     \<and> \<not> prefix (walk [] (comps_windows ''C:/srv/data'')) (walk [] (comps_windows (''C:/srv/data'' @ v)))"
proof (intro exI conjI)
  let ?v = "[CHR ''/'', CHR ''x'', CHR 0x5C, CHR ''.'', CHR ''.'', CHR 0x5C, CHR ''.'', CHR ''.'', CHR 0x5C, CHR ''y'']"
  show "IsUrlValid_windows ?v" by code_simp
  show "''..'' \<in> set (comps_windows ?v)" by code_simp
  show "\<not> prefix (walk [] (comps_windows ''C:/srv/data'')) (walk [] (comps_windows (''C:/srv/data'' @ ?v)))"
    by (simp add: comps_windows_def)
qed

end
