(* ===== verification/Wsfs_Conv.thy ===== *)
theory Wsfs_Conv
  imports Wsfs_Const Wsfs_Structs
begin

text \<open>
  Conversions between the protocol's numbers and those of the operating system: error codes
  (server \<^verbatim>\<open>commands.go\<close>, \<^verbatim>\<open>commands-unix.go\<close>; client \<^verbatim>\<open>unix/errno.go\<close>), file modes (server \<^verbatim>\<open>syscallMode\<close>;
  client \<^verbatim>\<open>unix/node.go\<close>), open flags, rename flags, seek origins and file locks
  (\<^verbatim>\<open>share/wsfsunixconv\<close>, \<^verbatim>\<open>server/wsfs/ofdlock\<close>, \<^verbatim>\<open>server/wsfs/renameat2\<close>), and timestamps
  (\<^verbatim>\<open>server/wsfs/timeval\<close>). The build modelled is Linux. The values of the constants of
  \<^verbatim>\<open>golang.org/x/sys/unix\<close> are the fields of a record parameter.
\<close>

section \<open>Operating-system errors\<close>

text \<open>The \<^verbatim>\<open>syscall.Errno\<close> values the code distinguishes; \<open>E_other\<close> is any other one.\<close>

datatype errno =
    EACCES | EROFS | EPERM | EBUSY | EEXIST | EXDEV | ENAMETOOLONG | EINVAL | EBADF | ENOENT | ELOOP
  | EDQUOT | ENOSPC | ENOTEMPTY | ENOTDIR | EIO | ENOTSUP | ETXTBSY | ERANGE | EBADFD | EINTR
  | ENODATA | E_other nat

text \<open>A Go \<^verbatim>\<open>error\<close> from the \<^verbatim>\<open>os\<close> or \<^verbatim>\<open>syscall\<close> packages: wraps an errno, or does not.\<close>

datatype oserror = Sys errno | NonSys string

definition errorCodeMap :: "(errno \<times> u8) list" where
  "errorCodeMap =
     [(EACCES, ErrorAccessRestricted), (EROFS, ErrorAccessRestricted), (EPERM, ErrorStateBlocked),
      (EBUSY, ErrorBusy), (EEXIST, ErrorExists), (EXDEV, ErrorCrossDevice),
      (ENAMETOOLONG, ErrorTooLong), (EINVAL, ErrorInvalid), (EBADF, ErrorInvalidFD),
      (ENOENT, ErrorNotExists), (ELOOP, ErrorLoop), (EDQUOT, ErrorNoSpace), (ENOSPC, ErrorNoSpace),
      (ENOTEMPTY, ErrorNotEmpty), (ENOTDIR, ErrorType), (EIO, ErrorIO), (ENOTSUP, ErrorNotSupport),
      (ETXTBSY, ErrorSpecialFileBlocked), (ERANGE, ErrorRange),
      (EBADFD, ErrorIO)]" \<comment> \<open>the last entry is added by the Linux \<^verbatim>\<open>init\<close>\<close>

definition wsfsErrCode :: "oserror \<Rightarrow> u8" where
  "wsfsErrCode err = (case err of
       Sys e \<Rightarrow> (case map_of errorCodeMap e of Some code \<Rightarrow> code | None \<Rightarrow> ErrorUnknown)
     | NonSys _ \<Rightarrow> ErrorUnknown)"

text \<open>\<^verbatim>\<open>os.IsExist\<close>, \<^verbatim>\<open>os.IsNotExist\<close> and \<^verbatim>\<open>os.IsPermission\<close> on errno values.\<close>

definition os_IsExist :: "oserror \<Rightarrow> bool" where
  "os_IsExist err \<longleftrightarrow> err = Sys EEXIST \<or> err = Sys ENOTEMPTY"

definition os_IsNotExist :: "oserror \<Rightarrow> bool" where
  "os_IsNotExist err \<longleftrightarrow> err = Sys ENOENT"

definition os_IsPermission :: "oserror \<Rightarrow> bool" where
  "os_IsPermission err \<longleftrightarrow> err = Sys EACCES \<or> err = Sys EPERM"

definition osErrCode :: "oserror \<Rightarrow> u8" where
  "osErrCode err =
     (if os_IsExist err then ErrorExists
      else if os_IsNotExist err then ErrorNotExists
      else if os_IsPermission err then ErrorAccessRestricted
      else ErrorUnknown)"

definition IsNoXAttr :: "oserror \<Rightarrow> bool" where
  "IsNoXAttr err \<longleftrightarrow> err = Sys ENODATA"

definition xattrErrorCode :: "oserror \<Rightarrow> u8" where
  "xattrErrorCode err = (if IsNoXAttr err then ErrorNoXAttr else wsfsErrCode err)"

text \<open>The client's table; \<open>None\<close> as an errno is \<^verbatim>\<open>syscall.Errno(0)\<close>.\<close>

definition clientErrorCodeMap :: "(u8 \<times> errno option) list" where
  "clientErrorCodeMap =
     [(ErrorOK, None), (ErrorUnknown, Some EIO), (ErrorAccessRestricted, Some EACCES),
      (ErrorBusy, Some EBUSY), (ErrorExists, Some EEXIST), (ErrorTooLong, Some ENAMETOOLONG),
      (ErrorInvalid, Some EINVAL), (ErrorInvalidFD, Some EBADF), (ErrorNotExists, Some ENOENT),
      (ErrorLoop, Some ELOOP), (ErrorNoSpace, Some ENOSPC), (ErrorNotEmpty, Some ENOTEMPTY),
      (ErrorType, Some ENOTDIR), (ErrorIO, Some EIO), (ErrorNotSupport, Some ENOTSUP),
      (ErrorStateBlocked, Some EPERM), (ErrorSpecialFileBlocked, Some ETXTBSY),
      (ErrorCrossDevice, Some EXDEV), (ErrorRange, Some ERANGE),
      (ErrorNoXAttr, Some ENODATA)]" \<comment> \<open>the last entry is added by the Linux \<^verbatim>\<open>init\<close>\<close>

definition errnoFromCode :: "u8 \<Rightarrow> errno option" where
  "errnoFromCode code =
     (case map_of clientErrorCodeMap code of Some e \<Rightarrow> e | None \<Rightarrow> Some EIO)"

text \<open>What a client's caller sees of a server errno: five values are merged into others.\<close>

fun errno_seen :: "errno \<Rightarrow> errno" where
  "errno_seen EROFS = EACCES"
| "errno_seen EDQUOT = ENOSPC"
| "errno_seen EBADFD = EIO"
| "errno_seen EINTR = EIO"
| "errno_seen ENODATA = EIO"
| "errno_seen (E_other _) = EIO"
| "errno_seen e = e"

lemma errnoFromCode_wsfsErrCode: "errnoFromCode (wsfsErrCode (Sys e)) = Some (errno_seen e)"
  by (cases e) (simp_all add: errnoFromCode_def wsfsErrCode_def errorCodeMap_def clientErrorCodeMap_def)

lemma errnoFromCode_NonSys: "errnoFromCode (wsfsErrCode (NonSys m)) = Some EIO"
  by (simp add: errnoFromCode_def wsfsErrCode_def clientErrorCodeMap_def)

lemma wsfsErrCode_error: "wsfsErrCode err \<noteq> ErrorOK" "wsfsErrCode err \<noteq> ErrorPartialResponse"
proof -
  have "wsfsErrCode err \<noteq> ErrorOK \<and> wsfsErrCode err \<noteq> ErrorPartialResponse"
  proof (cases err)
    case (Sys e)
    then show ?thesis by (cases e) (simp_all add: wsfsErrCode_def errorCodeMap_def)
  qed (simp add: wsfsErrCode_def)
  then show "wsfsErrCode err \<noteq> ErrorOK" "wsfsErrCode err \<noteq> ErrorPartialResponse" by auto
qed

lemma osErrCode_error: "osErrCode err \<noteq> ErrorOK" "osErrCode err \<noteq> ErrorPartialResponse"
  by (simp_all add: osErrCode_def)

lemma xattrErrorCode_error: "xattrErrorCode err \<noteq> ErrorOK" "xattrErrorCode err \<noteq> ErrorPartialResponse"
  by (simp_all add: xattrErrorCode_def wsfsErrCode_error)

section \<open>File modes\<close>

text \<open>Bits of Go's \<^verbatim>\<open>os.FileMode\<close> and of Linux's \<^verbatim>\<open>st_mode\<close>.\<close>

abbreviation (input) ModeDir :: u32 where "ModeDir \<equiv> 0x80000000"
abbreviation (input) ModeSymlink :: u32 where "ModeSymlink \<equiv> 0x8000000"
abbreviation (input) ModeDevice :: u32 where "ModeDevice \<equiv> 0x4000000"
abbreviation (input) ModeNamedPipe :: u32 where "ModeNamedPipe \<equiv> 0x2000000"
abbreviation (input) ModeSocket :: u32 where "ModeSocket \<equiv> 0x1000000"
abbreviation (input) ModeSetuid :: u32 where "ModeSetuid \<equiv> 0x800000"
abbreviation (input) ModeSetgid :: u32 where "ModeSetgid \<equiv> 0x400000"
abbreviation (input) ModeSticky :: u32 where "ModeSticky \<equiv> 0x100000"
abbreviation (input) ModeIrregular :: u32 where "ModeIrregular \<equiv> 0x80000"
abbreviation (input) ModePerm :: u32 where "ModePerm \<equiv> 0x1FF"

abbreviation (input) S_ISUID :: u32 where "S_ISUID \<equiv> 0x800"
abbreviation (input) S_ISGID :: u32 where "S_ISGID \<equiv> 0x400"
abbreviation (input) S_ISVTX :: u32 where "S_ISVTX \<equiv> 0x200"
abbreviation (input) S_IFDIR :: u32 where "S_IFDIR \<equiv> 0x4000"
abbreviation (input) S_IFREG :: u32 where "S_IFREG \<equiv> 0x8000"
abbreviation (input) S_IFLNK :: u32 where "S_IFLNK \<equiv> 0xA000"

definition or_if :: "bool \<Rightarrow> 'a::len word \<Rightarrow> 'a word \<Rightarrow> 'a word" where
  "or_if c f r = (if c then r OR f else r)"

definition syscallMode :: "u32 \<Rightarrow> u32" where
  "syscallMode i =
     or_if (i AND ModeSticky \<noteq> 0) S_ISVTX
       (or_if (i AND ModeSetgid \<noteq> 0) S_ISGID
         (or_if (i AND ModeSetuid \<noteq> 0) S_ISUID (i AND ModePerm)))"

definition wsfsFileModeToFuseMode :: "u32 \<Rightarrow> u32" where
  "wsfsFileModeToFuseMode mode =
     (let r = or_if (mode AND ModeSticky \<noteq> 0) S_ISVTX
                (or_if (mode AND ModeSetgid \<noteq> 0) S_ISGID
                  (or_if (mode AND ModeSetuid \<noteq> 0) S_ISUID (mode AND 0x1FF)))
      in if mode AND ModeDir \<noteq> 0 then r OR S_IFDIR
         else if mode AND ModeSymlink \<noteq> 0 then r OR S_IFLNK
         else if mode AND (ModeDevice OR ModeNamedPipe OR ModeSocket) \<noteq> 0 then r AND NOT 0x1FF
         else r OR S_IFREG)"

definition wsfsFileModeFromFuseMode :: "u32 \<Rightarrow> u32" where
  "wsfsFileModeFromFuseMode mode =
     (let r = or_if (mode AND S_ISVTX \<noteq> 0) ModeSticky
                (or_if (mode AND S_ISGID \<noteq> 0) ModeSetgid
                  (or_if (mode AND S_ISUID \<noteq> 0) ModeSetuid (mode AND 0x1FF)))
      in if mode AND S_IFDIR \<noteq> 0 then r OR ModeDir
         else if mode AND S_IFLNK \<noteq> 0 then r OR ModeSymlink
         else r)"

section \<open>Platform constants\<close>

type_synonym goint = "64 word"

text \<open>The constants of \<^verbatim>\<open>golang.org/x/sys/unix\<close> that the conversion tables mention.\<close>

record unixc =
  u_O_RDONLY :: goint
  u_O_WRONLY :: goint
  u_O_RDWR :: goint
  u_O_ACCMODE :: goint
  u_O_TRUNC :: goint
  u_O_EXCL :: goint
  u_O_CREAT :: goint
  u_O_DIRECTORY :: goint
  u_O_APPEND :: goint
  u_O_DSYNC :: goint
  u_O_SYNC :: goint
  u_O_NOFOLLOW :: goint
  u_O_DIRECT :: goint
  u_O_NOATIME :: goint
  u_O_LARGEFILE :: goint
  u_O_CLOEXEC :: goint
  u_O_NOCTTY :: goint
  u_O_NONBLOCK :: goint
  u_O_NDELAY :: goint
  u_RENAME_NOREPLACE :: u32
  u_RENAME_EXCHANGE :: u32
  u_RENAME_WHITEOUT :: u32
  u_SEEK_SET :: goint
  u_SEEK_CUR :: goint
  u_SEEK_END :: goint
  u_SEEK_DATA :: goint
  u_SEEK_HOLE :: goint
  u_F_RDLCK :: u16
  u_F_WRLCK :: u16
  u_F_UNLCK :: u16
  u_XATTR_CREATE :: goint
  u_XATTR_REPLACE :: goint

text \<open>Their values on Linux/amd64, for examples.\<close>

definition linux_amd64 :: unixc where
  "linux_amd64 = \<lparr>
     u_O_RDONLY = 0, u_O_WRONLY = 1, u_O_RDWR = 2, u_O_ACCMODE = 3, u_O_TRUNC = 0x200,
     u_O_EXCL = 0x80, u_O_CREAT = 0x40, u_O_DIRECTORY = 0x10000, u_O_APPEND = 0x400,
     u_O_DSYNC = 0x1000, u_O_SYNC = 0x101000, u_O_NOFOLLOW = 0x20000, u_O_DIRECT = 0x4000,
     u_O_NOATIME = 0x40000, u_O_LARGEFILE = 0, u_O_CLOEXEC = 0x80000, u_O_NOCTTY = 0x100,
     u_O_NONBLOCK = 0x800, u_O_NDELAY = 0x800,
     u_RENAME_NOREPLACE = 1, u_RENAME_EXCHANGE = 2, u_RENAME_WHITEOUT = 4,
     u_SEEK_SET = 0, u_SEEK_CUR = 1, u_SEEK_END = 2, u_SEEK_DATA = 3, u_SEEK_HOLE = 4,
     u_F_RDLCK = 0, u_F_WRLCK = 1, u_F_UNLCK = 2, u_XATTR_CREATE = 1, u_XATTR_REPLACE = 2\<rparr>"

section \<open>Open flags\<close>

definition OpenFlagToUnix :: "unixc \<Rightarrow> (u32 \<times> goint) list" where
  "OpenFlagToUnix U =
     [(O_RDONLY, u_O_RDONLY U), (O_WRONLY, u_O_WRONLY U), (O_RDWR, u_O_RDWR U),
      (O_TRUNC, u_O_TRUNC U), (O_EXCL, u_O_EXCL U), (O_CREAT, u_O_CREAT U),
      (O_DIRECTORY, u_O_DIRECTORY U), (O_APPEND, u_O_APPEND U), (O_DSYNC, u_O_DSYNC U),
      (O_SYNC, u_O_SYNC U), (O_NOFOLLOW, u_O_NOFOLLOW U), (O_DIRECT, u_O_DIRECT U),
      (O_NOATIME, u_O_NOATIME U)]"

text \<open>The kernel's own \<^verbatim>\<open>O_LARGEFILE\<close> bit on amd64, added by the Linux \<^verbatim>\<open>init\<close>.\<close>

definition kernelLargeFileOpenFlag :: goint where
  "kernelLargeFileOpenFlag = 0x8000"

definition IgnoredUnixOpenFlagBits :: "unixc \<Rightarrow> goint" where
  "IgnoredUnixOpenFlagBits U =
     u_O_LARGEFILE U OR u_O_CLOEXEC U OR u_O_NOCTTY U OR u_O_NONBLOCK U OR u_O_NDELAY U
     OR kernelLargeFileOpenFlag"

text \<open>
  \<^verbatim>\<open>OpenFlagFromUnix\<close> is filled by an \<^verbatim>\<open>init\<close> that first enters the three access modes and then inverts
  every entry whose protocol flag is outside \<^verbatim>\<open>O_ACCMODE\<close>.
\<close>

definition invertedOpenFlags :: "unixc \<Rightarrow> (goint \<times> u32) list" where
  "invertedOpenFlags U =
     map (\<lambda>(protocol, platform). (platform, protocol))
       (filter (\<lambda>(protocol, platform). protocol AND O_ACCMODE = 0) (OpenFlagToUnix U))"

definition OpenFlagFromUnix :: "unixc \<Rightarrow> (goint \<times> u32) list" where
  "OpenFlagFromUnix U =
     [(u_O_RDONLY U, O_RDONLY), (u_O_WRONLY U, O_WRONLY), (u_O_RDWR U, O_RDWR)] @ invertedOpenFlags U"

definition AcceptdUnixOpenFlagBits :: "unixc \<Rightarrow> goint" where
  "AcceptdUnixOpenFlagBits U = fold (\<lambda>(platform, protocol) r. r OR platform) (invertedOpenFlags U) (u_O_ACCMODE U)"

text \<open>Client side (\<^verbatim>\<open>client/unix/node.go\<close>); \<open>None\<close> is \<^verbatim>\<open>ok == false\<close>.\<close>

definition OpenFlagFromSys :: "unixc \<Rightarrow> goint \<Rightarrow> u32 option" where
  "OpenFlagFromSys U flags =
     (let inp = flags AND NOT (IgnoredUnixOpenFlagBits U)
      in if inp AND NOT (AcceptdUnixOpenFlagBits U) \<noteq> 0 then None
         else case (if inp AND u_O_ACCMODE U = u_O_RDONLY U then Some O_RDONLY
                    else if inp AND u_O_ACCMODE U = u_O_WRONLY U then Some O_WRONLY
                    else if inp AND u_O_ACCMODE U = u_O_RDWR U then Some O_RDWR
                    else None) of
             None \<Rightarrow> None
           | Some out \<Rightarrow> Some (fold (\<lambda>(unixFlag, wsfsFlag) r.
               if unixFlag AND u_O_ACCMODE U \<noteq> 0 then r
               else or_if (inp AND unixFlag \<noteq> 0) wsfsFlag r) (OpenFlagFromUnix U) out))"

text \<open>
  Server side, the flag translation at the start of \<^verbatim>\<open>cmdOpen\<close> (\<^verbatim>\<open>commands-unix.go\<close>): either an
  error response or the platform's flags.
\<close>

fun openFlagLoop :: "unixc \<Rightarrow> u32 \<Rightarrow> u32 list \<Rightarrow> goint \<Rightarrow> (u8 \<times> string) + goint" where
  "openFlagLoop U OFlag [] oflag = Inr oflag"
| "openFlagLoop U OFlag (proctocolFlag # fs) oflag =
     (if proctocolFlag AND O_ACCMODE \<noteq> 0 then openFlagLoop U OFlag fs oflag
      else if OFlag AND proctocolFlag \<noteq> 0 then
        (case map_of (OpenFlagToUnix U) proctocolFlag of
           None \<Rightarrow> Inl (ErrorNotSupport, ''not supported open flag'')
         | Some unixFlag \<Rightarrow> openFlagLoop U OFlag fs (oflag OR unixFlag))
      else openFlagLoop U OFlag fs oflag)"

definition openFlagToSys :: "unixc \<Rightarrow> u32 \<Rightarrow> (u8 \<times> string) + goint" where
  "openFlagToSys U OFlag =
     (if OFlag AND O_ACCMODE = O_RDONLY then openFlagLoop U OFlag OpenFlags (u_O_RDONLY U)
      else if OFlag AND O_ACCMODE = O_WRONLY then openFlagLoop U OFlag OpenFlags (u_O_WRONLY U)
      else if OFlag AND O_ACCMODE = O_RDWR then openFlagLoop U OFlag OpenFlags (u_O_RDWR U)
      else Inl (ErrorInvalid, ''bad open access mode''))"

section \<open>Rename flags\<close>

definition RenameFlagToUnix :: "unixc \<Rightarrow> (u32 \<times> u32) list" where
  "RenameFlagToUnix U =
     [(RENAME_NOREPLACE, u_RENAME_NOREPLACE U), (RENAME_EXCHANGE, u_RENAME_EXCHANGE U),
      (RENAME_WHITEOUT, u_RENAME_WHITEOUT U)]"

definition AcceptedWSFSRenameFlags :: "unixc \<Rightarrow> u32" where
  "AcceptedWSFSRenameFlags U = fold (\<lambda>(protocol, platform) r. r OR protocol) (RenameFlagToUnix U) 0"

text \<open>The flag part of \<^verbatim>\<open>renameat2.Renameat2\<close>; \<open>None\<close> is its \<^verbatim>\<open>ENOTSUP\<close>.\<close>

definition renameFlagToSys :: "unixc \<Rightarrow> u32 \<Rightarrow> u32 option" where
  "renameFlagToSys U flag =
     (if flag AND NOT (AcceptedWSFSRenameFlags U) \<noteq> 0 then None
      else Some (fold (\<lambda>(protocolFlag, platformFlag) r. or_if (flag AND protocolFlag \<noteq> 0) platformFlag r)
        (RenameFlagToUnix U) 0))"

section \<open>Seek origins and file locks\<close>

definition WhenceToUnix :: "unixc \<Rightarrow> (u8 \<times> goint) list" where
  "WhenceToUnix U =
     [(WHENCE_SET, u_SEEK_SET U), (WHENCE_CUR, u_SEEK_CUR U), (WHENCE_END, u_SEEK_END U),
      (WHENCE_DATA, u_SEEK_DATA U), (WHENCE_HOLE, u_SEEK_HOLE U)]"

definition WhenceFromUnix :: "unixc \<Rightarrow> (goint \<times> u8) list" where
  "WhenceFromUnix U = map (\<lambda>(protocol, platform). (platform, protocol)) (WhenceToUnix U)"

definition LockTypeToUnix :: "unixc \<Rightarrow> (u8 \<times> u16) list" where
  "LockTypeToUnix U =
     [(FILELOCK_READLOCK, u_F_RDLCK U), (FILELOCK_UNLOCK, u_F_UNLCK U), (FILELOCK_WRITELOCK, u_F_WRLCK U)]"

definition LockTypeFromUnix :: "unixc \<Rightarrow> (u16 \<times> u8) list" where
  "LockTypeFromUnix U = map (\<lambda>(protocol, platform). (platform, protocol)) (LockTypeToUnix U)"

text \<open>A Go map read of a missing key gives the zero value.\<close>

definition map_get :: "('k \<times> 'v::zero) list \<Rightarrow> 'k \<Rightarrow> 'v" where
  "map_get m k = (case map_of m k of Some v \<Rightarrow> v | None \<Rightarrow> 0)"

text \<open>\<^verbatim>\<open>syscall.Flock_t\<close> without the process id.\<close>

record Flock_t =
  Flock_Type :: u16
  Flock_Whence :: u16
  Flock_Start :: i64
  Flock_Len :: i64

definition lockToSys :: "unixc \<Rightarrow> FileLockInfo \<Rightarrow> Flock_t option" where
  "lockToSys U inp = (case map_of (LockTypeToUnix U) (fl_Type inp) of
       None \<Rightarrow> None
     | Some t \<Rightarrow> Some (if fl_Type inp \<noteq> FILELOCK_UNLOCK
         then \<lparr>Flock_Type = t, Flock_Whence = ucast (map_get (WhenceToUnix U) (fl_Whence inp)),
               Flock_Start = fl_Start inp, Flock_Len = fl_Size inp\<rparr>
         else \<lparr>Flock_Type = t, Flock_Whence = 0, Flock_Start = 0, Flock_Len = 0\<rparr>))"

definition lockFromSys :: "unixc \<Rightarrow> Flock_t \<Rightarrow> FileLockInfo" where
  "lockFromSys U inp =
     (let t = map_get (LockTypeFromUnix U) (Flock_Type inp)
      in if t \<noteq> FILELOCK_UNLOCK
         then \<lparr>fl_Type = t, fl_Whence = map_get (WhenceFromUnix U) (scast (Flock_Whence inp)),
               fl_Start = Flock_Start inp, fl_Size = Flock_Len inp\<rparr>
         else \<lparr>fl_Type = t, fl_Whence = 0, fl_Start = 0, fl_Size = 0\<rparr>)"

section \<open>Timestamps\<close>

definition ValidNsec :: "i64 \<Rightarrow> bool" where
  "ValidNsec nsec \<longleftrightarrow> 0 \<le> sint nsec \<and> sint nsec < 1000000000"

definition FitsInt32 :: "i64 \<Rightarrow> bool" where
  "FitsInt32 v \<longleftrightarrow> (scast (ucast v :: u32) :: i64) = v"

definition TimevalParts :: "Timespec \<Rightarrow> errno + i64 \<times> i64" where
  "TimevalParts ts =
     (if \<not> ValidNsec (ts_Nanoseconds ts) then Inl EINVAL
      else let sec = ts_Seconds ts; usec = word_of_int ((sint (ts_Nanoseconds ts) + 999) div 1000) :: i64
        in if 1000000 \<le> sint usec then
             (if sec = drop_bit 1 (NOT 0) then Inl ERANGE else Inr (sec + 1, usec - 1000000))
           else Inr (sec, usec))"

text \<open>The 64-bit Linux build; both of its two equal entries are the result.\<close>

definition unixTimespecs :: "Timespec \<Rightarrow> errno + Timespec" where
  "unixTimespecs ts =
     (if \<not> ValidNsec (ts_Nanoseconds ts) then Inl EINVAL
      else Inr \<lparr>ts_Seconds = ts_Seconds ts, ts_Nanoseconds = ts_Nanoseconds ts\<rparr>)"

definition unixTimespecs_32 :: "Timespec \<Rightarrow> errno + 32 word \<times> 32 word" where
  "unixTimespecs_32 ts =
     (if \<not> ValidNsec (ts_Nanoseconds ts) then Inl EINVAL
      else if \<not> FitsInt32 (ts_Seconds ts) then Inl ERANGE
      else Inr (ucast (ts_Seconds ts), ucast (ts_Nanoseconds ts)))"

definition unixTimevals :: "Timespec \<Rightarrow> errno + i64 \<times> i64" where
  "unixTimevals ts = TimevalParts ts"

definition unixTimevals_32 :: "Timespec \<Rightarrow> errno + 32 word \<times> 32 word" where
  "unixTimevals_32 ts = (case TimevalParts ts of
       Inl e \<Rightarrow> Inl e
     | Inr (sec, usec) \<Rightarrow> if \<not> FitsInt32 sec then Inl ERANGE else Inr (ucast sec, ucast usec))"

section \<open>Flag words\<close>

lemma and_exp_cases: "x AND 2 ^ k = (if bit x k then 2 ^ k else (0 :: 'a::len word))"
  by (rule bit_eqI) (auto simp: bit_and_iff bit_exp_iff)

lemma and_flag:
  assumes "f = 2 ^ k"
  shows "x AND f \<noteq> 0 \<Longrightarrow> x AND f = (f :: 'a::len word)"
  using assms by (auto simp: and_exp_cases split: if_splits)

lemma or_if_flag:
  assumes "f = 2 ^ k"
  shows "or_if (x AND f \<noteq> 0) f r = r OR (x AND (f :: 'a::len word))"
  using and_flag [OF assms, of x] by (auto simp: or_if_def)

lemma or_if_and: "or_if c f r AND m = or_if c (f AND m) (r AND (m :: 'a::len word))"
  by (simp add: or_if_def word_ao_dist)

lemma or_if_simps [simp]: "or_if c 0 r = r" "or_if False f r = r" "or_if True f r = r OR f"
  by (simp_all add: or_if_def)

lemma or_if_0_neq: "f \<noteq> 0 \<Longrightarrow> (or_if c f 0 \<noteq> 0) \<longleftrightarrow> c"
  by (auto simp: or_if_def)

section \<open>Open flags survive the trip\<close>

lemma accept: "AcceptdUnixOpenFlagBits linux_amd64 = 0x1756C3" 
  by (simp add: AcceptdUnixOpenFlagBits_def invertedOpenFlags_def OpenFlagToUnix_def linux_amd64_def)

lemmas linux_flags = OpenFlagFromUnix_def invertedOpenFlags_def OpenFlagToUnix_def linux_amd64_def OpenFlags_def


lemma and_0_sub:
  assumes "x AND f = 0" and "f AND g = g"
  shows "x AND g = (0 :: 'a::len word)"
proof -
  have "x AND g = (x AND f) AND g" by (simp only: word_bw_assocs assms(2))
  then show ?thesis by (simp add: assms(1))
qed

lemma sync_absorb:
  "or_if (i AND 0x101000 \<noteq> 0) 0x101000 (or_if (i AND 0x1000 \<noteq> 0) 0x1000 r)
   = or_if (i AND 0x101000 \<noteq> 0) 0x101000 (r :: u32)" for i :: goint
proof (cases "i AND 0x101000 = 0")
  case True
  then have "i AND 0x1000 = 0" by (rule and_0_sub) simp
  with True show ?thesis by simp
qed (simp add: or_if_def word_bw_assocs)

lemma sync_absorb2: "or_if c 0x1000 (or_if c 0x101000 r) = or_if c 0x101000 (r :: goint)"
  by (simp add: or_if_def word_bw_assocs)

definition flags_kept :: "goint \<Rightarrow> 'a::len word \<Rightarrow> 'a word" where
  "flags_kept inp a = or_if (inp AND 0x40000 \<noteq> 0) 0x40000
   (or_if (inp AND 0x4000 \<noteq> 0) 0x4000 (or_if (inp AND 0x20000 \<noteq> 0) 0x20000 (or_if (inp AND 0x101000 \<noteq> 0) 0x101000
    (or_if (inp AND 0x400 \<noteq> 0) 0x400 (or_if (inp AND 0x10000 \<noteq> 0) 0x10000
     (or_if (inp AND 0x40 \<noteq> 0) 0x40 (or_if (inp AND 0x80 \<noteq> 0) 0x80 (or_if (inp AND 0x200 \<noteq> 0) 0x200 a))))))))"

lemma client_flags:
  assumes "OpenFlagFromSys linux_amd64 fl = Some out"
  shows "\<exists>a. out = flags_kept (fl AND NOT 0x88900) a \<and> a \<le> 2 \<and> (fl AND NOT 0x88900) AND 3 = ucast a
    \<and> (fl AND NOT 0x88900) AND NOT 0x1756C3 = 0"
proof -
  have ign: "IgnoredUnixOpenFlagBits linux_amd64 = 0x88900"
    by (simp add: IgnoredUnixOpenFlagBits_def linux_amd64_def kernelLargeFileOpenFlag_def)
  show ?thesis
  using assms
  unfolding OpenFlagFromSys_def Let_def ign accept
  apply (simp add: linux_flags split: if_splits)
  apply (rule exI[where x=0])
  apply (simp add: flags_kept_def sync_absorb)
  apply (rule exI[where x=1])
  apply (simp add: flags_kept_def sync_absorb)
  apply (rule exI[where x=2])
  apply (simp add: flags_kept_def sync_absorb)
  done
qed


lemma flags_kept_flag:
  assumes "a \<in> {0, 1, 2::u32}"
  shows "flags_kept inp a AND 3 = a"
    "flags_kept inp a AND 0x200 \<noteq> 0 \<longleftrightarrow> inp AND 0x200 \<noteq> 0"
    "flags_kept inp a AND 0x80 \<noteq> 0 \<longleftrightarrow> inp AND 0x80 \<noteq> 0"
    "flags_kept inp a AND 0x40 \<noteq> 0 \<longleftrightarrow> inp AND 0x40 \<noteq> 0"
    "flags_kept inp a AND 0x10000 \<noteq> 0 \<longleftrightarrow> inp AND 0x10000 \<noteq> 0"
    "flags_kept inp a AND 0x400 \<noteq> 0 \<longleftrightarrow> inp AND 0x400 \<noteq> 0"
    "flags_kept inp a AND 0x20000 \<noteq> 0 \<longleftrightarrow> inp AND 0x20000 \<noteq> 0"
    "flags_kept inp a AND 0x40000 \<noteq> 0 \<longleftrightarrow> inp AND 0x40000 \<noteq> 0"
    "flags_kept inp a AND 0x4000 \<noteq> 0 \<longleftrightarrow> inp AND 0x4000 \<noteq> 0"
proof -
  have a: "a AND 0x200 = 0" "a AND 0x80 = 0" "a AND 0x40 = 0" "a AND 0x10000 = 0" "a AND 0x400 = 0"
     "a AND 0x20000 = 0" "a AND 0x40000 = 0" "a AND 0x4000 = 0" "a AND 3 = a"
    using assms by auto
  show "flags_kept inp a AND 3 = a"
    "flags_kept inp a AND 0x200 \<noteq> 0 \<longleftrightarrow> inp AND 0x200 \<noteq> 0"
    "flags_kept inp a AND 0x80 \<noteq> 0 \<longleftrightarrow> inp AND 0x80 \<noteq> 0"
    "flags_kept inp a AND 0x40 \<noteq> 0 \<longleftrightarrow> inp AND 0x40 \<noteq> 0"
    "flags_kept inp a AND 0x10000 \<noteq> 0 \<longleftrightarrow> inp AND 0x10000 \<noteq> 0"
    "flags_kept inp a AND 0x400 \<noteq> 0 \<longleftrightarrow> inp AND 0x400 \<noteq> 0"
    "flags_kept inp a AND 0x20000 \<noteq> 0 \<longleftrightarrow> inp AND 0x20000 \<noteq> 0"
    "flags_kept inp a AND 0x40000 \<noteq> 0 \<longleftrightarrow> inp AND 0x40000 \<noteq> 0"
    "flags_kept inp a AND 0x4000 \<noteq> 0 \<longleftrightarrow> inp AND 0x4000 \<noteq> 0"
    unfolding flags_kept_def by (simp_all add: or_if_and a or_if_0_neq)
qed



lemma flags_kept_sync:
  assumes "a \<in> {0, 1, 2::u32}"
  shows "flags_kept inp a AND 0x101000 \<noteq> 0 \<longleftrightarrow> inp AND 0x101000 \<noteq> 0"
   "flags_kept inp a AND 0x1000 \<noteq> 0 \<longleftrightarrow> inp AND 0x101000 \<noteq> 0"
proof -
  have a: "a AND 0x101000 = 0" "a AND 0x1000 = 0" using assms by auto
  show "flags_kept inp a AND 0x101000 \<noteq> 0 \<longleftrightarrow> inp AND 0x101000 \<noteq> 0"
   "flags_kept inp a AND 0x1000 \<noteq> 0 \<longleftrightarrow> inp AND 0x101000 \<noteq> 0"
    unfolding flags_kept_def by (simp_all add: or_if_and a or_if_0_neq)
qed

lemma openFlagLoop_flag:
  "f AND O_ACCMODE = 0 \<Longrightarrow> map_of (OpenFlagToUnix U) f = Some u \<Longrightarrow>
    openFlagLoop U OFlag (f # fs) r = openFlagLoop U OFlag fs (or_if (OFlag AND f \<noteq> 0) u r)"
  by (simp add: or_if_def)

lemma openFlagLoop_acc:
  "f AND O_ACCMODE \<noteq> 0 \<Longrightarrow> openFlagLoop U OFlag (f # fs) r = openFlagLoop U OFlag fs r"
  by simp


lemma or_if_swap: "or_if c f (or_if d g r) = or_if d g (or_if c f (r :: 'a::len word))"
  by (simp add: or_if_def word_bw_assocs word_bw_comms word_bw_lcs)

lemma u32_le_2: "a \<le> (2 :: u32) \<Longrightarrow> a \<in> {0, 1, 2}"
proof -
  assume "a \<le> 2"
  then have "unat a \<le> 2" by (simp add: word_le_nat_alt)
  then have "unat a = 0 \<or> unat a = 1 \<or> unat a = 2" by arith
  then show ?thesis by (auto simp: word_unat_eq_iff)
qed

lemma server_flags:
  assumes "a \<in> {0, 1, 2::u32}"
  shows "openFlagToSys linux_amd64 (flags_kept inp a) = Inr (flags_kept inp (ucast a))"
proof -
  have l: "openFlagLoop linux_amd64 (flags_kept inp a) OpenFlags r = Inr (flags_kept inp r)" for r
    unfolding OpenFlags_def
    by (simp add: openFlagLoop_flag openFlagLoop_acc flags_kept_flag[OF assms] flags_kept_sync [OF assms]
       sync_absorb2 OpenFlagToUnix_def linux_amd64_def del: openFlagLoop.simps(2))
      (simp only: flags_kept_def or_if_swap [of "inp AND 0x40000 \<noteq> 0" "0x40000" "inp AND 0x4000 \<noteq> 0"])
  show ?thesis
    using assms unfolding openFlagToSys_def l flags_kept_flag(1)[OF assms]
    by (auto simp: linux_amd64_def)
qed


lemma and_or_not: "x = (x AND m) OR (x AND NOT (m :: 'a::len word))"
  by (rule bit_eqI) (auto simp: bit_or_iff bit_and_iff bit_not_iff)

lemma flags_kept_all:
  assumes "inp AND NOT 0x1756C3 = 0"
  shows "flags_kept inp (inp AND 3) = or_if (inp AND 0x101000 \<noteq> 0) 0x101000 (inp :: goint)"
proof -
  have f: "or_if (inp AND 0x40000 \<noteq> 0) 0x40000 r = r OR (inp AND 0x40000)"
    "or_if (inp AND 0x4000 \<noteq> 0) 0x4000 r = r OR (inp AND 0x4000)"
    "or_if (inp AND 0x20000 \<noteq> 0) 0x20000 r = r OR (inp AND 0x20000)"
    "or_if (inp AND 0x400 \<noteq> 0) 0x400 r = r OR (inp AND 0x400)"
    "or_if (inp AND 0x10000 \<noteq> 0) 0x10000 r = r OR (inp AND 0x10000)"
    "or_if (inp AND 0x40 \<noteq> 0) 0x40 r = r OR (inp AND 0x40)"
    "or_if (inp AND 0x80 \<noteq> 0) 0x80 r = r OR (inp AND 0x80)"
    "or_if (inp AND 0x200 \<noteq> 0) 0x200 r = r OR (inp AND 0x200)" for r
    by (rule or_if_flag [where k = 18], simp, rule or_if_flag [where k = 14], simp,
        rule or_if_flag [where k = 17], simp, rule or_if_flag [where k = 10], simp,
        rule or_if_flag [where k = 16], simp, rule or_if_flag [where k = 6], simp,
        rule or_if_flag [where k = 7], simp, rule or_if_flag [where k = 9], simp)
  have "inp = (inp AND 0x1756C3) OR (inp AND NOT 0x1756C3)"
    by (rule and_or_not)
  then have "inp = inp AND 0x1756C3" by (simp only: assms word_log_esimps)
  also have "(0x1756C3 :: goint) =
      3 OR 0x200 OR 0x80 OR 0x40 OR 0x10000 OR 0x400 OR 0x20000 OR 0x4000 OR 0x40000 OR 0x101000"
    by simp
  finally have inp: "inp = (inp AND 3) OR (inp AND 0x200) OR (inp AND 0x80) OR (inp AND 0x40) OR (inp AND 0x10000)
      OR (inp AND 0x400) OR (inp AND 0x20000) OR (inp AND 0x4000) OR (inp AND 0x40000) OR (inp AND 0x101000)"
    by (simp only: word_ao_dist2)
  show ?thesis
  proof (cases "inp AND 0x101000 = 0")
    case True
    show ?thesis
      using inp unfolding flags_kept_def f True by (simp add: word_bw_assocs)
  next
    case False
    have "(inp AND 0x101000) OR 0x101000 = 0x101000"
      by (rule bit_eqI) (auto simp: bit_or_iff bit_and_iff)
    with False show ?thesis
      by (subst (2) inp) (simp add: flags_kept_def f word_bw_assocs word_bw_comms word_bw_lcs)
  qed
qed

section \<open>Properties\<close>


text \<open>
  (C26) A mode that the client's kernel asks for with chmod is applied by the server with exactly
  the same permission, setuid, setgid and sticky bits.
\<close>

theorem chmod_mode_preserved: "syscallMode (wsfsFileModeFromFuseMode m) = m AND 0xFFF"
proof -
  have e: "wsfsFileModeFromFuseMode m AND 0x1FF = m AND 0x1FF"
    unfolding wsfsFileModeFromFuseMode_def Let_def or_if_def by (simp add: word_ao_dist word_bw_assocs)
  have s: "wsfsFileModeFromFuseMode m AND ModeSticky \<noteq> 0 \<longleftrightarrow> m AND S_ISVTX \<noteq> 0"
    unfolding wsfsFileModeFromFuseMode_def Let_def or_if_def by (simp add: word_ao_dist word_bw_assocs)
  have g: "wsfsFileModeFromFuseMode m AND ModeSetgid \<noteq> 0 \<longleftrightarrow> m AND S_ISGID \<noteq> 0"
    unfolding wsfsFileModeFromFuseMode_def Let_def or_if_def by (simp add: word_ao_dist word_bw_assocs)
  have u: "wsfsFileModeFromFuseMode m AND ModeSetuid \<noteq> 0 \<longleftrightarrow> m AND S_ISUID \<noteq> 0"
    unfolding wsfsFileModeFromFuseMode_def Let_def or_if_def by (simp add: word_ao_dist word_bw_assocs)
  have "(0xFFF :: u32) = 0x1FF OR 0x800 OR 0x400 OR 0x200" by simp
  then have "m AND 0xFFF = (m AND 0x1FF) OR (m AND 0x800) OR (m AND 0x400) OR (m AND 0x200)"
    by (simp only: word_ao_dist2)
  moreover have "or_if (m AND 0x800 \<noteq> 0) 0x800 r = r OR (m AND 0x800)"
    "or_if (m AND 0x400 \<noteq> 0) 0x400 r = r OR (m AND 0x400)"
    "or_if (m AND 0x200 \<noteq> 0) 0x200 r = r OR (m AND 0x200)" for r
    by (rule or_if_flag [where k = 11], simp, rule or_if_flag [where k = 10], simp, rule or_if_flag [where k = 9], simp)
  ultimately show ?thesis
    unfolding syscallMode_def e s g u by (simp only: word_bw_assocs)
qed



text \<open>
  (C24) Open flags accepted by a Linux client are requested from the server's kernel unchanged,
  once the ignored bits are removed, except that \<open>O_DSYNC\<close> becomes the stronger \<open>O_SYNC\<close>.
\<close>

theorem open_flags_end_to_end:
  assumes "OpenFlagFromSys linux_amd64 flags = Some out"
  shows "openFlagToSys linux_amd64 out =
    (let kept = flags AND NOT (IgnoredUnixOpenFlagBits linux_amd64)
     in Inr (if kept AND u_O_SYNC linux_amd64 \<noteq> 0 then kept OR u_O_SYNC linux_amd64 else kept))"
proof -
  have ign: "IgnoredUnixOpenFlagBits linux_amd64 = 0x88900"
    by (simp add: IgnoredUnixOpenFlagBits_def linux_amd64_def kernelLargeFileOpenFlag_def)
  let ?kept = "flags AND NOT 0x88900"
  obtain a where a: "out = flags_kept ?kept a" "a \<le> 2" "?kept AND 3 = ucast a" "?kept AND NOT 0x1756C3 = 0"
    using client_flags [OF assms] by blast
  have "a \<in> {0, 1, 2}"
    by (rule u32_le_2 [OF a(2)])
  then have "openFlagToSys linux_amd64 out = Inr (flags_kept ?kept (?kept AND 3))"
    unfolding a(1,3) by (rule server_flags)
  then have "openFlagToSys linux_amd64 out = Inr (or_if (?kept AND 0x101000 \<noteq> 0) 0x101000 ?kept)"
    by (simp only: flags_kept_all [OF a(4)])
  moreover have "u_O_SYNC linux_amd64 = 0x101000"
    by (simp add: linux_amd64_def)
  ultimately show ?thesis
    by (simp add: ign Let_def or_if_def)
qed

theorem open_flags_end_to_end_witness:
  "OpenFlagFromSys linux_amd64 0x9441 = Some 0x101441
   \<and> openFlagToSys linux_amd64 0x101441 = Inr 0x101441"
proof -
  have "OpenFlagFromSys linux_amd64 0x9441 = Some 0x101441"
    by code_simp
  from this open_flags_end_to_end [OF this] show ?thesis
    by (simp add: Let_def linux_amd64_def IgnoredUnixOpenFlagBits_def kernelLargeFileOpenFlag_def)
qed

text \<open>
  (C29) Converting a timestamp to microseconds never moves it back and moves it forward by less than
  a microsecond, with a normalised microsecond field; overflow of the seconds is an error, not a wrap.
\<close>

theorem TimevalParts_rounds_up:
  assumes "TimevalParts ts = Inr (sec, usec)"
  shows "0 \<le> sint usec \<and> sint usec < 1000000 \<and>
    (let t = sint (ts_Seconds ts) * 1000000000 + sint (ts_Nanoseconds ts);
         t' = sint sec * 1000000000 + sint usec * 1000
     in t \<le> t' \<and> t' < t + 1000)"
proof -
  define n where "n = sint (ts_Nanoseconds ts)"
  have n: "0 \<le> n" "n < 1000000000"
    using assms by (auto simp: TimevalParts_def ValidNsec_def n_def split: if_splits)
  define u where "u = (n + 999) div 1000"
  have u: "0 \<le> u" "u \<le> 1000000" "n \<le> u * 1000" "u * 1000 < n + 1000"
    using n by (auto simp: u_def)
  have su: "sint (word_of_int u :: i64) = u"
    using u by (simp add: int_word_sint)
  show ?thesis
  proof (cases "u = 1000000")
    case True
    have sec: "ts_Seconds ts \<noteq> drop_bit 1 (NOT 0)" "sec = ts_Seconds ts + 1" "usec = 0"
      using assms n su True by (auto simp: TimevalParts_def ValidNsec_def n_def [symmetric] u_def [symmetric] Let_def split: if_splits)
    have max: "sint (drop_bit 1 (NOT 0) :: i64) = 9223372036854775807"
      by code_simp
    have "sint (ts_Seconds ts) \<noteq> 9223372036854775807"
      using sec(1) max by (metis scast_eq scast_id)
    moreover have "- 9223372036854775808 \<le> sint (ts_Seconds ts)" "sint (ts_Seconds ts) < 9223372036854775808"
      using sint_range_size [of "ts_Seconds ts"] by (simp_all add: word_size)
    ultimately have "sint sec = sint (ts_Seconds ts) + 1"
      unfolding sec(2) sint_word_add by (simp add: signed_take_bit_int_eq_self)
    with True sec(3) u show ?thesis by (simp add: n_def [symmetric] Let_def)
  next
    case False
    then have "sec = ts_Seconds ts" "sint usec = u"
      using assms n su u by (auto simp: TimevalParts_def ValidNsec_def n_def [symmetric] u_def [symmetric] Let_def split: if_splits)
    with False u show ?thesis by (simp add: n_def [symmetric] Let_def)
  qed
qed

theorem TimevalParts_rounds_up_witness:
  "TimevalParts \<lparr>ts_Seconds = 5, ts_Nanoseconds = 999999001\<rparr> = Inr (6, 0)
   \<and> 0 \<le> sint (0 :: i64) \<and> sint (0 :: i64) < 1000000"
proof -
  have p: "TimevalParts \<lparr>ts_Seconds = 5, ts_Nanoseconds = 999999001\<rparr> = Inr (6, 0)"
    by code_simp
  show ?thesis
    using p TimevalParts_rounds_up [OF p] by blast
qed

text \<open>
  (C30) A lock description that is not an unlock survives the trip through \<^verbatim>\<open>Flock_t\<close>; an unlock loses its
  range, so it releases the whole file.
\<close>

theorem lock_roundtrip:
  assumes "fl_Whence l \<in> {WHENCE_SET, WHENCE_CUR, WHENCE_END}" and "fl_Type l \<in> {FILELOCK_UNLOCK, FILELOCK_READLOCK, FILELOCK_WRITELOCK}"
  shows "\<exists>f. lockToSys linux_amd64 l = Some f
    \<and> (if fl_Type l = FILELOCK_UNLOCK then Flock_Start f = 0 \<and> Flock_Len f = 0
       else lockFromSys linux_amd64 f = l)"
  using assms
  by (auto simp: lockToSys_def lockFromSys_def LockTypeToUnix_def LockTypeFromUnix_def linux_amd64_def
      WhenceToUnix_def WhenceFromUnix_def map_get_def)

theorem lock_roundtrip_witness:
  "\<exists>f. lockToSys linux_amd64 \<lparr>fl_Type = FILELOCK_UNLOCK, fl_Whence = WHENCE_SET, fl_Start = 100, fl_Size = 10\<rparr> = Some f
    \<and> Flock_Start f = 0 \<and> Flock_Len f = 0"
  using lock_roundtrip [of "\<lparr>fl_Type = FILELOCK_UNLOCK, fl_Whence = WHENCE_SET, fl_Start = 100, fl_Size = 10\<rparr>"]
  by simp

end
