(* ===== verification/Wsfs_Env.thy ===== *)
theory Wsfs_Env
  imports Wsfs_Command Wsfs_Path Wsfs_Conv "HOL-Library.Monad_Syntax"
begin

text \<open>
  What the server calls outside its own source: the operating system and the WebSocket
  connection. Both are parameters, records of operations over an abstract state. An operation that can fail
  returns a value of a sum type. Also here: the thin wrappers of the source around system calls
  (\<^verbatim>\<open>ignoringEINTR\<close>, \<^verbatim>\<open>timeval\<close>, \<^verbatim>\<open>xattr\<close>, \<^verbatim>\<open>reflink\<close>, \<^verbatim>\<open>ofdlock\<close>, \<^verbatim>\<open>renameat2\<close>, \<^verbatim>\<open>util.FsSize\<close>).
\<close>

section \<open>Operating system\<close>

type_synonym ('os, 'a) sysop = "'os \<Rightarrow> 'os \<times> (oserror + 'a)"

text \<open>\<^verbatim>\<open>fs.FileInfo\<close> with the parts of \<^verbatim>\<open>syscall.Stat_t\<close> that are used, and \<^verbatim>\<open>fs.DirEntry\<close>.\<close>

record os_FileInfo =
  st_Name :: string
  st_Size :: i64
  st_Mode :: u32
  st_Uid :: u32
  st_Gid :: u32
  st_MTime :: Timespec

record os_DirEntry =
  ent_Name :: string
  ent_IsDir :: bool

record Statfs_t =
  sf_Blocks :: u64
  sf_Bfree :: u64
  sf_Bavail :: u64
  sf_Frsize :: u64

text \<open>How a \<^verbatim>\<open>ReadDir\<close> call that is not the last can end early: at the end of the directory, or with an error.\<close>

datatype rd_end = RdEOF | RdErr oserror

record 'os sys =
  sys_Open :: "string \<Rightarrow> goint \<Rightarrow> u32 \<Rightarrow> ('os, int) sysop"
  sys_Close :: "int \<Rightarrow> ('os, unit) sysop"
  sys_Read :: "int \<Rightarrow> nat \<Rightarrow> ('os, bytes) sysop"
  sys_Pread :: "int \<Rightarrow> nat \<Rightarrow> i64 \<Rightarrow> ('os, bytes) sysop"
  sys_Write :: "int \<Rightarrow> bytes \<Rightarrow> ('os, nat) sysop"
  sys_Pwrite :: "int \<Rightarrow> bytes \<Rightarrow> i64 \<Rightarrow> ('os, nat) sysop"
  sys_Seek :: "int \<Rightarrow> i64 \<Rightarrow> goint \<Rightarrow> ('os, i64) sysop"
  sys_Readlink :: "string \<Rightarrow> nat \<Rightarrow> ('os, bytes) sysop"
  sys_Fallocate :: "int \<Rightarrow> u32 \<Rightarrow> i64 \<Rightarrow> i64 \<Rightarrow> ('os, unit) sysop"
  sys_Truncate :: "string \<Rightarrow> i64 \<Rightarrow> ('os, unit) sysop"
  sys_Ftruncate :: "int \<Rightarrow> i64 \<Rightarrow> ('os, unit) sysop"
  sys_Utimes :: "string \<Rightarrow> Timespec \<Rightarrow> ('os, unit) sysop"
  sys_Chmod :: "string \<Rightarrow> u32 \<Rightarrow> ('os, unit) sysop"
  sys_Fchmod :: "int \<Rightarrow> u32 \<Rightarrow> ('os, unit) sysop"
  sys_Chown :: "string \<Rightarrow> u32 \<Rightarrow> u32 \<Rightarrow> ('os, unit) sysop"
  sys_Fchown :: "int \<Rightarrow> u32 \<Rightarrow> u32 \<Rightarrow> ('os, unit) sysop"
  sys_Fsync :: "int \<Rightarrow> ('os, unit) sysop"
  sys_Mkdir :: "string \<Rightarrow> u32 \<Rightarrow> ('os, unit) sysop"
  sys_Symlink :: "string \<Rightarrow> string \<Rightarrow> ('os, unit) sysop"
  sys_Link :: "string \<Rightarrow> string \<Rightarrow> ('os, unit) sysop"
  sys_Unlink :: "string \<Rightarrow> ('os, unit) sysop"
  sys_Rmdir :: "string \<Rightarrow> ('os, unit) sysop"
  sys_Rename :: "string \<Rightarrow> string \<Rightarrow> ('os, unit) sysop"
  sys_Renameat2 :: "int \<Rightarrow> string \<Rightarrow> int \<Rightarrow> string \<Rightarrow> u32 \<Rightarrow> ('os, unit) sysop"
  sys_Statfs :: "string \<Rightarrow> ('os, Statfs_t) sysop"
  sys_CopyFileRange :: "int \<Rightarrow> i64 \<Rightarrow> int \<Rightarrow> i64 \<Rightarrow> u64 \<Rightarrow> ('os, nat) sysop"
  sys_FileClone :: "int \<Rightarrow> int \<Rightarrow> ('os, unit) sysop"
  sys_FileCloneRange :: "int \<Rightarrow> int \<Rightarrow> u64 \<Rightarrow> u64 \<Rightarrow> u64 \<Rightarrow> ('os, unit) sysop"
  sys_OfdGetlk :: "int \<Rightarrow> Flock_t \<Rightarrow> ('os, Flock_t) sysop"
  sys_OfdSetlk :: "bool \<Rightarrow> int \<Rightarrow> Flock_t \<Rightarrow> ('os, unit) sysop"
  sys_Setxattr :: "bool \<Rightarrow> string \<Rightarrow> string \<Rightarrow> bytes \<Rightarrow> goint \<Rightarrow> ('os, unit) sysop"
  sys_Getxattr :: "bool \<Rightarrow> string \<Rightarrow> string \<Rightarrow> nat \<Rightarrow> ('os, nat \<times> bytes) sysop"
  sys_Listxattr :: "bool \<Rightarrow> string \<Rightarrow> nat \<Rightarrow> ('os, nat \<times> bytes) sysop"
  sys_Removexattr :: "bool \<Rightarrow> string \<Rightarrow> string \<Rightarrow> ('os, unit) sysop"
  os_Stat :: "bool \<Rightarrow> string \<Rightarrow> ('os, os_FileInfo) sysop"
  os_Readlink :: "string \<Rightarrow> ('os, string) sysop"
  os_Open :: "string \<Rightarrow> ('os, int) sysop"
  os_ReadDir :: "int \<Rightarrow> nat \<Rightarrow> 'os \<Rightarrow> 'os \<times> os_DirEntry list \<times> rd_end option"
  os_CloseFile :: "int \<Rightarrow> ('os, unit) sysop"

text \<open>
  \<open>sys_Getxattr\<close> and \<open>sys_Listxattr\<close> take the length of the buffer, 0 for \<^verbatim>\<open>nil\<close>, and return the size
  and what was put in the buffer. The \<open>bool\<close> arguments are: follow no symlinks (xattr), follow
  symlinks (\<open>os_Stat\<close>), wait (\<open>sys_OfdSetlk\<close>).
\<close>

section \<open>WebSocket connection\<close>

text \<open>
  \<open>ws_Writer\<close> is \<^verbatim>\<open>conn.Writer(ctx, MessageBinary)\<close>, given whether the context has been cancelled;
  \<open>ws_Write\<close> and \<open>ws_Close\<close> are the methods of the writer it returns; \<open>ws_CloseNow\<close> is \<^verbatim>\<open>conn.CloseNow\<close>.
\<close>

record 'ws wsops =
  ws_Writer :: "bool \<Rightarrow> 'ws \<Rightarrow> 'ws \<times> goerr option"
  ws_Write :: "'ws writeop"
  ws_Close :: "'ws \<Rightarrow> 'ws \<times> goerr option"
  ws_CloseNow :: "'ws \<Rightarrow> 'ws"

record ('os, 'ws) env =
  E_sys :: "'os sys"
  E_ws :: "'ws wsops"
  E_unix :: unixc

text \<open>
  The documented behaviour of a connection that does not fail: \<^verbatim>\<open>Writer\<close> starts an empty message,
  \<^verbatim>\<open>Write\<close> appends to it, \<^verbatim>\<open>Close\<close> sends it. \<open>cur\<close> is the message being written and \<open>sent\<close> the messages sent.
\<close>

definition ws_reliable :: "'ws wsops \<Rightarrow> ('ws \<Rightarrow> bytes) \<Rightarrow> ('ws \<Rightarrow> bytes list) \<Rightarrow> bool" where
  "ws_reliable W cur sent \<longleftrightarrow>
     (\<forall>w. snd (ws_Writer W False w) = None \<and> cur (fst (ws_Writer W False w)) = []
        \<and> sent (fst (ws_Writer W False w)) = sent w)
     \<and> (\<forall>w bs. snd (ws_Write W bs w) = None \<and> cur (fst (ws_Write W bs w)) = cur w @ bs
        \<and> sent (fst (ws_Write W bs w)) = sent w)
     \<and> (\<forall>w. snd (ws_Close W w) = None \<and> sent (fst (ws_Close W w)) = sent w @ [cur w])"

text \<open>A connection that keeps everything in memory, for examples.\<close>

definition mem_ws :: "(bytes \<times> bytes list) wsops" where
  "mem_ws = \<lparr>ws_Writer = (\<lambda>_ (c, s). (([], s), None)),
     ws_Write = (\<lambda>bs (c, s). ((c @ bs, s), None)),
     ws_Close = (\<lambda>(c, s). ((c, s @ [c]), None)),
     ws_CloseNow = (\<lambda>w. w)\<rparr>"

lemma mem_ws_reliable: "ws_reliable mem_ws fst snd"
  by (auto simp: ws_reliable_def mem_ws_def)

section \<open>Wrappers around system calls\<close>

text \<open>Repeats the call while it is interrupted; \<open>None\<close> is a loop that never ends.\<close>

partial_function (option) ignoringEINTR :: "('os, 'a) sysop \<Rightarrow> 'os \<Rightarrow> ('os \<times> (oserror + 'a)) option" where
  "ignoringEINTR fn os = (case fn os of
       (os', Inl (Sys EINTR)) \<Rightarrow> ignoringEINTR fn os'
     | r \<Rightarrow> Some r)"

definition sys_fail :: "oserror \<Rightarrow> ('os, 'a) sysop" where
  "sys_fail e os = (os, Inl e)"

definition FsSize :: "'os sys \<Rightarrow> string \<Rightarrow> ('os, u64 \<times> u64 \<times> u64) sysop" where
  "FsSize S fspath os = (case sys_Statfs S fspath os of
       (os', Inl e) \<Rightarrow> (os', Inl e)
     | (os', Inr st) \<Rightarrow> (os', Inr (sf_Blocks st * sf_Frsize st, sf_Bfree st * sf_Frsize st, sf_Bavail st * sf_Frsize st)))"

definition Renameat2 :: "unixc \<Rightarrow> 'os sys \<Rightarrow> int \<Rightarrow> string \<Rightarrow> int \<Rightarrow> string \<Rightarrow> u32 \<Rightarrow> ('os, unit) sysop" where
  "Renameat2 U S fd1 path1 fd2 path2 flag = (case renameFlagToSys U flag of
       None \<Rightarrow> sys_fail (Sys ENOTSUP)
     | Some unixFlag \<Rightarrow> sys_Renameat2 S fd1 path1 fd2 path2 unixFlag)"

definition CloneFileRange :: "'os sys \<Rightarrow> int \<Rightarrow> int \<Rightarrow> u64 \<Rightarrow> u64 \<Rightarrow> u64 \<Rightarrow> ('os, unit) sysop" where
  "CloneFileRange S dstFD srcFD dstOffset srcOffset n =
     (if dstOffset = 0 \<and> srcOffset = 0 \<and> n = 0 then sys_FileClone S dstFD srcFD
      else sys_FileCloneRange S dstFD srcFD srcOffset n dstOffset)"

definition CopyFileRange :: "'os sys \<Rightarrow> int \<Rightarrow> i64 \<Rightarrow> int \<Rightarrow> i64 \<Rightarrow> u64 \<Rightarrow> ('os, nat) sysop" where
  "CopyFileRange S rfd roff wfd woff len = sys_CopyFileRange S rfd roff wfd woff len"

definition Fallocate :: "'os sys \<Rightarrow> int \<Rightarrow> u32 \<Rightarrow> i64 \<Rightarrow> i64 \<Rightarrow> ('os, unit) sysop" where
  "Fallocate S fd mode off len = sys_Fallocate S fd mode off len"

definition ofd_GetLock :: "unixc \<Rightarrow> 'os sys \<Rightarrow> int \<Rightarrow> FileLockInfo \<Rightarrow> ('os, FileLockInfo) sysop" where
  "ofd_GetLock U S fd lock os = (case lockToSys U lock of
       None \<Rightarrow> (os, Inl (Sys EINVAL))
     | Some flock \<Rightarrow> (case sys_OfdGetlk S fd flock os of
           (os', Inl e) \<Rightarrow> (os', Inl e)
         | (os', Inr flock') \<Rightarrow> (os', Inr (lockFromSys U flock'))))"

definition ofd_SetLock :: "unixc \<Rightarrow> 'os sys \<Rightarrow> int \<Rightarrow> FileLockInfo \<Rightarrow> bool \<Rightarrow> ('os, unit) sysop" where
  "ofd_SetLock U S fd lock blocking = (case lockToSys U lock of
       None \<Rightarrow> sys_fail (Sys EINVAL)
     | Some flock \<Rightarrow> sys_OfdSetlk S blocking fd flock)"

section \<open>Timestamps\<close>

text \<open>The name in a \<^verbatim>\<open>FileInfo\<close> is the last component of the path it was asked for.\<close>

definition Stat :: "'os sys \<Rightarrow> string \<Rightarrow> bool \<Rightarrow> ('os, os_FileInfo \<times> Timespec) sysop" where
  "Stat S path followSymlink os = (case os_Stat S followSymlink path os of
       (os', Inl e) \<Rightarrow> (os', Inl e)
     | (os', Inr fi) \<Rightarrow> (os', Inr (fi\<lparr>st_Name := Base path\<rparr>, st_MTime fi)))"

definition SetPathMTime :: "'os sys \<Rightarrow> string \<Rightarrow> Timespec \<Rightarrow> ('os, unit) sysop" where
  "SetPathMTime S path ts = (case unixTimespecs ts of
       Inl e \<Rightarrow> sys_fail (Sys e)
     | Inr t \<Rightarrow> sys_Utimes S path t)"

fun nat_digits :: "nat \<Rightarrow> string" where
  "nat_digits n = (if n < 10 then [char_of (n + 48)] else nat_digits (n div 10) @ [char_of (n mod 10 + 48)])"

declare nat_digits.simps [simp del]

definition Itoa :: "int \<Rightarrow> string" where
  "Itoa i = (if i < 0 then CHR ''-'' # nat_digits (nat (- i)) else nat_digits (nat i))"

definition SetFDMTime :: "'os sys \<Rightarrow> int \<Rightarrow> Timespec \<Rightarrow> ('os, unit) sysop" where
  "SetFDMTime S fd ts = (case unixTimespecs ts of
       Inl e \<Rightarrow> sys_fail (Sys e)
     | Inr t \<Rightarrow> sys_Utimes S (Join ''/proc/self/fd'' (Itoa fd)) t)"

section \<open>Extended attributes\<close>

definition xattr_set :: "'os sys \<Rightarrow> string \<Rightarrow> string \<Rightarrow> bytes \<Rightarrow> goint \<Rightarrow> bool \<Rightarrow> ('os, unit) sysop" where
  "xattr_set S path key val flags nofollow = sys_Setxattr S nofollow path key val flags"

text \<open>The growing-buffer loops of \<^verbatim>\<open>supported.go\<close>, with \<open>k\<close> attempts left.\<close>

fun xattr_grow :: "nat \<Rightarrow> (nat \<Rightarrow> ('os, nat \<times> bytes) sysop) \<Rightarrow> nat \<Rightarrow> ('os, bytes) sysop" where
  "xattr_grow 0 op buflen os = (os, Inl (Sys EIO))"
| "xattr_grow (Suc k) op buflen os = (case op buflen os of
       (os', Inr (n, buf)) \<Rightarrow> (os', Inr (take n buf))
     | (os', Inl e) \<Rightarrow>
         if e \<noteq> Sys ERANGE then (os', Inl e)
         else (case op 0 os' of
             (os'', Inl e') \<Rightarrow> (os'', Inl e')
           | (os'', Inr (n, _)) \<Rightarrow> if n = 0 then (os'', Inr []) else xattr_grow k op n os''))"

abbreviation (input) bufGrowTry :: nat where "bufGrowTry \<equiv> 3"
abbreviation (input) bufInitSize :: nat where "bufInitSize \<equiv> 256"

definition xattr_Get :: "'os sys \<Rightarrow> string \<Rightarrow> string \<Rightarrow> u32 \<Rightarrow> ('os, bytes) sysop" where
  "xattr_Get S path key mode =
     (if mode AND NOT XATTR_NOFOLLOW \<noteq> 0 then sys_fail (Sys EINVAL)
      else xattr_grow bufGrowTry (sys_Getxattr S (mode AND XATTR_NOFOLLOW \<noteq> 0) path key) bufInitSize)"

definition xattr_List :: "'os sys \<Rightarrow> string \<Rightarrow> u32 \<Rightarrow> ('os, bytes) sysop" where
  "xattr_List S path mode =
     (if mode AND NOT XATTR_NOFOLLOW \<noteq> 0 then sys_fail (Sys EINVAL)
      else xattr_grow bufGrowTry (sys_Listxattr S (mode AND XATTR_NOFOLLOW \<noteq> 0) path) bufInitSize)"

definition xattr_Set :: "unixc \<Rightarrow> 'os sys \<Rightarrow> string \<Rightarrow> string \<Rightarrow> bytes \<Rightarrow> u32 \<Rightarrow> ('os, unit) sysop" where
  "xattr_Set U S path key val mode os =
     (let nofollow = (mode AND XATTR_NOFOLLOW \<noteq> 0); m = mode AND NOT XATTR_NOFOLLOW
      in if m = SETXATTR_NORMAL then xattr_set S path key val 0 nofollow os
         else if m = SETXATTR_APPEND then
           (case xattr_Get S path key (mode AND XATTR_NOFOLLOW) os of
              (os', Inl e) \<Rightarrow> (os', Inl e)
            | (os', Inr oldValue) \<Rightarrow> xattr_set S path key (oldValue @ val) 0 nofollow os')
         else if m = SETXATTR_CREATE then xattr_set S path key val (u_XATTR_CREATE U) nofollow os
         else if m = SETXATTR_REPLACE then xattr_set S path key val (u_XATTR_REPLACE U) nofollow os
         else (os, Inl (Sys EINVAL)))"

definition xattr_Remove :: "'os sys \<Rightarrow> string \<Rightarrow> string \<Rightarrow> u32 \<Rightarrow> ('os, unit) sysop" where
  "xattr_Remove S path key mode =
     (if mode AND NOT XATTR_NOFOLLOW \<noteq> 0 then sys_fail (Sys EINVAL)
      else sys_Removexattr S (mode AND XATTR_NOFOLLOW \<noteq> 0) path key)"

end
