(* ===== verification/Wsfs_Session.thy ===== *)
theory Wsfs_Session
  imports Wsfs_Env
begin

text \<open>
  The server's session object and its response primitives
  (\<^verbatim>\<open>src/src/internal/server/wsfs/session.go\<close>). A session is a record of the fields of the Go struct, with the
  operating system and the connection as two of them. \<^verbatim>\<open>sync.Map\<close> tables are association lists, locks
  are booleans, the pool of fast buffers is its number of free buffers. Operations return an option:
  \<open>None\<close> stands for a call that never returns (a lock that is never released, an endless loop).
  The lemmas give the effect of every primitive on a connection that does not fail, and show that
  every primitive, on any connection, releases the write lock and records the first error.
\<close>

section \<open>State\<close>

record FsIds =
  ids_Uid :: u32
  ids_Gid :: u32
  ids_OtherUid :: u32
  ids_OtherGid :: u32

record FeatureOptions =
  opt_EnableLink :: bool
  opt_AllowedXAttrPrefix :: "string list"

text \<open>A queued input of a write stream; every input owns a fast buffer.\<close>

record writeStreamInput =
  wsi_data :: bytes
  wsi_isEnd :: bool

text \<open>
  A write stream: the channel's contents, and the parameters and local variables of its goroutine
  \<^verbatim>\<open>run\<close>. \<open>str_done\<close> is set when \<^verbatim>\<open>run\<close> has sent its last response but has not yet removed the stream.
\<close>

record writeStream =
  str_fd :: int
  str_offset :: u64
  str_written :: u64
  str_errSent :: bool
  str_input :: "writeStreamInput list"
  str_done :: bool

record ('os, 'ws) session =
  s_storage :: string
  s_fsIds :: FsIds
  s_featureOpts :: FeatureOptions
  s_conn :: bool
  s_ws :: 'ws
  s_writer :: bool
  s_writeLock :: bool
  s_cancelled :: bool
  s_connErr :: "goerr option"
  s_connErrLock :: bool
  s_fds :: "(u32 \<times> int) list"
  s_fdLast :: u32
  s_writeStreams :: "(u8 \<times> writeStream) list"
  s_fastBuffers :: nat
  s_os :: 'os

type_synonym ('os, 'ws) handler = "('os, 'ws) session \<Rightarrow> ('os, 'ws) session option"

abbreviation (input) writeStreamInputBuffer :: nat where "writeStreamInputBuffer \<equiv> 4"
abbreviation (input) sessionFastBuffer :: nat where "sessionFastBuffer \<equiv> 32"

definition newSession :: "string \<Rightarrow> FsIds \<Rightarrow> FeatureOptions \<Rightarrow> 'ws \<Rightarrow> 'os \<Rightarrow> ('os, 'ws) session" where
  "newSession storage fsIds featureOpts ws os = \<lparr>
     s_storage = storage, s_fsIds = fsIds, s_featureOpts = featureOpts, s_conn = False, s_ws = ws,
     s_writer = False, s_writeLock = False, s_cancelled = False, s_connErr = None, s_connErrLock = False,
     s_fds = [], s_fdLast = 0, s_writeStreams = [], s_fastBuffers = sessionFastBuffer, s_os = os\<rparr>"

definition acquireFastBuffer :: "('os, 'ws) handler" where
  "acquireFastBuffer s =
     (if s_fastBuffers s = 0 then None else Some (s\<lparr>s_fastBuffers := s_fastBuffers s - 1\<rparr>))"

definition releaseFastBuffer :: "('os, 'ws) session \<Rightarrow> ('os, 'ws) session" where
  "releaseFastBuffer s = s\<lparr>s_fastBuffers := s_fastBuffers s + 1\<rparr>"

section \<open>Descriptors\<close>

text \<open>\<^verbatim>\<open>newFD\<close>: the counter wraps at 32 bits and skips descriptors in use.\<close>

partial_function (option) newFD_loop :: "int \<Rightarrow> (u32 \<times> int) list \<Rightarrow> u32 \<Rightarrow> (u32 \<times> (u32 \<times> int) list) option" where
  "newFD_loop sfd fds lastFD =
     (let fd = lastFD + 1
      in case map_of fds fd of
           None \<Rightarrow> Some (fd, (fd, sfd) # fds)
         | Some _ \<Rightarrow> newFD_loop sfd fds fd)"

definition newFD :: "int \<Rightarrow> ('os, 'ws) session \<Rightarrow> (u32 \<times> ('os, 'ws) session) option" where
  "newFD sfd s = do {
     (fd, fds) \<leftarrow> newFD_loop sfd (s_fds s) (s_fdLast s);
     Some (fd, s\<lparr>s_fds := fds, s_fdLast := fd\<rparr>)}"

section \<open>Responses\<close>

definition setConnErr :: "goerr \<Rightarrow> ('os, 'ws) session \<Rightarrow> ('os, 'ws) session" where
  "setConnErr e s = (if s_connErrLock s then s else s\<lparr>s_connErrLock := True, s_connErr := Some e\<rparr>)"

definition requireWrite :: "('os, 'ws) env \<Rightarrow> ('os, 'ws) session \<Rightarrow> (bool \<times> ('os, 'ws) session) option" where
  "requireWrite E s =
     (if s_writeLock s then None
      else if \<not> s_conn s then Some (False, s)
      else case ws_Writer (E_ws E) (s_cancelled s) (s_ws s) of
          (w, Some err) \<Rightarrow> Some (False, (setConnErr err (s\<lparr>s_ws := w, s_writer := False\<rparr>))
             \<lparr>s_conn := False, s_cancelled := True\<rparr>)
        | (w, None) \<Rightarrow> Some (True, s\<lparr>s_ws := w, s_writer := True, s_writeLock := True\<rparr>))"

definition writeDone :: "('os, 'ws) env \<Rightarrow> goerr option \<Rightarrow> ('os, 'ws) session \<Rightarrow> ('os, 'ws) session" where
  "writeDone E err s =
     (let (s, err) =
        (if s_writer s then
           (case ws_Close (E_ws E) (s_ws s) of (w, closeErr) \<Rightarrow>
              (s\<lparr>s_ws := w, s_writer := False\<rparr>, if err = None then closeErr else err))
         else (s, err));
        s = (case err of None \<Rightarrow> s
             | Some e \<Rightarrow> (setConnErr e s)\<lparr>s_conn := False, s_cancelled := True\<rparr>)
      in s\<lparr>s_writeLock := False\<rparr>)"

text \<open>Running a writer program on \<^verbatim>\<open>s.writer\<close>.\<close>

definition on_writer :: "'ws wprog \<Rightarrow> ('os, 'ws) session \<Rightarrow> ('os, 'ws) session \<times> goerr option" where
  "on_writer p s = (case p (s_ws s) of (w, err) \<Rightarrow> (s\<lparr>s_ws := w\<rparr>, err))"

definition s_write :: "('os, 'ws) env \<Rightarrow> bytes \<Rightarrow> ('os, 'ws) handler" where
  "s_write E d s = do {
     (ok, s) \<leftarrow> requireWrite E s;
     if \<not> ok then Some s
     else case on_writer (ws_Write (E_ws E) d) s of (s, err) \<Rightarrow> Some (writeDone E err s)}"

definition beginRsp :: "('os, 'ws) env \<Rightarrow> u8 \<Rightarrow> u8 \<Rightarrow> ('os, 'ws) session \<Rightarrow> (bool \<times> ('os, 'ws) session) option" where
  "beginRsp E clientMark ec s = do {
     (ok, s) \<leftarrow> requireWrite E s;
     if \<not> ok then Some (False, s)
     else case on_writer (ws_Write (E_ws E) [clientMark, ec]) s of
         (s, None) \<Rightarrow> Some (True, s)
       | (s, err) \<Rightarrow> Some (False, writeDone E err s)}"

definition writeRspOK :: "('os, 'ws) env \<Rightarrow> u8 \<Rightarrow> ('os, 'ws) handler" where
  "writeRspOK E clientMark s = do {
     (ok, s) \<leftarrow> beginRsp E clientMark ErrorOK s;
     Some (if ok then writeDone E None s else s)}"

text \<open>
  The pattern of every response with a body: begin, write the struct to \<^verbatim>\<open>s.writer\<close>, finish with the
  error of the write.
\<close>

definition rspWith :: "('os, 'ws) env \<Rightarrow> u8 \<Rightarrow> u8 \<Rightarrow> 'ws wprog \<Rightarrow> ('os, 'ws) handler" where
  "rspWith E clientMark ec body s = do {
     (ok, s) \<leftarrow> beginRsp E clientMark ec s;
     if ok then (case on_writer body s of (s, err) \<Rightarrow> Some (writeDone E err s)) else Some s}"

definition writeRspError :: "('os, 'ws) env \<Rightarrow> u8 \<Rightarrow> u8 \<Rightarrow> string \<Rightarrow> ('os, 'ws) handler" where
  "writeRspError E clientMark ec desc =
     rspWith E clientMark ec (WriteRspErrorToWriter (ws_Write (E_ws E))
       \<lparr>RspError_Desc = (if length desc > MaxErrorDescLength then take MaxErrorDescLength desc else desc)\<rparr>)"

definition writeRspWriteStreamClose :: "('os, 'ws) env \<Rightarrow> u8 \<Rightarrow> u64 \<Rightarrow> ('os, 'ws) handler" where
  "writeRspWriteStreamClose E clientMark written =
     rspWith E clientMark ErrorOK (WriteRspWriteStreamCloseToWriter (ws_Write (E_ws E))
       \<lparr>RspWriteStreamClose_Written = written\<rparr>)"

section \<open>Effect on a healthy connection\<close>

definition healthy :: "('os, 'ws) session \<Rightarrow> bool" where
  "healthy s \<longleftrightarrow> s_conn s \<and> \<not> s_writeLock s \<and> \<not> s_cancelled s \<and> \<not> s_writer s"

text \<open>
  \<open>emits sent s s' msgs\<close>: \<open>s'\<close> is \<open>s\<close> after sending the messages \<open>msgs\<close>; nothing else has changed.
\<close>

definition emits :: "('ws \<Rightarrow> bytes list) \<Rightarrow> ('os, 'ws) session \<Rightarrow> ('os, 'ws) session \<Rightarrow> bytes list \<Rightarrow> bool" where
  "emits sent s s' msgs \<longleftrightarrow> (\<exists>w. s' = s\<lparr>s_ws := w\<rparr> \<and> sent w = sent (s_ws s) @ msgs)"

lemma emits_refl: "emits sent s s []"
  unfolding emits_def by (rule exI [of _ "s_ws s"]) simp

lemma emits_trans: "emits sent s s' m \<Longrightarrow> emits sent s' s'' m' \<Longrightarrow> emits sent s s'' (m @ m')"
  by (auto simp: emits_def)

lemma emits_fields:
  assumes "emits sent s s' m"
  shows "s_fds s' = s_fds s" "s_os s' = s_os s" "s_storage s' = s_storage s" "s_fsIds s' = s_fsIds s"
    "s_featureOpts s' = s_featureOpts s" "s_fdLast s' = s_fdLast s"
    "s_writeStreams s' = s_writeStreams s" "s_fastBuffers s' = s_fastBuffers s"
    "sent (s_ws s') = sent (s_ws s) @ m" "healthy s' \<longleftrightarrow> healthy s"
  using assms by (auto simp: emits_def healthy_def)

text \<open>
  \<open>puts W cur sent p bs\<close>: on a reliable connection the writer program \<open>p\<close> adds exactly \<open>bs\<close> to the
  message being written.
\<close>

definition puts :: "('ws \<Rightarrow> bytes) \<Rightarrow> ('ws \<Rightarrow> bytes list) \<Rightarrow> 'ws wprog \<Rightarrow> bytes \<Rightarrow> bool" where
  "puts cur sent p bs \<longleftrightarrow>
     (\<forall>w. snd (p w) = None \<and> cur (fst (p w)) = cur w @ bs \<and> sent (fst (p w)) = sent w)"

lemma ws_io_writer: "ws_reliable W cur sent \<Longrightarrow> io_writer (ws_Write W) cur (\<lambda>w n. sent w = S)"
  by unfold_locales (auto simp: appends_def ws_reliable_def prod_eq_iff)

lemma puts_appends:
  assumes "\<And>S. appends cur (\<lambda>w n. sent w = S) p bs"
  shows "puts cur sent p bs"
  unfolding puts_def
proof
  fix w
  obtain w' where "p w = (w', None)" "cur w' = cur w @ bs" "\<forall>k::nat. sent w = sent w \<longrightarrow> sent w' = sent w"
    using assms [of "sent w"] unfolding appends_def by blast
  then show "snd (p w) = None \<and> cur (fst (p w)) = cur w @ bs \<and> sent (fst (p w)) = sent w"
    by simp
qed

lemma puts_Write: "ws_reliable W cur sent \<Longrightarrow> puts cur sent (ws_Write W bs) bs"
  by (simp add: puts_def ws_reliable_def)

lemma healthy_upd: "healthy s \<Longrightarrow> s\<lparr>s_ws := w, s_writer := False, s_writeLock := False\<rparr> = s\<lparr>s_ws := w\<rparr>"
  by (cases s) (simp add: healthy_def)

lemma rspWith_emits:
  assumes W: "ws_reliable (E_ws E) cur sent" and s: "healthy s" and b: "puts cur sent body bs"
  shows "\<exists>s'. rspWith E m ec body s = Some s' \<and> emits sent s s' [m # ec # bs]"
proof -
  let ?W = "E_ws E"
  obtain w0 where w0: "ws_Writer ?W False (s_ws s) = (w0, None)" "cur w0 = []" "sent w0 = sent (s_ws s)"
    using W by (auto simp: ws_reliable_def prod_eq_iff)
  obtain w1 where w1: "ws_Write ?W [m, ec] w0 = (w1, None)" "cur w1 = [m, ec]" "sent w1 = sent w0"
    using W w0(2) by (auto simp: ws_reliable_def prod_eq_iff)
  obtain w2 where w2: "body w1 = (w2, None)" "cur w2 = cur w1 @ bs" "sent w2 = sent w1"
    using b by (auto simp: puts_def prod_eq_iff)
  obtain w3 where w3: "ws_Close ?W w2 = (w3, None)" "sent w3 = sent w2 @ [cur w2]"
    using W by (auto simp: ws_reliable_def prod_eq_iff)
  have "rspWith E m ec body s = Some (s\<lparr>s_ws := w3, s_writer := False, s_writeLock := False\<rparr>)"
    using s w0 w1 w2 w3
    by (simp add: rspWith_def beginRsp_def requireWrite_def on_writer_def writeDone_def healthy_def)
  then show ?thesis
    using w0(3) w1(2,3) w2(2,3) w3(2) unfolding healthy_upd [OF s] emits_def by auto
qed

lemma s_write_emits:
  assumes W: "ws_reliable (E_ws E) cur sent" and s: "healthy s"
  shows "\<exists>s'. s_write E d s = Some s' \<and> emits sent s s' [d]"
proof -
  let ?W = "E_ws E"
  obtain w0 where w0: "ws_Writer ?W False (s_ws s) = (w0, None)" "cur w0 = []" "sent w0 = sent (s_ws s)"
    using W by (auto simp: ws_reliable_def prod_eq_iff)
  obtain w1 where w1: "ws_Write ?W d w0 = (w1, None)" "cur w1 = d" "sent w1 = sent w0"
    using W w0(2) by (auto simp: ws_reliable_def prod_eq_iff)
  obtain w3 where w3: "ws_Close ?W w1 = (w3, None)" "sent w3 = sent w1 @ [cur w1]"
    using W by (auto simp: ws_reliable_def prod_eq_iff)
  have "s_write E d s = Some (s\<lparr>s_ws := w3, s_writer := False, s_writeLock := False\<rparr>)"
    using s w0 w1 w3
    by (simp add: s_write_def requireWrite_def on_writer_def writeDone_def healthy_def)
  then show ?thesis
    using w0(3) w1(2,3) w3(2) unfolding healthy_upd [OF s] emits_def by auto
qed

lemma puts_skip: "puts cur sent (\<lambda>w. (w, None)) []"
  by (simp add: puts_def)

lemma writeRspOK_rspWith: "writeRspOK E m = rspWith E m ErrorOK (\<lambda>w. (w, None))"
proof
  fix s
  show "writeRspOK E m s = rspWith E m ErrorOK (\<lambda>w. (w, None)) s"
    by (cases "beginRsp E m ErrorOK s") (simp_all add: writeRspOK_def rspWith_def on_writer_def split: prod.split)
qed

lemma writeRspOK_emits:
  assumes "ws_reliable (E_ws E) cur sent" and "healthy s"
  shows "\<exists>s'. writeRspOK E m s = Some s' \<and> emits sent s s' [[m, ErrorOK]]"
  unfolding writeRspOK_rspWith using rspWith_emits [OF assms puts_skip] by simp

definition error_desc :: "string \<Rightarrow> string" where
  "error_desc desc = take MaxErrorDescLength desc"

lemma writeRspError_emits:
  assumes W: "ws_reliable (E_ws E) cur sent" and s: "healthy s"
  shows "\<exists>s'. writeRspError E m ec desc s = Some s' \<and> emits sent s s' [m # ec # wire_str (error_desc desc)]"
proof -
  have d: "(if length desc > MaxErrorDescLength then take MaxErrorDescLength desc else desc) = error_desc desc"
    by (simp add: error_desc_def)
  have "length (RspError_Desc \<lparr>RspError_Desc = error_desc desc\<rparr>) \<le> 0xffff"
    by (simp add: error_desc_def)
  then have "puts cur sent (WriteRspErrorToWriter (ws_Write (E_ws E)) \<lparr>RspError_Desc = error_desc desc\<rparr>)
      (wire_RspError \<lparr>RspError_Desc = error_desc desc\<rparr>)"
    by (intro puts_appends io_writer.WriteRspErrorToWriter_appends [OF ws_io_writer [OF W]])
  from rspWith_emits [OF W s this] show ?thesis
    unfolding writeRspError_def d by (simp add: wire_RspError_def)
qed

section \<open>Effect on any connection\<close>

text \<open>
  \<open>net_frame s s'\<close>: only the connection part of the session may differ; the write lock is free; a
  connection given up has its error recorded and its context cancelled, and the first error stays.
\<close>

definition net_frame :: "('os, 'ws) session \<Rightarrow> ('os, 'ws) session \<Rightarrow> bool" where
  "net_frame s s' \<longleftrightarrow>
     s_storage s' = s_storage s \<and> s_fsIds s' = s_fsIds s \<and> s_featureOpts s' = s_featureOpts s
     \<and> s_fds s' = s_fds s \<and> s_fdLast s' = s_fdLast s \<and> s_writeStreams s' = s_writeStreams s
     \<and> s_fastBuffers s' = s_fastBuffers s \<and> s_os s' = s_os s
     \<and> \<not> s_writeLock s'
     \<and> (s_conn s' \<longrightarrow> s_conn s)
     \<and> (s_conn s \<and> \<not> s_conn s' \<longrightarrow> s_cancelled s' \<and> s_connErrLock s')
     \<and> (s_cancelled s \<longrightarrow> s_cancelled s')
     \<and> (s_connErrLock s \<longrightarrow> s_connErrLock s' \<and> s_connErr s' = s_connErr s)"

lemma net_frame_refl: "\<not> s_writeLock s \<Longrightarrow> net_frame s s"
  by (simp add: net_frame_def)

lemma net_frame_trans: "net_frame s s' \<Longrightarrow> net_frame s' s'' \<Longrightarrow> net_frame s s''"
  by (auto simp: net_frame_def)

lemma setConnErr_fields [simp]:
  "s_storage (setConnErr e s) = s_storage s" "s_fsIds (setConnErr e s) = s_fsIds s"
  "s_featureOpts (setConnErr e s) = s_featureOpts s" "s_fds (setConnErr e s) = s_fds s"
  "s_fdLast (setConnErr e s) = s_fdLast s" "s_writeStreams (setConnErr e s) = s_writeStreams s"
  "s_fastBuffers (setConnErr e s) = s_fastBuffers s" "s_os (setConnErr e s) = s_os s"
  "s_writeLock (setConnErr e s) = s_writeLock s" "s_conn (setConnErr e s) = s_conn s"
  "s_cancelled (setConnErr e s) = s_cancelled s" "s_connErrLock (setConnErr e s)"
  "s_connErrLock s \<Longrightarrow> s_connErr (setConnErr e s) = s_connErr s"
  by (simp_all add: setConnErr_def)

text \<open>The state between taking and releasing the write lock.\<close>

definition net_hold :: "('os, 'ws) session \<Rightarrow> ('os, 'ws) session \<Rightarrow> bool" where
  "net_hold s s' \<longleftrightarrow> net_frame s (s'\<lparr>s_writeLock := False\<rparr>)"

lemma requireWrite_frame:
  assumes "\<not> s_writeLock s"
  shows "\<exists>ok s'. requireWrite E s = Some (ok, s') \<and> (if ok then net_hold s s' else net_frame s s')"
proof (cases "s_conn s")
  case True
  obtain w e where "ws_Writer (E_ws E) (s_cancelled s) (s_ws s) = (w, e)" by fastforce
  with True assms show ?thesis
    by (cases e) (auto simp: requireWrite_def net_frame_def net_hold_def)
next
  case False
  with assms show ?thesis by (auto simp: requireWrite_def net_frame_def)
qed

lemma writeDone_frame:
  assumes "net_hold s s'"
  shows "net_frame s (writeDone E err s')"
proof -
  obtain w e where w: "ws_Close (E_ws E) (s_ws s') = (w, e)" by fastforce
  have nf: "net_frame s (s1\<lparr>s_writeLock := False\<rparr>)" if "net_hold s s1" for s1
    using that by (simp add: net_hold_def)
  have "net_hold s (s'\<lparr>s_ws := w, s_writer := False\<rparr>)"
    using assms by (simp add: net_hold_def net_frame_def)
  moreover have "net_hold s ((setConnErr x s1)\<lparr>s_conn := False, s_cancelled := True\<rparr>)" if "net_hold s s1" for x s1
    using that by (auto simp: net_hold_def net_frame_def)
  ultimately show ?thesis
    unfolding writeDone_def w Let_def using assms nf by (auto split: option.split)
qed

lemma on_writer_hold: "net_hold s s' \<Longrightarrow> net_hold s (fst (on_writer p s'))"
  by (auto simp: on_writer_def net_hold_def net_frame_def split: prod.split)

lemma s_write_frame:
  assumes "\<not> s_writeLock s"
  shows "\<exists>s'. s_write E d s = Some s' \<and> net_frame s s'"
proof -
  obtain ok s1 where s1: "requireWrite E s = Some (ok, s1)" "if ok then net_hold s s1 else net_frame s s1"
    using requireWrite_frame [OF assms] by blast
  obtain s2 err where s2: "on_writer (ws_Write (E_ws E) d) s1 = (s2, err)"
    by fastforce
  show ?thesis
    using s1 s2 on_writer_hold [of s s1 "ws_Write (E_ws E) d"]
    by (cases ok) (auto simp: s_write_def intro: writeDone_frame)
qed

lemma beginRsp_frame:
  assumes "\<not> s_writeLock s"
  shows "\<exists>ok s'. beginRsp E m ec s = Some (ok, s') \<and> (if ok then net_hold s s' else net_frame s s')"
proof -
  obtain ok s1 where s1: "requireWrite E s = Some (ok, s1)" "if ok then net_hold s s1 else net_frame s s1"
    using requireWrite_frame [OF assms] by blast
  obtain s2 err where s2: "on_writer (ws_Write (E_ws E) [m, ec]) s1 = (s2, err)"
    by fastforce
  show ?thesis
    using s1 s2 on_writer_hold [of s s1 "ws_Write (E_ws E) [m, ec]"]
    by (cases ok; cases err) (auto simp: beginRsp_def intro: writeDone_frame)
qed

lemma rspWith_frame:
  assumes "\<not> s_writeLock s"
  shows "\<exists>s'. rspWith E m ec body s = Some s' \<and> net_frame s s'"
proof -
  obtain ok s1 where s1: "beginRsp E m ec s = Some (ok, s1)" "if ok then net_hold s s1 else net_frame s s1"
    using beginRsp_frame [OF assms] by blast
  obtain s2 err where s2: "on_writer body s1 = (s2, err)"
    by fastforce
  show ?thesis
    using s1 s2 on_writer_hold [of s s1 body]
    by (cases ok) (auto simp: rspWith_def intro: writeDone_frame)
qed

lemma writeRspOK_frame:
  "\<not> s_writeLock s \<Longrightarrow> \<exists>s'. writeRspOK E m s = Some s' \<and> net_frame s s'"
  unfolding writeRspOK_rspWith by (rule rspWith_frame)

lemma writeRspError_frame:
  "\<not> s_writeLock s \<Longrightarrow> \<exists>s'. writeRspError E m ec desc s = Some s' \<and> net_frame s s'"
  unfolding writeRspError_def by (rule rspWith_frame)

lemmas response_frame = s_write_frame rspWith_frame writeRspOK_frame writeRspError_frame

end
