(* ===== verification/Wsfs_Client.thy ===== *)
theory Wsfs_Client
  imports Wsfs_Session
begin

text \<open>
  The client's session (\<^verbatim>\<open>src/src/internal/client/session/session.go\<close>): marks that tell the responses to
  concurrent requests apart, the write side of the connection, the read loop that hands every response to
  the channel of its mark, and the life cycle (error mode, redial, close). A session is a record of
  the fields of the Go struct; locks are booleans, a response channel holds at most one message.
  Operations that may wait return an option: \<open>None\<close> stands for a call that does not return.
\<close>

section \<open>State\<close>

datatype sessionState = SessionRunning | SessionRecovering | SessionClosing | SessionClosed

record 'cw Session =
  c_allowedXAttrPrefix :: "string list"
  c_autoXAttrAppend :: bool
  c_state :: sessionState
  c_activeReqs :: int
  c_conn :: bool
  c_ws :: 'cw
  c_writer :: bool
  c_writeLock :: bool
  c_cancelled :: bool
  c_connErr :: "goerr option"
  c_connErrLock :: bool
  c_responses :: "u8 \<Rightarrow> bytes option"
  c_lastMark :: u32
  c_marks :: "u8 \<Rightarrow> bool"
  c_exited :: bool
  c_exitErr :: "goerr option"

text \<open>
  What the client calls outside its own source: the connection, whose next message is read with
  \<open>C_Reader\<close> (\<^verbatim>\<open>conn.Reader\<close> and reading the message to its end); \<^verbatim>\<open>conn.Close\<close> with the normal status;
  \<^verbatim>\<open>websocket.CloseStatus\<close>; and the dial function, when one is configured.
\<close>

record 'cw cenv =
  C_ws :: "'cw wsops"
  C_Reader :: "'cw \<Rightarrow> 'cw \<times> (goerr + bytes)"
  C_Close :: "'cw \<Rightarrow> 'cw \<times> goerr option"
  C_CloseStatus :: "goerr option \<Rightarrow> int"
  C_reDial :: "('cw \<Rightarrow> 'cw \<times> goerr option) option"

abbreviation (input) maxFrameSize :: nat where "maxFrameSize \<equiv> 8192"

definition normalizeXAttrPrefixes :: "string list \<Rightarrow> string list" where
  "normalizeXAttrPrefixes = filter (\<lambda>prefix. prefix \<noteq> [])"

definition NewSession :: "string list \<Rightarrow> bool \<Rightarrow> 'cw \<Rightarrow> 'cw Session" where
  "NewSession allowedXAttrPrefix autoXAttrAppend ws = \<lparr>
     c_allowedXAttrPrefix = normalizeXAttrPrefixes allowedXAttrPrefix, c_autoXAttrAppend = autoXAttrAppend,
     c_state = SessionRunning, c_activeReqs = 0, c_conn = False, c_ws = ws, c_writer = False, c_writeLock = False,
     c_cancelled = False, c_connErr = None, c_connErrLock = False, c_responses = (\<lambda>_. None), c_lastMark = 0,
     c_marks = (\<lambda>_. False), c_exited = False, c_exitErr = None\<rparr>"

section \<open>Marks\<close>

text \<open>The loop of \<^verbatim>\<open>newClientMark\<close>; the counter wraps at 32 bits, the mark is its low byte.\<close>

partial_function (option) newClientMark_loop :: "(u8 \<Rightarrow> bool) \<Rightarrow> u32 \<Rightarrow> u32 option" where
  "newClientMark_loop marks lastMark =
     (if marks (ucast (lastMark + 1)) then newClientMark_loop marks (lastMark + 1) else Some (lastMark + 1))"

text \<open>The result is the mark, or no mark on a session that is closing.\<close>

definition newClientMark :: "'cw Session \<Rightarrow> (u8 option \<times> 'cw Session) option" where
  "newClientMark s =
     (if c_state s = SessionClosing \<or> c_state s = SessionClosed then Some (None, s)
      else do {
        n \<leftarrow> newClientMark_loop (c_marks s) (c_lastMark s);
        let v = (ucast n :: u8);
        Some (Some v, s\<lparr>c_activeReqs := c_activeReqs s + 1, c_lastMark := n, c_marks := (c_marks s)(v := True)\<rparr>)})"

definition releaseClientMark :: "u8 \<Rightarrow> 'cw Session \<Rightarrow> 'cw Session" where
  "releaseClientMark clientMark s =
     s\<lparr>c_marks := (c_marks s)(clientMark := False), c_activeReqs := c_activeReqs s - 1\<rparr>"

section \<open>Writing requests\<close>

definition cl_setConnErr :: "goerr \<Rightarrow> 'cw Session \<Rightarrow> 'cw Session" where
  "cl_setConnErr e s = (if c_connErrLock s then s else s\<lparr>c_connErrLock := True, c_connErr := Some e\<rparr>)"

definition cl_requireWrite :: "'cw cenv \<Rightarrow> 'cw Session \<Rightarrow> (bool \<times> 'cw Session) option" where
  "cl_requireWrite C s =
     (if c_writeLock s then None
      else if \<not> c_conn s then Some (False, s)
      else case ws_Writer (C_ws C) (c_cancelled s) (c_ws s) of
          (w, Some err) \<Rightarrow> Some (False, (cl_setConnErr err (s\<lparr>c_ws := w, c_writer := False\<rparr>))
             \<lparr>c_conn := False, c_cancelled := True\<rparr>)
        | (w, None) \<Rightarrow> Some (True, s\<lparr>c_ws := w, c_writer := True, c_writeLock := True\<rparr>))"

definition cl_writeDone :: "'cw cenv \<Rightarrow> goerr option \<Rightarrow> 'cw Session \<Rightarrow> 'cw Session" where
  "cl_writeDone C err s =
     (let (s, err) =
        (if c_writer s then
           (case ws_Close (C_ws C) (c_ws s) of (w, closeErr) \<Rightarrow>
              (s\<lparr>c_ws := w, c_writer := False\<rparr>, if err = None then closeErr else err))
         else (s, err));
        s = (case err of None \<Rightarrow> s
             | Some e \<Rightarrow> (cl_setConnErr e s)\<lparr>c_conn := False, c_cancelled := True\<rparr>)
      in s\<lparr>c_writeLock := False\<rparr>)"

definition cl_on_writer :: "'cw wprog \<Rightarrow> 'cw Session \<Rightarrow> 'cw Session \<times> goerr option" where
  "cl_on_writer p s = (case p (c_ws s) of (w, err) \<Rightarrow> (s\<lparr>c_ws := w\<rparr>, err))"

definition beginRequest :: "'cw cenv \<Rightarrow> u8 \<Rightarrow> u8 \<Rightarrow> 'cw Session \<Rightarrow> (bool \<times> 'cw Session) option" where
  "beginRequest C clientMark cmd s = do {
     (ok, s) \<leftarrow> cl_requireWrite C s;
     if \<not> ok then Some (False, s)
     else case cl_on_writer (ws_Write (C_ws C) [clientMark, cmd]) s of
         (s, None) \<Rightarrow> Some (True, s)
       | (s, err) \<Rightarrow> Some (False, cl_writeDone C err s)}"

text \<open>
  The pattern of every request: begin, write the struct to \<^verbatim>\<open>s.writer\<close>, finish with the error of that
  write. The result is \<open>False\<close> when the request could not be begun or the struct could not be written. An error
  of closing the writer is recorded by \<open>cl_writeDone\<close> but not seen by the caller.
\<close>

definition sendRequest :: "'cw cenv \<Rightarrow> u8 \<Rightarrow> u8 \<Rightarrow> 'cw wprog \<Rightarrow> 'cw Session \<Rightarrow> (bool \<times> 'cw Session) option" where
  "sendRequest C clientMark cmd body s = do {
     (ok, s) \<leftarrow> beginRequest C clientMark cmd s;
     if \<not> ok then Some (False, s)
     else case cl_on_writer body s of (s, err) \<Rightarrow> Some (err = None, cl_writeDone C err s)}"

section \<open>Life cycle\<close>

definition cl_exit :: "goerr option \<Rightarrow> 'cw Session \<Rightarrow> 'cw Session" where
  "cl_exit err s = (if c_exited s then s else s\<lparr>c_exited := True, c_exitErr := err, c_state := SessionClosed\<rparr>)"

definition cl_takeConn :: "'cw Session \<Rightarrow> 'cw Session" where
  "cl_takeConn s = s\<lparr>c_conn := True, c_cancelled := False\<rparr>"

definition cl_Start :: "'cw Session \<Rightarrow> 'cw Session" where
  "cl_Start s = cl_takeConn (s\<lparr>c_exitErr := None, c_state := SessionRunning\<rparr>)"

text \<open>The end of \<^verbatim>\<open>pingLoop\<close> when a ping fails.\<close>

definition pingFailed :: "goerr \<Rightarrow> 'cw Session \<Rightarrow> 'cw Session" where
  "pingFailed err s = (cl_setConnErr err s)\<lparr>c_cancelled := True\<rparr>"

definition synthetic_error :: "u8 \<Rightarrow> string \<Rightarrow> bytes" where
  "synthetic_error i desc =
     (let desc = (if length desc > MaxErrorDescLength then take MaxErrorDescLength desc else desc);
          buf = fst (Buffer_write_op [i, ErrorIO] (NewBuffer maxFrameSize))
      in case WriteRspErrorToWriter Buffer_write_op \<lparr>RspError_Desc = desc\<rparr> buf of
           (buf, None) \<Rightarrow> Buffer_content buf
         | (buf, Some _) \<Rightarrow> Buffer_content (fst (WriteRspErrorToWriter Buffer_write_op
             \<lparr>RspError_Desc = ''bad synthetic error response''\<rparr> (fst (Buffer_write_op [i, ErrorIO] (Buffer_Reset buf))))))"

text \<open>
  One round of \<^verbatim>\<open>notifyAllMarksWithDesc\<close>: a mark that is taken gets an error response; the send waits
  while the channel is full.
\<close>

definition notifyMark :: "string \<Rightarrow> u8 \<Rightarrow> 'cw Session \<Rightarrow> 'cw Session option" where
  "notifyMark desc i s =
     (if \<not> c_marks s i then Some s
      else if c_responses s i \<noteq> None then None
      else Some (s\<lparr>c_responses := (c_responses s)(i \<mapsto> synthetic_error i desc)\<rparr>))"

fun notify_from :: "string \<Rightarrow> nat \<Rightarrow> nat \<Rightarrow> 'cw Session \<Rightarrow> 'cw Session option" where
  "notify_from desc i 0 s = Some s"
| "notify_from desc i (Suc n) s = do { s \<leftarrow> notifyMark desc (of_nat i) s; notify_from desc (Suc i) n s }"

definition notifyAllMarksWithDesc :: "string \<Rightarrow> 'cw Session \<Rightarrow> 'cw Session option" where
  "notifyAllMarksWithDesc desc = notify_from desc 0 256"

definition notifyAllMarksError :: "'cw Session \<Rightarrow> 'cw Session option" where
  "notifyAllMarksError = notifyAllMarksWithDesc ''Session error mode''"

definition notifyAllMarksClosed :: "'cw Session \<Rightarrow> 'cw Session option" where
  "notifyAllMarksClosed = notifyAllMarksWithDesc ''Session closed''"

definition errorMode :: "'cw cenv \<Rightarrow> 'cw Session \<Rightarrow> 'cw Session" where
  "errorMode C s = (case C_reDial C of
       None \<Rightarrow> cl_exit (Some (NetError ''recovery failed'')) s
     | Some dial \<Rightarrow> (case dial (c_ws s) of
           (w, Some err) \<Rightarrow> cl_exit (Some err) (s\<lparr>c_ws := w\<rparr>)
         | (w, None) \<Rightarrow>
             (let s = cl_takeConn (s\<lparr>c_ws := w\<rparr>)
              in if c_state s = SessionRecovering then s\<lparr>c_state := SessionRunning\<rparr> else s)))"

abbreviation (input) StatusNormalClosure :: int where "StatusNormalClosure \<equiv> 1000"
abbreviation (input) StatusGoingAway :: int where "StatusGoingAway \<equiv> 1001"

text \<open>\<^verbatim>\<open>stopConn\<close> up to the notification of the waiting requests.\<close>

definition stopConn_begin :: "'cw cenv \<Rightarrow> 'cw Session \<Rightarrow> 'cw Session option" where
  "stopConn_begin C s =
     (let gracefulClose = (c_state s = SessionClosing);
          s = (if gracefulClose \<or> c_state s = SessionClosed then s else s\<lparr>c_state := SessionRecovering\<rparr>);
          s = s\<lparr>c_cancelled := True\<rparr>
      in if c_writeLock s then None
         else let conn = c_conn s;
                  s = s\<lparr>c_conn := False\<rparr>;
                  s = (if conn \<and> \<not> gracefulClose then s\<lparr>c_ws := ws_CloseNow (C_ws C) (c_ws s)\<rparr> else s)
           in Some (s\<lparr>c_connErrLock := False\<rparr>))"

definition stopConn_end :: "'cw cenv \<Rightarrow> bool \<Rightarrow> 'cw Session \<Rightarrow> 'cw Session" where
  "stopConn_end C gracefulClose s =
     (if gracefulClose then
        (if C_CloseStatus C (c_connErr s) = StatusNormalClosure \<or> C_CloseStatus C (c_connErr s) = StatusGoingAway
         then cl_exit None s else cl_exit (c_connErr s) s)
      else errorMode C s)"

definition cl_stopConn :: "'cw cenv \<Rightarrow> 'cw Session \<Rightarrow> 'cw Session option" where
  "cl_stopConn C s =
     (let gracefulClose = (c_state s = SessionClosing)
      in do {
        s \<leftarrow> stopConn_begin C s;
        s \<leftarrow> (if gracefulClose then notifyAllMarksClosed s else notifyAllMarksError s);
        Some (stopConn_end C gracefulClose s)})"

text \<open>
  \<^verbatim>\<open>Close\<close> up to \<^verbatim>\<open>s.Wait()\<close>; \<open>None\<close> while it waits for requests in progress or for the end of a recovery.
\<close>

definition cl_Close :: "'cw cenv \<Rightarrow> 'cw Session \<Rightarrow> 'cw Session option" where
  "cl_Close C s = (case c_state s of
       SessionClosed \<Rightarrow> Some s
     | SessionClosing \<Rightarrow> Some s
     | SessionRecovering \<Rightarrow> None
     | SessionRunning \<Rightarrow>
         if c_activeReqs s \<noteq> 0 then None
         else let s = s\<lparr>c_state := SessionClosing\<rparr>
           in if \<not> c_conn s then Some (cl_exit None s)
              else case C_Close C (c_ws s) of
                  (w, None) \<Rightarrow> Some (s\<lparr>c_ws := w\<rparr>)
                | (w, Some err) \<Rightarrow> Some ((cl_setConnErr err (s\<lparr>c_ws := w\<rparr>))\<lparr>c_cancelled := True\<rparr>))"

section \<open>Read loop\<close>

text \<open>
  What the read loop does with a message: it is copied into a buffer of the frame size, dropped
  when it is too short, and otherwise sent to the channel of its mark. \<open>Inl\<close>: the loop ends with an
  error; \<open>None\<close>: the channel is full.
\<close>

definition deliver :: "bytes \<Rightarrow> 'cw Session \<Rightarrow> (goerr + 'cw Session) option" where
  "deliver msg s = (case Buffer_write_op msg (NewBuffer maxFrameSize) of
       (buf, Some err) \<Rightarrow> Some (Inl err)
     | (buf, None) \<Rightarrow>
         if Buffer_Written buf < 2 then Some (Inr s)
         else let clientMark = buf_Bytes buf ! 0
           in if c_responses s clientMark \<noteq> None then None
              else Some (Inr (s\<lparr>c_responses := (c_responses s)(clientMark \<mapsto> Buffer_content buf)\<rparr>)))"

text \<open>One round of the read loop, with the deferred \<^verbatim>\<open>stopConn\<close> when it ends.\<close>

definition readLoop_round :: "'cw cenv \<Rightarrow> 'cw Session \<Rightarrow> 'cw Session option" where
  "readLoop_round C s = (case C_Reader C (c_ws s) of
       (w, Inl err) \<Rightarrow> cl_stopConn C (cl_setConnErr err (s\<lparr>c_ws := w\<rparr>))
     | (w, Inr msg) \<Rightarrow> (case deliver msg (s\<lparr>c_ws := w\<rparr>) of
           None \<Rightarrow> None
         | Some (Inl err) \<Rightarrow> cl_stopConn C (cl_setConnErr err (s\<lparr>c_ws := w\<rparr>))
         | Some (Inr s) \<Rightarrow> Some s))"

text \<open>Receiving from the channel of a mark, while the read loop runs.\<close>

partial_function (option) receive :: "'cw cenv \<Rightarrow> u8 \<Rightarrow> 'cw Session \<Rightarrow> (bytes \<times> 'cw Session) option" where
  "receive C clientMark s = (case c_responses s clientMark of
       Some rsp \<Rightarrow> Some (rsp, s\<lparr>c_responses := (c_responses s)(clientMark := None)\<rparr>)
     | None \<Rightarrow> do { s \<leftarrow> readLoop_round C s; receive C clientMark s })"

end
