(* ===== verification/Wsfs_Client_Cmds.thy ===== *)
theory Wsfs_Client_Cmds
  imports Wsfs_Client
begin

text \<open>
  The commands of the client (\<^verbatim>\<open>commands.go\<close> and \<^verbatim>\<open>writeStream.go\<close> under
  \<^verbatim>\<open>src/src/internal/client/session\<close>): every request the client can make, write streams, the parser of prefetched
  directory listings, and extended attributes, whose long values are sent in pieces. A command is a
  function from a session to its result and the session afterwards; \<open>None\<close> is a command
  that waits for ever or panics.
\<close>

type_synonym ('cw, 'r) request = "'cw Session \<Rightarrow> ('r \<times> 'cw Session) option"

section \<open>Requests with one response\<close>

abbreviation rsp_code :: "bytes \<Rightarrow> u8" where "rsp_code rsp \<equiv> rsp ! 1"
abbreviation rsp_data :: "bytes \<Rightarrow> bytes" where "rsp_data rsp \<equiv> drop 2 rsp"

definition withMark :: "'r \<Rightarrow> (u8 \<Rightarrow> ('cw, 'r) request) \<Rightarrow> ('cw, 'r) request" where
  "withMark noMark k s = do {
     (mark, s) \<leftarrow> newClientMark s;
     case mark of None \<Rightarrow> Some (noMark, s) | Some clientMark \<Rightarrow> k clientMark s}"

text \<open>
  The shape all these commands have: take a mark, send the request, wait for the response, release
  the mark. \<open>noMark\<close> and \<open>failed\<close> are the results without a mark and when sending failed.
\<close>

definition roundTrip :: "'cw cenv \<Rightarrow> u8 \<Rightarrow> 'cw wprog \<Rightarrow> 'r \<Rightarrow> 'r \<Rightarrow> (bytes \<Rightarrow> 'r) \<Rightarrow> ('cw, 'r) request" where
  "roundTrip C cmd body noMark failed k = withMark noMark (\<lambda>clientMark s. do {
     (ok, s) \<leftarrow> sendRequest C clientMark cmd body s;
     if \<not> ok then Some (failed, releaseClientMark clientMark s)
     else do {
       (rsp, s) \<leftarrow> receive C clientMark s;
       Some (k rsp, releaseClientMark clientMark s)}})"

definition rsp_value_of :: "'a rprog \<Rightarrow> ('a \<Rightarrow> 'b) \<Rightarrow> 'b \<Rightarrow> bytes \<Rightarrow> 'b \<times> u8" where
  "rsp_value_of rd sel zero rsp =
     (if rsp_code rsp \<noteq> ErrorOK then (zero, rsp_code rsp)
      else case snd (rd (NewReader (rsp_data rsp))) of
          Inl _ \<Rightarrow> (zero, ErrorIO)
        | Inr x \<Rightarrow> (sel x, rsp_code rsp))"

definition zero_Timespec :: Timespec where "zero_Timespec = \<lparr>ts_Seconds = 0, ts_Nanoseconds = 0\<rparr>"
definition zero_FileInfo :: FileInfo where "zero_FileInfo = \<lparr>fi_Size = 0, fi_MTime = zero_Timespec, fi_Mode = 0, fi_Owner = 0\<rparr>"
definition zero_FileLockInfo :: FileLockInfo where "zero_FileLockInfo = \<lparr>fl_Type = 0, fl_Whence = 0, fl_Start = 0, fl_Size = 0\<rparr>"
definition zero_RspFsStat :: RspFsStat where "zero_RspFsStat = \<lparr>RspFsStat_Total = 0, RspFsStat_Free = 0, RspFsStat_Available = 0\<rparr>"

definition cl_CmdClose :: "'cw cenv \<Rightarrow> u32 \<Rightarrow> ('cw, u8) request" where
  "cl_CmdClose C fd = roundTrip C CmdClose (WriteCmdCloseStructToWriter (ws_Write (C_ws C)) \<lparr>Close_FD = fd\<rparr>)
     ErrorIO ErrorIO rsp_code"

definition cl_CmdAllocate :: "'cw cenv \<Rightarrow> u32 \<Rightarrow> u32 \<Rightarrow> u64 \<Rightarrow> u64 \<Rightarrow> ('cw, u8) request" where
  "cl_CmdAllocate C fd flag off sz = roundTrip C CmdAllocate (WriteCmdAllocateStructToWriter (ws_Write (C_ws C)) \<lparr>Allocate_FD = fd, Allocate_Flag = flag, Allocate_Offset = off, Allocate_Size = sz\<rparr>)
     ErrorIO ErrorIO rsp_code"

definition cl_CmdSetAttr :: "'cw cenv \<Rightarrow> string \<Rightarrow> u8 \<Rightarrow> FileInfo \<Rightarrow> ('cw, u8) request" where
  "cl_CmdSetAttr C fpath flag fi = roundTrip C CmdSetAttr (WriteCmdSetAttrStructToWriter (ws_Write (C_ws C)) \<lparr>SetAttr_Path = fpath, SetAttr_Flag = flag, SetAttr_FI = fi\<rparr>)
     ErrorIO ErrorIO rsp_code"

definition cl_CmdSync :: "'cw cenv \<Rightarrow> u32 \<Rightarrow> ('cw, u8) request" where
  "cl_CmdSync C fd = roundTrip C CmdSync (WriteCmdSyncStructToWriter (ws_Write (C_ws C)) \<lparr>Sync_FD = fd\<rparr>)
     ErrorIO ErrorIO rsp_code"

definition cl_CmdMkdir :: "'cw cenv \<Rightarrow> string \<Rightarrow> u32 \<Rightarrow> ('cw, u8) request" where
  "cl_CmdMkdir C fpath mode = roundTrip C CmdMkdir (WriteCmdMkdirStructToWriter (ws_Write (C_ws C)) \<lparr>Mkdir_Path = fpath, Mkdir_Mode = mode\<rparr>)
     ErrorIO ErrorIO rsp_code"

definition cl_CmdSymLink :: "'cw cenv \<Rightarrow> string \<Rightarrow> string \<Rightarrow> ('cw, u8) request" where
  "cl_CmdSymLink C target fpath = roundTrip C CmdSymLink (WriteCmdSymLinkStructToWriter (ws_Write (C_ws C)) \<lparr>SymLink_TargetPath = target, SymLink_FilePath = fpath\<rparr>)
     ErrorIO ErrorIO rsp_code"

definition cl_CmdRemove :: "'cw cenv \<Rightarrow> string \<Rightarrow> ('cw, u8) request" where
  "cl_CmdRemove C fpath = roundTrip C CmdRemove (WriteCmdRemoveStructToWriter (ws_Write (C_ws C)) \<lparr>Remove_Path = fpath\<rparr>)
     ErrorIO ErrorIO rsp_code"

definition cl_CmdRmDir :: "'cw cenv \<Rightarrow> string \<Rightarrow> ('cw, u8) request" where
  "cl_CmdRmDir C fpath = roundTrip C CmdRmDir (WriteCmdRmDirStructToWriter (ws_Write (C_ws C)) \<lparr>RmDir_Path = fpath\<rparr>)
     ErrorIO ErrorIO rsp_code"

definition cl_CmdRename :: "'cw cenv \<Rightarrow> string \<Rightarrow> string \<Rightarrow> u32 \<Rightarrow> ('cw, u8) request" where
  "cl_CmdRename C old new mode = roundTrip C CmdRename (WriteCmdRenameStructToWriter (ws_Write (C_ws C)) \<lparr>Rename_OldPath = old, Rename_NewPath = new, Rename_Flag = mode\<rparr>)
     ErrorIO ErrorIO rsp_code"

definition cl_CmdCloneFileRange :: "'cw cenv \<Rightarrow> u32 \<Rightarrow> u32 \<Rightarrow> u64 \<Rightarrow> u64 \<Rightarrow> u64 \<Rightarrow> ('cw, u8) request" where
  "cl_CmdCloneFileRange C wfd1 wfd2 off1 off2 sz = roundTrip C CmdCloneFileRange (WriteCmdCloneFileRangeStructToWriter (ws_Write (C_ws C)) \<lparr>CloneFileRange_SrcFD = wfd1, CloneFileRange_DstFD = wfd2, CloneFileRange_SrcOffset = off1, CloneFileRange_DstOffset = off2, CloneFileRange_Size = sz\<rparr>)
     ErrorIO ErrorIO rsp_code"

definition cl_CmdSetFileLock :: "'cw cenv \<Rightarrow> u32 \<Rightarrow> FileLockInfo \<Rightarrow> ('cw, u8) request" where
  "cl_CmdSetFileLock C fd fileLock = roundTrip C CmdSetFileLock (WriteCmdSetFileLockStructToWriter (ws_Write (C_ws C)) \<lparr>SetFileLock_FD = fd, SetFileLock_FileLock = fileLock\<rparr>)
     ErrorIO ErrorIO rsp_code"

definition cl_CmdSetFileLockWait :: "'cw cenv \<Rightarrow> u32 \<Rightarrow> FileLockInfo \<Rightarrow> ('cw, u8) request" where
  "cl_CmdSetFileLockWait C fd fileLock = roundTrip C CmdSetFileLockWait (WriteCmdSetFileLockWaitStructToWriter (ws_Write (C_ws C)) \<lparr>SetFileLockWait_FD = fd, SetFileLockWait_FileLock = fileLock\<rparr>)
     ErrorIO ErrorIO rsp_code"

definition cl_CmdSetAttrByFD :: "'cw cenv \<Rightarrow> u32 \<Rightarrow> u8 \<Rightarrow> FileInfo \<Rightarrow> ('cw, u8) request" where
  "cl_CmdSetAttrByFD C wfd flag fi = roundTrip C CmdSetAttrByFD (WriteCmdSetAttrByFDStructToWriter (ws_Write (C_ws C)) \<lparr>SetAttrByFD_FD = wfd, SetAttrByFD_Flag = flag, SetAttrByFD_FI = fi\<rparr>)
     ErrorIO ErrorIO rsp_code"

definition cl_CmdOpen :: "'cw cenv \<Rightarrow> string \<Rightarrow> u32 \<Rightarrow> u32 \<Rightarrow> ('cw, u32 \<times> u8) request" where
  "cl_CmdOpen C path oflag fmode = roundTrip C CmdOpen (WriteCmdOpenStructToWriter (ws_Write (C_ws C)) \<lparr>Open_Path = path, Open_OFlag = oflag, Open_FMode = fmode\<rparr>)
     (0, ErrorIO) (0, ErrorIO) (rsp_value_of ReadRspOpenFromReader RspOpen_FD 0)"

definition cl_CmdReadLink :: "'cw cenv \<Rightarrow> string \<Rightarrow> ('cw, string \<times> u8) request" where
  "cl_CmdReadLink C lpath = roundTrip C CmdReadLink (WriteCmdReadLinkStructToWriter (ws_Write (C_ws C)) \<lparr>ReadLink_Path = lpath\<rparr>)
     ([], ErrorIO) ([], ErrorIO) (rsp_value_of ReadRspReadLinkFromReader RspReadLink_TargetPath [])"

definition cl_CmdSeek :: "'cw cenv \<Rightarrow> u32 \<Rightarrow> u8 \<Rightarrow> i64 \<Rightarrow> ('cw, u64 \<times> u8) request" where
  "cl_CmdSeek C fd whence off = roundTrip C CmdSeek (WriteCmdSeekStructToWriter (ws_Write (C_ws C)) \<lparr>Seek_FD = fd, Seek_Whence = whence, Seek_Offset = off\<rparr>)
     (0, ErrorIO) (0, 0) (rsp_value_of ReadRspSeekFromReader RspSeek_Offset 0)"

definition cl_CmdGetAttr :: "'cw cenv \<Rightarrow> string \<Rightarrow> ('cw, FileInfo \<times> u8) request" where
  "cl_CmdGetAttr C fpath = roundTrip C CmdGetAttr (WriteCmdGetAttrStructToWriter (ws_Write (C_ws C)) \<lparr>GetAttr_Path = fpath\<rparr>)
     (zero_FileInfo, ErrorIO) (zero_FileInfo, 0) (rsp_value_of ReadRspGetAttrFromReader RspGetAttr_FI zero_FileInfo)"

definition cl_CmdFsStat :: "'cw cenv \<Rightarrow> string \<Rightarrow> ('cw, RspFsStat \<times> u8) request" where
  "cl_CmdFsStat C fpath = roundTrip C CmdFsStat (WriteCmdFsStatStructToWriter (ws_Write (C_ws C)) \<lparr>FsStat_Path = fpath\<rparr>)
     (zero_RspFsStat, ErrorIO) (zero_RspFsStat, 0) (rsp_value_of ReadRspFsStatFromReader id zero_RspFsStat)"

definition cmdCopyFileRangeOnce :: "'cw cenv \<Rightarrow> u32 \<Rightarrow> u32 \<Rightarrow> u64 \<Rightarrow> u64 \<Rightarrow> u64 \<Rightarrow> ('cw, u64 \<times> u8) request" where
  "cmdCopyFileRangeOnce C wfd1 wfd2 off1 off2 sz = roundTrip C CmdCopyFileRange (WriteCmdCopyFileRangeStructToWriter (ws_Write (C_ws C)) \<lparr>CopyFileRange_SrcFD = wfd1, CopyFileRange_DstFD = wfd2, CopyFileRange_SrcOffset = off1, CopyFileRange_DstOffset = off2, CopyFileRange_Size = sz\<rparr>)
     (0, ErrorIO) (0, 0) (rsp_value_of ReadRspCopyFileRangeFromReader RspCopyFileRange_Copied 0)"

definition cl_CmdGetFileLock :: "'cw cenv \<Rightarrow> u32 \<Rightarrow> FileLockInfo \<Rightarrow> ('cw, FileLockInfo \<times> u8) request" where
  "cl_CmdGetFileLock C fd fileLock = roundTrip C CmdGetFileLock (WriteCmdGetFileLockStructToWriter (ws_Write (C_ws C)) \<lparr>GetFileLock_FD = fd, GetFileLock_FileLock = fileLock\<rparr>)
     (zero_FileLockInfo, ErrorIO) (zero_FileLockInfo, ErrorIO) (rsp_value_of ReadRspGetFileLockFromReader RspGetFileLock_FileLock zero_FileLockInfo)"


text \<open>\<^verbatim>\<open>CmdCopyFileRange\<close>: pieces of at most 32 MiB, until one is copied short.\<close>

partial_function (option) copyFileRange_loop ::
    "'cw cenv \<Rightarrow> u32 \<Rightarrow> u32 \<Rightarrow> u64 \<Rightarrow> u64 \<Rightarrow> u64 \<Rightarrow> u64 \<Rightarrow> ('cw, u64 \<times> u8) request" where
  "copyFileRange_loop C wfd1 wfd2 off1 off2 sz copied s =
     (if sz = 0 then Some ((copied, ErrorOK), s)
      else let chunk = min sz MaxCopyFileRangeChunk
        in Option.bind (cmdCopyFileRangeOnce C wfd1 wfd2 off1 off2 chunk s) (\<lambda>((n, c), s).
          if c \<noteq> ErrorOK then Some ((copied + n, c), s)
          else if n = 0 \<or> n < chunk then Some ((copied + n, ErrorOK), s)
          else copyFileRange_loop C wfd1 wfd2 (off1 + n) (off2 + n) (sz - n) (copied + n) s))"

definition cl_CmdCopyFileRange :: "'cw cenv \<Rightarrow> u32 \<Rightarrow> u32 \<Rightarrow> u64 \<Rightarrow> u64 \<Rightarrow> u64 \<Rightarrow> ('cw, u64 \<times> u8) request" where
  "cl_CmdCopyFileRange C wfd1 wfd2 off1 off2 sz = copyFileRange_loop C wfd1 wfd2 off1 off2 sz 0"

section \<open>Reads\<close>

text \<open>
  \<^verbatim>\<open>copy(dest[off:], data)\<close>; the slice expression panics past the end of \<open>dest\<close>.
\<close>

definition copy_into :: "bytes \<Rightarrow> nat \<Rightarrow> bytes \<Rightarrow> bytes option" where
  "copy_into dest off data =
     (if off > length dest then None
      else Some (take off dest @ take (length dest - off) data @ drop (off + length data) dest))"

text \<open>The loop of \<^verbatim>\<open>CmdRead\<close> and \<^verbatim>\<open>CmdReadAt\<close>; the result is (count, code, dest).\<close>

partial_function (option) readInto :: "'cw cenv \<Rightarrow> u8 \<Rightarrow> bytes \<Rightarrow> nat \<Rightarrow> ('cw, u64 \<times> u8 \<times> bytes) request" where
  "readInto C clientMark dest off s = do {
     (rsp, s) \<leftarrow> receive C clientMark s;
     dest \<leftarrow> copy_into dest off (rsp_data rsp);
     if rsp_code rsp = ErrorPartialResponse then readInto C clientMark dest (off + length (rsp_data rsp)) s
     else Some ((of_nat (off + length (rsp_data rsp)), rsp_code rsp, dest), releaseClientMark clientMark s)}"

definition cl_CmdRead :: "'cw cenv \<Rightarrow> u32 \<Rightarrow> bytes \<Rightarrow> ('cw, u64 \<times> u8 \<times> bytes) request" where
  "cl_CmdRead C fd dest = withMark (0, ErrorIO, dest) (\<lambda>clientMark s. do {
     (ok, s) \<leftarrow> sendRequest C clientMark CmdRead
       (WriteCmdReadStructToWriter (ws_Write (C_ws C)) \<lparr>Read_FD = fd, Read_Size = of_nat (length dest)\<rparr>) s;
     if \<not> ok then Some ((0, ErrorIO, dest), releaseClientMark clientMark s)
     else readInto C clientMark dest 0 s})"

definition cl_CmdReadAt :: "'cw cenv \<Rightarrow> u32 \<Rightarrow> u64 \<Rightarrow> bytes \<Rightarrow> ('cw, u64 \<times> u8 \<times> bytes) request" where
  "cl_CmdReadAt C fd off dest = withMark (0, ErrorIO, dest) (\<lambda>clientMark s. do {
     (ok, s) \<leftarrow> sendRequest C clientMark CmdReadAt
       (WriteCmdReadAtStructToWriter (ws_Write (C_ws C)) \<lparr>ReadAt_FD = fd, ReadAt_Offset = off, ReadAt_Size = of_nat (length dest)\<rparr>) s;
     if \<not> ok then Some ((0, ErrorIO, dest), releaseClientMark clientMark s)
     else readInto C clientMark dest 0 s})"

section \<open>Writes\<close>

abbreviation (input) maxWritePayload :: nat where "maxWritePayload \<equiv> 8186"
abbreviation (input) maxWriteAtPayload :: nat where "maxWriteAtPayload \<equiv> 8178"
abbreviation (input) maxWriteStreamOpenPayload :: nat where "maxWriteStreamOpenPayload \<equiv> 8178"
abbreviation (input) maxWriteStreamDataPayload :: nat where "maxWriteStreamDataPayload \<equiv> 8189"

text \<open>\<^verbatim>\<open>CmdWrite\<close> with at most \<open>maxWritePayload\<close> bytes, and its loop over full pieces.\<close>

definition cmdWrite_small :: "'cw cenv \<Rightarrow> u32 \<Rightarrow> bytes \<Rightarrow> ('cw, u64 \<times> u8) request" where
  "cmdWrite_small C fd data = roundTrip C CmdWrite (WriteCmdWriteStructToWriter (ws_Write (C_ws C)) \<lparr>Write_FD = fd, Write_Data = data\<rparr>)
     (0, ErrorIO) (0, ErrorIO) (rsp_value_of ReadRspWriteFromReader RspWrite_Written 0)"

text \<open>The loop over the full pieces; the result is \<open>Inl\<close> when \<^verbatim>\<open>CmdWrite\<close> returns from it.\<close>

fun cmdWrite_pieces :: "'cw cenv \<Rightarrow> u32 \<Rightarrow> bytes \<Rightarrow> nat \<Rightarrow> nat \<Rightarrow> ('cw, (u64 \<times> u8) + nat) request" where
  "cmdWrite_pieces C fd data 0 off s = Some (Inr off, s)"
| "cmdWrite_pieces C fd data (Suc n) off s =
     (if off + maxWritePayload > length data then None
      else Option.bind (cmdWrite_small C fd (take maxWritePayload (drop off data)) s) (\<lambda>((w, code), s).
        if code \<noteq> ErrorOK then Some (Inl (of_nat off, code), s)
        else cmdWrite_pieces C fd data n (off + unat w) s))"

partial_function (option) cl_CmdWrite :: "'cw cenv \<Rightarrow> u32 \<Rightarrow> bytes \<Rightarrow> ('cw, u64 \<times> u8) request" where
  "cl_CmdWrite C fd data s =
     (if length data \<le> maxWritePayload then cmdWrite_small C fd data s
      else Option.bind (newClientMark s) (\<lambda>(mark, s). case mark of
          None \<Rightarrow> Some ((0, ErrorIO), s)
        | Some clientMark \<Rightarrow>
            Option.bind (cmdWrite_pieces C fd data (length data div maxWritePayload) 0 (releaseClientMark clientMark s)) (\<lambda>(r, s).
              case r of
                Inl res \<Rightarrow> Some (res, s)
              | Inr off \<Rightarrow>
                  if length data mod maxWritePayload = 0 then Some ((of_nat off, ErrorOK), s)
                  else if off > length data then None
                  else Option.bind (cl_CmdWrite C fd (drop off data) s) (\<lambda>((w, code), s).
                    if code \<noteq> ErrorOK then Some ((of_nat off, code), s)
                    else Some ((of_nat (off + unat w), ErrorOK), s)))))"

section \<open>Write streams\<close>

record WriteStream =
  wst_clientMark :: u8
  wst_writeErrCode :: u8
  wst_writeErrDesc :: string
  wst_closed :: bool

text \<open>The text of an error value (\<^verbatim>\<open>err.Error()\<close>), as far as it is visible in results.\<close>

definition goerr_desc :: "goerr \<Rightarrow> string" where
  "goerr_desc e = (case e of EOF \<Rightarrow> ''EOF'' | ErrUnexpectedEOF \<Rightarrow> ''unexpected EOF'' | ErrShortBuffer \<Rightarrow> ''short buffer''
     | ErrShortWrite \<Rightarrow> ''short write'' | ErrStringTooLong \<Rightarrow> ''wsfsprotocol: string too long'' | NetError m \<Rightarrow> m)"

datatype wserr = WriteStreamIO | WriteStreamClosed

definition wserr_desc :: "wserr \<Rightarrow> string" where
  "wserr_desc e = (case e of WriteStreamIO \<Rightarrow> ''write stream I/O error'' | WriteStreamClosed \<Rightarrow> ''write stream closed'')"

text \<open>The loop of \<^verbatim>\<open>WriteStream.Write\<close>.\<close>

function stream_Write_loop :: "'cw cenv \<Rightarrow> u8 \<Rightarrow> bytes \<Rightarrow> ('cw, wserr option) request" where
  "stream_Write_loop C clientMark data s =
     (if data = [] then Some (None, s)
      else let chunk = (if length data > maxWriteStreamDataPayload then take maxWriteStreamDataPayload data else data)
        in Option.bind (sendRequest C clientMark CmdWriteStreamData
             (WriteCmdWriteStreamDataStructToWriter (ws_Write (C_ws C)) \<lparr>WriteStreamData_IsEnd = 0, WriteStreamData_Data = chunk\<rparr>) s)
           (\<lambda>(ok, s). if \<not> ok then Some (Some WriteStreamIO, s) else stream_Write_loop C clientMark (drop (length chunk) data) s))"
  by pat_completeness auto
termination
  by (relation "measure (\<lambda>(C, m, data, s). length data)") auto

declare stream_Write_loop.simps [simp del]

definition stream_Write :: "'cw cenv \<Rightarrow> WriteStream \<Rightarrow> bytes \<Rightarrow> ('cw, wserr option) request" where
  "stream_Write C st data s =
     (if wst_closed st then Some (Some WriteStreamClosed, s) else stream_Write_loop C (wst_clientMark st) data s)"

definition OpenWriteStream :: "'cw cenv \<Rightarrow> u32 \<Rightarrow> u64 \<Rightarrow> bytes \<Rightarrow> ('cw, wserr + WriteStream) request" where
  "OpenWriteStream C fd offset first = withMark (Inl WriteStreamIO) (\<lambda>clientMark s.
     let stream = \<lparr>wst_clientMark = clientMark, wst_writeErrCode = 0, wst_writeErrDesc = [], wst_closed = False\<rparr>;
         firstChunk = (if length first > maxWriteStreamOpenPayload then take maxWriteStreamOpenPayload first else first);
         rest = (if length first > maxWriteStreamOpenPayload then drop maxWriteStreamOpenPayload first else [])
     in do {
       (ok, s) \<leftarrow> sendRequest C clientMark CmdWriteStreamOpen (WriteCmdWriteStreamOpenStructToWriter (ws_Write (C_ws C))
         \<lparr>WriteStreamOpen_FD = fd, WriteStreamOpen_Offset = offset, WriteStreamOpen_Data = firstChunk\<rparr>) s;
       if \<not> ok then Some (Inl WriteStreamIO, releaseClientMark clientMark s)
       else if length rest > 0 then do {
         (err, s) \<leftarrow> stream_Write C stream rest s;
         case err of
           Some e \<Rightarrow> Some (Inl e, releaseClientMark clientMark s)
         | None \<Rightarrow> Some (Inr stream, s)}
       else Some (Inr stream, s)})"

definition readRspErrorDesc :: "bytes \<Rightarrow> string" where
  "readRspErrorDesc data = (case snd (ReadRspErrorFromReader (NewReader data)) of
       Inl _ \<Rightarrow> []
     | Inr rsp \<Rightarrow> RspError_Desc rsp)"

text \<open>
  The response loop of \<^verbatim>\<open>Close\<close>; the result is ((written, code, desc), stream). An error response of a
  failed chunk is remembered, and the loop goes on to the response that closes the stream.
\<close>

partial_function (option) stream_Close_loop :: "'cw cenv \<Rightarrow> WriteStream \<Rightarrow> ('cw, (u64 \<times> u8 \<times> string) \<times> WriteStream) request" where
  "stream_Close_loop C st s = Option.bind (receive C (wst_clientMark st) s) (\<lambda>(rsp, s).
     if rsp_code rsp = ErrorOK then
       (case snd (ReadRspWriteStreamCloseFromReader (NewReader (rsp_data rsp))) of
          Inl _ \<Rightarrow> Some (((0, ErrorUnknown, ''bad close response''), st), s)
        | Inr closeRsp \<Rightarrow> Some (((RspWriteStreamClose_Written closeRsp, rsp_code rsp, []), st), s))
     else if rsp_code rsp = ErrorUnknown then
       Some (((0, rsp_code rsp, readRspErrorDesc (rsp_data rsp)), st), s)
     else if rsp_code rsp = ErrorIO \<and> readRspErrorDesc (rsp_data rsp) = ''Session error mode'' then
       Some (((0, ErrorUnknown, readRspErrorDesc (rsp_data rsp)), st), s)
     else stream_Close_loop C (if wst_writeErrCode st = 0
         then st\<lparr>wst_writeErrCode := rsp_code rsp, wst_writeErrDesc := readRspErrorDesc (rsp_data rsp)\<rparr> else st) s)"

definition stream_Close_finish :: "'cw cenv \<Rightarrow> WriteStream \<Rightarrow> bytes \<Rightarrow> ('cw, (u64 \<times> u8 \<times> string) \<times> WriteStream) request" where
  "stream_Close_finish C st final s = (let st = st\<lparr>wst_closed := True\<rparr> in
     Option.bind (beginRequest C (wst_clientMark st) CmdWriteStreamData s) (\<lambda>(ok, s).
       if \<not> ok then Some (((0, ErrorUnknown, ''session error mode''), st), releaseClientMark (wst_clientMark st) s)
       else case cl_on_writer (WriteCmdWriteStreamDataStructToWriter (ws_Write (C_ws C))
              \<lparr>WriteStreamData_IsEnd = 1, WriteStreamData_Data = final\<rparr>) s of
           (s, Some err) \<Rightarrow> Some (((0, ErrorUnknown, goerr_desc err), st), releaseClientMark (wst_clientMark st) (cl_writeDone C (Some err) s))
         | (s, None) \<Rightarrow> Option.bind (stream_Close_loop C st (cl_writeDone C None s)) (\<lambda>(r, s).
             Some (r, releaseClientMark (wst_clientMark st) s))))"

definition stream_Close :: "'cw cenv \<Rightarrow> WriteStream \<Rightarrow> bytes \<Rightarrow> ('cw, (u64 \<times> u8 \<times> string) \<times> WriteStream) request" where
  "stream_Close C st final s =
     (if wst_closed st then Some (((0, ErrorInvalid, ''write stream already closed''), st), s)
      else if length final > maxWriteStreamDataPayload then
        Option.bind (stream_Write C st (take (length final - maxWriteStreamDataPayload) final) s) (\<lambda>(err, s).
          case err of
            Some e \<Rightarrow> Some (((0, ErrorUnknown, wserr_desc e), st\<lparr>wst_closed := True\<rparr>), releaseClientMark (wst_clientMark st) s)
          | None \<Rightarrow> stream_Close_finish C st (drop (length final - maxWriteStreamDataPayload) final) s)
      else stream_Close_finish C st final s)"

definition cmdWriteAt_small :: "'cw cenv \<Rightarrow> u32 \<Rightarrow> u64 \<Rightarrow> bytes \<Rightarrow> ('cw, u64 \<times> u8) request" where
  "cmdWriteAt_small C fd offset data = roundTrip C CmdWriteAt (WriteCmdWriteAtStructToWriter (ws_Write (C_ws C))
       \<lparr>WriteAt_FD = fd, WriteAt_Offset = offset, WriteAt_Data = data\<rparr>)
     (0, ErrorIO) (0, ErrorIO) (rsp_value_of ReadRspWriteAtFromReader RspWriteAt_Written 0)"

definition cl_CmdWriteAt :: "'cw cenv \<Rightarrow> u32 \<Rightarrow> u64 \<Rightarrow> bytes \<Rightarrow> ('cw, u64 \<times> u8) request" where
  "cl_CmdWriteAt C fd offset data s =
     (if length data \<le> maxWriteAtPayload then cmdWriteAt_small C fd offset data s
      else Option.bind (OpenWriteStream C fd offset data s) (\<lambda>(r, s). case r of
          Inl _ \<Rightarrow> Some ((0, ErrorIO), s)
        | Inr stream \<Rightarrow> Option.bind (stream_Close C stream [] s) (\<lambda>(((written, code, _), stream), s).
            if code \<noteq> ErrorOK then Some ((written, code), s)
            else if wst_writeErrCode stream \<noteq> 0 then Some ((written, wst_writeErrCode stream), s)
            else Some ((written, ErrorOK), s))))"

end
