(* ===== verification/Wsfs_Client_XAttr.thy ===== *)
theory Wsfs_Client_XAttr
  imports Wsfs_Client_Cmds
begin

text \<open>
  Extended attributes on the client (\<^verbatim>\<open>commands.go\<close> under \<^verbatim>\<open>src/src/internal/client/session\<close>): validation of names and
  flags, values sent whole or in appended pieces with a rollback when a piece fails, and listings filtered by the
  allowed prefixes. The size of a piece is found by bisection, which is proved to find the largest size that fits.
\<close>

section \<open>Checks\<close>

definition hasAllowedPrefix :: "string list \<Rightarrow> string \<Rightarrow> bool" where
  "hasAllowedPrefix allowed key \<longleftrightarrow> list_ex (HasPrefix key) allowed"

definition validateXAttr :: "string \<Rightarrow> u32 \<Rightarrow> bool \<Rightarrow> 'cw Session \<Rightarrow> u8" where
  "validateXAttr key mode isSet s =
     (if key = [] \<or> CHR 0x00 \<in> set key then ErrorInvalid
      else if isSet \<and> mode AND NOT XATTR_NOFOLLOW \<notin> {SETXATTR_NORMAL, SETXATTR_APPEND, SETXATTR_CREATE, SETXATTR_REPLACE} then ErrorInvalid
      else if \<not> isSet \<and> mode AND NOT XATTR_NOFOLLOW \<noteq> 0 then ErrorInvalid
      else if hasAllowedPrefix (c_allowedXAttrPrefix s) key then ErrorOK
      else ErrorStateBlocked)"

function cl_filterXAttr_loop :: "string list \<Rightarrow> bytes \<Rightarrow> bytes \<Rightarrow> bytes option" where
  "cl_filterXAttr_loop allowed filtered data =
     (if data = [] then Some filtered
      else case IndexByte data 0 of
          None \<Rightarrow> None
        | Some e \<Rightarrow>
            if e = 0 then None
            else cl_filterXAttr_loop allowed
              (if hasAllowedPrefix allowed (string_of (take e data)) then filtered @ take (e + 1) data else filtered)
              (drop (e + 1) data))"
  by pat_completeness auto
termination
  by (relation "measure (\<lambda>(p, f, data). length data)") auto

declare cl_filterXAttr_loop.simps [simp del]

definition cl_filterXAttrList :: "bytes \<Rightarrow> 'cw Session \<Rightarrow> bytes option" where
  "cl_filterXAttrList data s = cl_filterXAttr_loop (c_allowedXAttrPrefix s) [] data"

section \<open>Sizes\<close>

definition setXAttrFits :: "string \<Rightarrow> string \<Rightarrow> bytes \<Rightarrow> u32 \<Rightarrow> bool" where
  "setXAttrFits path key value mode \<longleftrightarrow>
     2 + GetCmdSetXAttrStructRequiredSize \<lparr>SetXAttr_Path = path, SetXAttr_Flag = mode, SetXAttr_Key = key, SetXAttr_Value = value\<rparr>
       \<le> MaxCommandLength"

text \<open>The bisection of \<^verbatim>\<open>maxXAttrChunkSize\<close>.\<close>

function chunkSize_search :: "string \<Rightarrow> string \<Rightarrow> u32 \<Rightarrow> nat \<Rightarrow> nat \<Rightarrow> nat" where
  "chunkSize_search path key mode low high =
     (if low < high then
        (let mid = low + (high - low + 1) div 2
         in if setXAttrFits path key (replicate mid 0) mode then chunkSize_search path key mode mid high
            else chunkSize_search path key mode low (mid - 1))
      else low)"
  by pat_completeness auto
termination
  by (relation "measure (\<lambda>(p, k, m, low, high). high - low)") (auto simp: Let_def)

declare chunkSize_search.simps [simp del]

definition maxXAttrChunkSize :: "string \<Rightarrow> string \<Rightarrow> u32 \<Rightarrow> nat" where
  "maxXAttrChunkSize path key mode =
     (if \<not> setXAttrFits path key [] mode then 0 else chunkSize_search path key mode 0 MaxCommandLength)"

lemma setXAttrFits_iff: "setXAttrFits path key value mode \<longleftrightarrow> 10 + length path + length key + length value \<le> MaxCommandLength"
  by (simp add: setXAttrFits_def wire_CmdSetXAttrStruct_def)

lemma chunkSize_search_eq:
  "low + 10 + length path + length key \<le> MaxCommandLength \<Longrightarrow> MaxCommandLength - (10 + length path + length key) \<le> high \<Longrightarrow>
    chunkSize_search path key mode low high = MaxCommandLength - (10 + length path + length key)"
proof (induction path key mode low high rule: chunkSize_search.induct)
  case (1 path key mode low high)
  let ?mid = "low + (high - low + 1) div 2"
  show ?case
  proof (cases "low < high")
    case False
    then show ?thesis using "1.prems" by (subst chunkSize_search.simps) simp
  next
    case True
    then show ?thesis
      using "1.IH" [OF True refl] "1.prems" by (subst chunkSize_search.simps) (auto simp: Let_def setXAttrFits_iff)
  qed
qed

text \<open>
  (C32) The bisection of \<^verbatim>\<open>maxXAttrChunkSize\<close> computes the largest value that fits a command: the maximum over all
  lengths that fit, or zero when even the empty value does not fit.
\<close>

theorem maxXAttrChunkSize_largest:
  "maxXAttrChunkSize path key mode =
    (if setXAttrFits path key [] mode then Max {n. setXAttrFits path key (replicate n 0) mode} else 0)"
proof (cases "setXAttrFits path key [] mode")
  case True
  then have "{n. setXAttrFits path key (replicate n 0) mode} = {..MaxCommandLength - (10 + length path + length key)}"
    by (auto simp: setXAttrFits_iff)
  moreover have "Max {..k} = k" for k :: nat by (rule Max_eqI) auto
  ultimately show ?thesis
    using True chunkSize_search_eq [of 0 path key MaxCommandLength mode] by (simp add: maxXAttrChunkSize_def setXAttrFits_iff)
qed (simp add: maxXAttrChunkSize_def)

section \<open>Commands\<close>

definition sendSetXAttr :: "'cw cenv \<Rightarrow> string \<Rightarrow> string \<Rightarrow> bytes \<Rightarrow> u32 \<Rightarrow> ('cw, u8) request" where
  "sendSetXAttr C path key value mode = roundTrip C CmdSetXAttr (WriteCmdSetXAttrStructToWriter (ws_Write (C_ws C))
       \<lparr>SetXAttr_Path = path, SetXAttr_Flag = mode, SetXAttr_Key = key, SetXAttr_Value = value\<rparr>)
     ErrorIO ErrorIO rsp_code"

partial_function (option) readXAttrData :: "'cw cenv \<Rightarrow> u8 \<Rightarrow> bytes \<Rightarrow> ('cw, bytes \<times> u8) request" where
  "readXAttrData C clientMark data s = Option.bind (receive C clientMark s) (\<lambda>(rsp, s).
     if rsp_code rsp \<noteq> ErrorOK \<and> rsp_code rsp \<noteq> ErrorPartialResponse then Some (([], rsp_code rsp), s)
     else if rsp_code rsp = ErrorOK then Some ((data @ rsp_data rsp, rsp_code rsp), s)
     else readXAttrData C clientMark (data @ rsp_data rsp) s)"

definition cl_CmdGetXAttr :: "'cw cenv \<Rightarrow> string \<Rightarrow> string \<Rightarrow> u32 \<Rightarrow> ('cw, bytes \<times> u8) request" where
  "cl_CmdGetXAttr C path key mode s =
     (if validateXAttr key mode False s \<noteq> ErrorOK then Some (([], validateXAttr key mode False s), s)
      else withMark ([], ErrorIO) (\<lambda>clientMark s. do {
        (ok, s) \<leftarrow> sendRequest C clientMark CmdGetXAttr (WriteCmdGetXAttrStructToWriter (ws_Write (C_ws C))
          \<lparr>GetXAttr_Path = path, GetXAttr_Key = key, GetXAttr_Mode = mode\<rparr>) s;
        if \<not> ok then Some (([], ErrorIO), releaseClientMark clientMark s)
        else do {
          (r, s) \<leftarrow> readXAttrData C clientMark [] s;
          Some (r, releaseClientMark clientMark s)}}) s)"

definition cl_CmdListXAttr :: "'cw cenv \<Rightarrow> string \<Rightarrow> u32 \<Rightarrow> ('cw, bytes \<times> u8) request" where
  "cl_CmdListXAttr C path mode s =
     (if \<not> IsUrlValid path \<or> mode AND NOT XATTR_NOFOLLOW \<noteq> 0 then Some (([], ErrorInvalid), s)
      else withMark ([], ErrorIO) (\<lambda>clientMark s. do {
        (ok, s) \<leftarrow> sendRequest C clientMark CmdListXAttr (WriteCmdListXAttrStructToWriter (ws_Write (C_ws C))
          \<lparr>ListXAttr_Path = path, ListXAttr_Mode = mode\<rparr>) s;
        if \<not> ok then Some (([], ErrorIO), releaseClientMark clientMark s)
        else do {
          ((data, code), s) \<leftarrow> readXAttrData C clientMark [] s;
          let s = releaseClientMark clientMark s;
          if code \<noteq> ErrorOK then Some (([], code), s)
          else (case cl_filterXAttrList data s of
              None \<Rightarrow> Some (([], ErrorIO), s)
            | Some data \<Rightarrow> Some ((data, ErrorOK), s))}}) s)"

definition cl_CmdRemoveXAttr :: "'cw cenv \<Rightarrow> string \<Rightarrow> string \<Rightarrow> u32 \<Rightarrow> ('cw, u8) request" where
  "cl_CmdRemoveXAttr C path key mode s =
     (if validateXAttr key mode False s \<noteq> ErrorOK then Some (validateXAttr key mode False s, s)
      else roundTrip C CmdRemoveXAttr (WriteCmdRemoveXAttrStructToWriter (ws_Write (C_ws C))
          \<lparr>RemoveXAttr_Path = path, RemoveXAttr_Key = key, RemoveXAttr_Mode = mode\<rparr>)
        ErrorIO ErrorIO rsp_code s)"

abbreviation (input) appendMode :: "u32 \<Rightarrow> u32" where
  "appendMode mode \<equiv> SETXATTR_APPEND OR (mode AND XATTR_NOFOLLOW)"

text \<open>The loop of \<^verbatim>\<open>sendSplitXAttr\<close> that appends the rest of the value.\<close>

function appendXAttr_loop :: "'cw cenv \<Rightarrow> string \<Rightarrow> string \<Rightarrow> bytes \<Rightarrow> u32 \<Rightarrow> ('cw, u8) request" where
  "appendXAttr_loop C path key value mode s =
     (if value = [] then Some (ErrorOK, s)
      else let chunkSize = maxXAttrChunkSize path key (appendMode mode)
        in if chunkSize = 0 then Some (ErrorRange, s)
           else let chunk = (if length value > chunkSize then take chunkSize value else value)
             in Option.bind (sendSetXAttr C path key chunk (appendMode mode) s) (\<lambda>(code, s).
               if code \<noteq> ErrorOK then Some (code, s)
               else appendXAttr_loop C path key (drop (length chunk) value) mode s))"
  by pat_completeness auto
termination
  by (relation "measure (\<lambda>(C, path, key, value, mode, s). length value)") auto

declare appendXAttr_loop.simps [simp del]

definition sendSplitXAttr :: "'cw cenv \<Rightarrow> string \<Rightarrow> string \<Rightarrow> bytes \<Rightarrow> u32 \<Rightarrow> ('cw, u8) request" where
  "sendSplitXAttr C path key value mode s =
     (let chunkSize = maxXAttrChunkSize path key mode
      in if chunkSize = 0 then Some (ErrorRange, s)
         else let chunk = (if length value > chunkSize then take chunkSize value else value)
           in Option.bind (sendSetXAttr C path key chunk mode s) (\<lambda>(code, s).
             if code \<noteq> ErrorOK then Some (code, s)
             else appendXAttr_loop C path key (drop (length chunk) value) mode s))"

definition restoreXAttr :: "'cw cenv \<Rightarrow> string \<Rightarrow> string \<Rightarrow> bytes \<Rightarrow> bool \<Rightarrow> u32 \<Rightarrow> ('cw, u8) request" where
  "restoreXAttr C path key oldValue oldExists mode =
     (let nofollow = mode AND XATTR_NOFOLLOW
      in if \<not> oldExists then cl_CmdRemoveXAttr C path key nofollow
         else if setXAttrFits path key oldValue nofollow then sendSetXAttr C path key oldValue nofollow
         else sendSplitXAttr C path key oldValue nofollow)"

definition cl_CmdSetXAttr :: "'cw cenv \<Rightarrow> string \<Rightarrow> string \<Rightarrow> bytes \<Rightarrow> u32 \<Rightarrow> ('cw, u8) request" where
  "cl_CmdSetXAttr C path key value mode s =
     (if validateXAttr key mode True s \<noteq> ErrorOK then Some (validateXAttr key mode True s, s)
      else if setXAttrFits path key value mode then sendSetXAttr C path key value mode s
      else if \<not> c_autoXAttrAppend s then Some (ErrorRange, s)
      else Option.bind (cl_CmdGetXAttr C path key (mode AND XATTR_NOFOLLOW) s) (\<lambda>((oldValue, code), s).
        let oldExists = (code = ErrorOK)
        in if \<not> oldExists \<and> code \<noteq> ErrorNoXAttr then Some (code, s)
           else Option.bind (sendSplitXAttr C path key value mode s) (\<lambda>(code, s).
             if code = ErrorOK then Some (code, s)
             else Option.bind (restoreXAttr C path key oldValue oldExists mode s) (\<lambda>(_, s). Some (code, s)))))"

end
