(* ===== verification/Wsfs_Client_Dirs.thy ===== *)
theory Wsfs_Client_Dirs
  imports Wsfs_Client_Cmds
begin

text \<open>
  Directory listings on the client (\<^verbatim>\<open>commands.go\<close> under \<^verbatim>\<open>src/src/internal/client/session\<close>): \<^verbatim>\<open>CmdReadDir\<close> and
  \<^verbatim>\<open>CmdReadDirPlus\<close>, whose parser attaches the prefetched contents of child directories to the entries of the
  listing. Entries with a pending prefetch carry a channel that the parser closes exactly once.
\<close>

section \<open>Consuming input\<close>

text \<open>\<open>consumes k p\<close>: \<open>p\<close> takes at least \<open>k\<close> bytes when it succeeds.\<close>

definition consumes :: "nat \<Rightarrow> 'a rprog \<Rightarrow> bool" where
  "consumes k p \<longleftrightarrow> (\<forall>r r' v. p r = (r', Inr v) \<longrightarrow> length (rd_data r') + k \<le> length (rd_data r))"

lemma consumes_ReadFull: "consumes n (io_ReadFull n)"
  unfolding consumes_def
proof (intro allI impI)
  fix r r' v assume x: "io_ReadFull n r = (r', Inr v)"
  then have n: "n \<le> length (rd_data r)" using io_ReadFull_short [of r n] by (metis Inl_Inr_False Pair_inject not_le)
  then have "rd_data r = take n (rd_data r) @ drop n (rd_data r)" "length (take n (rd_data r)) = n" by simp_all
  then obtain r2 where "io_ReadFull n r = (r2, Inr (take n (rd_data r)))" "rd_data r2 = drop n (rd_data r)"
    by (rule io_ReadFull_enough)
  then show "length (rd_data r') + n \<le> length (rd_data r)" using x n by simp
qed

lemma consumes_mono: "consumes k p \<Longrightarrow> j \<le> k \<Longrightarrow> consumes j p"
  unfolding consumes_def by (meson add_le_cancel_left order_trans)

lemma consumes_rret: "consumes 0 (rret x)"
  by (auto simp: consumes_def rret_def)

lemma consumes_rbind:
  assumes "consumes k p" and "\<And>x. consumes 0 (f x)"
  shows "consumes k (rbind p f)"
  unfolding consumes_def
proof (intro allI impI)
  fix r r' v assume "rbind p f r = (r', Inr v)"
  then obtain r1 x where "p r = (r1, Inr x)" "f x r1 = (r', Inr v)"
    by (auto simp: rbind_def split: prod.splits sum.splits)
  then have "length (rd_data r1) + k \<le> length (rd_data r)" "length (rd_data r') \<le> length (rd_data r1)"
    using assms unfolding consumes_def by fastforce+
  then show "length (rd_data r') + k \<le> length (rd_data r)" by simp
qed

lemmas consumes_0 = consumes_rret consumes_rbind consumes_mono [OF consumes_ReadFull le0]

lemma consumes_ReadStr: "consumes 2 ReadStrFromReader"
  unfolding ReadStrFromReader_def readStrLenPrefix_def
  by (intro consumes_rbind consumes_ReadFull) (simp_all add: consumes_0)

lemma consumes_ReadDirent: "consumes 2 ReadDirentFromReader"
  unfolding ReadDirentFromReader_def ReadTimespecFromReader_def
  by (intro consumes_rbind consumes_ReadStr consumes_0)

lemma ReadDirent_shrinks: "ReadDirentFromReader r = (r', Inr d) \<Longrightarrow> length (rd_data r') + 2 \<le> length (rd_data r)"
  using consumes_ReadDirent unfolding consumes_def by blast

section \<open>Listings\<close>

text \<open>
  An entry of a listing. \<^verbatim>\<open>childReady\<close> is \<^verbatim>\<open>nil\<close>, open or closed; \<^verbatim>\<open>Child\<close> is \<^verbatim>\<open>nil\<close> or a listing.
\<close>

datatype childReady = NoPrefetch | PrefetchPending | PrefetchResolved

datatype DirItem = DirItem (di_Name: string) (di_Size: u64) (di_MTime: Timespec) (di_Mode: u32) (di_Owner: u8)
  (di_Child: "DirItem list option") (di_childReady: childReady)

definition makeDirItemFromDirent :: "Dirent \<Rightarrow> DirItem" where
  "makeDirItemFromDirent d = DirItem (de_Name d) (de_Size d) (de_MTime d) (de_Mode d) (de_Owner d) None NoPrefetch"

function appendDirItemsFromReader :: "DirItem list \<Rightarrow> reader \<Rightarrow> DirItem list \<times> goerr option" where
  "appendDirItemsFromReader list r =
     (if length (rd_data r) = 0 then (list, None)
      else case ReadDirentFromReader r of
          (r', Inl err) \<Rightarrow> (list, Some err)
        | (r', Inr ent) \<Rightarrow> appendDirItemsFromReader (list @ [makeDirItemFromDirent ent]) r')"
  by pat_completeness auto
termination
  by (relation "measure (\<lambda>(list, r). length (rd_data r))") (auto dest!: ReadDirent_shrinks [OF sym])

declare appendDirItemsFromReader.simps [simp del]

text \<open>The response loop of \<^verbatim>\<open>CmdReadDir\<close>; a listing cut short by an error response is returned with that error.\<close>

partial_function (option) readDir_responses :: "'cw cenv \<Rightarrow> u8 \<Rightarrow> DirItem list \<Rightarrow> ('cw, DirItem list \<times> u8) request" where
  "readDir_responses C clientMark list s = Option.bind (receive C clientMark s) (\<lambda>(rsp, s).
     if rsp_code rsp \<noteq> ErrorOK \<and> rsp_code rsp \<noteq> ErrorPartialResponse then
       Some ((list, rsp_code rsp), releaseClientMark clientMark s)
     else case appendDirItemsFromReader list (NewReader (rsp_data rsp)) of
         (_, Some _) \<Rightarrow> Some (([], ErrorIO), releaseClientMark clientMark s)
       | (list, None) \<Rightarrow>
           if rsp_code rsp = ErrorPartialResponse then readDir_responses C clientMark list s
           else Some ((list, rsp_code rsp), releaseClientMark clientMark s))"

definition cl_CmdReadDir :: "'cw cenv \<Rightarrow> string \<Rightarrow> ('cw, DirItem list \<times> u8) request" where
  "cl_CmdReadDir C path = withMark ([], ErrorIO) (\<lambda>clientMark s. do {
     (ok, s) \<leftarrow> sendRequest C clientMark CmdReadDir (WriteCmdReadDirStructToWriter (ws_Write (C_ws C)) \<lparr>ReadDir_Path = path\<rparr>) s;
     if \<not> ok then Some (([], ErrorIO), releaseClientMark clientMark s)
     else readDir_responses C clientMark [] s})"

section \<open>Listings with prefetched children\<close>

text \<open>
  The variables of \<^verbatim>\<open>parseReadDirPlus\<close>: whether the section is a prefetch section, the root listing, the entries
  of the current section, the index they belong to, what was sent to \<^verbatim>\<open>rootCh\<close>, and the directories without a
  section so far. Closing a closed channel panics: the operations on channels return an option.
\<close>

record parseState =
  ps_prefetch :: bool
  ps_list :: "DirItem list"
  ps_items :: "DirItem list"
  ps_current :: "nat option"
  ps_root :: "(DirItem list \<times> u8) option"
  ps_pending :: "nat list"

definition closeChildReady :: "DirItem list \<Rightarrow> nat \<Rightarrow> DirItem list option" where
  "closeChildReady list idx = (case list ! idx of
       DirItem name sz mtime mode owner child NoPrefetch \<Rightarrow> Some list
     | DirItem name sz mtime mode owner child PrefetchPending \<Rightarrow> Some (list[idx := DirItem name sz mtime mode owner child PrefetchResolved])
     | DirItem name sz mtime mode owner child PrefetchResolved \<Rightarrow> None)"

definition setChild :: "DirItem list \<Rightarrow> nat \<Rightarrow> DirItem list \<Rightarrow> DirItem list option" where
  "setChild list idx items = (case list ! idx of
       DirItem name sz mtime mode owner child ready \<Rightarrow>
         closeChildReady (list[idx := DirItem name sz mtime mode owner (Some items) ready]) idx)"

fun closeAllRemainingChildReady :: "DirItem list \<Rightarrow> nat list \<Rightarrow> DirItem list option" where
  "closeAllRemainingChildReady list [] = Some list"
| "closeAllRemainingChildReady list (idx # pendingDirs) = do {
     list \<leftarrow> closeChildReady list idx;
     closeAllRemainingChildReady list pendingDirs}"

definition flushPrefetch :: "bool \<Rightarrow> parseState \<Rightarrow> parseState option" where
  "flushPrefetch commit ps =
     (if \<not> ps_prefetch ps then Some ps
      else case ps_current ps of
          None \<Rightarrow> Some ps
        | Some idx \<Rightarrow> do {
            list \<leftarrow> (if commit then setChild (ps_list ps) idx (ps_items ps) else closeChildReady (ps_list ps) idx);
            Some (ps\<lparr>ps_list := list, ps_items := [], ps_current := None\<rparr>)})"

definition closeRemaining :: "parseState \<Rightarrow> parseState option" where
  "closeRemaining ps = do {
     list \<leftarrow> closeAllRemainingChildReady (ps_list ps) (ps_pending ps);
     Some (ps\<lparr>ps_list := list\<rparr>)}"

text \<open>Sending to \<^verbatim>\<open>rootCh\<close> unless something was sent before.\<close>

definition sendRoot :: "DirItem list \<Rightarrow> u8 \<Rightarrow> parseState \<Rightarrow> parseState" where
  "sendRoot list code ps = (case ps_root ps of None \<Rightarrow> ps\<lparr>ps_root := Some (list, code)\<rparr> | Some _ \<Rightarrow> ps)"

text \<open>Giving up: the section is dropped, every channel closed, and the error sent to \<^verbatim>\<open>rootCh\<close>.\<close>

definition parseFail :: "u8 \<Rightarrow> parseState \<Rightarrow> parseState option" where
  "parseFail code ps = do {
     ps \<leftarrow> flushPrefetch False ps;
     ps \<leftarrow> closeRemaining ps;
     Some (sendRoot [] code ps)}"

definition isDirMode :: "u32 \<Rightarrow> bool" where
  "isDirMode mode \<longleftrightarrow> mode AND 0x80000000 \<noteq> 0"

text \<open>The case of a directory entry, and the case of a section marker; the flag tells whether the parser goes on.\<close>

definition parseEntry :: "Dirent \<Rightarrow> parseState \<Rightarrow> parseState" where
  "parseEntry d ps =
     (let di = makeDirItemFromDirent d
      in if \<not> ps_prefetch ps then
           (if isDirMode (de_Mode d)
            then ps\<lparr>ps_list := ps_list ps @ [DirItem (di_Name di) (di_Size di) (di_MTime di) (di_Mode di) (di_Owner di) (di_Child di) PrefetchPending],
                    ps_pending := ps_pending ps @ [length (ps_list ps)]\<rparr>
            else ps\<lparr>ps_list := ps_list ps @ [di]\<rparr>)
         else ps\<lparr>ps_items := ps_items ps @ [di]\<rparr>)"

definition parseMarker :: "bool \<Rightarrow> parseState \<Rightarrow> (bool \<times> parseState) option" where
  "parseMarker commit ps = do {
     let ps = sendRoot (ps_list ps) ErrorOK ps;
     ps \<leftarrow> flushPrefetch commit ps;
     let ps = ps\<lparr>ps_prefetch := True\<rparr>;
     case ps_pending ps of
       [] \<Rightarrow> do { ps \<leftarrow> closeRemaining (ps\<lparr>ps_current := None\<rparr>); Some (False, ps) }
     | idx # rest \<Rightarrow> Some (True, ps\<lparr>ps_current := Some idx, ps_pending := rest\<rparr>)}"

text \<open>The records of one message; the flag tells whether the parser goes on to the next message.\<close>

function parseRecords :: "bytes \<Rightarrow> parseState \<Rightarrow> (bool \<times> parseState) option" where
  "parseRecords data ps = (case data of
       [] \<Rightarrow> Some (True, ps)
     | indicator # rest \<Rightarrow>
         if indicator = READDIRPLUS_INDICATOR_CONTINUE then
           (case ReadDirentFromReader (NewReader rest) of
              (r, Inl err) \<Rightarrow> map_option (Pair False) (parseFail ErrorIO ps)
            | (r, Inr d) \<Rightarrow> parseRecords (rd_data r) (parseEntry d ps))
         else if indicator = READDIRPLUS_INDICATOR_PREFETCH then
           Option.bind (parseMarker True ps) (\<lambda>(go, ps). if go then parseRecords rest ps else Some (False, ps))
         else if indicator = READDIRPLUS_INDICATOR_PREFETCH_SKIP then
           Option.bind (parseMarker False ps) (\<lambda>(go, ps). if go then parseRecords rest ps else Some (False, ps))
         else map_option (Pair False) (parseFail ErrorIO ps))"
  by pat_completeness auto
termination
  by (relation "measure (\<lambda>(data, ps). length data)") (auto dest!: ReadDirent_shrinks [OF sym])

declare parseRecords.simps [simp del]

partial_function (option) parseReadDirPlus :: "'cw cenv \<Rightarrow> u8 \<Rightarrow> parseState \<Rightarrow> ('cw, parseState) request" where
  "parseReadDirPlus C clientMark ps s = Option.bind (receive C clientMark s) (\<lambda>(rsp, s).
     if rsp_code rsp \<noteq> ErrorOK \<and> rsp_code rsp \<noteq> ErrorPartialResponse then
       Option.bind (parseFail (rsp_code rsp) ps) (\<lambda>ps. Some (ps, releaseClientMark clientMark s))
     else Option.bind (parseRecords (rsp_data rsp) ps) (\<lambda>(go, ps).
       if \<not> go then Some (ps, releaseClientMark clientMark s)
       else if rsp_code rsp = ErrorOK then
         Option.bind (flushPrefetch True ps) (\<lambda>ps. Option.bind (closeRemaining ps) (\<lambda>ps.
           Some (sendRoot (ps_list ps) ErrorOK ps, releaseClientMark clientMark s)))
       else parseReadDirPlus C clientMark ps s))"

definition parse_start :: parseState where
  "parse_start = \<lparr>ps_prefetch = False, ps_list = [], ps_items = [], ps_current = None, ps_root = None, ps_pending = []\<rparr>"

text \<open>
  \<^verbatim>\<open>CmdReadDirPlus\<close>. The listing sent to \<^verbatim>\<open>rootCh\<close> shares its entries with the parser, which runs on in the
  background: the result here is the listing with the children as the parser leaves them.
\<close>

definition cl_CmdReadDirPlus :: "'cw cenv \<Rightarrow> string \<Rightarrow> ('cw, DirItem list \<times> u8) request" where
  "cl_CmdReadDirPlus C path = withMark ([], ErrorIO) (\<lambda>clientMark s. do {
     (ok, s) \<leftarrow> sendRequest C clientMark CmdReadDirPlus (WriteCmdReadDirPlusStructToWriter (ws_Write (C_ws C)) \<lparr>ReadDirPlus_Path = path\<rparr>) s;
     if \<not> ok then Some (([], ErrorIO), releaseClientMark clientMark s)
     else do {
       (ps, s) \<leftarrow> parseReadDirPlus C clientMark parse_start s;
       (_, code) \<leftarrow> ps_root ps;
       Some ((if code = ErrorOK then ps_list ps else [], code), s)}})"

section \<open>Channels are closed exactly once\<close>

text \<open>
  The entries whose channel is open are those of the current section and of the sections still to come. A parser that is
  done has closed all of them and has sent a listing.
\<close>

definition open_dirs :: "parseState \<Rightarrow> nat list" where
  "open_dirs ps = (case ps_current ps of None \<Rightarrow> [] | Some i \<Rightarrow> [i]) @ ps_pending ps"

definition pending_at :: "DirItem list \<Rightarrow> nat \<Rightarrow> bool" where
  "pending_at l i \<longleftrightarrow> i < length l \<and> di_childReady (l ! i) = PrefetchPending"

lemma pending_at_update: "di_childReady x = PrefetchResolved \<Longrightarrow> pending_at (l[i := x]) j \<longleftrightarrow> j \<noteq> i \<and> pending_at l j"
  by (cases "j = i") (auto simp: pending_at_def)

lemma pending_at_append: "pending_at (l @ [x]) i \<longleftrightarrow> pending_at l i \<or> (i = length l \<and> di_childReady x = PrefetchPending)"
  by (auto simp: pending_at_def nth_append less_Suc_eq)

lemma pending_at_length [simp]: "\<not> pending_at l (length l)"
  by (simp add: pending_at_def)

lemma no_pending: "(\<And>i. \<not> pending_at l i) \<Longrightarrow> list_all (\<lambda>i. di_childReady i \<noteq> PrefetchPending) l"
  by (auto simp: pending_at_def list_all_length)

definition parse_inv :: "parseState \<Rightarrow> bool" where
  "parse_inv ps \<longleftrightarrow> distinct (open_dirs ps)
     \<and> (\<forall>i. i \<in> set (open_dirs ps) \<longleftrightarrow> pending_at (ps_list ps) i)
     \<and> (\<not> ps_prefetch ps \<longrightarrow> ps_current ps = None)"

definition parse_done :: "parseState \<Rightarrow> bool" where
  "parse_done ps \<longleftrightarrow> list_all (\<lambda>i. di_childReady i \<noteq> PrefetchPending) (ps_list ps) \<and> ps_root ps \<noteq> None"

lemma parse_inv_start: "parse_inv parse_start"
  by (simp add: parse_inv_def parse_start_def open_dirs_def pending_at_def)

lemma closeChildReady_pending:
  assumes "pending_at l i"
  shows "\<exists>x. closeChildReady l i = Some (l[i := x]) \<and> di_childReady x = PrefetchResolved"
  using assms by (cases "l ! i") (auto simp: closeChildReady_def pending_at_def)

lemma setChild_pending:
  assumes "pending_at l i"
  shows "\<exists>x. setChild l i items = Some (l[i := x]) \<and> di_childReady x = PrefetchResolved"
  using assms by (cases "l ! i") (auto simp: setChild_def closeChildReady_def pending_at_def)

lemma closeAll_pending:
  assumes "distinct is" and "\<And>i. i \<in> set is \<longleftrightarrow> pending_at l i"
  shows "\<exists>l'. closeAllRemainingChildReady l is = Some l' \<and> list_all (\<lambda>i. di_childReady i \<noteq> PrefetchPending) l'"
  using assms
proof (induction "is" arbitrary: l)
  case Nil
  then show ?case using no_pending [of l] by simp
next
  case (Cons i "is")
  have "pending_at l i" using Cons.prems(2) [of i] by simp
  then obtain x where x: "closeChildReady l i = Some (l[i := x])" "di_childReady x = PrefetchResolved"
    using closeChildReady_pending by blast
  have "j \<in> set is \<longleftrightarrow> pending_at (l[i := x]) j" for j
    using Cons.prems(1) Cons.prems(2) [of j] pending_at_update [OF x(2), of l i j] by auto
  from Cons.IH [OF _ this] Cons.prems(1) x(1) show ?case by simp
qed

lemma flushPrefetch_inv:
  assumes "parse_inv ps"
  shows "\<exists>ps'. flushPrefetch commit ps = Some ps' \<and> parse_inv ps' \<and> ps_current ps' = None \<and> ps_prefetch ps' = ps_prefetch ps \<and> ps_root ps' = ps_root ps"
proof (cases "ps_current ps")
  case None
  then show ?thesis using assms by (simp add: flushPrefetch_def)
next
  case (Some i)
  have o: "open_dirs ps = i # ps_pending ps" using Some by (simp add: open_dirs_def)
  have i: "pending_at (ps_list ps) i" and p: "ps_prefetch ps" and d: "distinct (i # ps_pending ps)"
    and all: "\<And>j. j \<in> set (i # ps_pending ps) \<longleftrightarrow> pending_at (ps_list ps) j"
    using assms Some unfolding parse_inv_def o by auto
  obtain x where x: "(if commit then setChild (ps_list ps) i (ps_items ps) else closeChildReady (ps_list ps) i) = Some ((ps_list ps)[i := x])"
      "di_childReady x = PrefetchResolved"
    using setChild_pending [OF i, of "ps_items ps"] closeChildReady_pending [OF i] by (cases commit) auto
  let ?ps = "ps\<lparr>ps_list := (ps_list ps)[i := x], ps_items := [], ps_current := None\<rparr>"
  have "j \<in> set (ps_pending ps) \<longleftrightarrow> pending_at ((ps_list ps)[i := x]) j" for j
    using all [of j] d pending_at_update [OF x(2), of "ps_list ps" i j] by auto
  then have "parse_inv ?ps" using d by (simp add: parse_inv_def open_dirs_def)
  then show ?thesis using x(1) Some p by (simp add: flushPrefetch_def)
qed

lemma closeRemaining_done:
  assumes "parse_inv ps" and "ps_current ps = None"
  shows "\<exists>ps'. closeRemaining ps = Some ps' \<and> list_all (\<lambda>i. di_childReady i \<noteq> PrefetchPending) (ps_list ps') \<and> ps_root ps' = ps_root ps"
proof -
  have "distinct (ps_pending ps)" "\<And>i. i \<in> set (ps_pending ps) \<longleftrightarrow> pending_at (ps_list ps) i"
    using assms by (simp_all add: parse_inv_def open_dirs_def)
  from closeAll_pending [OF this] show ?thesis by (auto simp: closeRemaining_def)
qed

lemma sendRoot_sel [simp]:
  "ps_list (sendRoot l c ps) = ps_list ps" "ps_current (sendRoot l c ps) = ps_current ps" "ps_pending (sendRoot l c ps) = ps_pending ps"
  "ps_prefetch (sendRoot l c ps) = ps_prefetch ps" "ps_root (sendRoot l c ps) \<noteq> None" "parse_inv (sendRoot l c ps) = parse_inv ps"
  by (simp_all add: sendRoot_def parse_inv_def open_dirs_def split: option.split)

lemma parseFail_done:
  assumes "parse_inv ps"
  shows "\<exists>ps'. parseFail code ps = Some ps' \<and> parse_done ps'"
proof -
  obtain ps1 where f: "flushPrefetch False ps = Some ps1" "parse_inv ps1" "ps_current ps1 = None"
    using flushPrefetch_inv [OF assms] by blast
  obtain ps2 where c: "closeRemaining ps1 = Some ps2" "list_all (\<lambda>i. di_childReady i \<noteq> PrefetchPending) (ps_list ps2)"
    using closeRemaining_done [OF f(2,3)] by blast
  then have "parse_done (sendRoot [] code ps2)" using sendRoot_sel(5) [of "[]" code ps2] by (simp add: parse_done_def)
  then show ?thesis using f(1) c(1) by (simp add: parseFail_def)
qed

lemma parseEntry_inv: "parse_inv ps \<Longrightarrow> parse_inv (parseEntry d ps)"
  by (auto simp: parse_inv_def parseEntry_def open_dirs_def makeDirItemFromDirent_def Let_def pending_at_append)

text \<open>\<open>parses r\<close>: the parser went on with its invariant kept, or it is done.\<close>

definition parses :: "(bool \<times> parseState) option \<Rightarrow> bool" where
  "parses r \<longleftrightarrow> (\<exists>go ps. r = Some (go, ps) \<and> (if go then parse_inv ps else parse_done ps))"

lemma parses_go: "parse_inv ps \<Longrightarrow> parses (Some (True, ps))"
  unfolding parses_def by (intro exI [of _ True] exI [of _ ps]) simp

lemma parses_stop: "parse_done ps \<Longrightarrow> parses (Some (False, ps))"
  unfolding parses_def by (intro exI [of _ False] exI [of _ ps]) simp

lemma parseMarker_parses:
  assumes "parse_inv ps"
  shows "parses (parseMarker commit ps)"
proof -
  have "parse_inv (sendRoot (ps_list ps) ErrorOK ps)" using assms by simp
  from flushPrefetch_inv [OF this, of commit] obtain ps1 where
    f: "flushPrefetch commit (sendRoot (ps_list ps) ErrorOK ps) = Some ps1" "parse_inv ps1" "ps_current ps1 = None" "ps_root ps1 \<noteq> None"
    using sendRoot_sel(5) by fastforce
  show ?thesis
  proof (cases "ps_pending ps1")
    case Nil
    have "parse_inv (ps1\<lparr>ps_prefetch := True, ps_current := None\<rparr>)" using f(2,3) by (simp add: parse_inv_def open_dirs_def)
    then obtain ps2 where c: "closeRemaining (ps1\<lparr>ps_prefetch := True, ps_current := None\<rparr>) = Some ps2"
        "list_all (\<lambda>i. di_childReady i \<noteq> PrefetchPending) (ps_list ps2)" "ps_root ps2 = ps_root ps1"
      using closeRemaining_done by fastforce
    have "parseMarker commit ps = Some (False, ps2)" using f(1) Nil c(1) by (simp add: parseMarker_def)
    then show ?thesis using parses_stop [of ps2] c(2,3) f(4) by (simp add: parse_done_def)
  next
    case (Cons i rest)
    have "parse_inv (ps1\<lparr>ps_prefetch := True, ps_current := Some i, ps_pending := rest\<rparr>)"
      using f(2,3) Cons by (simp add: parse_inv_def open_dirs_def)
    from parses_go [OF this] show ?thesis using f(1) Cons by (simp add: parseMarker_def)
  qed
qed

lemma parses_fail: "parse_inv ps \<Longrightarrow> parses (map_option (Pair False) (parseFail code ps))"
  using parseFail_done [of ps code] parses_stop by auto

lemma parseRecords_parses: "parse_inv ps \<Longrightarrow> parses (parseRecords data ps)"
proof (induction "length data" arbitrary: data ps rule: less_induct)
  case less
  note inv = less.prems
  show ?case
  proof (cases data)
    case Nil
    then show ?thesis using inv parses_go by (subst parseRecords.simps) simp
  next
    case (Cons i rest)
    have IH: "parses (parseRecords d ps')" if "length d \<le> length rest" "parse_inv ps'" for d ps'
      using less.hyps that Cons by simp
    have m: "parses (Option.bind (parseMarker c ps) (\<lambda>(go, ps). if go then parseRecords rest ps else Some (False, ps)))" for c
    proof -
      obtain go ps' where p: "parseMarker c ps = Some (go, ps')" "if go then parse_inv ps' else parse_done ps'"
        using parseMarker_parses [OF inv, of c] unfolding parses_def by blast
      then show ?thesis using IH [of rest ps'] parses_stop [of ps'] by (cases go) simp_all
    qed
    have e: "parses (case ReadDirentFromReader (NewReader rest) of
        (r, Inl err) \<Rightarrow> map_option (Pair False) (parseFail ErrorIO ps) | (r, Inr d) \<Rightarrow> parseRecords (rd_data r) (parseEntry d ps))"
    proof -
      obtain r x where r: "ReadDirentFromReader (NewReader rest) = (r, x)" by fastforce
      show ?thesis
      proof (cases x)
        case (Inl err)
        then show ?thesis using r parses_fail [OF inv] by simp
      next
        case (Inr d)
        have "length (rd_data r) \<le> length rest" using ReadDirent_shrinks [of "NewReader rest" r d] r Inr by simp
        then show ?thesis using r Inr IH [OF _ parseEntry_inv [OF inv]] by simp
      qed
    qed
    show ?thesis
      using m e parses_fail [OF inv] Cons by (subst parseRecords.simps) simp
  qed
qed

end
