(* ===== verification/Wsfs_Server.thy ===== *)
theory Wsfs_Server
  imports Wsfs_Session
begin

text \<open>
  The command handlers of the server: \<^verbatim>\<open>commands-unix.go\<close> and \<^verbatim>\<open>commands.go\<close> under
  \<^verbatim>\<open>src/src/internal/server/wsfs\<close>, one definition per Go function. Definitions only; the theories
  \<^verbatim>\<open>Wsfs_Server_*\<close> hold the lemmas.
\<close>

section \<open>Shared shapes\<close>

text \<open>A system call on the session's operating system, directly or through \<^verbatim>\<open>ignoringEINTR\<close>.\<close>

definition on_os :: "('os, 'a) sysop \<Rightarrow> ('os, 'ws) session \<Rightarrow> ('os, 'ws) session \<times> (oserror + 'a)" where
  "on_os f s = (case f (s_os s) of (os, r) \<Rightarrow> (s\<lparr>s_os := os\<rparr>, r))"

definition retry_os :: "('os, 'a) sysop \<Rightarrow> ('os, 'ws) session \<Rightarrow> (('os, 'ws) session \<times> (oserror + 'a)) option" where
  "retry_os f s = do { (os, r) \<leftarrow> ignoringEINTR f (s_os s); Some (s\<lparr>s_os := os\<rparr>, r) }"

text \<open>\<^verbatim>\<open>s.fds.Load\<close> with the response for an unknown descriptor.\<close>

definition with_fd :: "('os, 'ws) env \<Rightarrow> u8 \<Rightarrow> u32 \<Rightarrow> (int \<Rightarrow> ('os, 'ws) handler) \<Rightarrow> ('os, 'ws) handler" where
  "with_fd E clientMark fd k s = (case map_of (s_fds s) fd of
       None \<Rightarrow> writeRspError E clientMark ErrorInvalidFD ''bad fd'' s
     | Some sfd \<Rightarrow> k sfd s)"

text \<open>The two responses after a call without a result.\<close>

definition rsp_unit :: "('os, 'ws) env \<Rightarrow> u8 \<Rightarrow> ('os, 'ws) session \<times> (oserror + 'a) \<Rightarrow> ('os, 'ws) session option" where
  "rsp_unit E clientMark = (\<lambda>(s, r). case r of
       Inl err \<Rightarrow> writeRspError E clientMark (wsfsErrCode err) ''syscall error'' s
     | Inr _ \<Rightarrow> writeRspOK E clientMark s)"

text \<open>The two responses after a call with a result, given the writer of the response struct.\<close>

definition rsp_value :: "('os, 'ws) env \<Rightarrow> u8 \<Rightarrow> ('a \<Rightarrow> 'ws wprog) \<Rightarrow> ('os, 'ws) session \<times> (oserror + 'a) \<Rightarrow> ('os, 'ws) session option" where
  "rsp_value E clientMark body = (\<lambda>(s, r). case r of
       Inl err \<Rightarrow> writeRspError E clientMark (wsfsErrCode err) ''syscall error'' s
     | Inr x \<Rightarrow> rspWith E clientMark ErrorOK (body x) s)"

definition bad_path :: "('os, 'ws) env \<Rightarrow> u8 \<Rightarrow> ('os, 'ws) handler" where
  "bad_path E clientMark = writeRspError E clientMark ErrorInvalid ''bad path''"

section \<open>Descriptors (commands-unix.go)\<close>

definition convOwner :: "('os, 'ws) session \<Rightarrow> os_FileInfo \<Rightarrow> u8" where
  "convOwner s fi =
     (if st_Uid fi = ids_Uid (s_fsIds s) then 1 else 0) + (if st_Gid fi = ids_Gid (s_fsIds s) then 2 else 0)"

definition cmdOpen :: "('os, 'ws) env \<Rightarrow> u8 \<Rightarrow> CmdOpenStruct \<Rightarrow> ('os, 'ws) handler" where
  "cmdOpen E clientMark req s =
     (if \<not> IsUrlValid (Open_Path req) then bad_path E clientMark s
      else let apath = s_storage s @ Open_Path req
        in case openFlagToSys (E_unix E) (Open_OFlag req) of
             Inl (ec, desc) \<Rightarrow> writeRspError E clientMark ec desc s
           | Inr oflag \<Rightarrow> do {
               (s, r) \<leftarrow> retry_os (sys_Open (E_sys E) apath oflag (syscallMode (Open_FMode req))) s;
               case r of
                 Inl err \<Rightarrow> writeRspError E clientMark (wsfsErrCode err) ''syscall error'' s
               | Inr sfd \<Rightarrow> do {
                   (wfd, s) \<leftarrow> newFD sfd s;
                   rspWith E clientMark ErrorOK
                     (WriteRspOpenToWriter (ws_Write (E_ws E)) \<lparr>RspOpen_FD = wfd\<rparr>) s}})"

definition cmdClose :: "('os, 'ws) env \<Rightarrow> u8 \<Rightarrow> CmdCloseStruct \<Rightarrow> ('os, 'ws) handler" where
  "cmdClose E clientMark req = with_fd E clientMark (Close_FD req) (\<lambda>sfd s.
     let s = s\<lparr>s_fds := AList.delete (Close_FD req) (s_fds s)\<rparr>
     in rsp_unit E clientMark (on_os (sys_Close (E_sys E) sfd) s))"

abbreviation (input) maxReadPayLoad :: u64 where "maxReadPayLoad \<equiv> 8190"

text \<open>
  The common body of \<^verbatim>\<open>readAndSend\<close> and \<^verbatim>\<open>readAtAndSend\<close>: \<open>rd\<close> is the read call, given the length of the
  slice it fills. The data lands in the pooled buffer after the two header bytes. The pooled buffer
  is a reset buffer of \<^verbatim>\<open>MaxMsgSize\<close> bytes.
\<close>

definition Buffer_fill :: "bytes \<Rightarrow> Buffer \<Rightarrow> Buffer" where
  "Buffer_fill d b = b\<lparr>buf_Bytes := take (buf_written b) (buf_Bytes b) @ d
     @ drop (buf_written b + length d) (buf_Bytes b)\<rparr>"

definition bufPool_Get :: Buffer where
  "bufPool_Get = NewBuffer MaxMsgSize"

definition read_and_send :: "('os, 'ws) env \<Rightarrow> u8 \<Rightarrow> (nat \<Rightarrow> ('os, bytes) sysop) \<Rightarrow> u64 \<Rightarrow> bool \<Rightarrow>
    ('os, 'ws) session \<Rightarrow> ((u64 \<times> bool) \<times> ('os, 'ws) session) option" where
  "read_and_send E clientMark rd n partial s =
     (let buf = fst (Buffer_write_op [clientMark, ErrorOK] bufPool_Get)
      in case on_os (rd (unat n)) s of
           (s, Inl err) \<Rightarrow> do {
             s \<leftarrow> writeRspError E clientMark (wsfsErrCode err) ''syscall error'' s;
             Some ((0, False), s)}
         | (s, Inr d) \<Rightarrow>
             let buf = Buffer_Grow (length d) (Buffer_fill d buf);
                 buf = (if partial \<and> of_nat (length d) = n
                        then buf\<lparr>buf_Bytes := (buf_Bytes buf)[1 := ErrorPartialResponse]\<rparr> else buf)
             in do {
               s \<leftarrow> s_write E (snd (Buffer_Done buf)) s;
               Some ((of_nat (length d), True), s)})"

definition readAndSend where
  "readAndSend E clientMark fd n partial = read_and_send E clientMark (sys_Read (E_sys E) fd) n partial"

text \<open>The \<^verbatim>\<open>for range\<close> loop of \<^verbatim>\<open>cmdRead\<close>: the boolean is false when the handler returns from inside it.\<close>

fun cmdRead_loop :: "('os, 'ws) env \<Rightarrow> u8 \<Rightarrow> int \<Rightarrow> nat \<Rightarrow> ('os, 'ws) session \<Rightarrow> (bool \<times> ('os, 'ws) session) option" where
  "cmdRead_loop E clientMark sfd 0 s = Some (True, s)"
| "cmdRead_loop E clientMark sfd (Suc k) s = do {
     ((readed, ok), s) \<leftarrow> readAndSend E clientMark sfd maxReadPayLoad True s;
     if \<not> ok \<or> readed < maxReadPayLoad then Some (False, s)
     else cmdRead_loop E clientMark sfd k s}"

definition cmdRead :: "('os, 'ws) env \<Rightarrow> u8 \<Rightarrow> CmdReadStruct \<Rightarrow> ('os, 'ws) handler" where
  "cmdRead E clientMark req = with_fd E clientMark (Read_FD req) (\<lambda>sfd s.
     if Read_Size req < maxReadPayLoad then
       map_option snd (readAndSend E clientMark sfd (Read_Size req) False s)
     else do {
       (go, s) \<leftarrow> cmdRead_loop E clientMark sfd (unat (Read_Size req div maxReadPayLoad)) s;
       if \<not> go then Some s
       else if Read_Size req mod maxReadPayLoad = 0 then writeRspOK E clientMark s
       else map_option snd (readAndSend E clientMark sfd (Read_Size req mod maxReadPayLoad) False s)})"

text \<open>Indexing the empty string panics in Go; no file system returns an empty link target.\<close>

definition cmdReadLink :: "('os, 'ws) env \<Rightarrow> u8 \<Rightarrow> CmdReadLinkStruct \<Rightarrow> ('os, 'ws) handler" where
  "cmdReadLink E clientMark req s =
     (if \<not> IsUrlValid (ReadLink_Path req) then bad_path E clientMark s
      else let apath = s_storage s @ ReadLink_Path req in do {
        (s, r) \<leftarrow> retry_os (sys_Readlink (E_sys E) apath 256) s;
        case r of
          Inl err \<Rightarrow> writeRspError E clientMark ErrorType ''syscall error'' s
        | Inr buf \<Rightarrow>
            let target = string_of buf
            in if target = [] then None
               else let target = (if target ! 0 \<noteq> CHR ''/'' then Clean (Join apath target) else target)
                 in if HasPrefix target (s_storage s) then
                      rspWith E clientMark ErrorOK (WriteRspReadLinkToWriter (ws_Write (E_ws E))
                        \<lparr>RspReadLink_TargetPath = TrimPrefix target (s_storage s)\<rparr>) s
                    else writeRspError E clientMark ErrorType ''syscall error'' s})"

definition cmdSeek :: "('os, 'ws) env \<Rightarrow> u8 \<Rightarrow> CmdSeekStruct \<Rightarrow> ('os, 'ws) handler" where
  "cmdSeek E clientMark req = with_fd E clientMark (Seek_FD req) (\<lambda>sfd s.
     case map_of (WhenceToUnix (E_unix E)) (Seek_Whence req) of
       None \<Rightarrow> writeRspError E clientMark ErrorNotSupport ''whence not supported'' s
     | Some whence \<Rightarrow> rsp_value E clientMark
         (\<lambda>offset. WriteRspSeekToWriter (ws_Write (E_ws E)) \<lparr>RspSeek_Offset = offset\<rparr>)
         (on_os (sys_Seek (E_sys E) sfd (Seek_Offset req) whence) s))"

definition cmdWrite :: "('os, 'ws) env \<Rightarrow> u8 \<Rightarrow> CmdWriteStruct \<Rightarrow> ('os, 'ws) handler" where
  "cmdWrite E clientMark req = with_fd E clientMark (Write_FD req) (\<lambda>sfd s. do {
     r \<leftarrow> retry_os (sys_Write (E_sys E) sfd (Write_Data req)) s;
     rsp_value E clientMark
       (\<lambda>count. WriteRspWriteToWriter (ws_Write (E_ws E)) \<lparr>RspWrite_Written = of_nat count\<rparr>) r})"

definition cmdAllocate :: "('os, 'ws) env \<Rightarrow> u8 \<Rightarrow> CmdAllocateStruct \<Rightarrow> ('os, 'ws) handler" where
  "cmdAllocate E clientMark req = with_fd E clientMark (Allocate_FD req) (\<lambda>sfd s.
     rsp_unit E clientMark
       (on_os (Fallocate (E_sys E) sfd (Allocate_Flag req) (Allocate_Offset req) (Allocate_Size req)) s))"

text \<open>
  A conditional step of \<^verbatim>\<open>cmdSetAttr\<close> and \<^verbatim>\<open>cmdSetAttrByFD\<close>: does nothing, or performs a call whose error
  ends the handler.
\<close>

definition setattr_step :: "('os, 'ws) env \<Rightarrow> u8 \<Rightarrow> bool \<Rightarrow> ('os, unit) sysop \<Rightarrow> ('os, 'ws) handler \<Rightarrow> ('os, 'ws) handler" where
  "setattr_step E clientMark c f k s =
     (if \<not> c then k s
      else case on_os f s of
          (s, Inl err) \<Rightarrow> writeRspError E clientMark (wsfsErrCode err) ''syscall error'' s
        | (s, Inr _) \<Rightarrow> k s)"

definition owner_ids :: "FsIds \<Rightarrow> u8 \<Rightarrow> u32 \<times> u32" where
  "owner_ids ids owner =
     (if owner AND OWNER_UN \<noteq> 0 then ids_Uid ids else ids_OtherUid ids,
      if owner AND OWNER_NG \<noteq> 0 then ids_Gid ids else ids_OtherGid ids)"

definition cmdSetAttr :: "('os, 'ws) env \<Rightarrow> u8 \<Rightarrow> CmdSetAttrStruct \<Rightarrow> ('os, 'ws) handler" where
  "cmdSetAttr E clientMark req s =
     (if \<not> IsUrlValid (SetAttr_Path req) then bad_path E clientMark s
      else let apath = s_storage s @ SetAttr_Path req; flag = SetAttr_Flag req; fi = SetAttr_FI req;
               (uid, gid) = owner_ids (s_fsIds s) (fi_Owner fi)
        in setattr_step E clientMark (flag AND SETATTR_SIZE \<noteq> 0) (sys_Truncate (E_sys E) apath (fi_Size fi))
          (setattr_step E clientMark (flag AND SETATTR_MTIME \<noteq> 0) (SetPathMTime (E_sys E) apath (fi_MTime fi))
          (setattr_step E clientMark (flag AND SETATTR_MODE \<noteq> 0) (sys_Chmod (E_sys E) apath (syscallMode (fi_Mode fi)))
          (setattr_step E clientMark (flag AND SETATTR_OWNER \<noteq> 0) (sys_Chown (E_sys E) apath uid gid)
          (writeRspOK E clientMark)))) s)"

definition cmdSync :: "('os, 'ws) env \<Rightarrow> u8 \<Rightarrow> CmdSyncStruct \<Rightarrow> ('os, 'ws) handler" where
  "cmdSync E clientMark req = with_fd E clientMark (Sync_FD req) (\<lambda>sfd s.
     rsp_unit E clientMark (on_os (sys_Fsync (E_sys E) sfd) s))"

definition cmdMkdir :: "('os, 'ws) env \<Rightarrow> u8 \<Rightarrow> CmdMkdirStruct \<Rightarrow> ('os, 'ws) handler" where
  "cmdMkdir E clientMark req s =
     (if \<not> IsUrlValid (Mkdir_Path req) then bad_path E clientMark s
      else let apath = s_storage s @ Mkdir_Path req
        in rsp_unit E clientMark (on_os (sys_Mkdir (E_sys E) apath (syscallMode (Mkdir_Mode req))) s))"

definition cmdSymLink :: "('os, 'ws) env \<Rightarrow> u8 \<Rightarrow> CmdSymLinkStruct \<Rightarrow> ('os, 'ws) handler" where
  "cmdSymLink E clientMark req s =
     (if \<not> IsUrlValid (SymLink_TargetPath req) \<or> \<not> IsUrlValid (SymLink_FilePath req) then bad_path E clientMark s
      else rsp_unit E clientMark (on_os (sys_Symlink (E_sys E)
        (s_storage s @ SymLink_TargetPath req) (s_storage s @ SymLink_FilePath req)) s))"

definition cmdRemove :: "('os, 'ws) env \<Rightarrow> u8 \<Rightarrow> CmdRemoveStruct \<Rightarrow> ('os, 'ws) handler" where
  "cmdRemove E clientMark req s =
     (if \<not> IsUrlValid (Remove_Path req) then bad_path E clientMark s
      else rsp_unit E clientMark (on_os (sys_Unlink (E_sys E) (s_storage s @ Remove_Path req)) s))"

definition cmdRmDir :: "('os, 'ws) env \<Rightarrow> u8 \<Rightarrow> CmdRmDirStruct \<Rightarrow> ('os, 'ws) handler" where
  "cmdRmDir E clientMark req s =
     (if \<not> IsUrlValid (RmDir_Path req) then bad_path E clientMark s
      else rsp_unit E clientMark (on_os (sys_Rmdir (E_sys E) (s_storage s @ RmDir_Path req)) s))"

definition cmdFsStat :: "('os, 'ws) env \<Rightarrow> u8 \<Rightarrow> CmdFsStatStruct \<Rightarrow> ('os, 'ws) handler" where
  "cmdFsStat E clientMark req s =
     (if \<not> IsUrlValid (FsStat_Path req) then bad_path E clientMark s
      else rsp_value E clientMark
        (\<lambda>(total, free, avail). WriteRspFsStatToWriter (ws_Write (E_ws E))
           \<lparr>RspFsStat_Total = total, RspFsStat_Free = free, RspFsStat_Available = avail\<rparr>)
        (on_os (FsSize (E_sys E) (s_storage s @ FsStat_Path req)) s))"

definition readAtAndSend where
  "readAtAndSend E clientMark fd off n partial =
     read_and_send E clientMark (\<lambda>k. sys_Pread (E_sys E) fd k off) n partial"

fun cmdReadAt_loop :: "('os, 'ws) env \<Rightarrow> u8 \<Rightarrow> int \<Rightarrow> nat \<Rightarrow> u64 \<Rightarrow> ('os, 'ws) session \<Rightarrow>
    ((bool \<times> u64) \<times> ('os, 'ws) session) option" where
  "cmdReadAt_loop E clientMark sfd 0 off s = Some ((True, off), s)"
| "cmdReadAt_loop E clientMark sfd (Suc k) off s = do {
     ((readed, ok), s) \<leftarrow> readAtAndSend E clientMark sfd off maxReadPayLoad True s;
     if \<not> ok \<or> readed < maxReadPayLoad then Some ((False, off), s)
     else cmdReadAt_loop E clientMark sfd k (off + readed) s}"

definition cmdReadAt :: "('os, 'ws) env \<Rightarrow> u8 \<Rightarrow> CmdReadAtStruct \<Rightarrow> ('os, 'ws) handler" where
  "cmdReadAt E clientMark req = with_fd E clientMark (ReadAt_FD req) (\<lambda>sfd s.
     if ReadAt_Size req < maxReadPayLoad then
       map_option snd (readAtAndSend E clientMark sfd (ReadAt_Offset req) (ReadAt_Size req) False s)
     else do {
       ((go, off), s) \<leftarrow> cmdReadAt_loop E clientMark sfd (unat (ReadAt_Size req div maxReadPayLoad)) (ReadAt_Offset req) s;
       if \<not> go then Some s
       else if ReadAt_Size req mod maxReadPayLoad = 0 then writeRspOK E clientMark s
       else map_option snd (readAtAndSend E clientMark sfd off (ReadAt_Size req mod maxReadPayLoad) False s)})"

definition cmdWriteAt :: "('os, 'ws) env \<Rightarrow> u8 \<Rightarrow> CmdWriteAtStruct \<Rightarrow> ('os, 'ws) handler" where
  "cmdWriteAt E clientMark req = with_fd E clientMark (WriteAt_FD req) (\<lambda>sfd s. do {
     r \<leftarrow> retry_os (sys_Pwrite (E_sys E) sfd (WriteAt_Data req) (WriteAt_Offset req)) s;
     rsp_value E clientMark
       (\<lambda>count. WriteRspWriteAtToWriter (ws_Write (E_ws E)) \<lparr>RspWriteAt_Written = of_nat count\<rparr>) r})"

section \<open>Write streams, copies and the rest of commands-unix.go\<close>

text \<open>The loop of \<^verbatim>\<open>writeStreamWriteChunk\<close>; the result is (total, code, description, ok).\<close>

partial_function (option) writeStreamWriteChunk_loop ::
    "'os sys \<Rightarrow> int \<Rightarrow> u64 \<Rightarrow> bytes \<Rightarrow> u64 \<Rightarrow> 'os \<Rightarrow> ('os \<times> u64 \<times> u8 \<times> string \<times> bool) option" where
  "writeStreamWriteChunk_loop S fd offset data totalWritten os =
     (if length data = 0 then Some (os, totalWritten, 0, [], True)
      else Option.bind (ignoringEINTR (sys_Pwrite S fd data offset) os) (\<lambda>(os, r).
        case r of
          Inl err \<Rightarrow> Some (os, totalWritten, wsfsErrCode err, ''syscall error'', False)
        | Inr written \<Rightarrow>
            if written = 0 then Some (os, totalWritten, ErrorIO, ''short write'', False)
            else writeStreamWriteChunk_loop S fd (offset + of_nat written) (drop written data)
              (totalWritten + of_nat written) os))"

definition writeStreamWriteChunk ::
    "'os sys \<Rightarrow> int \<Rightarrow> u64 \<Rightarrow> bytes \<Rightarrow> 'os \<Rightarrow> ('os \<times> u64 \<times> u8 \<times> string \<times> bool) option" where
  "writeStreamWriteChunk S fd offset data os = writeStreamWriteChunk_loop S fd offset data 0 os"

definition cmdCopyFileRange :: "('os, 'ws) env \<Rightarrow> u8 \<Rightarrow> CmdCopyFileRangeStruct \<Rightarrow> ('os, 'ws) handler" where
  "cmdCopyFileRange E clientMark req s =
     (if CopyFileRange_Size req > MaxCopyFileRangeChunk
      then writeRspError E clientMark ErrorInvalid ''copy_file_range size exceeds limit'' s
      else with_fd E clientMark (CopyFileRange_SrcFD req) (\<lambda>sfd1.
        with_fd E clientMark (CopyFileRange_DstFD req) (\<lambda>sfd2 s.
          rsp_value E clientMark
            (\<lambda>writed. WriteRspCopyFileRangeToWriter (ws_Write (E_ws E)) \<lparr>RspCopyFileRange_Copied = of_nat writed\<rparr>)
            (on_os (CopyFileRange (E_sys E) sfd1 (CopyFileRange_SrcOffset req) sfd2
              (CopyFileRange_DstOffset req) (CopyFileRange_Size req)) s))) s)"

definition cmdCloneFileRange :: "('os, 'ws) env \<Rightarrow> u8 \<Rightarrow> CmdCloneFileRangeStruct \<Rightarrow> ('os, 'ws) handler" where
  "cmdCloneFileRange E clientMark req =
     with_fd E clientMark (CloneFileRange_SrcFD req) (\<lambda>sfd1.
       with_fd E clientMark (CloneFileRange_DstFD req) (\<lambda>sfd2 s.
         rsp_unit E clientMark (on_os (CloneFileRange (E_sys E) sfd2 sfd1
           (CloneFileRange_DstOffset req) (CloneFileRange_SrcOffset req) (CloneFileRange_Size req)) s)))"

text \<open>The body of \<^verbatim>\<open>cmdRename\<close> that computes \<^verbatim>\<open>err\<close>.\<close>

definition rename_paths :: "('os, 'ws) env \<Rightarrow> string \<Rightarrow> string \<Rightarrow> u32 \<Rightarrow> ('os, unit) sysop" where
  "rename_paths E aOldPath aNewPath flag os =
     (let S = E_sys E; U = E_unix E
      in if flag = 0 then sys_Rename S aOldPath aNewPath os
         else case sys_Open S (Dir aOldPath) (u_O_DIRECTORY U) 0 os of
             (os, Inl err) \<Rightarrow> (os, Inl err)
           | (os, Inr fd1) \<Rightarrow>
               (case (case sys_Open S (Dir aNewPath) (u_O_DIRECTORY U) 0 os of
                   (os, Inl err) \<Rightarrow> (os, Inl err)
                 | (os, Inr fd2) \<Rightarrow>
                     (case Renameat2 U S fd1 aOldPath fd2 aNewPath flag os of
                        (os, r) \<Rightarrow> (fst (sys_Close S fd2 os), r))) of
                  (os, r) \<Rightarrow> (fst (sys_Close S fd1 os), r)))"

definition cmdRename :: "('os, 'ws) env \<Rightarrow> u8 \<Rightarrow> CmdRenameStruct \<Rightarrow> ('os, 'ws) handler" where
  "cmdRename E clientMark req s =
     (if \<not> IsUrlValid (Rename_OldPath req) \<or> \<not> IsUrlValid (Rename_NewPath req) then bad_path E clientMark s
      else rsp_unit E clientMark (on_os (rename_paths E (s_storage s @ Rename_OldPath req)
        (s_storage s @ Rename_NewPath req) (Rename_Flag req)) s))"

definition cmdSetAttrByFD :: "('os, 'ws) env \<Rightarrow> u8 \<Rightarrow> CmdSetAttrByFDStruct \<Rightarrow> ('os, 'ws) handler" where
  "cmdSetAttrByFD E clientMark req = with_fd E clientMark (SetAttrByFD_FD req) (\<lambda>sfd s.
     let flag = SetAttrByFD_Flag req; fi = SetAttrByFD_FI req;
         (uid, gid) = owner_ids (s_fsIds s) (fi_Owner fi)
     in setattr_step E clientMark (flag AND SETATTR_SIZE \<noteq> 0) (sys_Ftruncate (E_sys E) sfd (fi_Size fi))
       (setattr_step E clientMark (flag AND SETATTR_MTIME \<noteq> 0) (SetFDMTime (E_sys E) sfd (fi_MTime fi))
       (setattr_step E clientMark (flag AND SETATTR_MODE \<noteq> 0) (sys_Fchmod (E_sys E) sfd (syscallMode (fi_Mode fi)))
       (setattr_step E clientMark (flag AND SETATTR_OWNER \<noteq> 0) (sys_Fchown (E_sys E) sfd uid gid)
       (writeRspOK E clientMark)))) s)"

definition cmdGetFileLock :: "('os, 'ws) env \<Rightarrow> u8 \<Rightarrow> CmdGetFileLockStruct \<Rightarrow> ('os, 'ws) handler" where
  "cmdGetFileLock E clientMark req = with_fd E clientMark (GetFileLock_FD req) (\<lambda>sfd s.
     rsp_value E clientMark
       (\<lambda>outLock. WriteRspGetFileLockToWriter (ws_Write (E_ws E)) \<lparr>RspGetFileLock_FileLock = outLock\<rparr>)
       (on_os (ofd_GetLock (E_unix E) (E_sys E) sfd (GetFileLock_FileLock req)) s))"

definition cmdSetFileLockCommon :: "('os, 'ws) env \<Rightarrow> u8 \<Rightarrow> u32 \<Rightarrow> FileLockInfo \<Rightarrow> bool \<Rightarrow> ('os, 'ws) handler" where
  "cmdSetFileLockCommon E clientMark fd lock blocking = with_fd E clientMark fd (\<lambda>sfd s.
     rsp_unit E clientMark (on_os (ofd_SetLock (E_unix E) (E_sys E) sfd lock blocking) s))"

definition cmdSetFileLock :: "('os, 'ws) env \<Rightarrow> u8 \<Rightarrow> CmdSetFileLockStruct \<Rightarrow> ('os, 'ws) handler" where
  "cmdSetFileLock E clientMark req =
     cmdSetFileLockCommon E clientMark (SetFileLock_FD req) (SetFileLock_FileLock req) False"

definition cmdSetFileLockWait :: "('os, 'ws) env \<Rightarrow> u8 \<Rightarrow> CmdSetFileLockWaitStruct \<Rightarrow> ('os, 'ws) handler" where
  "cmdSetFileLockWait E clientMark req =
     cmdSetFileLockCommon E clientMark (SetFileLockWait_FD req) (SetFileLockWait_FileLock req) True"

definition cmdLink :: "('os, 'ws) env \<Rightarrow> u8 \<Rightarrow> CmdLinkStruct \<Rightarrow> ('os, 'ws) handler" where
  "cmdLink E clientMark req s =
     (if \<not> IsUrlValid (Link_TargetPath req) \<or> \<not> IsUrlValid (Link_FilePath req) then bad_path E clientMark s
      else if \<not> opt_EnableLink (s_featureOpts s) then writeRspError E clientMark ErrorNotSupport ''syscall error'' s
      else rsp_unit E clientMark (on_os (sys_Link (E_sys E)
        (s_storage s @ Link_TargetPath req) (s_storage s @ Link_FilePath req)) s))"

section \<open>Attributes and directories (commands.go)\<close>

definition makeWSFSFileInfo :: "os_FileInfo \<Rightarrow> Timespec \<Rightarrow> u8 \<Rightarrow> FileInfo" where
  "makeWSFSFileInfo fi mtime owner =
     \<lparr>fi_Size = st_Size fi, fi_MTime = mtime, fi_Mode = st_Mode fi, fi_Owner = owner\<rparr>"

text \<open>
  \<open>base\<close> ends with \<open>/\<close>. Go panics on indexing an empty target, which no file system returns; the branch
  is kept as an error of its own.
\<close>

definition restrictingSymlinkByFileInfo ::
    "'os sys \<Rightarrow> string \<Rightarrow> string \<Rightarrow> os_FileInfo \<Rightarrow> ('os, os_FileInfo \<times> Timespec) sysop" where
  "restrictingSymlinkByFileInfo S storage base fi os =
     (case os_Readlink S (base @ st_Name fi) os of
        (os, Inl err) \<Rightarrow> (os, Inl err)
      | (os, Inr target) \<Rightarrow>
          if target = [] then (os, Inl (NonSys ''index out of range''))
          else let target = (if target ! 0 \<noteq> CHR ''/'' then Clean (base @ target) else target)
          in if HasPrefix target storage then (os, Inr (fi, st_MTime fi))
             else Stat S (base @ st_Name fi) True os)"

definition ensureDirBase :: "string \<Rightarrow> string" where
  "ensureDirBase path = (if HasSuffix path ''/'' then path else path @ ''/'')"

definition lookupDirent :: "'os sys \<Rightarrow> ('os, 'ws) session \<Rightarrow> string \<Rightarrow> os_DirEntry \<Rightarrow> ('os, Dirent) sysop" where
  "lookupDirent S s dirBase dirent os =
     (case Stat S (dirBase @ ent_Name dirent) False os of
        (os, Inl err) \<Rightarrow> (os, Inl err)
      | (os, Inr (fi, mtime)) \<Rightarrow>
          (case (if st_Mode fi AND ModeSymlink \<noteq> 0
                 then restrictingSymlinkByFileInfo S (s_storage s) dirBase fi os
                 else (os, Inr (fi, mtime))) of
             (os, Inl err) \<Rightarrow> (os, Inl err)
           | (os, Inr (fi, mtime)) \<Rightarrow> (os, Inr
               \<lparr>de_Name = ent_Name dirent, de_Size = st_Size fi, de_MTime = mtime, de_Mode = st_Mode fi,
                de_Owner = convOwner s fi\<rparr>)))"

definition getAttr :: "'os sys \<Rightarrow> string \<Rightarrow> string \<Rightarrow> ('os, os_FileInfo \<times> Timespec) sysop" where
  "getAttr S storage apath os =
     (case Stat S apath False os of
        (os, Inl err) \<Rightarrow> (os, Inl err)
      | (os, Inr (fi, mtime)) \<Rightarrow>
          if st_Mode fi AND ModeSymlink = 0 then (os, Inr (fi, mtime))
          else restrictingSymlinkByFileInfo S storage (Dir apath @ ''/'') fi os)"

text \<open>The dirent sent for an entry that cannot be looked up.\<close>

definition irregularDirent :: "string \<Rightarrow> Dirent" where
  "irregularDirent name =
     \<lparr>de_Name = name, de_Size = 0, de_MTime = \<lparr>ts_Seconds = 0, ts_Nanoseconds = 0\<rparr>,
      de_Mode = ModeIrregular, de_Owner = OWNER_NN\<rparr>"

definition lookupDirentSafe :: "'os sys \<Rightarrow> ('os, 'ws) session \<Rightarrow> string \<Rightarrow> os_DirEntry \<Rightarrow> 'os \<Rightarrow> 'os \<times> Dirent" where
  "lookupDirentSafe S s dirBase entry os = (case lookupDirent S s dirBase entry os of
       (os, Inl _) \<Rightarrow> (os, irregularDirent (ent_Name entry))
     | (os, Inr wdirent) \<Rightarrow> (os, wdirent))"

definition cmdGetAttr :: "('os, 'ws) env \<Rightarrow> u8 \<Rightarrow> CmdGetAttrStruct \<Rightarrow> ('os, 'ws) handler" where
  "cmdGetAttr E clientMark req s =
     (if \<not> IsUrlValid (GetAttr_Path req) then bad_path E clientMark s
      else case on_os (getAttr (E_sys E) (s_storage s) (s_storage s @ GetAttr_Path req)) s of
          (s, Inl err) \<Rightarrow> writeRspError E clientMark (osErrCode err) ''syscall error'' s
        | (s, Inr (fi, mtime)) \<Rightarrow> rspWith E clientMark ErrorOK (WriteRspGetAttrToWriter (ws_Write (E_ws E))
            \<lparr>RspGetAttr_FI = makeWSFSFileInfo fi mtime (convOwner s fi)\<rparr>) s)"

text \<open>
  The inner loop of \<^verbatim>\<open>cmdReadDir\<close> over one batch of entries, with the response buffer \<open>rsp\<close>. Encoding
  errors are ignored, as in the source.
\<close>

definition partial_header :: "u8 \<Rightarrow> bytes" where
  "partial_header clientMark = [clientMark, ErrorPartialResponse]"

fun readDir_entries :: "('os, 'ws) env \<Rightarrow> u8 \<Rightarrow> string \<Rightarrow> os_DirEntry list \<Rightarrow> Buffer \<Rightarrow> ('os, 'ws) session \<Rightarrow>
    (Buffer \<times> ('os, 'ws) session) option" where
  "readDir_entries E clientMark dirBase [] rsp s = Some (rsp, s)"
| "readDir_entries E clientMark dirBase (dirent # ds) rsp s =
     (let (os, wdirent) = lookupDirentSafe (E_sys E) s dirBase dirent (s_os s); s = s\<lparr>s_os := os\<rparr>
      in do {
        (rsp, s) \<leftarrow>
          (if Buffer_Written rsp + GetDirentRequiredSize wdirent > MaxMsgSize then do {
             s \<leftarrow> s_write E (snd (Buffer_Done rsp)) s;
             Some (fst (Buffer_write_op (partial_header clientMark) (fst (Buffer_Done rsp))), s)}
           else Some (rsp, s));
        readDir_entries E clientMark dirBase ds (fst (WriteDirentToWriter Buffer_write_op wdirent rsp)) s})"

partial_function (option) readDir_loop :: "('os, 'ws) env \<Rightarrow> u8 \<Rightarrow> string \<Rightarrow> int \<Rightarrow> Buffer \<Rightarrow>
    ('os, 'ws) session \<Rightarrow> ('os, 'ws) session option" where
  "readDir_loop E clientMark dirBase f rsp s =
     (case os_ReadDir (E_sys E) f 16 (s_os s) of (os, dirents, readdirerr) \<Rightarrow>
        let s = s\<lparr>s_os := os\<rparr>
        in case readdirerr of
             Some (RdErr err) \<Rightarrow> writeRspError E clientMark (osErrCode err) ''read dir failed'' s
           | _ \<Rightarrow> Option.bind (readDir_entries E clientMark dirBase dirents rsp s) (\<lambda>(rsp, s).
               if length dirents = 0 \<or> readdirerr = Some RdEOF
               then s_write E (snd (Buffer_Done (rsp\<lparr>buf_Bytes := (buf_Bytes rsp)[1 := ErrorOK]\<rparr>))) s
               else readDir_loop E clientMark dirBase f rsp s))"

definition cmdReadDir :: "('os, 'ws) env \<Rightarrow> u8 \<Rightarrow> CmdReadDirStruct \<Rightarrow> ('os, 'ws) handler" where
  "cmdReadDir E clientMark req s =
     (if \<not> IsUrlValid (ReadDir_Path req) then bad_path E clientMark s
      else let apath = s_storage s @ ReadDir_Path req; dirBase = ensureDirBase apath
        in case on_os (os_Open (E_sys E) apath) s of
             (s, Inl err) \<Rightarrow> writeRspError E clientMark (osErrCode err) ''open dir failed'' s
           | (s, Inr f) \<Rightarrow> do {
               s \<leftarrow> readDir_loop E clientMark dirBase f
                 (fst (Buffer_write_op (partial_header clientMark) bufPool_Get)) s;
               Some (fst (on_os (os_CloseFile (E_sys E) f) s))})"

section \<open>Directory listing with prefetch (commands.go)\<close>

definition writeDirentChunk :: "('os, 'ws) env \<Rightarrow> u8 \<Rightarrow> Dirent \<Rightarrow> Buffer \<Rightarrow> ('os, 'ws) session \<Rightarrow>
    (Buffer \<times> ('os, 'ws) session) option" where
  "writeDirentChunk E clientMark wdirent rsp s = do {
     (rsp, s) \<leftarrow>
       (if Buffer_Written rsp + (1 + GetDirentRequiredSize wdirent) > MaxMsgSize then do {
          s \<leftarrow> s_write E (snd (Buffer_Done rsp)) s;
          Some (fst (Buffer_write_op (partial_header clientMark) (fst (Buffer_Done rsp))), s)}
        else Some (rsp, s));
     Some (fst (WriteDirentToWriter Buffer_write_op wdirent
       (fst (Buffer_write_op [READDIRPLUS_INDICATOR_CONTINUE] rsp))), s)}"

definition writePrefetchIndicator :: "('os, 'ws) env \<Rightarrow> u8 \<Rightarrow> u8 \<Rightarrow> Buffer \<Rightarrow> ('os, 'ws) session \<Rightarrow>
    (Buffer \<times> ('os, 'ws) session) option" where
  "writePrefetchIndicator E clientMark indicator rsp s = do {
     (rsp, s) \<leftarrow>
       (if Buffer_Written rsp + 1 > MaxMsgSize then do {
          s \<leftarrow> s_write E (snd (Buffer_Done rsp)) s;
          Some (fst (Buffer_write_op (partial_header clientMark) (fst (Buffer_Done rsp))), s)}
        else Some (rsp, s));
     Some (fst (Buffer_write_op [indicator] rsp), s)}"

abbreviation (input) maxRootEntriesForPrefetch :: nat where "maxRootEntriesForPrefetch \<equiv> 500"
abbreviation (input) maxPrefetchDirEntries :: nat where "maxPrefetchDirEntries \<equiv> 1000"
abbreviation (input) maxPrefetchDirs :: nat where "maxPrefetchDirs \<equiv> 32"

record prefetchDirState =
  pf_absPath :: string
  pf_file :: int
  pf_pending :: "os_DirEntry list"
  pf_count :: nat

definition preparePrefetchDir :: "'os sys \<Rightarrow> string \<Rightarrow> os_DirEntry \<Rightarrow> ('os, prefetchDirState) sysop" where
  "preparePrefetchDir S dirBase entry os =
     (let childAbsPath = dirBase @ ent_Name entry @ ''/''
      in case os_Open S childAbsPath os of
           (os, Inl err) \<Rightarrow> (os, Inl err)
         | (os, Inr cf) \<Rightarrow>
             (case os_ReadDir S cf 16 os of
                (os, entries, Some (RdErr readErr)) \<Rightarrow> (fst (os_CloseFile S cf os), Inl readErr)
              | (os, entries, _) \<Rightarrow> (os, Inr \<lparr>pf_absPath = childAbsPath, pf_file = cf, pf_pending = entries, pf_count = 0\<rparr>)))"

text \<open>
  \<^verbatim>\<open>nextPrefetchDir\<close> on the entries from index \<open>i\<close> on. The result is the number of directories used,
  the state, none, or an error, and the next index.
\<close>

fun nextPrefetchDir :: "'os sys \<Rightarrow> string \<Rightarrow> os_DirEntry list \<Rightarrow> nat \<Rightarrow> nat \<Rightarrow> 'os \<Rightarrow>
    'os \<times> nat \<times> (oserror + prefetchDirState option) \<times> nat" where
  "nextPrefetchDir S dirBase [] i used os = (os, used, Inr None, i)"
| "nextPrefetchDir S dirBase (e # es) i used os =
     (if used \<ge> maxPrefetchDirs then (os, used, Inr None, i)
      else if \<not> ent_IsDir e then nextPrefetchDir S dirBase es (i + 1) used os
      else case preparePrefetchDir S dirBase e os of
          (os, Inl err) \<Rightarrow> (os, used + 1, Inl err, i + 1)
        | (os, Inr state) \<Rightarrow> (os, used + 1, Inr (Some state), i + 1))"

text \<open>The loop over the pending entries; the first component is true when the limit is exceeded.\<close>

fun streamPending :: "('os, 'ws) env \<Rightarrow> u8 \<Rightarrow> string \<Rightarrow> os_DirEntry list \<Rightarrow> nat \<Rightarrow> Buffer \<Rightarrow> ('os, 'ws) session \<Rightarrow>
    (bool \<times> nat \<times> Buffer \<times> ('os, 'ws) session) option" where
  "streamPending E clientMark absPath [] count rsp s = Some (False, count, rsp, s)"
| "streamPending E clientMark absPath (entry # es) count rsp s =
     (if count + 1 > maxPrefetchDirEntries then Some (True, count + 1, rsp, s)
      else let (os, wdirent) = lookupDirentSafe (E_sys E) s absPath entry (s_os s) in do {
        (rsp, s) \<leftarrow> writeDirentChunk E clientMark wdirent rsp (s\<lparr>s_os := os\<rparr>);
        streamPending E clientMark absPath es (count + 1) rsp s})"

partial_function (option) streamPrefetchDir_loop :: "('os, 'ws) env \<Rightarrow> u8 \<Rightarrow> prefetchDirState \<Rightarrow> Buffer \<Rightarrow>
    ('os, 'ws) session \<Rightarrow> (bool \<times> Buffer \<times> ('os, 'ws) session) option" where
  "streamPrefetchDir_loop E clientMark state rsp s =
     Option.bind (streamPending E clientMark (pf_absPath state) (pf_pending state) (pf_count state) rsp s)
       (\<lambda>(over, count, rsp, s).
          if over then Some (True, rsp, s)
          else case os_ReadDir (E_sys E) (pf_file state) 16 (s_os s) of (os, entries, err) \<Rightarrow>
            let s = s\<lparr>s_os := os\<rparr>
            in case err of
                 Some RdEOF \<Rightarrow> Some (False, rsp, s)
               | Some (RdErr _) \<Rightarrow> Some (True, rsp, s)
               | None \<Rightarrow> streamPrefetchDir_loop E clientMark (state\<lparr>pf_pending := entries, pf_count := count\<rparr>) rsp s)"

definition streamPrefetchDir :: "('os, 'ws) env \<Rightarrow> u8 \<Rightarrow> prefetchDirState \<Rightarrow> Buffer \<Rightarrow>
    ('os, 'ws) session \<Rightarrow> (bool \<times> Buffer \<times> ('os, 'ws) session) option" where
  "streamPrefetchDir E clientMark state rsp s = do {
     (failed, rsp, s) \<leftarrow> streamPrefetchDir_loop E clientMark state rsp s;
     Some (failed, rsp, fst (on_os (os_CloseFile (E_sys E) (pf_file state)) s))}"

fun rootChunks :: "('os, 'ws) env \<Rightarrow> u8 \<Rightarrow> string \<Rightarrow> os_DirEntry list \<Rightarrow> Buffer \<Rightarrow> ('os, 'ws) session \<Rightarrow>
    (Buffer \<times> ('os, 'ws) session) option" where
  "rootChunks E clientMark dirBase [] rsp s = Some (rsp, s)"
| "rootChunks E clientMark dirBase (entry # es) rsp s =
     (let (os, wdirent) = lookupDirentSafe (E_sys E) s dirBase entry (s_os s) in do {
        (rsp, s) \<leftarrow> writeDirentChunk E clientMark wdirent rsp (s\<lparr>s_os := os\<rparr>);
        rootChunks E clientMark dirBase es rsp s})"

text \<open>The loop reading the remaining root entries; \<open>Inl\<close> is an error that ends the handler.\<close>

partial_function (option) rootMore :: "('os, 'ws) env \<Rightarrow> u8 \<Rightarrow> string \<Rightarrow> int \<Rightarrow> Buffer \<Rightarrow> ('os, 'ws) session \<Rightarrow>
    ((oserror + Buffer) \<times> ('os, 'ws) session) option" where
  "rootMore E clientMark dirBase f rsp s =
     (case os_ReadDir (E_sys E) f 16 (s_os s) of (os, ents, err) \<Rightarrow>
        Option.bind (rootChunks E clientMark dirBase ents rsp (s\<lparr>s_os := os\<rparr>)) (\<lambda>(rsp, s).
          case err of
            Some (RdErr e) \<Rightarrow> Some (Inl e, s)
          | Some RdEOF \<Rightarrow> Some (Inr rsp, s)
          | None \<Rightarrow> if length ents = 0 then Some (Inr rsp, s) else rootMore E clientMark dirBase f rsp s))"

text \<open>
  The prefetch loops. \<open>cur\<close> is none at the head of the outer loop, and the response buffer with the
  directory being streamed inside the inner loop.
\<close>

partial_function (option) prefetchLoop :: "('os, 'ws) env \<Rightarrow> u8 \<Rightarrow> string \<Rightarrow> os_DirEntry list \<Rightarrow> nat \<Rightarrow> nat \<Rightarrow>
    (Buffer \<times> prefetchDirState) option \<Rightarrow> ('os, 'ws) session \<Rightarrow> ('os, 'ws) session option" where
  "prefetchLoop E clientMark dirBase first idx prefetchCount cur s =
     (case cur of
        None \<Rightarrow>
          if idx < length first \<and> prefetchCount < maxPrefetchDirs then
            (case nextPrefetchDir (E_sys E) dirBase (drop idx first) idx prefetchCount (s_os s) of
               (os, prefetchCount, r, idx) \<Rightarrow>
                 (let s = s\<lparr>s_os := os\<rparr>
                  in case r of
                       Inl _ \<Rightarrow> writeRspError E clientMark ErrorIO ''read prefetch dir failed'' s
                     | Inr None \<Rightarrow> prefetchLoop E clientMark dirBase first idx prefetchCount None s
                     | Inr (Some state) \<Rightarrow>
                         Option.bind (writePrefetchIndicator E clientMark READDIRPLUS_INDICATOR_PREFETCH
                             (fst (Buffer_write_op (partial_header clientMark) bufPool_Get)) s)
                           (\<lambda>(rsp, s). prefetchLoop E clientMark dirBase first idx prefetchCount (Some (rsp, state)) s)))
          else writeRspOK E clientMark s
      | Some (rsp, state) \<Rightarrow>
          Option.bind (streamPrefetchDir E clientMark state rsp s) (\<lambda>(failed, rsp, s).
            if \<not> failed then
              Option.bind (s_write E (snd (Buffer_Done rsp)) s) (\<lambda>s.
                prefetchLoop E clientMark dirBase first idx prefetchCount None s)
            else
              (case nextPrefetchDir (E_sys E) dirBase (drop idx first) idx prefetchCount (s_os s) of
                 (os, prefetchCount, r, idx) \<Rightarrow>
                   (let s = s\<lparr>s_os := os\<rparr>
                    in case r of
                         Inr (Some nextState) \<Rightarrow>
                           Option.bind (writePrefetchIndicator E clientMark READDIRPLUS_INDICATOR_PREFETCH_SKIP rsp s)
                             (\<lambda>(rsp, s). prefetchLoop E clientMark dirBase first idx prefetchCount (Some (rsp, nextState)) s)
                       | _ \<Rightarrow> writeRspError E clientMark ErrorIO ''read prefetch dir failed'' s))))"

text \<open>The part of \<^verbatim>\<open>cmdReadDirPlus\<close> after the directory has been opened.\<close>

definition readDirPlus_opened :: "('os, 'ws) env \<Rightarrow> u8 \<Rightarrow> string \<Rightarrow> int \<Rightarrow> ('os, 'ws) handler" where
  "readDirPlus_opened E clientMark dirBase f s =
     (case os_ReadDir (E_sys E) f (maxRootEntriesForPrefetch + 1) (s_os s) of (os, first, err) \<Rightarrow>
        let s = s\<lparr>s_os := os\<rparr>
        in case err of
             Some (RdErr e) \<Rightarrow> writeRspError E clientMark (osErrCode e) ''read dir failed'' s
           | _ \<Rightarrow> do {
               (rsp, s) \<leftarrow> rootChunks E clientMark dirBase first
                 (fst (Buffer_write_op (partial_header clientMark) bufPool_Get)) s;
               (r, s) \<leftarrow> rootMore E clientMark dirBase f rsp s;
               case r of
                 Inl e \<Rightarrow> writeRspError E clientMark (osErrCode e) ''read dir failed'' s
               | Inr rsp \<Rightarrow>
                   if length first > maxRootEntriesForPrefetch then
                     s_write E (snd (Buffer_Done (rsp\<lparr>buf_Bytes := (buf_Bytes rsp)[1 := ErrorOK]\<rparr>))) s
                   else do {
                     s \<leftarrow> s_write E (snd (Buffer_Done rsp)) s;
                     prefetchLoop E clientMark dirBase first 0 0 None s}})"

definition cmdReadDirPlus :: "('os, 'ws) env \<Rightarrow> u8 \<Rightarrow> CmdReadDirPlusStruct \<Rightarrow> ('os, 'ws) handler" where
  "cmdReadDirPlus E clientMark req s =
     (if \<not> IsUrlValid (ReadDirPlus_Path req) then bad_path E clientMark s
      else let apath = s_storage s @ ReadDirPlus_Path req; dirBase = ensureDirBase apath
        in case on_os (os_Open (E_sys E) apath) s of
             (s, Inl err) \<Rightarrow> writeRspError E clientMark (osErrCode err) ''open dir failed'' s
           | (s, Inr f) \<Rightarrow> do {
               s \<leftarrow> readDirPlus_opened E clientMark dirBase f s;
               Some (fst (on_os (os_CloseFile (E_sys E) f) s))})"

section \<open>Extended attributes (commands.go)\<close>

definition isXAttrKeyAllowed :: "string list \<Rightarrow> string \<Rightarrow> bool" where
  "isXAttrKeyAllowed allowed key \<longleftrightarrow> list_ex (HasPrefix key) allowed"

text \<open>The loop of \<^verbatim>\<open>filterXAttrList\<close> over the rest of the list; \<open>None\<close> is \<^verbatim>\<open>errInvalidXAttrList\<close>.\<close>

function filterXAttr_loop :: "string list \<Rightarrow> bytes \<Rightarrow> bytes \<Rightarrow> bytes option" where
  "filterXAttr_loop allowed data filtered =
     (if data = [] then Some filtered
      else case IndexByte data 0 of
          None \<Rightarrow> None
        | Some e \<Rightarrow> if e = 0 then None
            else filterXAttr_loop allowed (drop (e + 1) data)
              (if isXAttrKeyAllowed allowed (string_of (take e data)) then filtered @ take (e + 1) data else filtered))"
  by pat_completeness auto
termination
  by (relation "measure (\<lambda>(_, data, _). length data)") auto

declare filterXAttr_loop.simps [simp del]

definition filterXAttrList :: "string list \<Rightarrow> bytes \<Rightarrow> bytes option" where
  "filterXAttrList allowed data =
     (if length data = 0 then Some data
      else if data ! (length data - 1) \<noteq> 0 then None
      else filterXAttr_loop allowed data [])"

abbreviation (input) maxXAttrResponsePayload :: nat where "maxXAttrResponsePayload \<equiv> 8190"

text \<open>The loop of \<^verbatim>\<open>writeXAttrData\<close>, with the pooled buffer.\<close>

function writeXAttrData_loop :: "('os, 'ws) env \<Rightarrow> u8 \<Rightarrow> bytes \<Rightarrow> Buffer \<Rightarrow> ('os, 'ws) handler" where
  "writeXAttrData_loop E clientMark data buf s =
     (if length data > maxXAttrResponsePayload then
        (let buf = fst (Buffer_write_op (partial_header clientMark) buf);
             buf = fst (Buffer_write_op (take maxXAttrResponsePayload data) buf)
         in case s_write E (snd (Buffer_Done buf)) s of
              None \<Rightarrow> None
            | Some s \<Rightarrow> writeXAttrData_loop E clientMark (drop maxXAttrResponsePayload data) (fst (Buffer_Done buf)) s)
      else
        (let buf = fst (Buffer_write_op [clientMark, ErrorOK] buf);
             buf = fst (Buffer_write_op data buf)
         in s_write E (snd (Buffer_Done buf)) s))"
  by pat_completeness auto
termination
  by (relation "measure (\<lambda>(_, _, data, _, _). length data)") auto

declare writeXAttrData_loop.simps [simp del]

definition writeXAttrData :: "('os, 'ws) env \<Rightarrow> u8 \<Rightarrow> bytes \<Rightarrow> ('os, 'ws) handler" where
  "writeXAttrData E clientMark data s =
     (if length data = 0 then writeRspOK E clientMark s
      else writeXAttrData_loop E clientMark data bufPool_Get s)"

text \<open>The checks that the three handlers with a key share.\<close>

definition xattr_checked :: "('os, 'ws) env \<Rightarrow> u8 \<Rightarrow> string \<Rightarrow> string \<Rightarrow> ('os, 'ws) handler \<Rightarrow> ('os, 'ws) handler" where
  "xattr_checked E clientMark path key k s =
     (if \<not> IsUrlValid path then bad_path E clientMark s
      else if key = [] \<or> IndexByte key (CHR 0x00) \<noteq> None then writeRspError E clientMark ErrorInvalid ''bad xattr key'' s
      else if \<not> isXAttrKeyAllowed (opt_AllowedXAttrPrefix (s_featureOpts s)) key then
        writeRspError E clientMark ErrorStateBlocked ''xattr key is not allowed'' s
      else k s)"

definition cmdSetXAttr :: "('os, 'ws) env \<Rightarrow> u8 \<Rightarrow> CmdSetXAttrStruct \<Rightarrow> ('os, 'ws) handler" where
  "cmdSetXAttr E clientMark req = xattr_checked E clientMark (SetXAttr_Path req) (SetXAttr_Key req) (\<lambda>s.
     case on_os (xattr_Set (E_unix E) (E_sys E) (s_storage s @ SetXAttr_Path req) (SetXAttr_Key req)
         (SetXAttr_Value req) (SetXAttr_Flag req)) s of
       (s, Inl err) \<Rightarrow> writeRspError E clientMark (xattrErrorCode err) ''xattr syscall error'' s
     | (s, Inr _) \<Rightarrow> writeRspOK E clientMark s)"

definition cmdGetXAttr :: "('os, 'ws) env \<Rightarrow> u8 \<Rightarrow> CmdGetXAttrStruct \<Rightarrow> ('os, 'ws) handler" where
  "cmdGetXAttr E clientMark req = xattr_checked E clientMark (GetXAttr_Path req) (GetXAttr_Key req) (\<lambda>s.
     case on_os (xattr_Get (E_sys E) (s_storage s @ GetXAttr_Path req) (GetXAttr_Key req) (GetXAttr_Mode req)) s of
       (s, Inl err) \<Rightarrow> writeRspError E clientMark (xattrErrorCode err) ''xattr syscall error'' s
     | (s, Inr data) \<Rightarrow> writeXAttrData E clientMark data s)"

definition cmdListXAttr :: "('os, 'ws) env \<Rightarrow> u8 \<Rightarrow> CmdListXAttrStruct \<Rightarrow> ('os, 'ws) handler" where
  "cmdListXAttr E clientMark req s =
     (if \<not> IsUrlValid (ListXAttr_Path req) then bad_path E clientMark s
      else case on_os (xattr_List (E_sys E) (s_storage s @ ListXAttr_Path req) (ListXAttr_Mode req)) s of
          (s, Inl err) \<Rightarrow> writeRspError E clientMark (xattrErrorCode err) ''xattr syscall error'' s
        | (s, Inr data) \<Rightarrow>
            (case filterXAttrList (opt_AllowedXAttrPrefix (s_featureOpts s)) data of
               None \<Rightarrow> writeRspError E clientMark ErrorIO ''bad xattr list'' s
             | Some data \<Rightarrow> writeXAttrData E clientMark data s))"

definition cmdRemoveXAttr :: "('os, 'ws) env \<Rightarrow> u8 \<Rightarrow> CmdRemoveXAttrStruct \<Rightarrow> ('os, 'ws) handler" where
  "cmdRemoveXAttr E clientMark req = xattr_checked E clientMark (RemoveXAttr_Path req) (RemoveXAttr_Key req) (\<lambda>s.
     case on_os (xattr_Remove (E_sys E) (s_storage s @ RemoveXAttr_Path req) (RemoveXAttr_Key req) (RemoveXAttr_Mode req)) s of
       (s, Inl err) \<Rightarrow> writeRspError E clientMark (xattrErrorCode err) ''xattr syscall error'' s
     | (s, Inr _) \<Rightarrow> writeRspOK E clientMark s)"

end
