(* ===== verification/Wsfs_Dispatch.thy ===== *)
theory Wsfs_Dispatch
  imports Wsfs_Server
begin

text \<open>
  The dispatcher of a running session: \<^verbatim>\<open>dispatchCommand\<close> and \<^verbatim>\<open>doCommandCall\<close>, the write streams, and the
  goroutines they start (\<^verbatim>\<open>commandCalls.go\<close>, \<^verbatim>\<open>commands.go\<close>, \<^verbatim>\<open>session.go\<close> under
  \<^verbatim>\<open>src/src/internal/server/wsfs\<close>). A server state is a session, the goroutines of the command group that
  have not run yet, and the messages not read yet. The step relation interleaves the read
  loop, the handler goroutines and the stream goroutines; a handler, and the treatment of one stream
  input, is one step, since each holds the connection only while it writes one response message.
\<close>

section \<open>Handler goroutines\<close>

text \<open>
  What the goroutine of a decoded request runs, with the deferred release of its fast buffer. The
  two stream commands are handled by the read loop itself and never get here.
\<close>

fun runCommand :: "('os, 'ws) env \<Rightarrow> u8 \<Rightarrow> command \<Rightarrow> ('os, 'ws) handler" where
  "runCommand E clientMark (ReqOpen req) s = cmdOpen E clientMark req s"
| "runCommand E clientMark (ReqClose req) s = cmdClose E clientMark req s"
| "runCommand E clientMark (ReqRead req) s = cmdRead E clientMark req s"
| "runCommand E clientMark (ReqReadDir req) s = cmdReadDir E clientMark req s"
| "runCommand E clientMark (ReqReadLink req) s = cmdReadLink E clientMark req s"
| "runCommand E clientMark (ReqWrite req) s = map_option releaseFastBuffer (cmdWrite E clientMark req s)"
| "runCommand E clientMark (ReqSeek req) s = cmdSeek E clientMark req s"
| "runCommand E clientMark (ReqAllocate req) s = cmdAllocate E clientMark req s"
| "runCommand E clientMark (ReqGetAttr req) s = cmdGetAttr E clientMark req s"
| "runCommand E clientMark (ReqSetAttr req) s = cmdSetAttr E clientMark req s"
| "runCommand E clientMark (ReqSync req) s = cmdSync E clientMark req s"
| "runCommand E clientMark (ReqMkdir req) s = cmdMkdir E clientMark req s"
| "runCommand E clientMark (ReqSymLink req) s = cmdSymLink E clientMark req s"
| "runCommand E clientMark (ReqRemove req) s = cmdRemove E clientMark req s"
| "runCommand E clientMark (ReqRmDir req) s = cmdRmDir E clientMark req s"
| "runCommand E clientMark (ReqFsStat req) s = cmdFsStat E clientMark req s"
| "runCommand E clientMark (ReqReadAt req) s = cmdReadAt E clientMark req s"
| "runCommand E clientMark (ReqWriteAt req) s = map_option releaseFastBuffer (cmdWriteAt E clientMark req s)"
| "runCommand E clientMark (ReqCopyFileRange req) s = cmdCopyFileRange E clientMark req s"
| "runCommand E clientMark (ReqRename req) s = cmdRename E clientMark req s"
| "runCommand E clientMark (ReqSetAttrByFD req) s = cmdSetAttrByFD E clientMark req s"
| "runCommand E clientMark (ReqReadDirPlus req) s = cmdReadDirPlus E clientMark req s"
| "runCommand E clientMark (ReqCloneFileRange req) s = cmdCloneFileRange E clientMark req s"
| "runCommand E clientMark (ReqGetFileLock req) s = cmdGetFileLock E clientMark req s"
| "runCommand E clientMark (ReqSetFileLock req) s = cmdSetFileLock E clientMark req s"
| "runCommand E clientMark (ReqSetFileLockWait req) s = cmdSetFileLockWait E clientMark req s"
| "runCommand E clientMark (ReqLink req) s = cmdLink E clientMark req s"
| "runCommand E clientMark (ReqSetXAttr req) s = map_option releaseFastBuffer (cmdSetXAttr E clientMark req s)"
| "runCommand E clientMark (ReqGetXAttr req) s = cmdGetXAttr E clientMark req s"
| "runCommand E clientMark (ReqListXAttr req) s = cmdListXAttr E clientMark req s"
| "runCommand E clientMark (ReqRemoveXAttr req) s = cmdRemoveXAttr E clientMark req s"
| "runCommand E clientMark (ReqWriteStreamOpen req) s = Some s"
| "runCommand E clientMark (ReqWriteStreamData req) s = Some s"

section \<open>State\<close>

record ('os, 'ws) server =
  sv_session :: "('os, 'ws) session"
  sv_pending :: "(u8 \<times> command) list"
  sv_inbox :: "bytes list"

abbreviation (input) cmdGroupLimit :: nat where "cmdGroupLimit \<equiv> 64"

text \<open>Goroutines of the command group: handlers and stream goroutines.\<close>

definition cmdGroup_size :: "('os, 'ws) server \<Rightarrow> nat" where
  "cmdGroup_size sv = length (sv_pending sv) + length (s_writeStreams (sv_session sv))"

definition on_session :: "('os, 'ws) handler \<Rightarrow> ('os, 'ws) server \<Rightarrow> ('os, 'ws) server option" where
  "on_session h sv = map_option (\<lambda>s. sv\<lparr>sv_session := s\<rparr>) (h (sv_session sv))"

section \<open>Write streams\<close>

definition cmdWriteStreamOpen :: "('os, 'ws) env \<Rightarrow> u8 \<Rightarrow> CmdWriteStreamOpenStruct \<Rightarrow> ('os, 'ws) server \<Rightarrow> ('os, 'ws) server option" where
  "cmdWriteStreamOpen E clientMark req sv =
     (let s = sv_session sv
      in case map_of (s_fds s) (WriteStreamOpen_FD req) of
           None \<Rightarrow> on_session (\<lambda>s. writeRspError E clientMark ErrorInvalidFD ''bad fd'' (releaseFastBuffer s)) sv
         | Some sfd \<Rightarrow>
             if map_of (s_writeStreams s) clientMark \<noteq> None then
               on_session (\<lambda>s. writeRspError E clientMark ErrorInvalid ''write stream already open'' (releaseFastBuffer s)) sv
             else if cmdGroup_size sv \<ge> cmdGroupLimit then None
             else let st = \<lparr>str_fd = sfd, str_offset = WriteStreamOpen_Offset req, str_written = 0, str_errSent = False,
                     str_input = [\<lparr>wsi_data = WriteStreamOpen_Data req, wsi_isEnd = False\<rparr>], str_done = False\<rparr>
               in Some (sv\<lparr>sv_session := s\<lparr>s_writeStreams := (clientMark, st) # s_writeStreams s\<rparr>\<rparr>))"

definition cmdWriteStreamData :: "('os, 'ws) env \<Rightarrow> u8 \<Rightarrow> CmdWriteStreamDataStruct \<Rightarrow> ('os, 'ws) server \<Rightarrow> ('os, 'ws) server option" where
  "cmdWriteStreamData E clientMark req sv =
     (let s = sv_session sv
      in case map_of (s_writeStreams s) clientMark of
           None \<Rightarrow> on_session (\<lambda>s. writeRspError E clientMark ErrorInvalid ''write stream not open'' (releaseFastBuffer s)) sv
         | Some st \<Rightarrow>
             if length (str_input st) \<ge> writeStreamInputBuffer then None
             else let inp = \<lparr>wsi_data = WriteStreamData_Data req, wsi_isEnd = (WriteStreamData_IsEnd req \<noteq> 0)\<rparr>
               in Some (sv\<lparr>sv_session := s\<lparr>s_writeStreams :=
                    AList.update clientMark (st\<lparr>str_input := str_input st @ [inp]\<rparr>) (s_writeStreams s)\<rparr>\<rparr>))"

text \<open>One iteration of the loop of \<^verbatim>\<open>run\<close> on the input \<open>msg\<close>, for the stream \<open>st\<close> without that input.\<close>

definition run_input :: "('os, 'ws) env \<Rightarrow> u8 \<Rightarrow> writeStreamInput \<Rightarrow> writeStream \<Rightarrow> ('os, 'ws) session \<Rightarrow>
    (writeStream \<times> ('os, 'ws) session) option" where
  "run_input E clientMark msg st s = do {
     (st, s) \<leftarrow>
       (if length (wsi_data msg) > 0 \<and> \<not> str_errSent st then do {
          (os, written, errCode, errDesc, ok) \<leftarrow>
            writeStreamWriteChunk (E_sys E) (str_fd st) (str_offset st) (wsi_data msg) (s_os s);
          let s = s\<lparr>s_os := os\<rparr>;
          let st = st\<lparr>str_offset := str_offset st + written, str_written := str_written st + written\<rparr>;
          if ok then Some (st, s)
          else do {
            s \<leftarrow> writeRspError E clientMark errCode errDesc s;
            Some (st\<lparr>str_errSent := True\<rparr>, s)}}
        else Some (st, s));
     let s = releaseFastBuffer s;
     if wsi_isEnd msg then do {
       s \<leftarrow> writeRspWriteStreamClose E clientMark (str_written st) s;
       Some (st\<lparr>str_done := True\<rparr>, s)}
     else Some (st, s)}"

section \<open>Dispatch\<close>

definition usesFastBuffer :: "u8 \<Rightarrow> bool" where
  "usesFastBuffer cmd \<longleftrightarrow> cmd \<in> {CmdWrite, CmdWriteAt, CmdWriteStreamOpen, CmdWriteStreamData, CmdSetXAttr}"

text \<open>Where a decoded request goes.\<close>

definition startCommand :: "('os, 'ws) env \<Rightarrow> u8 \<Rightarrow> command \<Rightarrow> ('os, 'ws) server \<Rightarrow> ('os, 'ws) server option" where
  "startCommand E clientMark c sv = (case c of
       ReqWriteStreamOpen req \<Rightarrow> cmdWriteStreamOpen E clientMark req sv
     | ReqWriteStreamData req \<Rightarrow> cmdWriteStreamData E clientMark req sv
     | _ \<Rightarrow> if cmdGroup_size sv \<ge> cmdGroupLimit then None
         else Some (sv\<lparr>sv_pending := sv_pending sv @ [(clientMark, c)]\<rparr>))"

definition doCommandCall :: "('os, 'ws) env \<Rightarrow> u8 \<Rightarrow> u8 \<Rightarrow> reader \<Rightarrow> ('os, 'ws) server \<Rightarrow> (reader \<times> ('os, 'ws) server) option" where
  "doCommandCall E clientMark cmd r sv = (case decodeCommand cmd of
       None \<Rightarrow> map_option (Pair r) (on_session (writeRspError E clientMark ErrorInvalid ''Unknown command'') sv)
     | Some p \<Rightarrow> do {
         sv \<leftarrow> (if usesFastBuffer cmd then on_session acquireFastBuffer sv else Some sv);
         case p r of
           (r, Inl _) \<Rightarrow> map_option (Pair r) (on_session (\<lambda>s. writeRspError E clientMark ErrorInvalid ''Bad command format''
               (if usesFastBuffer cmd then releaseFastBuffer s else s)) sv)
         | (r, Inr c) \<Rightarrow> map_option (Pair r) (startCommand E clientMark c sv)})"

text \<open>
  \<open>None\<close>: the read loop is blocked. The error of the result ends the read loop; the unread rest of the
  message is drained.
\<close>

definition dispatchCommand :: "('os, 'ws) env \<Rightarrow> reader \<Rightarrow> ('os, 'ws) server \<Rightarrow> (goerr option \<times> ('os, 'ws) server) option" where
  "dispatchCommand E r sv = (case io_ReadFull 2 r of
       (r, Inl err) \<Rightarrow> Some (Some err, sv)
     | (r, Inr header) \<Rightarrow> do {
         (r, sv) \<leftarrow> doCommandCall E (header ! 0) (header ! 1) r sv;
         Some (if rd_err r = EOF then None else Some (rd_err r), sv)})"

section \<open>Steps of a running session\<close>

inductive server_step :: "('os, 'ws) env \<Rightarrow> ('os, 'ws) server \<Rightarrow> ('os, 'ws) server \<Rightarrow> bool" for E where
  recv: "\<lbrakk>sv_inbox sv = msg # rest; rd_data r = msg; rd_err r = EOF; rd_wf r;
      dispatchCommand E r (sv\<lparr>sv_inbox := rest\<rparr>) = Some (None, sv')\<rbrakk>
    \<Longrightarrow> server_step E sv sv'"
| job: "\<lbrakk>sv_pending sv = xs @ (m, c) # ys; runCommand E m c (sv_session sv) = Some s'\<rbrakk>
    \<Longrightarrow> server_step E sv (sv\<lparr>sv_session := s', sv_pending := xs @ ys\<rparr>)"
| stream: "\<lbrakk>map_of (s_writeStreams (sv_session sv)) m = Some st; \<not> str_done st; str_input st = msg # rest;
      run_input E m msg (st\<lparr>str_input := rest\<rparr>) (sv_session sv) = Some (st', s')\<rbrakk>
    \<Longrightarrow> server_step E sv (sv\<lparr>sv_session := s'\<lparr>s_writeStreams := AList.update m st' (s_writeStreams s')\<rparr>\<rparr>)"
| finish: "\<lbrakk>map_of (s_writeStreams (sv_session sv)) m = Some st; str_done st\<rbrakk>
    \<Longrightarrow> server_step E sv (sv\<lparr>sv_session :=
          (sv_session sv)\<lparr>s_writeStreams := AList.delete m (s_writeStreams (sv_session sv))\<rparr>\<rparr>)"

text \<open>Client messages arrive at any time.\<close>

inductive server_reach :: "('os, 'ws) env \<Rightarrow> ('os, 'ws) server \<Rightarrow> ('os, 'ws) server \<Rightarrow> bool" for E where
  start: "server_reach E sv sv"
| arrive: "server_reach E sv sv' \<Longrightarrow> server_reach E sv (sv'\<lparr>sv_inbox := sv_inbox sv' @ [msg]\<rparr>)"
| step: "server_reach E sv sv' \<Longrightarrow> server_step E sv' sv'' \<Longrightarrow> server_reach E sv sv''"

end
