(* ===== verification/Wsfs_Server_Replies.thy ===== *)
theory Wsfs_Server_Replies
  imports Wsfs_Dispatch
begin

text \<open>
  What the client receives for a command. On a connection that does not fail, and with an operating
  system that keeps its documented promises, every handler returns and sends a well-formed response
  sequence: partial responses, then exactly one final response, all labelled with the mark
  of the command and none longer than the protocol allows.
\<close>

section \<open>Response sequences\<close>

definition is_partial :: "u8 \<Rightarrow> bytes \<Rightarrow> bool" where
  "is_partial m msg \<longleftrightarrow> (\<exists>bs. msg = m # ErrorPartialResponse # bs) \<and> length msg \<le> MaxResponseLength"

definition is_final :: "u8 \<Rightarrow> bytes \<Rightarrow> bool" where
  "is_final m msg \<longleftrightarrow> (\<exists>ec bs. msg = m # ec # bs \<and> ec \<noteq> ErrorPartialResponse) \<and> length msg \<le> MaxResponseLength"

definition response_seq :: "u8 \<Rightarrow> bytes list \<Rightarrow> bool" where
  "response_seq m msgs \<longleftrightarrow> (\<exists>ps f. msgs = ps @ [f] \<and> list_all (is_partial m) ps \<and> is_final m f)"

lemma response_seq_final: "is_final m f \<Longrightarrow> response_seq m [f]"
  by (auto simp: response_seq_def)

lemma response_seq_partials: "list_all (is_partial m) ps \<Longrightarrow> response_seq m msgs \<Longrightarrow> response_seq m (ps @ msgs)"
  by (auto simp: response_seq_def)

section \<open>Sending\<close>

text \<open>\<open>sends\<close>: the session after sending \<open>msgs\<close>, where descriptors and operating system may have changed.\<close>

definition sends :: "('ws \<Rightarrow> bytes list) \<Rightarrow> ('os, 'ws) session \<Rightarrow> ('os, 'ws) session \<Rightarrow> bytes list \<Rightarrow> bool" where
  "sends sent s s' msgs \<longleftrightarrow>
     healthy s' \<and> s_storage s' = s_storage s \<and> s_fsIds s' = s_fsIds s \<and> s_featureOpts s' = s_featureOpts s
     \<and> s_writeStreams s' = s_writeStreams s \<and> s_fastBuffers s' = s_fastBuffers s
     \<and> sent (s_ws s') = sent (s_ws s) @ msgs"

lemma sends_trans: "sends sent s s' ms \<Longrightarrow> sends sent s' s'' ms' \<Longrightarrow> sends sent s s'' (ms @ ms')"
  by (simp add: sends_def)

lemma sends_emits: "healthy s \<Longrightarrow> emits sent s s' ms \<Longrightarrow> sends sent s s' ms"
  by (simp add: sends_def emits_fields)

lemma sends_healthy: "sends sent s s' ms \<Longrightarrow> healthy s'"
  by (simp add: sends_def)

lemma healthy_os [simp]: "healthy (s\<lparr>s_os := os\<rparr>) = healthy s" "healthy (s\<lparr>s_fds := fds\<rparr>) = healthy s"
  "healthy (s\<lparr>s_fdLast := l\<rparr>) = healthy s"
  by (simp_all add: healthy_def)

lemma sends_os: "healthy s \<Longrightarrow> sends sent s (s\<lparr>s_os := os\<rparr>) []"
  by (simp add: sends_def)

text \<open>\<open>replies\<close>: the handler returned, having sent a response sequence for mark \<open>m\<close>.\<close>

definition replies :: "('ws \<Rightarrow> bytes list) \<Rightarrow> u8 \<Rightarrow> ('os, 'ws) session \<Rightarrow> ('os, 'ws) session option \<Rightarrow> bool" where
  "replies sent m s r \<longleftrightarrow> (\<exists>s' msgs. r = Some s' \<and> sends sent s s' msgs \<and> response_seq m msgs)"

lemma replies_after:
  assumes "sends sent s s' ps" and "list_all (is_partial m) ps" and "replies sent m s' r"
  shows "replies sent m s r"
  using assms unfolding replies_def by (blast intro: response_seq_partials sends_trans)

lemma replies_upd [simp]:
  "replies sent m (s\<lparr>s_os := os\<rparr>) r = replies sent m s r"
  "replies sent m (s\<lparr>s_fds := fds\<rparr>) r = replies sent m s r"
  "replies sent m (s\<lparr>s_fds := fds, s_fdLast := l\<rparr>) r = replies sent m s r"
  by (simp_all add: replies_def sends_def)

lemma replies_emits:
  assumes "healthy s" and "\<exists>s'. r = Some s' \<and> emits sent s s' [f]" and "is_final m f"
  shows "replies sent m s r"
  using assms response_seq_final sends_emits unfolding replies_def by blast

lemma is_final_error: "ec \<noteq> ErrorPartialResponse \<Longrightarrow> is_final m (m # ec # wire_str (error_desc desc))"
  by (simp add: is_final_def error_desc_def)

text \<open>The two primitives that finish every handler.\<close>

lemma writeRspError_replies:
  assumes "ws_reliable (E_ws E) cur sent" and "healthy s" and "ec \<noteq> ErrorPartialResponse"
  shows "replies sent m s (writeRspError E m ec desc s)"
  by (rule replies_emits [OF assms(2) writeRspError_emits [OF assms(1,2)] is_final_error [OF assms(3)]])

lemma writeRspOK_replies:
  assumes "ws_reliable (E_ws E) cur sent" and "healthy s"
  shows "replies sent m s (writeRspOK E m s)"
  by (rule replies_emits [OF assms(2) writeRspOK_emits [OF assms]]) (simp add: is_final_def)

lemma rspWith_replies:
  assumes "ws_reliable (E_ws E) cur sent" and "healthy s" and "puts cur sent body bs"
    and "length bs \<le> 8190" and "ec \<noteq> ErrorPartialResponse"
  shows "replies sent m s (rspWith E m ec body s)"
  by (rule replies_emits [OF assms(2) rspWith_emits [OF assms(1-3)]]) (use assms(4,5) in \<open>simp add: is_final_def\<close>)

lemmas base_replies = writeRspError_replies writeRspOK_replies rspWith_replies

text \<open>The same after a system call.\<close>

lemma base_replies_os:
  assumes "ws_reliable (E_ws E) cur sent" and "healthy s"
  shows "ec \<noteq> ErrorPartialResponse \<Longrightarrow> replies sent m s (writeRspError E m ec desc (s\<lparr>s_os := os\<rparr>))"
    and "replies sent m s (writeRspOK E m (s\<lparr>s_os := os\<rparr>))"
    and "puts cur sent body bs \<Longrightarrow> length bs \<le> 8190 \<Longrightarrow> ec \<noteq> ErrorPartialResponse \<Longrightarrow>
      replies sent m s (rspWith E m ec body (s\<lparr>s_os := os\<rparr>))"
  using writeRspError_replies [OF assms(1), of "s\<lparr>s_os := os\<rparr>"] writeRspOK_replies [OF assms(1), of "s\<lparr>s_os := os\<rparr>"]
    rspWith_replies [OF assms(1), of "s\<lparr>s_os := os\<rparr>"] assms(2)
  by simp_all

lemma bad_path_replies:
  "ws_reliable (E_ws E) cur sent \<Longrightarrow> healthy s \<Longrightarrow> replies sent m s (bad_path E m s)"
  unfolding bad_path_def by (rule writeRspError_replies) simp_all

lemma with_fd_replies:
  assumes "ws_reliable (E_ws E) cur sent" and "healthy s"
    and "\<And>sfd. map_of (s_fds s) fd = Some sfd \<Longrightarrow> replies sent m s (k sfd s)"
  shows "replies sent m s (with_fd E m fd k s)"
  using assms by (auto simp: with_fd_def writeRspError_replies split: option.split)

lemma rsp_unit_replies:
  assumes "ws_reliable (E_ws E) cur sent" and "healthy s"
  shows "replies sent m s (rsp_unit E m (on_os f s))"
  using base_replies_os [OF assms]
  by (simp add: rsp_unit_def on_os_def wsfsErrCode_error split: prod.split sum.split)

lemma rsp_value_replies:
  assumes W: "ws_reliable (E_ws E) cur sent" and s: "healthy s"
    and b: "\<And>x. \<exists>bs. puts cur sent (body x) bs \<and> length bs \<le> 8190"
  shows "replies sent m s (rsp_value E m body (s\<lparr>s_os := os\<rparr>, r))"
proof (cases r)
  case (Inl e)
  then show ?thesis
    using base_replies_os(1) [OF W s] by (simp add: rsp_value_def wsfsErrCode_error)
next
  case (Inr x)
  obtain bs where "puts cur sent (body x) bs" "length bs \<le> 8190" using b by blast
  with Inr show ?thesis
    using base_replies_os(3) [OF W s] by (simp add: rsp_value_def)
qed

lemma rsp_value_on_os_replies:
  assumes "ws_reliable (E_ws E) cur sent" and "healthy s"
    and "\<And>x. \<exists>bs. puts cur sent (body x) bs \<and> length bs \<le> 8190"
  shows "replies sent m s (rsp_value E m body (on_os f s))"
  unfolding on_os_def by (cases "f (s_os s)") (simp add: rsp_value_replies [OF assms])

lemma setattr_step_replies:
  assumes "ws_reliable (E_ws E) cur sent" and "healthy s"
    and k: "\<And>s. healthy s \<Longrightarrow> replies sent m s (k s)"
  shows "replies sent m s (setattr_step E m c f k s)"
  using base_replies_os(1) [OF assms(1,2)] k [of s] k [of "s\<lparr>s_os := os\<rparr>" for os] assms(2)
  by (auto simp: setattr_step_def on_os_def wsfsErrCode_error split: prod.split sum.split)

section \<open>Response structs on the connection\<close>

lemma puts_WriteRsp:
  assumes W: "ws_reliable W cur sent"
  shows "puts cur sent (WriteRspOpenToWriter (ws_Write W) a) (wire_RspOpen a)"
    "puts cur sent (WriteRspWriteToWriter (ws_Write W) b) (wire_RspWrite b)"
    "puts cur sent (WriteRspSeekToWriter (ws_Write W) c) (wire_RspSeek c)"
    "puts cur sent (WriteRspGetAttrToWriter (ws_Write W) d) (wire_RspGetAttr d)"
    "puts cur sent (WriteRspFsStatToWriter (ws_Write W) e) (wire_RspFsStat e)"
    "puts cur sent (WriteRspWriteAtToWriter (ws_Write W) f) (wire_RspWriteAt f)"
    "puts cur sent (WriteRspCopyFileRangeToWriter (ws_Write W) g) (wire_RspCopyFileRange g)"
    "puts cur sent (WriteRspWriteStreamCloseToWriter (ws_Write W) h) (wire_RspWriteStreamClose h)"
    "puts cur sent (WriteRspGetFileLockToWriter (ws_Write W) i) (wire_RspGetFileLock i)"
    "length (RspReadLink_TargetPath j) \<le> 0xffff \<Longrightarrow>
      puts cur sent (WriteRspReadLinkToWriter (ws_Write W) j) (wire_RspReadLink j)"
  by (rule puts_appends, rule io_writer.WriteRspOpenToWriter_appends [OF ws_io_writer [OF W]])
    (rule puts_appends, rule io_writer.WriteRspWriteToWriter_appends [OF ws_io_writer [OF W]],
     rule puts_appends, rule io_writer.WriteRspSeekToWriter_appends [OF ws_io_writer [OF W]],
     rule puts_appends, rule io_writer.WriteRspGetAttrToWriter_appends [OF ws_io_writer [OF W]],
     rule puts_appends, rule io_writer.WriteRspFsStatToWriter_appends [OF ws_io_writer [OF W]],
     rule puts_appends, rule io_writer.WriteRspWriteAtToWriter_appends [OF ws_io_writer [OF W]],
     rule puts_appends, rule io_writer.WriteRspCopyFileRangeToWriter_appends [OF ws_io_writer [OF W]],
     rule puts_appends, rule io_writer.WriteRspWriteStreamCloseToWriter_appends [OF ws_io_writer [OF W]],
     rule puts_appends, rule io_writer.WriteRspGetFileLockToWriter_appends [OF ws_io_writer [OF W]],
     rule puts_appends, erule io_writer.WriteRspReadLinkToWriter_appends [OF ws_io_writer [OF W]])

lemma length_wire_Rsp [simp]:
  "length (wire_RspOpen a) = 4" "length (wire_RspWrite b) = 8" "length (wire_RspSeek c) = 8"
  "length (wire_RspGetAttr d) = 29" "length (wire_RspFsStat e) = 24" "length (wire_RspWriteAt f) = 8"
  "length (wire_RspCopyFileRange g) = 8" "length (wire_RspWriteStreamClose h) = 8"
  "length (wire_RspGetFileLock i) = 18" "length (wire_RspReadLink j) = length (RspReadLink_TargetPath j) + 2"
  by (simp_all add: wire_defs)

section \<open>What the operating system promises\<close>

text \<open>An interrupted call is not interrupted for ever.\<close>

definition eintr_ends :: "('os, 'a) sysop \<Rightarrow> bool" where
  "eintr_ends f \<longleftrightarrow> (\<forall>os. \<exists>n. snd (f (((\<lambda>os. fst (f os)) ^^ n) os)) \<noteq> Inl (Sys EINTR))"

lemma ignoringEINTR_unfold:
  "ignoringEINTR f os = (if snd (f os) = Inl (Sys EINTR) then ignoringEINTR f (fst (f os)) else Some (f os))"
  by (subst ignoringEINTR.simps) (auto split: prod.split sum.split oserror.split errno.split)

lemma ignoringEINTR_returns:
  assumes "eintr_ends f"
  shows "\<exists>r. ignoringEINTR f os = Some r \<and> snd r \<noteq> Inl (Sys EINTR) \<and> (\<exists>os'. r = f os')"
proof -
  obtain n where "snd (f (((\<lambda>os. fst (f os)) ^^ n) os)) \<noteq> Inl (Sys EINTR)"
    using assms by (auto simp: eintr_ends_def)
  then show ?thesis
  proof (induction n arbitrary: os)
    case 0
    then show ?case by (subst ignoringEINTR_unfold) auto
  next
    case (Suc n)
    then have "snd (f (((\<lambda>os. fst (f os)) ^^ n) (fst (f os)))) \<noteq> Inl (Sys EINTR)"
      by (simp only: funpow_Suc_right comp_def) simp
    from Suc.IH [OF this] show ?case
      by (subst ignoringEINTR_unfold) (cases "snd (f os) = Inl (Sys EINTR)"; simp; metis prod.collapse)
  qed
qed

text \<open>
  The promises the handlers rely on: reads return at most what was asked for; interrupts end; a
  link target is not empty, fits the buffer, and is only returned for a path that is not too long;
  \<^verbatim>\<open>ReadDir\<close> returns entries or ends, and a directory handle \<open>f\<close> has finitely many entries \<open>left f\<close> left,
  which looking at other files does not change; names are no longer than a path may be.
\<close>

definition os_promises :: "'os sys \<Rightarrow> (int \<Rightarrow> 'os \<Rightarrow> nat) \<Rightarrow> bool" where
  "os_promises S left \<longleftrightarrow>
     (\<forall>fd n os os' d. sys_Read S fd n os = (os', Inr d) \<longrightarrow> length d \<le> n)
     \<and> (\<forall>fd n off os os' d. sys_Pread S fd n off os = (os', Inr d) \<longrightarrow> length d \<le> n)
     \<and> (\<forall>p fl mode. eintr_ends (sys_Open S p fl mode))
     \<and> (\<forall>fd d. eintr_ends (sys_Write S fd d))
     \<and> (\<forall>fd d off. eintr_ends (sys_Pwrite S fd d off))
     \<and> (\<forall>p n. eintr_ends (sys_Readlink S p n))
     \<and> (\<forall>p n os os' d. sys_Readlink S p n os = (os', Inr d) \<longrightarrow> d \<noteq> [] \<and> length d \<le> n \<and> length p \<le> 4096)
     \<and> (\<forall>f n os os' es e. os_ReadDir S f n os = (os', es, e) \<longrightarrow>
          (e = None \<longrightarrow> es \<noteq> [] \<and> left f os' < left f os) \<and> (\<forall>d \<in> set es. length (ent_Name d) \<le> 4096))
     \<and> (\<forall>b p os. \<forall>f. left f (fst (os_Stat S b p os)) \<le> left f os)
     \<and> (\<forall>p os. \<forall>f. left f (fst (os_Readlink S p os)) \<le> left f os)"

lemma promise_Read: "os_promises S left \<Longrightarrow> sys_Read S fd n os = (os', Inr d) \<Longrightarrow> length d \<le> n"
  unfolding os_promises_def by (meson | blast)

lemma promise_Pread: "os_promises S left \<Longrightarrow> sys_Pread S fd n off os = (os', Inr d) \<Longrightarrow> length d \<le> n"
  unfolding os_promises_def by (meson | blast)

lemma promise_Open: "os_promises S left \<Longrightarrow> eintr_ends (sys_Open S p fl mode)"
  unfolding os_promises_def by (meson | blast)

lemma promise_Write: "os_promises S left \<Longrightarrow> eintr_ends (sys_Write S fd d)"
  unfolding os_promises_def by (meson | blast)

lemma promise_Pwrite: "os_promises S left \<Longrightarrow> eintr_ends (sys_Pwrite S fd d off)"
  unfolding os_promises_def by (meson | blast)

lemma promise_Readlink: "os_promises S left \<Longrightarrow> eintr_ends (sys_Readlink S p n)"
  unfolding os_promises_def by (meson | blast)

lemma promise_Readlink_ok:
  assumes "os_promises S left" and "sys_Readlink S p n os = (os', Inr d)"
  shows "d \<noteq> [] \<and> length d \<le> n \<and> length p \<le> 4096"
proof -
  have "\<forall>p n os os' d. sys_Readlink S p n os = (os', Inr d) \<longrightarrow> d \<noteq> [] \<and> length d \<le> n \<and> length p \<le> 4096"
    using assms(1) unfolding os_promises_def by (elim conjE)
  with assms(2) show ?thesis by blast
qed

lemma promise_ReadDir:
  assumes "os_promises S left" and "os_ReadDir S f n os = (os', es, None)"
  shows "es \<noteq> [] \<and> left f os' < left f os"
proof -
  have "\<forall>f n os os' es e. os_ReadDir S f n os = (os', es, e) \<longrightarrow>
      (e = None \<longrightarrow> es \<noteq> [] \<and> left f os' < left f os) \<and> (\<forall>d \<in> set es. length (ent_Name d) \<le> 4096)"
    using assms(1) unfolding os_promises_def by (elim conjE)
  with assms(2) show ?thesis by blast
qed

lemma promise_names:
  assumes "os_promises S left" and "os_ReadDir S f n os = (os', es, e)"
  shows "\<forall>d \<in> set es. length (ent_Name d) \<le> 4096"
proof -
  have "\<forall>f n os os' es e. os_ReadDir S f n os = (os', es, e) \<longrightarrow>
      (e = None \<longrightarrow> es \<noteq> [] \<and> left f os' < left f os) \<and> (\<forall>d \<in> set es. length (ent_Name d) \<le> 4096)"
    using assms(1) unfolding os_promises_def by (elim conjE)
  with assms(2) show ?thesis by blast
qed

lemma promise_Stat: "os_promises S left \<Longrightarrow> left f (fst (os_Stat S b p os)) \<le> left f os"
  unfolding os_promises_def by (meson | blast)

lemma promise_os_Readlink: "os_promises S left \<Longrightarrow> left f (fst (os_Readlink S p os)) \<le> left f os"
  unfolding os_promises_def by (meson | blast)

lemmas os_promisesD = promise_Read promise_Pread promise_Open promise_Write promise_Pwrite promise_Readlink promise_Readlink_ok promise_ReadDir promise_Stat promise_os_Readlink

section \<open>Reads\<close>

lemma read_buffer:
  assumes "length d \<le> 8190"
  shows "snd (Buffer_Done (Buffer_Grow (length d) (Buffer_fill d (fst (Buffer_write_op [m, ec] bufPool_Get))))) = m # ec # d"
    and "snd (Buffer_Done ((Buffer_Grow (length d) (Buffer_fill d (fst (Buffer_write_op [m, ec] bufPool_Get))))
      \<lparr>buf_Bytes := (buf_Bytes (Buffer_Grow (length d) (Buffer_fill d (fst (Buffer_write_op [m, ec] bufPool_Get)))))[1 := ec']\<rparr>)) = m # ec' # d"
proof -
  let ?b = "fst (Buffer_write_op [m, ec] bufPool_Get)"
  have b: "buf_written ?b = 2" "buf_Bytes ?b = m # ec # replicate 8190 0"
    by (simp_all add: Buffer_defs bufPool_Get_def NewBuffer_def Let_def)
  have f: "buf_written (Buffer_fill d ?b) = 2"
    "buf_Bytes (Buffer_fill d ?b) = m # ec # d @ replicate (8190 - length d) 0"
    using assms b by (simp_all add: Buffer_fill_def)
  show "snd (Buffer_Done (Buffer_Grow (length d) (Buffer_fill d ?b))) = m # ec # d"
    using f by (simp add: Buffer_Done_def Buffer_Grow_def)
  show "snd (Buffer_Done ((Buffer_Grow (length d) (Buffer_fill d ?b))
      \<lparr>buf_Bytes := (buf_Bytes (Buffer_Grow (length d) (Buffer_fill d ?b)))[1 := ec']\<rparr>)) = m # ec' # d"
    using f by (simp add: Buffer_Done_def Buffer_Grow_def)
qed

lemma of_nat_u64_eq: "k \<le> 8190 \<Longrightarrow> (of_nat k = (n :: u64)) = (k = unat n)"
  by (auto simp: unat_of_nat take_bit_nat_eq_self)

lemma read_and_send_ok:
  assumes W: "ws_reliable (E_ws E) cur sent" and s: "healthy s"
    and rd: "rd (unat n) (s_os s) = (os, Inr d)" and d: "length d \<le> unat n" "unat n \<le> 8190"
  shows "\<exists>s'. read_and_send E m rd n partial s = Some ((of_nat (length d), True), s')
    \<and> emits sent (s\<lparr>s_os := os\<rparr>) s'
        [m # (if partial \<and> length d = unat n then ErrorPartialResponse else ErrorOK) # d]"
proof -
  have d': "length d \<le> 8190" using d by simp
  have h: "healthy (s\<lparr>s_os := os\<rparr>)" using s by simp
  obtain s' where s': "s_write E (m # (if partial \<and> length d = unat n then ErrorPartialResponse else ErrorOK) # d) (s\<lparr>s_os := os\<rparr>) = Some s'"
    "emits sent (s\<lparr>s_os := os\<rparr>) s' [m # (if partial \<and> length d = unat n then ErrorPartialResponse else ErrorOK) # d]"
    using s_write_emits [OF W h] by blast
  let ?B = "Buffer_Grow (length d) (Buffer_fill d (fst (Buffer_write_op [m, ErrorOK] bufPool_Get)))"
  have b: "snd (Buffer_Done (if partial \<and> of_nat (length d) = n
        then ?B\<lparr>buf_Bytes := (buf_Bytes ?B)[1 := ErrorPartialResponse]\<rparr> else ?B))
      = m # (if partial \<and> length d = unat n then ErrorPartialResponse else ErrorOK) # d"
  proof (cases "partial \<and> length d = unat n")
    case True
    show ?thesis
      unfolding of_nat_u64_eq [OF d'] if_P [OF True] by (rule read_buffer(2) [OF d'])
  next
    case False
    show ?thesis
      unfolding of_nat_u64_eq [OF d'] if_not_P [OF False] by (rule read_buffer(1) [OF d'])
  qed
  show ?thesis
    unfolding read_and_send_def on_os_def rd prod.case sum.case Let_def b s'(1)
    using s'(2) by simp
qed

lemma read_and_send_error:
  assumes W: "ws_reliable (E_ws E) cur sent" and s: "healthy s"
    and rd: "rd (unat n) (s_os s) = (os, Inl e)"
  shows "\<exists>s'. read_and_send E m rd n partial s = Some ((0, False), s')
    \<and> emits sent (s\<lparr>s_os := os\<rparr>) s' [m # wsfsErrCode e # wire_str (error_desc ''syscall error'')]"
proof -
  have h: "healthy (s\<lparr>s_os := os\<rparr>)" using s by simp
  obtain s' where "writeRspError E m (wsfsErrCode e) ''syscall error'' (s\<lparr>s_os := os\<rparr>) = Some s'"
    "emits sent (s\<lparr>s_os := os\<rparr>) s' [m # wsfsErrCode e # wire_str (error_desc ''syscall error'')]"
    using writeRspError_emits [OF W h] by blast
  then show ?thesis
    by (simp add: read_and_send_def on_os_def rd Let_def)
qed

lemma sends_os_emits: "healthy s \<Longrightarrow> emits sent (s\<lparr>s_os := os\<rparr>) s' ms \<Longrightarrow> sends sent s s' ms"
  using sends_trans [OF sends_os sends_emits] by force

text \<open>A read call and its response: either final, or one partial response with a full payload.\<close>

lemma read_and_send_sends:
  assumes W: "ws_reliable (E_ws E) cur sent" and s: "healthy s"
    and rd: "\<And>os os' d. rd (unat n) os = (os', Inr d) \<Longrightarrow> length d \<le> unat n" and n: "unat n \<le> 8190"
  shows "\<exists>readed ok s' msg. read_and_send E m rd n partial s = Some ((readed, ok), s') \<and> sends sent s s' [msg]
    \<and> readed \<le> n \<and> (if partial \<and> ok \<and> readed = n then is_partial m msg else is_final m msg)"
proof (cases "rd (unat n) (s_os s)")
  case (Pair os r)
  show ?thesis
  proof (cases r)
    case (Inl e)
    have "\<exists>s'. read_and_send E m rd n partial s = Some ((0, False), s')
        \<and> emits sent (s\<lparr>s_os := os\<rparr>) s' [m # wsfsErrCode e # wire_str (error_desc ''syscall error'')]"
      by (rule read_and_send_error [OF W s]) (simp add: Pair Inl)
    then obtain s' where s': "read_and_send E m rd n partial s = Some ((0, False), s')"
      "sends sent s s' [m # wsfsErrCode e # wire_str (error_desc ''syscall error'')]"
      using sends_os_emits [OF s] by blast
    then show ?thesis
      by (intro exI [of _ 0] exI [of _ False] exI [of _ s'] exI [of _ "m # wsfsErrCode e # wire_str (error_desc ''syscall error'')"])
        (simp add: is_final_error wsfsErrCode_error)
  next
    case (Inr d)
    let ?msg = "m # (if partial \<and> length d = unat n then ErrorPartialResponse else ErrorOK) # d"
    have d: "length d \<le> unat n" "length d \<le> 8190"
      using rd [OF Pair [unfolded Inr]] n by simp_all
    have "\<exists>s'. read_and_send E m rd n partial s = Some ((of_nat (length d), True), s')
        \<and> emits sent (s\<lparr>s_os := os\<rparr>) s' [?msg]"
      by (rule read_and_send_ok [OF W s _ d(1) n]) (simp add: Pair Inr)
    then obtain s' where s': "read_and_send E m rd n partial s = Some ((of_nat (length d), True), s')" "sends sent s s' [?msg]"
      using sends_os_emits [OF s] by blast
    have "if partial \<and> of_nat (length d) = n then is_partial m ?msg else is_final m ?msg"
      using d by (auto simp: is_partial_def is_final_def of_nat_u64_eq)
    moreover have "of_nat (length d) \<le> n"
      using d by (simp add: word_le_nat_alt unat_of_nat take_bit_nat_eq_self)
    ultimately show ?thesis
      using s' by (intro exI [of _ "of_nat (length d)"] exI [of _ True] exI [of _ s'] exI [of _ ?msg]) simp
  qed
qed

lemma read_and_send_last:
  assumes "ws_reliable (E_ws E) cur sent" and "healthy s"
    and "\<And>os os' d. rd (unat n) os = (os', Inr d) \<Longrightarrow> length d \<le> unat n" and "unat n \<le> 8190"
  shows "replies sent m s (map_option snd (read_and_send E m rd n False s))"
proof -
  obtain readed ok s' msg where "read_and_send E m rd n False s = Some ((readed, ok), s')"
    "sends sent s s' [msg]" "is_final m msg"
    using read_and_send_sends [OF assms(1,2), where rd = rd and n = n and m = m and partial = False] assms(3,4) by auto
  then show ?thesis
    using response_seq_final by (auto simp: replies_def)
qed

text \<open>One round of the chunk loops of \<^verbatim>\<open>cmdRead\<close> and \<^verbatim>\<open>cmdReadAt\<close>.\<close>

lemma read_chunk:
  assumes W: "ws_reliable (E_ws E) cur sent" and s: "healthy s"
    and rd: "\<And>n os os' d. rd n os = (os', Inr d) \<Longrightarrow> length d \<le> n"
  obtains readed ok s' msg where "read_and_send E m rd maxReadPayLoad True s = Some ((readed, ok), s')"
    and "sends sent s s' [msg]" and "healthy s'"
    and "\<not> (\<not> ok \<or> readed < maxReadPayLoad) \<Longrightarrow> is_partial m msg"
    and "\<not> ok \<or> readed < maxReadPayLoad \<Longrightarrow> is_final m msg"
proof -
  obtain readed ok s' msg where r: "read_and_send E m rd maxReadPayLoad True s = Some ((readed, ok), s')"
    "sends sent s s' [msg]" "readed \<le> maxReadPayLoad"
    "if ok \<and> readed = maxReadPayLoad then is_partial m msg else is_final m msg"
    using read_and_send_sends [OF W s, where rd = rd and n = maxReadPayLoad and m = m and partial = True] rd by auto
  have "\<not> (\<not> ok \<or> readed < maxReadPayLoad) \<longleftrightarrow> ok \<and> readed = maxReadPayLoad"
    using r(3) by auto
  with r show ?thesis using that [OF r(1,2) sends_healthy [OF r(2)]] by (simp split: if_splits)
qed

text \<open>The chunk loops, followed by what comes after them.\<close>

lemma cmdRead_loop_replies:
  assumes W: "ws_reliable (E_ws E) cur sent" and prom: "os_promises (E_sys E) left"
    and k: "\<And>s. healthy s \<Longrightarrow> replies sent m s (k s)"
  shows "healthy s \<Longrightarrow> replies sent m s
    (Option.bind (cmdRead_loop E m sfd n s) (\<lambda>(go, s). if \<not> go then Some s else k s))"
proof (induction n arbitrary: s)
  case 0
  then show ?case using k by simp
next
  case (Suc n)
  obtain readed ok s' msg where r: "read_and_send E m (sys_Read (E_sys E) sfd) maxReadPayLoad True s = Some ((readed, ok), s')"
    "sends sent s s' [msg]" "healthy s'"
    "\<not> (\<not> ok \<or> readed < maxReadPayLoad) \<Longrightarrow> is_partial m msg" "\<not> ok \<or> readed < maxReadPayLoad \<Longrightarrow> is_final m msg"
    using read_chunk [OF W Suc.prems, where rd = "sys_Read (E_sys E) sfd"] promise_Read [OF prom] by blast
  show ?case
  proof (cases "\<not> ok \<or> readed < maxReadPayLoad")
    case True
    then show ?thesis
      using r(1,2) response_seq_final [OF r(5) [OF True]] by (auto simp: readAndSend_def replies_def)
  next
    case False
    then show ?thesis
      using r(1) replies_after [OF r(2) _ Suc.IH [OF r(3)]] r(4) by (simp add: readAndSend_def)
  qed
qed

lemma cmdReadAt_loop_replies:
  assumes W: "ws_reliable (E_ws E) cur sent" and prom: "os_promises (E_sys E) left"
    and k: "\<And>off s. healthy s \<Longrightarrow> replies sent m s (k off s)"
  shows "healthy s \<Longrightarrow> replies sent m s
    (Option.bind (cmdReadAt_loop E m sfd n off s) (\<lambda>((go, off), s). if \<not> go then Some s else k off s))"
proof (induction n arbitrary: off s)
  case 0
  then show ?case using k by simp
next
  case (Suc n)
  obtain readed ok s' msg where r: "read_and_send E m (\<lambda>k. sys_Pread (E_sys E) sfd k off) maxReadPayLoad True s = Some ((readed, ok), s')"
    "sends sent s s' [msg]" "healthy s'"
    "\<not> (\<not> ok \<or> readed < maxReadPayLoad) \<Longrightarrow> is_partial m msg" "\<not> ok \<or> readed < maxReadPayLoad \<Longrightarrow> is_final m msg"
    using read_chunk [OF W Suc.prems, where rd = "\<lambda>k. sys_Pread (E_sys E) sfd k off"] promise_Pread [OF prom] by blast
  show ?case
  proof (cases "\<not> ok \<or> readed < maxReadPayLoad")
    case True
    then show ?thesis
      using r(1,2) response_seq_final [OF r(5) [OF True]] by (auto simp: readAtAndSend_def replies_def)
  next
    case False
    then show ?thesis
      using r(1) replies_after [OF r(2) _ Suc.IH [OF r(3)]] r(4) by (simp add: readAtAndSend_def)
  qed
qed

lemma maxReadPayLoad_bounds:
  "(n :: u64) < maxReadPayLoad \<Longrightarrow> unat n \<le> 8190" "unat ((n :: u64) mod maxReadPayLoad) \<le> 8190"
  by (auto simp: word_less_nat_alt unat_mod less_imp_le)

lemma cmdRead_replies:
  assumes W: "ws_reliable (E_ws E) cur sent" and s: "healthy s" and prom: "os_promises (E_sys E) left"
  shows "replies sent m s (cmdRead E m req s)"
proof -
  have l: "replies sent m s (map_option snd (readAndSend E m sfd n False s))" if "healthy s" "unat n \<le> 8190" for s sfd n
    unfolding readAndSend_def using read_and_send_last [OF W that(1) promise_Read [OF prom] that(2)] .
  show ?thesis
    unfolding cmdRead_def
    by (rule with_fd_replies [OF W s])
      (simp add: l s maxReadPayLoad_bounds cmdRead_loop_replies [OF W prom] base_replies [OF W])
qed

lemma cmdReadAt_replies:
  assumes W: "ws_reliable (E_ws E) cur sent" and s: "healthy s" and prom: "os_promises (E_sys E) left"
  shows "replies sent m s (cmdReadAt E m req s)"
proof -
  have l: "replies sent m s (map_option snd (readAtAndSend E m sfd off n False s))" if "healthy s" "unat n \<le> 8190" for s sfd off n
    unfolding readAtAndSend_def
    using read_and_send_last [OF W that(1) _ that(2), where rd = "\<lambda>k. sys_Pread (E_sys E) sfd k off"] promise_Pread [OF prom] by blast
  show ?thesis
    unfolding cmdReadAt_def
    by (rule with_fd_replies [OF W s])
      (simp add: l s maxReadPayLoad_bounds cmdReadAt_loop_replies [OF W prom] base_replies [OF W])
qed

section \<open>Descriptors\<close>

text \<open>The search of \<^verbatim>\<open>newFD\<close> ends as long as one descriptor number is free, and finds a free one.\<close>

lemma newFD_loop_unfold:
  "newFD_loop sfd fds l = (if map_of fds (l + 1) = None then Some (l + 1, (l + 1, sfd) # fds) else newFD_loop sfd fds (l + 1))"
  by (subst newFD_loop.simps) (simp add: Let_def split: option.split)

lemma newFD_loop_returns:
  "map_of fds (l + of_nat (Suc n)) = None \<Longrightarrow>
    \<exists>fd. newFD_loop sfd fds l = Some (fd, (fd, sfd) # fds) \<and> map_of fds fd = None"
proof (induction n arbitrary: l)
  case 0
  then show ?case by (subst newFD_loop_unfold) simp
next
  case (Suc n)
  then have "map_of fds ((l + 1) + of_nat (Suc n)) = None"
    by (simp only: of_nat_Suc add.assoc)
  from Suc.IH [OF this] show ?case
    by (subst newFD_loop_unfold) simp
qed

lemma newFD_returns:
  assumes "fd \<notin> dom (map_of (s_fds s))"
  shows "\<exists>fd'. newFD sfd s = Some (fd', s\<lparr>s_fds := (fd', sfd) # s_fds s, s_fdLast := fd'\<rparr>)
    \<and> fd' \<notin> dom (map_of (s_fds s))"
proof -
  have "s_fdLast s + of_nat (Suc (unat (fd - s_fdLast s - 1))) = fd"
    by simp
  then have "map_of (s_fds s) (s_fdLast s + of_nat (Suc (unat (fd - s_fdLast s - 1)))) = None"
    using assms by (metis domIff)
  from newFD_loop_returns [OF this, of sfd] show ?thesis
    by (auto simp: newFD_def domIff)
qed

lemma free_descriptor:
  assumes "length (s_fds s) < 2 ^ 32"
  shows "\<exists>fd. fd \<notin> dom (map_of (s_fds s))"
proof -
  have "card (dom (map_of (s_fds s))) \<le> length (s_fds s)"
    by (simp add: dom_map_of_conv_image_fst card_image_le [THEN order_trans] card_length)
  moreover have "card (UNIV :: u32 set) = 2 ^ 32"
    by (simp add: card_word)
  ultimately have "dom (map_of (s_fds s)) \<noteq> UNIV"
    using assms by auto
  then show ?thesis by blast
qed

lemma retry_os_returns:
  assumes "eintr_ends f"
  obtains os r os0 where "retry_os f s = Some (s\<lparr>s_os := os\<rparr>, r)" and "f os0 = (os, r)"
proof -
  obtain os r os0 where "ignoringEINTR f (s_os s) = Some (os, r)" "f os0 = (os, r)"
    using ignoringEINTR_returns [OF assms, of "s_os s"] by (metis prod.collapse)
  then show ?thesis using that by (simp add: retry_os_def)
qed

lemma openFlagLoop_error: "openFlagLoop U f fs a = Inl (ec, desc) \<Longrightarrow> ec = ErrorNotSupport"
  by (induction fs arbitrary: a) (auto split: if_splits option.splits)

lemma openFlagToSys_error: "openFlagToSys U f = Inl (ec, desc) \<Longrightarrow> ec \<noteq> ErrorPartialResponse"
  using openFlagLoop_error by (fastforce simp: openFlagToSys_def split: if_splits)

lemma cmdOpen_replies:
  assumes W: "ws_reliable (E_ws E) cur sent" and s: "healthy s" and prom: "os_promises (E_sys E) left"
    and fds: "length (s_fds s) < 2 ^ 32"
  shows "replies sent m s (cmdOpen E m req s)"
proof (cases "openFlagToSys (E_unix E) (Open_OFlag req)")
  case (Inl e)
  obtain ec desc where e: "e = (ec, desc)" by fastforce
  then have "ec \<noteq> ErrorPartialResponse"
    using Inl by (simp add: openFlagToSys_error)
  then show ?thesis
    using Inl e base_replies(1) [OF W s] bad_path_replies [OF W s] by (simp add: cmdOpen_def)
next
  case (Inr oflag)
  obtain os r os0 where r: "retry_os (sys_Open (E_sys E) (s_storage s @ Open_Path req) oflag (syscallMode (Open_FMode req))) s
      = Some (s\<lparr>s_os := os\<rparr>, r)"
    using retry_os_returns [OF promise_Open [OF prom]] by metis
  show ?thesis
  proof (cases r)
    case (Inl e)
    then show ?thesis
      using Inr r base_replies_os(1) [OF W s] bad_path_replies [OF W s]
      by (simp add: cmdOpen_def Let_def wsfsErrCode_error)
  next
    case (Inr sfd)
    let ?s = "\<lambda>fd. s\<lparr>s_os := os, s_fds := (fd, sfd) # s_fds s, s_fdLast := fd\<rparr>"
    obtain fd where fd: "newFD sfd (s\<lparr>s_os := os\<rparr>) = Some (fd, ?s fd)"
      using free_descriptor [OF fds] newFD_returns [of _ "s\<lparr>s_os := os\<rparr>" sfd] by simp blast
    have "replies sent m (?s fd) (rspWith E m ErrorOK (WriteRspOpenToWriter (ws_Write (E_ws E)) x) (?s fd))" for x
      by (rule rspWith_replies [OF W _ puts_WriteRsp(1) [OF W]]) (simp_all add: s)
    then show ?thesis
      using \<open>openFlagToSys (E_unix E) (Open_OFlag req) = Inr oflag\<close> Inr r fd bad_path_replies [OF W s]
      by (simp add: cmdOpen_def Let_def replies_def sends_def)
  qed
qed

section \<open>Handlers with one response\<close>

lemma cmdClose_replies:
  assumes W: "ws_reliable (E_ws E) cur sent" and s: "healthy s"
  shows "replies sent m s (cmdClose E m req s)"
  unfolding cmdClose_def Let_def
proof (rule with_fd_replies [OF W s])
  fix sfd
  let ?s = "s\<lparr>s_fds := AList.delete (Close_FD req) (s_fds s)\<rparr>"
  have "replies sent m ?s (rsp_unit E m (on_os (sys_Close (E_sys E) sfd) ?s))"
    by (rule rsp_unit_replies [OF W]) (simp add: s)
  then show "replies sent m s (rsp_unit E m (on_os (sys_Close (E_sys E) sfd) ?s))"
    by simp
qed

lemma puts_ex:
  "puts cur sent p bs \<Longrightarrow> length bs \<le> 8190 \<Longrightarrow> \<exists>bs. puts cur sent p bs \<and> length bs \<le> 8190"
  by blast

lemma retry_value_replies:
  assumes W: "ws_reliable (E_ws E) cur sent" and s: "healthy s" and f: "eintr_ends f"
    and b: "\<And>x. \<exists>bs. puts cur sent (body x) bs \<and> length bs \<le> 8190"
  shows "replies sent m s (Option.bind (retry_os f s) (rsp_value E m body))"
proof -
  obtain os r where "retry_os f s = Some (s\<lparr>s_os := os\<rparr>, r)"
    using retry_os_returns [OF f] by metis
  then show ?thesis
    using rsp_value_replies [OF W s b] by simp
qed

lemma cmdWrite_replies:
  assumes W: "ws_reliable (E_ws E) cur sent" and s: "healthy s" and prom: "os_promises (E_sys E) left"
  shows "replies sent m s (cmdWrite E m req s)"
  unfolding cmdWrite_def
  by (rule with_fd_replies [OF W s], rule retry_value_replies [OF W s promise_Write [OF prom]],
      rule puts_ex, rule puts_WriteRsp(2) [OF W]) simp

lemma cmdWriteAt_replies:
  assumes W: "ws_reliable (E_ws E) cur sent" and s: "healthy s" and prom: "os_promises (E_sys E) left"
  shows "replies sent m s (cmdWriteAt E m req s)"
  unfolding cmdWriteAt_def
  by (rule with_fd_replies [OF W s], rule retry_value_replies [OF W s promise_Pwrite [OF prom]],
      rule puts_ex, rule puts_WriteRsp(6) [OF W]) simp

lemma cmdSeek_replies:
  assumes W: "ws_reliable (E_ws E) cur sent" and s: "healthy s"
  shows "replies sent m s (cmdSeek E m req s)"
  unfolding cmdSeek_def
  by (rule with_fd_replies [OF W s])
    (auto simp: writeRspError_replies [OF W s] intro!: rsp_value_on_os_replies [OF W s] puts_WriteRsp(3) [OF W, THEN puts_ex]
      split: option.split)

lemma cmdFsStat_replies:
  assumes W: "ws_reliable (E_ws E) cur sent" and s: "healthy s"
  shows "replies sent m s (cmdFsStat E m req s)"
  unfolding cmdFsStat_def
  by (auto simp: bad_path_replies [OF W s] intro!: rsp_value_on_os_replies [OF W s] puts_WriteRsp(5) [OF W, THEN puts_ex])

lemma cmdCopyFileRange_replies:
  assumes W: "ws_reliable (E_ws E) cur sent" and s: "healthy s"
  shows "replies sent m s (cmdCopyFileRange E m req s)"
  unfolding cmdCopyFileRange_def
  by (auto simp: base_replies [OF W s]
      intro!: with_fd_replies [OF W s] rsp_value_on_os_replies [OF W s] puts_WriteRsp(7) [OF W, THEN puts_ex])

lemma cmdGetFileLock_replies:
  assumes W: "ws_reliable (E_ws E) cur sent" and s: "healthy s"
  shows "replies sent m s (cmdGetFileLock E m req s)"
  unfolding cmdGetFileLock_def
  by (auto intro!: with_fd_replies [OF W s] rsp_value_on_os_replies [OF W s] puts_WriteRsp(9) [OF W, THEN puts_ex])

lemma cmdSetAttr_replies:
  assumes W: "ws_reliable (E_ws E) cur sent" and s: "healthy s"
  shows "replies sent m s (cmdSetAttr E m req s)" and "replies sent m s (cmdSetAttrByFD E m req' s)"
  unfolding cmdSetAttr_def cmdSetAttrByFD_def Let_def
  by (auto simp: bad_path_replies [OF W s] split: prod.split
      intro!: with_fd_replies [OF W s] setattr_step_replies [OF W] writeRspOK_replies [OF W] s)

lemma unit_handlers_reply:
  assumes W: "ws_reliable (E_ws E) cur sent" and s: "healthy s"
  shows "replies sent m s (cmdAllocate E m a s)" "replies sent m s (cmdSync E m b s)"
    "replies sent m s (cmdMkdir E m c s)" "replies sent m s (cmdSymLink E m d s)"
    "replies sent m s (cmdRemove E m e s)" "replies sent m s (cmdRmDir E m f s)"
    "replies sent m s (cmdRename E m g s)" "replies sent m s (cmdCloneFileRange E m h s)"
    "replies sent m s (cmdSetFileLock E m i s)" "replies sent m s (cmdSetFileLockWait E m j s)"
    "replies sent m s (cmdLink E m k s)"
  unfolding cmdAllocate_def cmdSync_def cmdMkdir_def cmdSymLink_def cmdRemove_def cmdRmDir_def cmdRename_def
    cmdCloneFileRange_def cmdSetFileLock_def cmdSetFileLockWait_def cmdSetFileLockCommon_def cmdLink_def Let_def
  by (auto simp: bad_path_replies [OF W s] base_replies [OF W s] rsp_unit_replies [OF W s] intro!: with_fd_replies [OF W s])

lemma cmdGetAttr_replies:
  assumes W: "ws_reliable (E_ws E) cur sent" and s: "healthy s"
  shows "replies sent m s (cmdGetAttr E m req s)"
  using base_replies_os(1) [OF W s] base_replies_os(3) [OF W s puts_WriteRsp(4) [OF W]] bad_path_replies [OF W s]
  by (auto simp: cmdGetAttr_def on_os_def osErrCode_error split: prod.split sum.split)

section \<open>Link targets\<close>

lemma sum_Split: "sum_list (map (\<lambda>c. Suc (length c)) (Split x p)) = Suc (length p)"
  by (induction p) (auto split: list.split)

lemma sum_clean_comps:
  "sum_list (map (\<lambda>c. Suc (length c)) (clean_comps r d cs)) \<le>
    sum_list (map (\<lambda>c. Suc (length c)) d) + sum_list (map (\<lambda>c. Suc (length c)) cs)"
proof (induction cs arbitrary: d)
  case (Cons c cs)
  let ?n = "\<lambda>xs. sum_list (map (\<lambda>c. Suc (length c)) xs)"
  let ?d = "if c = [] \<or> c = ''.'' then d
      else if c = ''..'' then
        (if d \<noteq> [] \<and> last d \<noteq> ''..'' then butlast d else if r then d else d @ [c])
      else d @ [c]"
  have "?n (butlast d) \<le> ?n d"
    by (cases d rule: rev_cases) simp_all
  then have "?n ?d \<le> ?n d + Suc (length c)"
    by simp
  moreover have "?n (clean_comps r d (c # cs)) \<le> ?n ?d + ?n cs"
    unfolding clean_comps.simps by (rule Cons.IH)
  ultimately show ?case by simp
qed simp

lemma length_join_comps: "length (join_comps cs) \<le> sum_list (map (\<lambda>c. Suc (length c)) cs)"
  by (induction cs rule: join_comps.induct) auto

lemma length_Clean: "length (Clean p) \<le> length p + 2"
proof -
  have "length (join_comps (clean_comps r [] (comps p))) \<le> Suc (length p)" for r
    using length_join_comps [of "clean_comps r [] (comps p)"] sum_clean_comps [of r "[]" "comps p"] sum_Split [of "CHR ''/''" p]
    by simp
  then show ?thesis by (auto simp: Clean_def Let_def intro: le_SucI)
qed

lemma length_Join: "length (Join a b) \<le> length a + length b + 3"
  using length_Clean [of "a @ CHR ''/'' # b"] length_Clean [of a] length_Clean [of b] by (auto simp: Join_def)

lemma length_TrimPrefix: "length (TrimPrefix a b) \<le> length a"
  by (simp add: TrimPrefix_def)

lemma cmdReadLink_replies:
  assumes W: "ws_reliable (E_ws E) cur sent" and s: "healthy s" and prom: "os_promises (E_sys E) left"
  shows "replies sent m s (cmdReadLink E m req s)"
proof -
  let ?apath = "s_storage s @ ReadLink_Path req"
  obtain os r os0 where r: "retry_os (sys_Readlink (E_sys E) ?apath 256) s = Some (s\<lparr>s_os := os\<rparr>, r)"
    "sys_Readlink (E_sys E) ?apath 256 os0 = (os, r)"
    using retry_os_returns [OF promise_Readlink [OF prom]] by metis
  show ?thesis
  proof (cases r)
    case (Inl e)
    then show ?thesis
      using r(1) base_replies_os(1) [OF W s] bad_path_replies [OF W s] by (simp add: cmdReadLink_def Let_def)
  next
    case (Inr d)
    note d = promise_Readlink_ok [OF prom r(2) [unfolded Inr]]
    let ?t = "if string_of d ! 0 \<noteq> CHR ''/'' then Clean (Join ?apath (string_of d)) else string_of d"
    have "length ?t \<le> 4400"
      using d length_Clean [of "Join ?apath (string_of d)"] length_Join [of ?apath "string_of d"] by auto
    then have "length (TrimPrefix ?t (s_storage s)) \<le> 4400"
      using length_TrimPrefix [of ?t "s_storage s"] by linarith
    then have "replies sent m s (rspWith E m ErrorOK (WriteRspReadLinkToWriter (ws_Write (E_ws E))
        \<lparr>RspReadLink_TargetPath = TrimPrefix ?t (s_storage s)\<rparr>) (s\<lparr>s_os := os\<rparr>))"
      by (intro base_replies_os(3) [OF W s puts_WriteRsp(10) [OF W]]) simp_all
    moreover have "string_of d \<noteq> []" using d by (metis length_0_conv length_string_of)
    ultimately show ?thesis
      using Inr r(1) base_replies_os(1) [OF W s] bad_path_replies [OF W s] unfolding cmdReadLink_def Let_def by simp
  qed
qed

end
