(* ===== verification/Wsfs_Server_Lists.thy ===== *)
theory Wsfs_Server_Lists
  imports Wsfs_Server_Replies
begin

text \<open>
  Responses that do not fit one message. A handler streams its payload in partial responses; \<open>parts\<close>
  says which payload has been streamed, \<open>answers\<close> that the payloads of all messages of a response
  sequence, put together, are a given list of bytes. Shown for file reads, extended attributes and directory
  listings; with it every command is shown to be answered.
\<close>

section \<open>Streamed payloads\<close>

text \<open>\<open>pieces K\<close> and \<open>answersK K\<close> also say that the payload of each single message satisfies \<open>K\<close>.\<close>

definition pieces :: "(bytes \<Rightarrow> bool) \<Rightarrow> ('ws \<Rightarrow> bytes list) \<Rightarrow> u8 \<Rightarrow> ('os, 'ws) session \<Rightarrow> ('os, 'ws) session \<Rightarrow> bytes \<Rightarrow> bool" where
  "pieces K sent m s s' data \<longleftrightarrow>
     (\<exists>w os ps. s' = s\<lparr>s_os := os, s_ws := w\<rparr> \<and> sent w = sent (s_ws s) @ ps
        \<and> list_all (is_partial m) ps \<and> concat (map (drop 2) ps) = data \<and> list_all (\<lambda>p. K (drop 2 p)) ps)"

definition answersK :: "(bytes \<Rightarrow> bool) \<Rightarrow> ('ws \<Rightarrow> bytes list) \<Rightarrow> u8 \<Rightarrow> ('os, 'ws) session \<Rightarrow> ('os, 'ws) session option \<Rightarrow> u8 \<Rightarrow> bytes \<Rightarrow> bool" where
  "answersK K sent m s r ec data \<longleftrightarrow>
     (\<exists>s' ps f. r = Some s' \<and> sends sent s s' (ps @ [m # ec # f]) \<and> list_all (is_partial m) ps
        \<and> length f \<le> 8190 \<and> concat (map (drop 2) ps) @ f = data \<and> list_all (\<lambda>p. K (drop 2 p)) ps \<and> K f)"

abbreviation "parts \<equiv> pieces (\<lambda>_. True)"
abbreviation "answers \<equiv> answersK (\<lambda>_. True)"

lemma parts_def:
  "parts sent m s s' data \<longleftrightarrow>
     (\<exists>w os ps. s' = s\<lparr>s_os := os, s_ws := w\<rparr> \<and> sent w = sent (s_ws s) @ ps
        \<and> list_all (is_partial m) ps \<and> concat (map (drop 2) ps) = data)"
  by (simp add: pieces_def list_all_iff)

lemma answers_def:
  "answers sent m s r ec data \<longleftrightarrow>
     (\<exists>s' ps f. r = Some s' \<and> sends sent s s' (ps @ [m # ec # f]) \<and> list_all (is_partial m) ps
        \<and> length f \<le> 8190 \<and> concat (map (drop 2) ps) @ f = data)"
  by (simp add: answersK_def list_all_iff)

lemma answersK_answers: "answersK K sent m s r ec data \<Longrightarrow> answers sent m s r ec data"
  unfolding answers_def by (auto simp: answersK_def)

lemma parts_fields:
  assumes "pieces K sent m s s' data"
  shows "s_storage s' = s_storage s" "s_fsIds s' = s_fsIds s" "healthy s' = healthy s"
    "s_fds s' = s_fds s" "s_featureOpts s' = s_featureOpts s"
  using assms by (auto simp: pieces_def healthy_def)

lemma parts_os: "pieces K sent m s (s\<lparr>s_os := os\<rparr>) []"
  unfolding pieces_def by (rule exI [of _ "s_ws s"], rule exI [of _ os], rule exI [of _ "[]"]) simp

lemma parts_refl: "pieces K sent m s s []"
  using parts_os [of K sent m s "s_os s"] by simp

lemma parts_trans: "pieces K sent m s s' d \<Longrightarrow> pieces K sent m s' s'' d' \<Longrightarrow> pieces K sent m s s'' (d @ d')"
  unfolding pieces_def
proof (elim exE conjE)
  fix w os ps w' os' ps'
  assume *: "s' = s\<lparr>s_os := os, s_ws := w\<rparr>" "s'' = s'\<lparr>s_os := os', s_ws := w'\<rparr>" "sent w' = sent (s_ws s') @ ps'"
    "list_all (is_partial m) ps'" "concat (map (drop 2) ps') = d'" "sent w = sent (s_ws s) @ ps"
    "list_all (is_partial m) ps" "concat (map (drop 2) ps) = d" "list_all (\<lambda>p. K (drop 2 p)) ps" "list_all (\<lambda>p. K (drop 2 p)) ps'"
  show "\<exists>w os ps. s'' = s\<lparr>s_os := os, s_ws := w\<rparr> \<and> sent w = sent (s_ws s) @ ps
      \<and> list_all (is_partial m) ps \<and> concat (map (drop 2) ps) = d @ d' \<and> list_all (\<lambda>p. K (drop 2 p)) ps"
    by (rule exI [of _ w'], rule exI [of _ os'], rule exI [of _ "ps @ ps'"]) (use * in simp)
qed

lemma pieces_emits:
  assumes "emits sent s s' [m # ErrorPartialResponse # d]" and "length d \<le> 8190" and "K d"
  shows "pieces K sent m s s' d"
proof -
  obtain w where "s' = s\<lparr>s_ws := w\<rparr>" "sent w = sent (s_ws s) @ [m # ErrorPartialResponse # d]"
    using assms(1) by (auto simp: emits_def)
  then show ?thesis
    unfolding pieces_def using assms(2,3)
    by (intro exI [of _ w] exI [of _ "s_os s"] exI [of _ "[m # ErrorPartialResponse # d]"]) (simp add: is_partial_def)
qed

lemma parts_emits: "emits sent s s' [m # ErrorPartialResponse # d] \<Longrightarrow> length d \<le> 8190 \<Longrightarrow> parts sent m s s' d"
  using pieces_emits [where K = "\<lambda>_. True"] by blast

lemma parts_sends:
  assumes "parts sent m s s' d" and "healthy s"
  obtains ps where "sends sent s s' ps" and "list_all (is_partial m) ps" and "concat (map (drop 2) ps) = d"
  using assms by (auto simp: parts_def sends_def healthy_def)

lemma answers_replies:
  assumes "answers sent m s r ec data" and "ec \<noteq> ErrorPartialResponse"
  shows "replies sent m s r"
proof -
  obtain s' ps f where *: "r = Some s'" "sends sent s s' (ps @ [m # ec # f])" "list_all (is_partial m) ps" "length f \<le> 8190"
    using assms(1) by (auto simp: answers_def)
  have "is_final m (m # ec # f)"
    using *(4) assms(2) by (simp add: is_final_def)
  then show ?thesis
    using * response_seq_partials [OF *(3) response_seq_final] by (auto simp: replies_def)
qed

lemma pieces_sends:
  assumes "pieces K sent m s s' d" and "healthy s"
  obtains ps where "sends sent s s' ps" and "list_all (is_partial m) ps" and "concat (map (drop 2) ps) = d"
    and "list_all (\<lambda>p. K (drop 2 p)) ps"
  using assms by (auto simp: pieces_def sends_def healthy_def)

lemma answers_after:
  assumes p: "pieces K sent m s s' d" and s: "healthy s" and a: "answersK K sent m s' r ec d'"
  shows "answersK K sent m s r ec (d @ d')"
proof -
  obtain ps where ps: "sends sent s s' ps" "list_all (is_partial m) ps" "concat (map (drop 2) ps) = d" "list_all (\<lambda>p. K (drop 2 p)) ps"
    by (rule pieces_sends [OF p s])
  obtain s'' qs f where *: "r = Some s''" "sends sent s' s'' (qs @ [m # ec # f])" "list_all (is_partial m) qs"
      "length f \<le> 8190" "concat (map (drop 2) qs) @ f = d'" "list_all (\<lambda>p. K (drop 2 p)) qs" "K f"
    using a unfolding answersK_def by blast
  show ?thesis
    unfolding answersK_def
    by (rule exI [of _ s''], rule exI [of _ "ps @ qs"], rule exI [of _ f])
      (use ps * sends_trans [OF ps(1) *(2)] in simp)
qed

lemma replies_after_parts:
  assumes p: "parts sent m s s' d" and s: "healthy s" and a: "replies sent m s' r"
  shows "replies sent m s r"
proof -
  obtain ps where "sends sent s s' ps" "list_all (is_partial m) ps"
    by (rule parts_sends [OF p s])
  then show ?thesis using a by (rule replies_after)
qed

lemma answersK_emits:
  assumes "healthy s" and "\<exists>s'. r = Some s' \<and> emits sent s s' [m # ec # f]" and "length f \<le> 8190" and "K f"
  shows "answersK K sent m s r ec f"
proof -
  obtain s' where "r = Some s'" "emits sent s s' [m # ec # f]"
    using assms(2) by blast
  then show ?thesis
    unfolding answersK_def using sends_emits [OF assms(1)] assms(3,4)
    by (intro exI [of _ s'] exI [of _ "[]"] exI [of _ f]) simp
qed

lemma answers_emits:
  "healthy s \<Longrightarrow> \<exists>s'. r = Some s' \<and> emits sent s s' [m # ec # f] \<Longrightarrow> length f \<le> 8190 \<Longrightarrow> answers sent m s r ec f"
  using answersK_emits [where K = "\<lambda>_. True"] by blast

lemma answers_os_emits:
  assumes "healthy s" and "\<exists>s'. r = Some s' \<and> emits sent (s\<lparr>s_os := os\<rparr>) s' [m # ec # f]" and "length f \<le> 8190"
  shows "answers sent m s r ec f"
  using answers_after [OF parts_os assms(1) answers_emits [OF _ assms(2,3)]] assms(1) by simp

section \<open>Extended attributes\<close>

lemma buffer_message:
  assumes "Buffer_wf MaxMsgSize b" and "buf_written b = 0" and "length d \<le> 8190"
  shows "snd (Buffer_Done (fst (Buffer_write_op d (fst (Buffer_write_op [m, ec] b))))) = m # ec # d"
    and "Buffer_wf MaxMsgSize (fst (Buffer_Done (fst (Buffer_write_op d (fst (Buffer_write_op [m, ec] b))))))"
    and "buf_written (fst (Buffer_Done (fst (Buffer_write_op d (fst (Buffer_write_op [m, ec] b)))))) = 0"
proof -
  have "appends Buffer_content Buffer_fits (wseq [Buffer_write_op [m, ec], Buffer_write_op d]) ([m, ec] @ d)"
    by (rule buf.wseq_appends buf.wr_appends)+
  moreover have "Buffer_fits b (length ([m, ec] @ d))"
    using assms by (simp add: Buffer_fits_def Buffer_wf_def)
  ultimately have "Buffer_content (fst (wseq [Buffer_write_op [m, ec], Buffer_write_op d] b)) = Buffer_content b @ [m, ec] @ d"
    "snd (Buffer_write_op [m, ec] b) = None"
    using assms by (auto simp: appends_def Buffer_defs Let_def)
  then show "snd (Buffer_Done (fst (Buffer_write_op d (fst (Buffer_write_op [m, ec] b))))) = m # ec # d"
    using assms(2) by (auto simp: Buffer_Done_content Buffer_content_def split: prod.splits option.splits)
  show "Buffer_wf MaxMsgSize (fst (Buffer_Done (fst (Buffer_write_op d (fst (Buffer_write_op [m, ec] b))))))"
    by (intro Buffer_wf_Done Buffer_wf_Write assms(1))
  show "buf_written (fst (Buffer_Done (fst (Buffer_write_op d (fst (Buffer_write_op [m, ec] b)))))) = 0"
    by (simp add: Buffer_Done_def)
qed

lemma writeXAttrData_loop_answers:
  assumes W: "ws_reliable (E_ws E) cur sent"
  shows "healthy s \<Longrightarrow> Buffer_wf MaxMsgSize b \<Longrightarrow> buf_written b = 0 \<Longrightarrow>
    answers sent m s (writeXAttrData_loop E m data b s) ErrorOK data"
proof (induction "length data" arbitrary: data b s rule: less_induct)
  case less
  note s = less.prems(1) and b = less.prems(2,3)
  show ?case
  proof (cases "length data > 8190")
    case True
    let ?d = "take 8190 data"
    have d: "length ?d \<le> 8190" by simp
    obtain s' where s': "s_write E (m # ErrorPartialResponse # ?d) s = Some s'"
        "emits sent s s' [m # ErrorPartialResponse # ?d]"
      using s_write_emits [OF W s] by blast
    have p: "parts sent m s s' ?d"
      using parts_emits [OF s'(2)] by simp
    have "answers sent m s' (writeXAttrData_loop E m (drop 8190 data)
        (fst (Buffer_Done (fst (Buffer_write_op ?d (fst (Buffer_write_op [m, ErrorPartialResponse] b)))))) s') ErrorOK (drop 8190 data)"
      using less.hyps [of "drop 8190 data"] True parts_fields(3) [OF p] s buffer_message(2,3) [OF b d] by simp
    from answers_after [OF p s this] show ?thesis
      using True s'(1) buffer_message(1) [OF b d]
      by (subst writeXAttrData_loop.simps) (simp add: Let_def partial_header_def)
  next
    case False
    then have d: "length data \<le> 8190" by simp
    have "answers sent m s (s_write E (m # ErrorOK # data) s) ErrorOK data"
      using answers_emits [OF s s_write_emits [OF W s] d] .
    then show ?thesis
      using False buffer_message(1) [OF b d] by (subst writeXAttrData_loop.simps) (simp add: Let_def)
  qed
qed

lemma writeXAttrData_answers:
  assumes W: "ws_reliable (E_ws E) cur sent" and s: "healthy s"
  shows "answers sent m s (writeXAttrData E m data s) ErrorOK data"
proof (cases "data = []")
  case True
  then show ?thesis
    using answers_emits [OF s writeRspOK_emits [OF W s]] by (simp add: writeXAttrData_def)
next
  case False
  then show ?thesis
    using writeXAttrData_loop_answers [OF W s] by (simp add: writeXAttrData_def bufPool_Get_def NewBuffer_def Buffer_wf_def)
qed

lemma xattr_checked_replies:
  assumes W: "ws_reliable (E_ws E) cur sent" and s: "healthy s" and k: "replies sent m s (k s)"
  shows "replies sent m s (xattr_checked E m path key k s)"
  using k bad_path_replies [OF W s] base_replies [OF W s] by (simp add: xattr_checked_def)

lemma writeXAttrData_replies_os:
  assumes W: "ws_reliable (E_ws E) cur sent" and s: "healthy s"
  shows "replies sent m s (writeXAttrData E m data (s\<lparr>s_os := os\<rparr>))"
  using answers_replies [OF writeXAttrData_answers [OF W, of "s\<lparr>s_os := os\<rparr>"]] s by simp

lemma xattr_handlers_reply:
  assumes W: "ws_reliable (E_ws E) cur sent" and s: "healthy s"
  shows "replies sent m s (cmdSetXAttr E m a s)" "replies sent m s (cmdGetXAttr E m b s)"
    "replies sent m s (cmdListXAttr E m c s)" "replies sent m s (cmdRemoveXAttr E m d s)"
  unfolding cmdSetXAttr_def cmdGetXAttr_def cmdListXAttr_def cmdRemoveXAttr_def
  using base_replies_os [OF W s] bad_path_replies [OF W s] writeXAttrData_replies_os [OF W s]
  by (auto intro!: xattr_checked_replies [OF W s] simp: on_os_def xattrErrorCode_error split: prod.split sum.split option.split)

section \<open>The buffer of a listing\<close>

text \<open>The response buffer holds the header of a partial response and the payload \<open>c\<close>.\<close>

definition rsp_holds :: "u8 \<Rightarrow> Buffer \<Rightarrow> bytes \<Rightarrow> bool" where
  "rsp_holds m rsp c \<longleftrightarrow> Buffer_wf MaxMsgSize rsp \<and> Buffer_content rsp = m # ErrorPartialResponse # c"

lemma rsp_holds_Written: "rsp_holds m rsp c \<Longrightarrow> Buffer_Written rsp = length c + 2 \<and> length c \<le> 8190"
  using Buffer_content_length [of MaxMsgSize rsp] by (auto simp: rsp_holds_def Buffer_wf_def Buffer_Written_def)

lemma rsp_holds_header:
  assumes "Buffer_wf MaxMsgSize b" and "buf_written b = 0"
  shows "rsp_holds m (fst (Buffer_write_op (partial_header m) b)) []"
  using assms Buffer_wf_Write [OF assms(1)]
  by (simp add: rsp_holds_def partial_header_def) (simp add: Buffer_defs Let_def)

lemma rsp_holds_fresh: "rsp_holds m (fst (Buffer_write_op (partial_header m) bufPool_Get)) []"
  by (rule rsp_holds_header) (simp_all add: bufPool_Get_def NewBuffer_def Buffer_wf_def)

lemma rsp_holds_appends:
  assumes r: "rsp_holds m rsp c" and a: "appends Buffer_content Buffer_fits p bs"
    and wf: "Buffer_wf MaxMsgSize (fst (p rsp))" and n: "length c + 2 + length bs \<le> MaxMsgSize"
  shows "rsp_holds m (fst (p rsp)) (c @ bs)"
proof -
  have "Buffer_fits rsp (length bs)"
    using r n rsp_holds_Written [OF r] by (simp add: rsp_holds_def Buffer_fits_def Buffer_wf_def Buffer_Written_def)
  then obtain b where "p rsp = (b, None)" "Buffer_content b = Buffer_content rsp @ bs"
    using a unfolding appends_def by blast
  then show ?thesis
    using r wf by (simp add: rsp_holds_def)
qed

lemma wseq_wf:
  "\<lbrakk>\<And>p b. p \<in> set ps \<Longrightarrow> Buffer_wf n b \<Longrightarrow> Buffer_wf n (fst (p b)); Buffer_wf n b\<rbrakk> \<Longrightarrow> Buffer_wf n (fst (wseq ps b))"
proof (induction ps arbitrary: b)
  case (Cons p ps)
  obtain b' e where p: "p b = (b', e)" by fastforce
  then have "Buffer_wf n b'" using Cons.prems(1) [of p b] Cons.prems(2) by simp
  then show ?case using p Cons by (cases e) auto
qed simp

lemma WriteStr_wf:
  assumes "Buffer_wf n b"
  shows "Buffer_wf n (fst (WriteStrToWriter Buffer_write_op x b))"
proof -
  obtain b' e where *: "writeStrLenPrefix Buffer_write_op (of_nat (length x)) b = (b', e)" by fastforce
  then have "Buffer_wf n b'"
    using Buffer_wf_Write [OF assms] unfolding writeStrLenPrefix_def by (metis fst_conv)
  then show ?thesis
    using * assms by (cases e) (simp_all add: WriteStrToWriter_def Buffer_wf_Write)
qed

lemma WriteDirent_wf: "Buffer_wf n b \<Longrightarrow> Buffer_wf n (fst (WriteDirentToWriter Buffer_write_op d b))"
  unfolding WriteDirentToWriter_def WriteTimespecToWriter_def
  by (rule wseq_wf) (auto intro!: Buffer_wf_Write WriteStr_wf wseq_wf)

lemma rsp_holds_dirent:
  assumes "rsp_holds m rsp c" and "length (de_Name d) \<le> 4096" and "length c + 2 + length (wire_Dirent d) \<le> MaxMsgSize"
  shows "rsp_holds m (fst (WriteDirentToWriter Buffer_write_op d rsp)) (c @ wire_Dirent d)"
proof (rule rsp_holds_appends [OF assms(1) _ _ assms(3)])
  show "appends Buffer_content Buffer_fits (WriteDirentToWriter Buffer_write_op d) (wire_Dirent d)"
    by (rule buf.WriteDirentToWriter_appends) (use assms(2) in simp)
  show "Buffer_wf MaxMsgSize (fst (WriteDirentToWriter Buffer_write_op d rsp))"
    using assms(1) by (simp add: rsp_holds_def WriteDirent_wf)
qed

lemma rsp_holds_byte:
  assumes "rsp_holds m rsp c" and "length c + 3 \<le> MaxMsgSize"
  shows "rsp_holds m (fst (Buffer_write_op [i] rsp)) (c @ [i])"
  by (rule rsp_holds_appends [OF assms(1) buf.wr_appends]) (use assms in \<open>simp_all add: rsp_holds_def Buffer_wf_Write\<close>)

text \<open>The common guard of the listing functions: send the buffer when the next item does not fit.\<close>

definition flush_full :: "('os, 'ws) env \<Rightarrow> u8 \<Rightarrow> nat \<Rightarrow> Buffer \<Rightarrow> ('os, 'ws) session \<Rightarrow> (Buffer \<times> ('os, 'ws) session) option" where
  "flush_full E m n rsp s =
     (if Buffer_Written rsp + n > MaxMsgSize then do {
        s \<leftarrow> s_write E (snd (Buffer_Done rsp)) s;
        Some (fst (Buffer_write_op (partial_header m) (fst (Buffer_Done rsp))), s)}
      else Some (rsp, s))"

lemma flush_pieces:
  assumes W: "ws_reliable (E_ws E) cur sent" and s: "healthy s" and r: "rsp_holds m rsp c" and K: "K c"
  shows "\<exists>s'. s_write E (snd (Buffer_Done rsp)) s = Some s' \<and> pieces K sent m s s' c \<and> s_os s' = s_os s"
proof -
  obtain s' where "s_write E (m # ErrorPartialResponse # c) s = Some s'" "emits sent s s' [m # ErrorPartialResponse # c]"
    using s_write_emits [OF W s] by blast
  then show ?thesis
    using r pieces_emits [of sent s s' m c K] K emits_fields(2) [of sent s s'] rsp_holds_Written [OF r]
    by (intro exI [of _ s']) (simp add: Buffer_Done_content rsp_holds_def)
qed

lemmas flush_holds = flush_pieces [where K = "\<lambda>_. True", OF _ _ _ TrueI]

lemma flush_full_pieces:
  assumes W: "ws_reliable (E_ws E) cur sent" and s: "healthy s" and r: "rsp_holds m rsp c" and n: "n \<le> 8190" and K: "K c" "K []"
  shows "\<exists>rsp' s' c' d. flush_full E m n rsp s = Some (rsp', s') \<and> pieces K sent m s s' d \<and> s_os s' = s_os s
    \<and> rsp_holds m rsp' c' \<and> d @ c' = c \<and> K c' \<and> length c' + 2 + n \<le> MaxMsgSize"
proof (cases "Buffer_Written rsp + n > MaxMsgSize")
  case True
  obtain s' where s': "s_write E (snd (Buffer_Done rsp)) s = Some s'" "pieces K sent m s s' c" "s_os s' = s_os s"
    using flush_pieces [where K = K, OF W s r K(1)] by blast
  have "rsp_holds m (fst (Buffer_write_op (partial_header m) (fst (Buffer_Done rsp)))) []"
    by (rule rsp_holds_header) (use r in \<open>simp_all add: rsp_holds_def Buffer_wf_Done\<close>, simp add: Buffer_Done_def)
  with s' True n K show ?thesis
    by (intro exI [of _ "fst (Buffer_write_op (partial_header m) (fst (Buffer_Done rsp)))"] exI [of _ s'] exI [of _ "[]"] exI [of _ c])
      (simp add: flush_full_def)
next
  case False
  then show ?thesis
    using r rsp_holds_Written [OF r] K
    by (intro exI [of _ rsp] exI [of _ s] exI [of _ c] exI [of _ "[]"]) (simp add: flush_full_def parts_refl)
qed

lemma flush_full_holds:
  assumes "ws_reliable (E_ws E) cur sent" and "healthy s" and "rsp_holds m rsp c" and "n \<le> 8190"
  shows "\<exists>rsp' s' c' d. flush_full E m n rsp s = Some (rsp', s') \<and> parts sent m s s' d \<and> s_os s' = s_os s
    \<and> rsp_holds m rsp' c' \<and> d @ c' = c \<and> length c' + 2 + n \<le> MaxMsgSize"
  using flush_full_pieces [OF assms, of "\<lambda>_. True"] by blast

section \<open>Directory listings\<close>

text \<open>The dirents sent for a batch of entries: the reference for all listing loops.\<close>

fun lookupAll :: "'os sys \<Rightarrow> ('os, 'ws) session \<Rightarrow> string \<Rightarrow> os_DirEntry list \<Rightarrow> 'os \<Rightarrow> 'os \<times> Dirent list" where
  "lookupAll S s dirBase [] os = (os, [])"
| "lookupAll S s dirBase (e # es) os =
     (case lookupDirentSafe S s dirBase e os of (os, d) \<Rightarrow>
      (case lookupAll S s dirBase es os of (os, ds) \<Rightarrow> (os, d # ds)))"

lemma lookupDirentSafe_cong:
  assumes "s_storage s' = s_storage s" and "s_fsIds s' = s_fsIds s"
  shows "lookupDirentSafe S s' = lookupDirentSafe S s"
proof -
  have "convOwner s' = convOwner s"
    by (rule ext) (simp add: convOwner_def assms)
  then have "lookupDirent S s' = lookupDirent S s"
    by (intro ext) (simp only: lookupDirent_def assms)
  then show ?thesis
    by (intro ext) (simp only: lookupDirentSafe_def)
qed

lemma lookupAll_cong:
  assumes "s_storage s' = s_storage s" and "s_fsIds s' = s_fsIds s"
  shows "lookupAll S s' dirBase es os = lookupAll S s dirBase es os"
  by (induction es arbitrary: os) (simp_all add: lookupDirentSafe_cong [OF assms])

lemma lookupDirentSafe_name: "de_Name (snd (lookupDirentSafe S s b e os)) = ent_Name e"
  by (auto simp: lookupDirentSafe_def lookupDirent_def irregularDirent_def split: prod.split sum.split)

lemma lookupAll_names: "map de_Name (snd (lookupAll S s b es os)) = map ent_Name es"
proof (induction es arbitrary: os)
  case (Cons e es)
  obtain os1 d where d: "lookupDirentSafe S s b e os = (os1, d)" by fastforce
  obtain os2 ds where ds: "lookupAll S s b es os1 = (os2, ds)" by fastforce
  show ?case
    using d ds lookupDirentSafe_name [of S s b e os] Cons.IH [of os1] by simp
qed simp

lemma wire_Dirent_bound: "length (de_Name d) \<le> 4096 \<Longrightarrow> length (wire_Dirent d) \<le> 4200"
  by (simp add: wire_defs)

lemma readDir_entries_Cons:
  "readDir_entries E m base (e # es) rsp s =
     (case lookupDirentSafe (E_sys E) s base e (s_os s) of (os, d) \<Rightarrow>
        Option.bind (flush_full E m (GetDirentRequiredSize d) rsp (s\<lparr>s_os := os\<rparr>)) (\<lambda>(rsp, s).
          readDir_entries E m base es (fst (WriteDirentToWriter Buffer_write_op d rsp)) s))"
  by (simp add: flush_full_def Let_def split: prod.split)

text \<open>A property of payloads that whole entries keep.\<close>

definition entry_closed :: "(bytes \<Rightarrow> bool) \<Rightarrow> bool" where
  "entry_closed K \<longleftrightarrow> K [] \<and> (\<forall>c d. length (de_Name d) \<le> 4096 \<and> K c \<longrightarrow> K (c @ wire_Dirent d))"

lemma entry_closed_True [simp]: "entry_closed (\<lambda>_. True)"
  by (simp add: entry_closed_def)

lemma readDir_entries_parts:
  assumes W: "ws_reliable (E_ws E) cur sent" and K: "entry_closed K"
  shows "healthy s \<Longrightarrow> rsp_holds m rsp c \<Longrightarrow> K c \<Longrightarrow> \<forall>e \<in> set es. length (ent_Name e) \<le> 4096 \<Longrightarrow>
    \<exists>rsp' s' c' d. readDir_entries E m base es rsp s = Some (rsp', s') \<and> pieces K sent m s s' d
      \<and> s_os s' = fst (lookupAll (E_sys E) s base es (s_os s)) \<and> rsp_holds m rsp' c' \<and> K c'
      \<and> d @ c' = c @ concat (map wire_Dirent (snd (lookupAll (E_sys E) s base es (s_os s))))"
proof (induction es arbitrary: rsp s c)
  case Nil
  then show ?case
    by (intro exI [of _ rsp] exI [of _ s] exI [of _ c] exI [of _ "[]"]) (simp add: parts_refl)
next
  case (Cons e es)
  obtain os d where l: "lookupDirentSafe (E_sys E) s base e (s_os s) = (os, d)" by fastforce
  have nm: "length (de_Name d) \<le> 4096"
    using lookupDirentSafe_name [of "E_sys E" s base e "s_os s"] l Cons.prems(4) by simp
  note wb = wire_Dirent_bound [OF nm]
  let ?s = "s\<lparr>s_os := os\<rparr>"
  have h: "healthy ?s" using Cons.prems(1) by simp
  obtain rsp1 s1 c1 d1 where f: "flush_full E m (GetDirentRequiredSize d) rsp ?s = Some (rsp1, s1)" "pieces K sent m ?s s1 d1"
      "s_os s1 = os" "rsp_holds m rsp1 c1" "d1 @ c1 = c" "length c1 + 2 + length (wire_Dirent d) \<le> MaxMsgSize" "K c1"
    using flush_full_pieces [OF W h Cons.prems(2), of "GetDirentRequiredSize d" K] wb K Cons.prems(3) by (auto simp: entry_closed_def)
  have k1: "K (c1 @ wire_Dirent d)" using K f(7) nm by (simp add: entry_closed_def)
  have p1: "pieces K sent m s s1 d1"
    using parts_trans [OF parts_os f(2)] by simp
  note pf = parts_fields [OF p1]
  have r2: "rsp_holds m (fst (WriteDirentToWriter Buffer_write_op d rsp1)) (c1 @ wire_Dirent d)"
    by (rule rsp_holds_dirent [OF f(4) nm f(6)])
  obtain os2 ds where la: "lookupAll (E_sys E) s base es os = (os2, ds)" by fastforce
  have "lookupAll (E_sys E) s1 base es (s_os s1) = (os2, ds)"
    using lookupAll_cong [OF pf(1,2), of "E_sys E"] f(3) la by simp
  then obtain rsp' s' c' d2 where i: "readDir_entries E m base es (fst (WriteDirentToWriter Buffer_write_op d rsp1)) s1 = Some (rsp', s')"
      "pieces K sent m s1 s' d2" "s_os s' = os2" "rsp_holds m rsp' c'" "K c'"
      "d2 @ c' = (c1 @ wire_Dirent d) @ concat (map wire_Dirent ds)"
    using Cons.IH [OF _ r2 k1, of s1] pf(3) Cons.prems(1,4) unfolding list.set by (metis fst_conv insertCI snd_conv)
  have la': "lookupAll (E_sys E) s base (e # es) (s_os s) = (os2, d # ds)"
    using l la by simp
  have "(d1 @ d2) @ c' = c @ concat (map wire_Dirent (d # ds))"
    using i(6) f(5) by (metis append_assoc concat.simps(2) list.simps(9))
  moreover have "readDir_entries E m base (e # es) rsp s = Some (rsp', s')"
    unfolding readDir_entries_Cons using l f(1) i(1) by simp
  moreover have "pieces K sent m s s' (d1 @ d2)"
    by (rule parts_trans [OF p1 i(2)])
  ultimately show ?case
    unfolding la' fst_conv snd_conv using i(3,4,5) by blast
qed

text \<open>Looking up entries does not give the directory handle more entries.\<close>

lemma left_Stat:
  assumes "os_promises S left"
  shows "left f (fst (Stat S p b os)) \<le> left f os"
  using promise_Stat [OF assms, of f b p os] by (auto simp: Stat_def split: prod.split sum.split)

lemma left_restricting:
  assumes P: "os_promises S left"
  shows "left f (fst (restrictingSymlinkByFileInfo S st b fi os)) \<le> left f os"
proof -
  obtain os1 r where r: "os_Readlink S (b @ st_Name fi) os = (os1, r)" by fastforce
  have le: "left f os1 \<le> left f os"
    using promise_os_Readlink [OF P, of f "b @ st_Name fi" os] r by simp
  show ?thesis
    using le left_Stat [OF P, of f "b @ st_Name fi" True os1]
    by (cases r) (auto simp: restrictingSymlinkByFileInfo_def r Let_def)
qed

lemma left_lookupDirent:
  assumes P: "os_promises S left"
  shows "left f (fst (lookupDirent S s b e os)) \<le> left f os"
proof -
  obtain os1 r where r: "Stat S (b @ ent_Name e) False os = (os1, r)" by fastforce
  have le: "left f os1 \<le> left f os"
    using left_Stat [OF P, of f "b @ ent_Name e" False os] r by simp
  show ?thesis
  proof (cases r)
    case (Inr x)
    obtain fi mt where x: "x = (fi, mt)" by fastforce
    obtain os2 r2 where r2: "restrictingSymlinkByFileInfo S (s_storage s) b fi os1 = (os2, r2)" by fastforce
    have "left f os2 \<le> left f os1"
      using left_restricting [OF P, of f "s_storage s" b fi os1] r2 by simp
    then show ?thesis
      using le r r2 Inr x by (cases r2) (auto simp: lookupDirent_def split: prod.split)
  qed (use le r in \<open>simp add: lookupDirent_def\<close>)
qed

lemma left_lookupDirentSafe:
  assumes P: "os_promises S left"
  shows "left f (fst (lookupDirentSafe S s b e os)) \<le> left f os"
  using left_lookupDirent [OF P, of f s b e os] by (auto simp: lookupDirentSafe_def split: prod.split sum.split)

lemma left_lookupAll:
  assumes P: "os_promises S left"
  shows "left f (fst (lookupAll S s b es os)) \<le> left f os"
proof (induction es arbitrary: os)
  case (Cons e es)
  obtain os1 d where d: "lookupDirentSafe S s b e os = (os1, d)" by fastforce
  obtain os2 ds where ds: "lookupAll S s b es os1 = (os2, ds)" by fastforce
  show ?case
    using d ds left_lookupDirentSafe [OF P, of f s b e os] Cons.IH [of os1] by simp
qed simp

text \<open>
  The reference for a directory listing: batches of 16 entries are read and looked up until the end of the
  directory; the listing is the concatenation of the batches.
\<close>

inductive listing :: "'os sys \<Rightarrow> ('os, 'ws) session \<Rightarrow> string \<Rightarrow> int \<Rightarrow> 'os \<Rightarrow> Dirent list \<Rightarrow> bool" for S s dirBase f where
  listing_end: "\<lbrakk>os_ReadDir S f 16 os = (os1, es, e); e = Some RdEOF \<or> e = None \<and> es = [];
      lookupAll S s dirBase es os1 = (os2, ds)\<rbrakk> \<Longrightarrow> listing S s dirBase f os ds"
| listing_more: "\<lbrakk>os_ReadDir S f 16 os = (os1, es, None); es \<noteq> []; lookupAll S s dirBase es os1 = (os2, ds);
      listing S s dirBase f os2 ds'\<rbrakk> \<Longrightarrow> listing S s dirBase f os (ds @ ds')"

lemma listing_cong:
  assumes "s_storage s' = s_storage s" and "s_fsIds s' = s_fsIds s"
  shows "listing S s' b f os ds \<Longrightarrow> listing S s b f os ds"
proof (induction rule: listing.induct)
  case (listing_end os os1 es e os2 ds)
  then show ?case using listing.listing_end [of S f os os1 es e s b os2 ds] lookupAll_cong [OF assms] by metis
next
  case (listing_more os os1 es os2 ds ds')
  then show ?case using listing.listing_more [of S f os os1 es s b os2 ds ds'] lookupAll_cong [OF assms] by metis
qed

lemma readDir_final_pieces:
  assumes W: "ws_reliable (E_ws E) cur sent" and s: "healthy s" and r: "rsp_holds m rsp c" and K: "K c"
  shows "answersK K sent m s (s_write E (snd (Buffer_Done (rsp\<lparr>buf_Bytes := (buf_Bytes rsp)[1 := ErrorOK]\<rparr>))) s) ErrorOK c"
proof -
  have "Buffer_content (rsp\<lparr>buf_Bytes := (buf_Bytes rsp)[1 := ErrorOK]\<rparr>) = (Buffer_content rsp)[1 := ErrorOK]"
    by (simp add: Buffer_content_def take_update_swap)
  then have "snd (Buffer_Done (rsp\<lparr>buf_Bytes := (buf_Bytes rsp)[1 := ErrorOK]\<rparr>)) = m # ErrorOK # c"
    using r by (simp add: Buffer_Done_content rsp_holds_def)
  then show ?thesis
    using answersK_emits [OF s s_write_emits [OF W s], where K = K] K rsp_holds_Written [OF r] by simp
qed

lemmas readDir_final = readDir_final_pieces [where K = "\<lambda>_. True", OF _ _ _ TrueI]

text \<open>One round of the loop of \<^verbatim>\<open>cmdReadDir\<close>.\<close>

lemma readDir_loop_error:
  assumes "os_ReadDir (E_sys E) f 16 (s_os s) = (os, es, Some (RdErr err))"
  shows "readDir_loop E m base f rsp s = writeRspError E m (osErrCode err) ''read dir failed'' (s\<lparr>s_os := os\<rparr>)"
  using assms by (subst readDir_loop.simps) simp

lemma readDir_loop_round:
  assumes "os_ReadDir (E_sys E) f 16 (s_os s) = (os, es, e)" and "e = None \<or> e = Some RdEOF"
    and "readDir_entries E m base es rsp (s\<lparr>s_os := os\<rparr>) = Some (rsp', s')"
  shows "readDir_loop E m base f rsp s =
     (if es = [] \<or> e = Some RdEOF
      then s_write E (snd (Buffer_Done (rsp'\<lparr>buf_Bytes := (buf_Bytes rsp')[1 := ErrorOK]\<rparr>))) s'
      else readDir_loop E m base f rsp' s')"
  using assms(2)
proof
  assume "e = None"
  with assms(1,3) show ?thesis by (subst readDir_loop.simps) simp
next
  assume "e = Some RdEOF"
  with assms(1,3) show ?thesis by (subst readDir_loop.simps) simp
qed

lemma readDir_batch:
  assumes W: "ws_reliable (E_ws E) cur sent" and P: "os_promises (E_sys E) left" and s: "healthy s"
    and r: "rsp_holds m rsp c" and rd: "os_ReadDir (E_sys E) f n (s_os s) = (os1, es, e)"
    and la: "lookupAll (E_sys E) s base es os1 = (os2, ds)" and K: "entry_closed K" "K c"
  obtains rsp' s' c' d where "readDir_entries E m base es rsp (s\<lparr>s_os := os1\<rparr>) = Some (rsp', s')"
    and "pieces K sent m s s' d" and "s_os s' = os2" and "rsp_holds m rsp' c'" and "K c'" and "d @ c' = c @ concat (map wire_Dirent ds)"
proof -
  let ?s = "s\<lparr>s_os := os1\<rparr>"
  have h: "healthy ?s" using s by simp
  have la': "lookupAll (E_sys E) ?s base es (s_os ?s) = (os2, ds)"
    using la lookupAll_cong [of ?s s] by simp
  obtain rsp' s' c' d where "readDir_entries E m base es rsp ?s = Some (rsp', s')" "pieces K sent m ?s s' d" "s_os s' = os2"
      "rsp_holds m rsp' c'" "K c'" "d @ c' = c @ concat (map wire_Dirent ds)"
    using readDir_entries_parts [OF W K(1) h r K(2) promise_names [OF P rd], of base] unfolding la' by auto
  moreover from this have "pieces K sent m s s' d"
    using parts_trans [OF parts_os] by (metis append_Nil)
  ultimately show ?thesis using that by blast
qed

lemma readDir_loop_answers:
  assumes W: "ws_reliable (E_ws E) cur sent" and P: "os_promises (E_sys E) left" and K: "entry_closed K"
  shows "listing (E_sys E) s0 base f os ds \<Longrightarrow> s_storage s = s_storage s0 \<Longrightarrow> s_fsIds s = s_fsIds s0 \<Longrightarrow> healthy s \<Longrightarrow>
    s_os s = os \<Longrightarrow> rsp_holds m rsp c \<Longrightarrow> K c \<Longrightarrow>
    answersK K sent m s (readDir_loop E m base f rsp s) ErrorOK (c @ concat (map wire_Dirent ds))"
proof (induction arbitrary: s rsp c rule: listing.induct)
  case (listing_end os os1 es e os2 ds)
  note rd = listing_end.hyps(1) [folded listing_end.prems(4)]
  have la: "lookupAll (E_sys E) s base es os1 = (os2, ds)"
    using listing_end.hyps(3) lookupAll_cong [OF listing_end.prems(1,2)] by simp
  obtain rsp' s' c' d where b: "readDir_entries E m base es rsp (s\<lparr>s_os := os1\<rparr>) = Some (rsp', s')"
      "pieces K sent m s s' d" "s_os s' = os2" "rsp_holds m rsp' c'" "K c'" "d @ c' = c @ concat (map wire_Dirent ds)"
    by (rule readDir_batch [OF W P listing_end.prems(3,5) rd la K listing_end.prems(6)])
  have "answersK K sent m s (s_write E (snd (Buffer_Done (rsp'\<lparr>buf_Bytes := (buf_Bytes rsp')[1 := ErrorOK]\<rparr>))) s') ErrorOK (d @ c')"
    using answers_after [OF b(2) listing_end.prems(3) readDir_final_pieces [where K = K, OF W _ b(4,5)]] parts_fields(3) [OF b(2)] listing_end.prems(3) by simp
  then show ?case
    using readDir_loop_round [OF rd _ b(1)] listing_end.hyps(2) b(6) by auto
next
  case (listing_more os os1 es os2 ds ds')
  note rd = listing_more.hyps(1) [folded listing_more.prems(4)]
  have la: "lookupAll (E_sys E) s base es os1 = (os2, ds)"
    using listing_more.hyps(3) lookupAll_cong [OF listing_more.prems(1,2)] by simp
  obtain rsp' s' c' d where b: "readDir_entries E m base es rsp (s\<lparr>s_os := os1\<rparr>) = Some (rsp', s')"
      "pieces K sent m s s' d" "s_os s' = os2" "rsp_holds m rsp' c'" "K c'" "d @ c' = c @ concat (map wire_Dirent ds)"
    by (rule readDir_batch [OF W P listing_more.prems(3,5) rd la K listing_more.prems(6)])
  note pf = parts_fields [OF b(2)]
  have "answersK K sent m s' (readDir_loop E m base f rsp' s') ErrorOK (c' @ concat (map wire_Dirent ds'))"
    by (rule listing_more.IH) (use pf listing_more.prems b in simp_all)
  from answers_after [OF b(2) listing_more.prems(3) this]
  have "answersK K sent m s (readDir_loop E m base f rsp' s') ErrorOK (c @ concat (map wire_Dirent (ds @ ds')))"
    using b(6) by (metis append_assoc concat_append map_append)
  then show ?case
    using readDir_loop_round [OF rd _ b(1)] listing_more.hyps(2) by simp
qed

lemma readDir_loop_replies:
  assumes W: "ws_reliable (E_ws E) cur sent" and P: "os_promises (E_sys E) left"
  shows "healthy s \<Longrightarrow> rsp_holds m rsp c \<Longrightarrow> replies sent m s (readDir_loop E m base f rsp s)"
proof (induction "left f (s_os s)" arbitrary: s rsp c rule: less_induct)
  case less
  note s = less.prems(1)
  obtain os1 es e where rd: "os_ReadDir (E_sys E) f 16 (s_os s) = (os1, es, e)" by (cases "os_ReadDir (E_sys E) f 16 (s_os s)")
  obtain os2 ds where la: "lookupAll (E_sys E) s base es os1 = (os2, ds)" by fastforce
  show ?case
  proof (cases "e = None \<or> e = Some RdEOF")
    case False
    then obtain err where "e = Some (RdErr err)" by (metis not_None_eq rd_end.exhaust)
    then show ?thesis
      using readDir_loop_error [of E f s os1 es err m base rsp] rd base_replies_os(1) [OF W s] by (simp add: osErrCode_error)
  next
    case True
    obtain rsp' s' c' d where b: "readDir_entries E m base es rsp (s\<lparr>s_os := os1\<rparr>) = Some (rsp', s')"
        "parts sent m s s' d" "s_os s' = os2" "rsp_holds m rsp' c'"
      by (rule readDir_batch [OF W P less.prems rd la, of "\<lambda>_. True"]) simp_all
    have s': "healthy s'" using parts_fields(3) [OF b(2)] s by simp
    show ?thesis
    proof (cases "es = [] \<or> e = Some RdEOF")
      case fin: True
      show ?thesis
        using replies_after_parts [OF b(2) s answers_replies [OF readDir_final [OF W s' b(4)]]]
          readDir_loop_round [OF rd True b(1)] fin by simp
    next
      case False
      then have "left f os1 < left f (s_os s)"
        using True rd promise_ReadDir [OF P, of f 16 "s_os s" os1 es] by simp
      then have "left f (s_os s') < left f (s_os s)"
        using left_lookupAll [OF P, of f s base es os1] la b(3) by simp
      from replies_after_parts [OF b(2) s less.hyps [OF this s' b(4)]] show ?thesis
        using readDir_loop_round [OF rd True b(1)] False by simp
    qed
  qed
qed

lemma replies_then_os: "replies sent m s r \<Longrightarrow> replies sent m s (Option.bind r (\<lambda>s. Some (fst (on_os f s))))"
  by (auto simp: replies_def sends_def on_os_def split: prod.split)

lemma answers_then_os: "answersK K sent m s r ec d \<Longrightarrow> answersK K sent m s (Option.bind r (\<lambda>s. Some (fst (on_os f s)))) ec d"
proof -
  assume "answersK K sent m s r ec d"
  then obtain s' ps g where *: "r = Some s'" "sends sent s s' (ps @ [m # ec # g])" "list_all (is_partial m) ps"
      "length g \<le> 8190" "concat (map (drop 2) ps) @ g = d" "list_all (\<lambda>p. K (drop 2 p)) ps" "K g"
    unfolding answersK_def by blast
  have "sends sent s (fst (on_os f s')) (ps @ [m # ec # g])"
    using *(2) by (auto simp: sends_def on_os_def split: prod.split)
  with * show ?thesis
    unfolding answersK_def by auto
qed

lemma cmdReadDir_replies:
  assumes W: "ws_reliable (E_ws E) cur sent" and s: "healthy s" and P: "os_promises (E_sys E) left"
  shows "replies sent m s (cmdReadDir E m req s)"
proof -
  obtain os r where r: "os_Open (E_sys E) (s_storage s @ ReadDir_Path req) (s_os s) = (os, r)" by fastforce
  let ?s = "s\<lparr>s_os := os\<rparr>"
  have h: "healthy ?s" using s by simp
  have "replies sent m ?s (Option.bind (readDir_loop E m b f (fst (Buffer_write_op (partial_header m) bufPool_Get)) ?s)
      (\<lambda>s. Some (fst (on_os (os_CloseFile (E_sys E) f) s))))" for b f
    by (rule replies_then_os [OF readDir_loop_replies [OF W P h rsp_holds_fresh]])
  then show ?thesis
    using r base_replies_os(1) [OF W s] bad_path_replies [OF W s]
    by (cases r) (simp_all add: cmdReadDir_def on_os_def [of "os_Open (E_sys E) p" for p] osErrCode_error)
qed

section \<open>Listings with prefetch\<close>

lemma writeDirentChunk_flush:
  "writeDirentChunk E m d rsp s =
     Option.bind (flush_full E m (1 + GetDirentRequiredSize d) rsp s) (\<lambda>(rsp, s).
       Some (fst (WriteDirentToWriter Buffer_write_op d (fst (Buffer_write_op [READDIRPLUS_INDICATOR_CONTINUE] rsp))), s))"
  by (simp add: writeDirentChunk_def flush_full_def)

lemma writePrefetchIndicator_flush:
  "writePrefetchIndicator E m i rsp s =
     Option.bind (flush_full E m 1 rsp s) (\<lambda>(rsp, s). Some (fst (Buffer_write_op [i] rsp), s))"
  by (simp add: writePrefetchIndicator_def flush_full_def)

text \<open>\<open>streamed\<close>: a buffer and a session reached by sending partial responses and looking up entries.\<close>

definition streamed :: "('ws \<Rightarrow> bytes list) \<Rightarrow> (int \<Rightarrow> 'os \<Rightarrow> nat) \<Rightarrow> u8 \<Rightarrow> ('os, 'ws) session \<Rightarrow> Buffer \<times> ('os, 'ws) session \<Rightarrow> bool" where
  "streamed sent left m s = (\<lambda>(rsp, s'). (\<exists>d. parts sent m s s' d) \<and> (\<exists>c. rsp_holds m rsp c)
     \<and> (\<forall>f. left f (s_os s') \<le> left f (s_os s)))"

lemma streamedI: "parts sent m s s' d \<Longrightarrow> rsp_holds m rsp c \<Longrightarrow> (\<And>f. left f (s_os s') \<le> left f (s_os s)) \<Longrightarrow> streamed sent left m s (rsp, s')"
  by (auto simp: streamed_def)

lemma streamed_trans: "streamed sent left m s (rsp, s') \<Longrightarrow> streamed sent left m s' (rsp', s'') \<Longrightarrow> streamed sent left m s (rsp', s'')"
  unfolding streamed_def using parts_trans by (fastforce intro: order_trans)

lemma streamed_healthy: "streamed sent left m s (rsp, s') \<Longrightarrow> healthy s' = healthy s"
  by (auto simp: streamed_def parts_fields)

lemma streamed_holds: "streamed sent left m s (rsp, s') \<Longrightarrow> \<exists>c. rsp_holds m rsp c"
  by (auto simp: streamed_def)

lemma writePrefetchIndicator_streamed:
  assumes W: "ws_reliable (E_ws E) cur sent" and s: "healthy s" and r: "rsp_holds m rsp c"
  shows "\<exists>x. writePrefetchIndicator E m i rsp s = Some x \<and> streamed sent left m s x"
proof -
  obtain rsp' s' c' d where f: "flush_full E m 1 rsp s = Some (rsp', s')" "parts sent m s s' d" "s_os s' = s_os s"
      "rsp_holds m rsp' c'" "length c' + 2 + 1 \<le> MaxMsgSize"
    using flush_full_holds [OF W s r, of 1] by auto
  have "rsp_holds m (fst (Buffer_write_op [i] rsp')) (c' @ [i])"
    by (rule rsp_holds_byte [OF f(4)]) (use f(5) in simp)
  from streamedI [OF f(2) this] f(1,3) show ?thesis
    unfolding writePrefetchIndicator_flush by simp
qed

lemma writeDirentChunk_streamed:
  assumes W: "ws_reliable (E_ws E) cur sent" and s: "healthy s" and r: "rsp_holds m rsp c" and nm: "length (de_Name d) \<le> 4096"
  shows "\<exists>x. writeDirentChunk E m d rsp s = Some x \<and> streamed sent left m s x"
proof -
  note wb = wire_Dirent_bound [OF nm]
  have n: "1 + GetDirentRequiredSize d \<le> 8190" using wb by simp
  obtain rsp' s' c' d' where f: "flush_full E m (1 + GetDirentRequiredSize d) rsp s = Some (rsp', s')" "parts sent m s s' d'"
      "s_os s' = s_os s" "rsp_holds m rsp' c'" "length c' + 2 + (1 + GetDirentRequiredSize d) \<le> MaxMsgSize"
    using flush_full_holds [OF W s r n] by auto
  have "rsp_holds m (fst (Buffer_write_op [READDIRPLUS_INDICATOR_CONTINUE] rsp')) (c' @ [READDIRPLUS_INDICATOR_CONTINUE])"
    by (rule rsp_holds_byte [OF f(4)]) (use f(5) in simp)
  from rsp_holds_dirent [OF this nm] f(5)
  have "rsp_holds m (fst (WriteDirentToWriter Buffer_write_op d (fst (Buffer_write_op [READDIRPLUS_INDICATOR_CONTINUE] rsp'))))
      ((c' @ [READDIRPLUS_INDICATOR_CONTINUE]) @ wire_Dirent d)" by simp
  from streamedI [OF f(2) this] f(1,3) show ?thesis
    unfolding writeDirentChunk_flush by simp
qed

text \<open>Looking up one entry and adding it to the buffer.\<close>

lemma entry_streamed:
  assumes W: "ws_reliable (E_ws E) cur sent" and P: "os_promises (E_sys E) left" and s: "healthy s" and r: "rsp_holds m rsp c"
    and l: "lookupDirentSafe (E_sys E) s base e (s_os s) = (os, d)" and nm: "length (ent_Name e) \<le> 4096"
  shows "\<exists>x. writeDirentChunk E m d rsp (s\<lparr>s_os := os\<rparr>) = Some x \<and> streamed sent left m s x"
proof -
  have "length (de_Name d) \<le> 4096"
    using lookupDirentSafe_name [of "E_sys E" s base e "s_os s"] l nm by simp
  then obtain rsp' s' where x: "writeDirentChunk E m d rsp (s\<lparr>s_os := os\<rparr>) = Some (rsp', s')"
      "streamed sent left m (s\<lparr>s_os := os\<rparr>) (rsp', s')"
    using writeDirentChunk_streamed [OF W _ r, of "s\<lparr>s_os := os\<rparr>" d left] s by auto
  have "left f os \<le> left f (s_os s)" for f
    using left_lookupDirentSafe [OF P, of f s base e "s_os s"] l by simp
  then have "streamed sent left m s (rsp, s\<lparr>s_os := os\<rparr>)"
    by (intro streamedI [OF parts_os r]) simp
  from streamed_trans [OF this x(2)] x(1) show ?thesis by blast
qed

lemma rootChunks_streamed:
  assumes W: "ws_reliable (E_ws E) cur sent" and P: "os_promises (E_sys E) left"
  shows "healthy s \<Longrightarrow> rsp_holds m rsp c \<Longrightarrow> \<forall>e \<in> set es. length (ent_Name e) \<le> 4096 \<Longrightarrow>
    \<exists>x. rootChunks E m base es rsp s = Some x \<and> streamed sent left m s x"
proof (induction es arbitrary: rsp s c)
  case Nil
  then show ?case by (simp add: streamedI [OF parts_refl])
next
  case (Cons e es)
  obtain os d where l: "lookupDirentSafe (E_sys E) s base e (s_os s) = (os, d)" by fastforce
  obtain rsp1 s1 where x: "writeDirentChunk E m d rsp (s\<lparr>s_os := os\<rparr>) = Some (rsp1, s1)" "streamed sent left m s (rsp1, s1)"
    using entry_streamed [OF W P Cons.prems(1,2) l] Cons.prems(3) by auto
  obtain c1 where "rsp_holds m rsp1 c1" using streamed_holds [OF x(2)] by blast
  then obtain y where "rootChunks E m base es rsp1 s1 = Some y" "streamed sent left m s1 y"
    using Cons.IH [of s1 rsp1 c1] Cons.prems(1,3) streamed_healthy [OF x(2)] by auto
  then show ?case
    using l x streamed_trans [OF x(2)] by (cases y) (simp add: Let_def)
qed

lemma streamPending_streamed:
  assumes W: "ws_reliable (E_ws E) cur sent" and P: "os_promises (E_sys E) left"
  shows "healthy s \<Longrightarrow> rsp_holds m rsp c \<Longrightarrow> \<forall>e \<in> set es. length (ent_Name e) \<le> 4096 \<Longrightarrow>
    \<exists>over k x. streamPending E m base es n rsp s = Some (over, k, x) \<and> streamed sent left m s x"
proof (induction es arbitrary: rsp s c n)
  case Nil
  then show ?case
    by (intro exI [of _ False] exI [of _ n] exI [of _ "(rsp, s)"]) (simp add: streamedI [OF parts_refl])
next
  case (Cons e es)
  obtain os d where l: "lookupDirentSafe (E_sys E) s base e (s_os s) = (os, d)" by fastforce
  obtain rsp1 s1 where x: "writeDirentChunk E m d rsp (s\<lparr>s_os := os\<rparr>) = Some (rsp1, s1)" "streamed sent left m s (rsp1, s1)"
    using entry_streamed [OF W P Cons.prems(1,2) l] Cons.prems(3) by auto
  obtain c1 where c1: "rsp_holds m rsp1 c1" using streamed_holds [OF x(2)] by blast
  obtain over k y where y: "streamPending E m base es (n + 1) rsp1 s1 = Some (over, k, y)" "streamed sent left m s1 y"
    using Cons.IH [of s1 rsp1 c1 "n + 1"] c1 Cons.prems(1,3) streamed_healthy [OF x(2)] by auto
  have r: "streamed sent left m s (rsp, s)"
    using streamedI [OF parts_refl Cons.prems(2)] by blast
  show ?case
  proof (cases "n + 1 > maxPrefetchDirEntries")
    case True
    then show ?thesis using r by auto
  next
    case False
    then show ?thesis
      using y l x streamed_trans [OF x(2)] by (cases y) (simp add: Let_def)
  qed
qed

text \<open>The loop over the rest of the root directory.\<close>

lemma rootMore_streamed:
  assumes W: "ws_reliable (E_ws E) cur sent" and P: "os_promises (E_sys E) left"
  shows "healthy s \<Longrightarrow> rsp_holds m rsp c \<Longrightarrow>
    \<exists>r rsp' s'. rootMore E m base f rsp s = Some (r, s') \<and> (r = Inr rsp' \<or> (\<exists>e. r = Inl e)) \<and> (\<exists>d. parts sent m s s' d)
      \<and> (\<exists>c. rsp_holds m rsp' c)"
proof (induction "left f (s_os s)" arbitrary: s rsp c rule: less_induct)
  case less
  note s = less.prems(1)
  obtain os1 es e where rd: "os_ReadDir (E_sys E) f 16 (s_os s) = (os1, es, e)" by (cases "os_ReadDir (E_sys E) f 16 (s_os s)")
  have h: "healthy (s\<lparr>s_os := os1\<rparr>)" using s by simp
  obtain rsp1 s1 where x: "rootChunks E m base es rsp (s\<lparr>s_os := os1\<rparr>) = Some (rsp1, s1)"
      "streamed sent left m (s\<lparr>s_os := os1\<rparr>) (rsp1, s1)"
    using rootChunks_streamed [OF W P h less.prems(2) promise_names [OF P rd], of base] by auto
  obtain c1 d1 where p1: "rsp_holds m rsp1 c1" "parts sent m (s\<lparr>s_os := os1\<rparr>) s1 d1"
    using x(2) unfolding streamed_def by blast
  have ps: "parts sent m s s1 d1" using parts_trans [OF parts_os p1(2)] by simp
  have s1: "healthy s1" using parts_fields(3) [OF ps] s by simp
  show ?case
  proof (cases e)
    case None
    show ?thesis
    proof (cases "es = []")
      case True
      then have "rootMore E m base f rsp s = Some (Inr rsp1, s1)"
        using rd x(1) None by (subst rootMore.simps) simp
      then show ?thesis using ps p1(1) by blast
    next
      case False
      have "left f os1 < left f (s_os s)"
        using promise_ReadDir [OF P rd [unfolded None]] by simp
      moreover have "left f (s_os s1) \<le> left f os1"
        using x(2) by (simp add: streamed_def)
      ultimately have "left f (s_os s1) < left f (s_os s)" by simp
      then obtain r rsp' s' d where i: "rootMore E m base f rsp1 s1 = Some (r, s')" "r = Inr rsp' \<or> (\<exists>e. r = Inl e)"
          "parts sent m s1 s' d" "\<exists>c. rsp_holds m rsp' c"
        using less.hyps [OF _ s1 p1(1)] by blast
      moreover have "rootMore E m base f rsp s = rootMore E m base f rsp1 s1"
        using rd x(1) None False by (subst rootMore.simps) simp
      ultimately show ?thesis using parts_trans [OF ps i(3)] by metis
    qed
  next
    case (Some x')
    then have "\<exists>r. rootMore E m base f rsp s = Some (r, s1) \<and> (r = Inr rsp1 \<or> (\<exists>e. r = Inl e))"
      using rd x(1) by (subst rootMore.simps; cases x') auto
    then show ?thesis using ps p1(1) by blast
  qed
qed

text \<open>One prefetched directory.\<close>

lemma streamPrefetchDir_loop_streamed:
  assumes W: "ws_reliable (E_ws E) cur sent" and P: "os_promises (E_sys E) left"
  shows "healthy s \<Longrightarrow> rsp_holds m rsp c \<Longrightarrow> \<forall>e \<in> set (pf_pending state). length (ent_Name e) \<le> 4096 \<Longrightarrow>
    \<exists>failed rsp' s' d c'. streamPrefetchDir_loop E m state rsp s = Some (failed, rsp', s') \<and> parts sent m s s' d \<and> rsp_holds m rsp' c'"
proof (induction "left (pf_file state) (s_os s)" arbitrary: s rsp c state rule: less_induct)
  case less
  note s = less.prems(1)
  obtain over k rsp1 s1 where x: "streamPending E m (pf_absPath state) (pf_pending state) (pf_count state) rsp s = Some (over, k, rsp1, s1)"
      "streamed sent left m s (rsp1, s1)"
    using streamPending_streamed [OF W P less.prems(1-3)] by (metis surj_pair)
  obtain c1 d1 where p1: "rsp_holds m rsp1 c1" "parts sent m s s1 d1"
    using x(2) unfolding streamed_def by blast
  obtain os es e where rd: "os_ReadDir (E_sys E) (pf_file state) 16 (s_os s1) = (os, es, e)"
    by (cases "os_ReadDir (E_sys E) (pf_file state) 16 (s_os s1)")
  have p2: "parts sent m s (s1\<lparr>s_os := os\<rparr>) d1"
    using parts_trans [OF p1(2) parts_os] by simp
  show ?case
  proof (cases "over \<or> e \<noteq> None")
    case True
    then have "(\<exists>failed. streamPrefetchDir_loop E m state rsp s = Some (failed, rsp1, s1))
        \<or> (\<exists>failed. streamPrefetchDir_loop E m state rsp s = Some (failed, rsp1, s1\<lparr>s_os := os\<rparr>))"
      using x(1) rd by (subst (1 2) streamPrefetchDir_loop.simps) (auto simp: Let_def split: rd_end.split)
    then show ?thesis using p1 p2 by blast
  next
    case False
    let ?st = "state\<lparr>pf_pending := es, pf_count := k\<rparr>"
    have eq: "streamPrefetchDir_loop E m state rsp s = streamPrefetchDir_loop E m ?st rsp1 (s1\<lparr>s_os := os\<rparr>)"
      using x(1) rd False by (subst streamPrefetchDir_loop.simps) simp
    have "left (pf_file state) os < left (pf_file state) (s_os s1)"
      using promise_ReadDir [OF P, of "pf_file state" 16 "s_os s1" os es] rd False by simp
    moreover have "left (pf_file state) (s_os s1) \<le> left (pf_file state) (s_os s)"
      using x(2) by (simp add: streamed_def)
    ultimately have "left (pf_file ?st) (s_os (s1\<lparr>s_os := os\<rparr>)) < left (pf_file state) (s_os s)" by simp
    moreover have "healthy (s1\<lparr>s_os := os\<rparr>)" using parts_fields(3) [OF p2] s by simp
    moreover have "\<forall>e \<in> set (pf_pending ?st). length (ent_Name e) \<le> 4096"
      using promise_names [OF P rd] by simp
    ultimately obtain failed rsp' s' d c' where "streamPrefetchDir_loop E m ?st rsp1 (s1\<lparr>s_os := os\<rparr>) = Some (failed, rsp', s')"
        "parts sent m (s1\<lparr>s_os := os\<rparr>) s' d" "rsp_holds m rsp' c'"
      using less.hyps p1(1) by blast
    then show ?thesis using eq parts_trans [OF p2] by metis
  qed
qed

lemma streamPrefetchDir_streamed:
  assumes W: "ws_reliable (E_ws E) cur sent" and P: "os_promises (E_sys E) left" and s: "healthy s" and r: "rsp_holds m rsp c"
    and nm: "\<forall>e \<in> set (pf_pending state). length (ent_Name e) \<le> 4096"
  shows "\<exists>failed rsp' s' d c'. streamPrefetchDir E m state rsp s = Some (failed, rsp', s') \<and> parts sent m s s' d \<and> rsp_holds m rsp' c'"
proof -
  obtain failed rsp' s' d c' where x: "streamPrefetchDir_loop E m state rsp s = Some (failed, rsp', s')" "parts sent m s s' d" "rsp_holds m rsp' c'"
    using streamPrefetchDir_loop_streamed [OF W P s r nm] by blast
  obtain os r where os: "os_CloseFile (E_sys E) (pf_file state) (s_os s') = (os, r)" by fastforce
  have "parts sent m s (s'\<lparr>s_os := os\<rparr>) d" using parts_trans [OF x(2) parts_os] by simp
  with x os show ?thesis by (auto simp: streamPrefetchDir_def on_os_def)
qed

lemma preparePrefetchDir_names:
  assumes "os_promises S left" and "preparePrefetchDir S b e os = (os', Inr st)"
  shows "\<forall>e \<in> set (pf_pending st). length (ent_Name e) \<le> 4096"
proof -
  obtain os1 cf where o: "os_Open S (b @ ent_Name e @ ''/'') os = (os1, Inr cf)"
    using assms(2) by (auto simp: preparePrefetchDir_def Let_def split: prod.splits sum.splits)
  obtain os2 es x where rd: "os_ReadDir S cf 16 os1 = (os2, es, x)" by (cases "os_ReadDir S cf 16 os1")
  have "pf_pending st = es"
    using assms(2) o rd by (auto simp: preparePrefetchDir_def Let_def split: option.splits rd_end.splits)
  then show ?thesis using promise_names [OF assms(1) rd] by simp
qed

text \<open>Looking for the next directory makes progress through the root entries.\<close>

lemma nextPrefetchDir_progress:
  "nextPrefetchDir S b es i used os = (os', used', r, i') \<Longrightarrow> used < maxPrefetchDirs \<Longrightarrow> es \<noteq> [] \<Longrightarrow> i < i' \<and> i' \<le> i + length es"
proof (induction S b es i used os rule: nextPrefetchDir.induct)
  case (2 S b e es i used os)
  show ?case
  proof (cases "ent_IsDir e")
    case True
    then show ?thesis using "2.prems" by (auto split: prod.splits sum.splits)
  next
    case False
    then have n: "nextPrefetchDir S b es (i + 1) used os = (os', used', r, i')" using "2.prems" by simp
    show ?thesis
    proof (cases "es = []")
      case True
      then show ?thesis using n by simp
    next
      case e: False
      have "i + 1 < i' \<and> i' \<le> i + 1 + length es"
        by (rule "2.IH") (use "2.prems" False e n in auto)
      then show ?thesis by simp
    qed
  qed
qed simp

lemma nextPrefetchDir_state:
  assumes P: "os_promises S left"
  shows "nextPrefetchDir S b es i used os = (os', used', Inr (Some st), i') \<Longrightarrow>
    used < maxPrefetchDirs \<and> es \<noteq> [] \<and> (\<forall>e \<in> set (pf_pending st). length (ent_Name e) \<le> 4096)"
proof (induction es arbitrary: i)
  case (Cons e es)
  then have u: "used < maxPrefetchDirs" by (auto split: if_splits)
  show ?case
  proof (cases "ent_IsDir e")
    case True
    then obtain os1 where "preparePrefetchDir S b e os = (os1, Inr st)"
      using Cons.prems u by (auto split: prod.splits sum.splits)
    then show ?thesis using u preparePrefetchDir_names [OF P] by simp
  next
    case False
    then show ?thesis using Cons.IH [of "i + 1"] Cons.prems u by simp
  qed
qed simp

text \<open>The prefetch loops end and finish the response sequence.\<close>

lemma prefetchLoop_head:
  "prefetchLoop E m base first idx pc None s =
     (if idx < length first \<and> pc < maxPrefetchDirs then
        (case nextPrefetchDir (E_sys E) base (drop idx first) idx pc (s_os s) of
           (os, pc, r, idx) \<Rightarrow>
             (case r of
                Inl _ \<Rightarrow> writeRspError E m ErrorIO ''read prefetch dir failed'' (s\<lparr>s_os := os\<rparr>)
              | Inr None \<Rightarrow> prefetchLoop E m base first idx pc None (s\<lparr>s_os := os\<rparr>)
              | Inr (Some state) \<Rightarrow>
                  Option.bind (writePrefetchIndicator E m READDIRPLUS_INDICATOR_PREFETCH
                      (fst (Buffer_write_op (partial_header m) bufPool_Get)) (s\<lparr>s_os := os\<rparr>))
                    (\<lambda>(rsp, s). prefetchLoop E m base first idx pc (Some (rsp, state)) s)))
      else writeRspOK E m s)"
  by (subst prefetchLoop.simps) (simp only: option.case Let_def)

lemma prefetchLoop_dir:
  "prefetchLoop E m base first idx pc (Some (rsp, state)) s =
     Option.bind (streamPrefetchDir E m state rsp s) (\<lambda>(failed, rsp, s).
       if \<not> failed then
         Option.bind (s_write E (snd (Buffer_Done rsp)) s) (\<lambda>s. prefetchLoop E m base first idx pc None s)
       else
         (case nextPrefetchDir (E_sys E) base (drop idx first) idx pc (s_os s) of
            (os, pc, r, idx) \<Rightarrow>
              (case r of
                 Inr (Some nextState) \<Rightarrow>
                   Option.bind (writePrefetchIndicator E m READDIRPLUS_INDICATOR_PREFETCH_SKIP rsp (s\<lparr>s_os := os\<rparr>))
                     (\<lambda>(rsp, s). prefetchLoop E m base first idx pc (Some (rsp, nextState)) s)
               | _ \<Rightarrow> writeRspError E m ErrorIO ''read prefetch dir failed'' (s\<lparr>s_os := os\<rparr>))))"
  by (subst prefetchLoop.simps) (simp only: option.case prod.case Let_def)

definition prefetch_measure :: "nat \<Rightarrow> nat \<Rightarrow> 'a option \<Rightarrow> nat" where
  "prefetch_measure n idx cur = 2 * (n - idx) + (if cur = None then 0 else 1)"

lemma indicator_then_replies:
  assumes W: "ws_reliable (E_ws E) cur sent" and s: "healthy s" and r: "rsp_holds m rsp c"
    and k: "\<And>rsp s c. healthy s \<Longrightarrow> rsp_holds m rsp c \<Longrightarrow> replies sent m s (k rsp s)"
  shows "replies sent m s (Option.bind (writePrefetchIndicator E m i rsp s) (\<lambda>(rsp, s). k rsp s))"
proof -
  obtain rsp' s' where x: "writePrefetchIndicator E m i rsp s = Some (rsp', s')" "streamed sent (\<lambda>_ _. 0) m s (rsp', s')"
    using writePrefetchIndicator_streamed [OF W s r, of i "\<lambda>_ _. 0"] by auto
  obtain d c' where p: "parts sent m s s' d" "rsp_holds m rsp' c'"
    using x(2) unfolding streamed_def by blast
  have "healthy s'" using parts_fields(3) [OF p(1)] s by simp
  from replies_after_parts [OF p(1) s k [OF this p(2)]] show ?thesis using x(1) by simp
qed

lemma prefetchLoop_replies:
  assumes W: "ws_reliable (E_ws E) cn sent" and P: "os_promises (E_sys E) left"
  shows "healthy s \<Longrightarrow> (\<And>rsp st. cur = Some (rsp, st) \<Longrightarrow>
      (\<exists>c. rsp_holds m rsp c) \<and> (\<forall>e \<in> set (pf_pending st). length (ent_Name e) \<le> 4096)) \<Longrightarrow>
    replies sent m s (prefetchLoop E m base first idx pc cur s)"
proof (induction "prefetch_measure (length first) idx cur" arbitrary: s cur idx pc rule: less_induct)
  case less
  note s = less.prems(1)
  have step: "replies sent m s (Option.bind (writePrefetchIndicator E m i rsp s)
      (\<lambda>(rsp, s). prefetchLoop E m base first idx' pc' (Some (rsp, st)) s))"
    if "healthy s" "rsp_holds m rsp c" "idx < idx'" "idx < length first" "\<forall>e \<in> set (pf_pending st). length (ent_Name e) \<le> 4096"
    for s i rsp c idx' pc' st
    by (rule indicator_then_replies [OF W that(1,2)], rule less.hyps)
      (use that in \<open>auto simp: prefetch_measure_def\<close>)
  show ?case
  proof (cases cur)
    case None
    show ?thesis
    proof (cases "idx < length first \<and> pc < maxPrefetchDirs")
      case True
      obtain os pc' r idx' where n: "nextPrefetchDir (E_sys E) base (drop idx first) idx pc (s_os s) = (os, pc', r, idx')"
        by (cases "nextPrefetchDir (E_sys E) base (drop idx first) idx pc (s_os s)")
      have i: "idx < idx'" using nextPrefetchDir_progress [OF n] True by simp
      have h: "healthy (s\<lparr>s_os := os\<rparr>)" using s by simp
      consider (err) e where "r = Inl e" | (none) "r = Inr None" | (some) st where "r = Inr (Some st)"
        by (metis option.exhaust sum.exhaust)
      then show ?thesis
      proof cases
        case err
        then show ?thesis unfolding None using n True base_replies_os(1) [OF W s] by (subst prefetchLoop_head) simp
      next
        case none
        have "replies sent m (s\<lparr>s_os := os\<rparr>) (prefetchLoop E m base first idx' pc' None (s\<lparr>s_os := os\<rparr>))"
          by (rule less.hyps [OF _ h]) (use i True None in \<open>auto simp: prefetch_measure_def\<close>)
        then show ?thesis unfolding None using none n True by (subst prefetchLoop_head) simp
      next
        case some
        have "\<forall>e \<in> set (pf_pending st). length (ent_Name e) \<le> 4096"
          using nextPrefetchDir_state [OF P n [unfolded some]] by blast
        from step [OF h rsp_holds_fresh i _ this] show ?thesis
          unfolding None using some n True by (subst prefetchLoop_head) simp
      qed
    next
      case False
      show ?thesis unfolding None
        by (subst prefetchLoop_head, subst if_not_P [OF False]) (rule writeRspOK_replies [OF W s])
    qed
  next
    case (Some p)
    obtain rsp st where p: "p = (rsp, st)" by fastforce
    obtain c where c: "rsp_holds m rsp c" "\<forall>e \<in> set (pf_pending st). length (ent_Name e) \<le> 4096"
      using less.prems(2) Some p by blast
    obtain failed rsp1 s1 d1 c1 where x: "streamPrefetchDir E m st rsp s = Some (failed, rsp1, s1)" "parts sent m s s1 d1" "rsp_holds m rsp1 c1"
      using streamPrefetchDir_streamed [OF W P s c] by blast
    have s1: "healthy s1" using parts_fields(3) [OF x(2)] s by simp
    show ?thesis
    proof (cases failed)
      case False
      obtain s2 where s2: "s_write E (snd (Buffer_Done rsp1)) s1 = Some s2" "parts sent m s1 s2 c1"
        using flush_holds [OF W s1 x(3)] by blast
      have "healthy s2" using parts_fields(3) [OF s2(2)] s1 by simp
      then have "replies sent m s2 (prefetchLoop E m base first idx pc None s2)"
        by (intro less.hyps) (use Some in \<open>simp_all add: prefetch_measure_def\<close>)
      from replies_after_parts [OF parts_trans [OF x(2) s2(2)] s this] show ?thesis
        unfolding Some p using x(1) s2(1) False by (subst prefetchLoop_dir) simp
    next
      case True
      obtain os pc' r idx' where n: "nextPrefetchDir (E_sys E) base (drop idx first) idx pc (s_os s1) = (os, pc', r, idx')"
        by (cases "nextPrefetchDir (E_sys E) base (drop idx first) idx pc (s_os s1)")
      have h: "healthy (s1\<lparr>s_os := os\<rparr>)" using s1 by simp
      have "replies sent m s1 (case r of
          Inr (Some nextState) \<Rightarrow>
            Option.bind (writePrefetchIndicator E m READDIRPLUS_INDICATOR_PREFETCH_SKIP rsp1 (s1\<lparr>s_os := os\<rparr>))
              (\<lambda>(rsp, s). prefetchLoop E m base first idx' pc' (Some (rsp, nextState)) s)
        | _ \<Rightarrow> writeRspError E m ErrorIO ''read prefetch dir failed'' (s1\<lparr>s_os := os\<rparr>))"
      proof (cases "\<exists>st'. r = Inr (Some st')")
        case True
        then obtain st' where st': "r = Inr (Some st')" by blast
        note ns = nextPrefetchDir_state [OF P n [unfolded st']]
        have i: "idx < idx'" "idx < length first" using nextPrefetchDir_progress [OF n] ns by auto
        from step [OF h x(3) i] ns show ?thesis using st' by simp
      next
        case False
        then show ?thesis
          using base_replies_os(1) [OF W s1] by (auto split: sum.split option.split)
      qed
      from replies_after_parts [OF x(2) s this] show ?thesis
        unfolding Some p using x(1) True n by (subst prefetchLoop_dir) simp
    qed
  qed
qed

lemma readDirPlus_opened_replies:
  assumes W: "ws_reliable (E_ws E) cur sent" and P: "os_promises (E_sys E) left" and s: "healthy s"
  shows "replies sent m s (readDirPlus_opened E m base f s)"
proof -
  obtain os first err where rd: "os_ReadDir (E_sys E) f (maxRootEntriesForPrefetch + 1) (s_os s) = (os, first, err)"
    by (cases "os_ReadDir (E_sys E) f (maxRootEntriesForPrefetch + 1) (s_os s)")
  let ?s = "s\<lparr>s_os := os\<rparr>"
  have h: "healthy ?s" using s by simp
  obtain rsp1 s1 where x1: "rootChunks E m base first (fst (Buffer_write_op (partial_header m) bufPool_Get)) ?s = Some (rsp1, s1)"
      "streamed sent left m ?s (rsp1, s1)"
    using rootChunks_streamed [OF W P h rsp_holds_fresh promise_names [OF P rd], of m base] by auto
  obtain c1 d1 where p1: "rsp_holds m rsp1 c1" "parts sent m ?s s1 d1"
    using x1(2) unfolding streamed_def by blast
  have h1: "healthy s1" using parts_fields(3) [OF p1(2)] h by simp
  obtain r rsp2 s2 d2 c2 where x2: "rootMore E m base f rsp1 s1 = Some (r, s2)" "r = Inr rsp2 \<or> (\<exists>e. r = Inl e)"
      "parts sent m s1 s2 d2" "rsp_holds m rsp2 c2"
    using rootMore_streamed [OF W P h1 p1(1), of base f] by blast
  have ps: "parts sent m s s2 (d1 @ d2)"
    using parts_trans [OF parts_os parts_trans [OF p1(2) x2(3)]] by simp
  have h2: "healthy s2" using parts_fields(3) [OF ps] s by simp
  obtain s3 where s3: "s_write E (snd (Buffer_Done rsp2)) s2 = Some s3" "parts sent m s2 s3 c2"
    using flush_holds [OF W h2 x2(4)] by blast
  have h3: "healthy s3" using parts_fields(3) [OF s3(2)] h2 by simp
  have "replies sent m s2 (case r of
      Inl e \<Rightarrow> writeRspError E m (osErrCode e) ''read dir failed'' s2
    | Inr rsp \<Rightarrow>
        if length first > maxRootEntriesForPrefetch then
          s_write E (snd (Buffer_Done (rsp\<lparr>buf_Bytes := (buf_Bytes rsp)[1 := ErrorOK]\<rparr>))) s2
        else do {
          s \<leftarrow> s_write E (snd (Buffer_Done rsp)) s2;
          prefetchLoop E m base first 0 0 None s})"
    using x2(2)
  proof
    assume "r = Inr rsp2"
    moreover have "replies sent m s2 (s_write E (snd (Buffer_Done (rsp2\<lparr>buf_Bytes := (buf_Bytes rsp2)[1 := ErrorOK]\<rparr>))) s2)"
      by (rule answers_replies [OF readDir_final [OF W h2 x2(4)]]) simp
    moreover have "replies sent m s2 (prefetchLoop E m base first 0 0 None s3)"
      by (rule replies_after_parts [OF s3(2) h2 prefetchLoop_replies [OF W P h3]]) simp
    ultimately show ?thesis using s3(1) by simp
  next
    assume "\<exists>e. r = Inl e"
    then show ?thesis using writeRspError_replies [OF W h2] by (auto simp: osErrCode_error)
  qed
  note k = replies_after_parts [OF ps s this]
  show ?thesis
  proof (cases "\<exists>e. err = Some (RdErr e)")
    case True
    then show ?thesis using rd base_replies_os(1) [OF W s] by (auto simp: readDirPlus_opened_def osErrCode_error)
  next
    case False
    then have "err = None \<or> err = Some RdEOF" by (metis not_None_eq rd_end.exhaust)
    then show ?thesis
      using k rd x1(1) x2(1) by (auto simp: readDirPlus_opened_def)
  qed
qed

lemma cmdReadDirPlus_replies:
  assumes W: "ws_reliable (E_ws E) cur sent" and s: "healthy s" and P: "os_promises (E_sys E) left"
  shows "replies sent m s (cmdReadDirPlus E m req s)"
proof -
  obtain os r where r: "os_Open (E_sys E) (s_storage s @ ReadDirPlus_Path req) (s_os s) = (os, r)" by fastforce
  let ?s = "s\<lparr>s_os := os\<rparr>"
  have h: "healthy ?s" using s by simp
  have "replies sent m ?s (Option.bind (readDirPlus_opened E m b f ?s) (\<lambda>s. Some (fst (on_os (os_CloseFile (E_sys E) f) s))))" for b f
    by (rule replies_then_os [OF readDirPlus_opened_replies [OF W P h]])
  then show ?thesis
    using r base_replies_os(1) [OF W s] bad_path_replies [OF W s]
    by (cases r) (simp_all add: cmdReadDirPlus_def on_os_def [of "os_Open (E_sys E) p" for p] osErrCode_error)
qed

section \<open>Every command is answered\<close>

definition is_stream_command :: "command \<Rightarrow> bool" where
  "is_stream_command c \<longleftrightarrow> (\<exists>r. c = ReqWriteStreamOpen r) \<or> (\<exists>r. c = ReqWriteStreamData r)"

definition answered :: "('ws \<Rightarrow> bytes list) \<Rightarrow> u8 \<Rightarrow> ('os, 'ws) session \<Rightarrow> ('os, 'ws) session option \<Rightarrow> bool" where
  "answered sent m s r \<longleftrightarrow> (\<exists>s' msgs. r = Some s' \<and> healthy s' \<and> sent (s_ws s') = sent (s_ws s) @ msgs \<and> response_seq m msgs)"

lemma replies_answered: "replies sent m s r \<Longrightarrow> answered sent m s r"
  by (auto simp: replies_def sends_def answered_def)

lemma replies_answered_release: "replies sent m s r \<Longrightarrow> answered sent m s (map_option releaseFastBuffer r)"
  by (auto simp: replies_def sends_def answered_def releaseFastBuffer_def healthy_def)

lemma runCommand_answered:
  assumes W: "ws_reliable (E_ws E) cur sent" and P: "os_promises (E_sys E) left" and s: "healthy s"
    and fds: "length (s_fds s) < 2 ^ 32" and c: "\<not> is_stream_command c"
  shows "answered sent m s (runCommand E m c s)"
  using c cmdOpen_replies [OF W s P fds] cmdClose_replies [OF W s] cmdRead_replies [OF W s P] cmdReadDir_replies [OF W s P]
    cmdReadLink_replies [OF W s P] cmdWrite_replies [OF W s P] cmdSeek_replies [OF W s] cmdGetAttr_replies [OF W s]
    cmdSetAttr_replies [OF W s] cmdFsStat_replies [OF W s] cmdReadAt_replies [OF W s P] cmdWriteAt_replies [OF W s P]
    cmdCopyFileRange_replies [OF W s] cmdReadDirPlus_replies [OF W s P] cmdGetFileLock_replies [OF W s]
    unit_handlers_reply [OF W s] xattr_handlers_reply [OF W s]
  by (cases c) (simp_all add: is_stream_command_def replies_answered replies_answered_release)

end
