(* ===== verification/Wsfs_Server_Data.thy ===== *)
theory Wsfs_Server_Data
  imports Wsfs_Server_Lists
begin

text \<open>
  What the payloads of the responses are: file reads return the bytes of the file, directory listings
  every entry once, attribute lists the allowed names; a write stream writes the concatenation
  of its inputs. An operating system with files in memory serves as the concrete instance.
\<close>

section \<open>Files in memory\<close>

text \<open>
  A small operating system for examples: the state is a list of named files and the position of the one
  directory stream; a descriptor is a position in the list. Calls it does not implement fail with \<^verbatim>\<open>ENOSYS\<close>.
\<close>

record mem_os =
  mem_files :: "(string \<times> bytes) list"
  mem_pos :: nat

fun mem_index :: "(string \<times> bytes) list \<Rightarrow> string \<Rightarrow> nat option" where
  "mem_index [] p = None"
| "mem_index ((q, _) # fs) p = (if p = q then Some 0 else map_option Suc (mem_index fs p))"

definition mem_Open :: "string \<Rightarrow> (mem_os, int) sysop" where
  "mem_Open p os = (case mem_index (mem_files os) p of None \<Rightarrow> (os, Inl (Sys ENOENT)) | Some i \<Rightarrow> (os, Inr (int i)))"

definition mem_Pread :: "int \<Rightarrow> nat \<Rightarrow> i64 \<Rightarrow> (mem_os, bytes) sysop" where
  "mem_Pread fd n off os =
     (if 0 \<le> fd \<and> nat fd < length (mem_files os)
      then (os, Inr (take n (drop (unat off) (snd (mem_files os ! nat fd))))) else (os, Inl (Sys EBADF)))"

text \<open>A file after writing \<open>d\<close> at offset \<open>off\<close>; a gap is filled with zeros.\<close>

definition file_put :: "bytes \<Rightarrow> nat \<Rightarrow> bytes \<Rightarrow> bytes" where
  "file_put c off d = (if d = [] then c else take off c @ replicate (off - length c) 0 @ d @ drop (off + length d) c)"

definition mem_Pwrite :: "int \<Rightarrow> bytes \<Rightarrow> i64 \<Rightarrow> (mem_os, nat) sysop" where
  "mem_Pwrite fd d off os =
     (if 0 \<le> fd \<and> nat fd < length (mem_files os)
      then (os\<lparr>mem_files := (mem_files os)[nat fd := (fst (mem_files os ! nat fd), file_put (snd (mem_files os ! nat fd)) (unat off) d)]\<rparr>,
            Inr (length d))
      else (os, Inl (Sys EBADF)))"

definition mem_Stat :: "string \<Rightarrow> (mem_os, os_FileInfo) sysop" where
  "mem_Stat p os = (case mem_index (mem_files os) p of None \<Rightarrow> (os, Inl (Sys ENOENT))
     | Some i \<Rightarrow> (os, Inr \<lparr>st_Name = [], st_Size = of_nat (length (snd (mem_files os ! i))), st_Mode = 420,
         st_Uid = 0, st_Gid = 0, st_MTime = \<lparr>ts_Seconds = 0, ts_Nanoseconds = 0\<rparr>\<rparr>))"

definition mem_entries :: "mem_os \<Rightarrow> os_DirEntry list" where
  "mem_entries os = map (\<lambda>(p, _). \<lparr>ent_Name = take 255 (Base p), ent_IsDir = False\<rparr>) (drop (mem_pos os) (mem_files os))"

definition mem_ReadDir :: "nat \<Rightarrow> mem_os \<Rightarrow> mem_os \<times> os_DirEntry list \<times> rd_end option" where
  "mem_ReadDir n os =
     (let k = (if n = 0 then length (mem_files os) else n)
      in if mem_entries os = [] then (os, [], Some RdEOF)
         else (os\<lparr>mem_pos := mem_pos os + k\<rparr>, take k (mem_entries os), None))"

abbreviation enosys :: "(mem_os, 'a) sysop" where "enosys \<equiv> sys_fail (Sys (E_other 38))"

definition mem_sys :: "mem_os sys" where
  "mem_sys = \<lparr>
     sys_Open = (\<lambda>p _ _. mem_Open p), sys_Close = (\<lambda>_ os. (os, Inr ())), sys_Read = (\<lambda>_ _. enosys),
     sys_Pread = mem_Pread, sys_Write = (\<lambda>_ _. enosys), sys_Pwrite = mem_Pwrite, sys_Seek = (\<lambda>_ _ _. enosys),
     sys_Readlink = (\<lambda>_ _. enosys), sys_Fallocate = (\<lambda>_ _ _ _. enosys), sys_Truncate = (\<lambda>_ _. enosys),
     sys_Ftruncate = (\<lambda>_ _. enosys), sys_Utimes = (\<lambda>_ _. enosys), sys_Chmod = (\<lambda>_ _. enosys),
     sys_Fchmod = (\<lambda>_ _. enosys), sys_Chown = (\<lambda>_ _ _. enosys), sys_Fchown = (\<lambda>_ _ _. enosys),
     sys_Fsync = (\<lambda>_ os. (os, Inr ())), sys_Mkdir = (\<lambda>_ _. enosys), sys_Symlink = (\<lambda>_ _. enosys),
     sys_Link = (\<lambda>_ _. enosys), sys_Unlink = (\<lambda>_. enosys), sys_Rmdir = (\<lambda>_. enosys),
     sys_Rename = (\<lambda>_ _. enosys), sys_Renameat2 = (\<lambda>_ _ _ _ _. enosys), sys_Statfs = (\<lambda>_. enosys),
     sys_CopyFileRange = (\<lambda>_ _ _ _ _. enosys), sys_FileClone = (\<lambda>_ _. enosys),
     sys_FileCloneRange = (\<lambda>_ _ _ _ _. enosys), sys_OfdGetlk = (\<lambda>_ _. enosys), sys_OfdSetlk = (\<lambda>_ _ _. enosys),
     sys_Setxattr = (\<lambda>_ _ _ _ _. enosys), sys_Getxattr = (\<lambda>_ _ _ _. enosys), sys_Listxattr = (\<lambda>_ _ _. enosys),
     sys_Removexattr = (\<lambda>_ _ _. enosys), os_Stat = (\<lambda>_. mem_Stat), os_Readlink = (\<lambda>_. enosys),
     os_Open = (\<lambda>_ os. (os\<lparr>mem_pos := 0\<rparr>, Inr 0)), os_ReadDir = (\<lambda>_. mem_ReadDir), os_CloseFile = (\<lambda>_ os. (os, Inr ()))\<rparr>"

definition mem_env :: "(mem_os, bytes \<times> bytes list) env" where
  "mem_env = \<lparr>E_sys = mem_sys, E_ws = mem_ws, E_unix = linux_amd64\<rparr>"

lemma mem_env_sel [simp]: "E_sys mem_env = mem_sys" "E_ws mem_env = mem_ws" "E_unix mem_env = linux_amd64"
  by (simp_all add: mem_env_def)

definition mem_session :: "(u32 \<times> int) list \<Rightarrow> (string \<times> bytes) list \<Rightarrow> (mem_os, bytes \<times> bytes list) session" where
  "mem_session fds files = (newSession ''/srv'' \<lparr>ids_Uid = 0, ids_Gid = 0, ids_OtherUid = 1, ids_OtherGid = 1\<rparr>
     \<lparr>opt_EnableLink = False, opt_AllowedXAttrPrefix = [''user.'']\<rparr> ([], []) \<lparr>mem_files = files, mem_pos = 0\<rparr>)\<lparr>s_conn := True, s_fds := fds\<rparr>"

lemma eintr_ends_never:
  assumes "\<And>os. snd (f os) \<noteq> Inl (Sys EINTR)"
  shows "eintr_ends f"
  unfolding eintr_ends_def using assms by (intro allI exI [of _ 0]) simp

definition mem_left :: "int \<Rightarrow> mem_os \<Rightarrow> nat" where
  "mem_left f os = length (mem_entries os)"

lemma mem_ReadDir_cases:
  assumes "mem_ReadDir n os = (os', es, e)"
  shows "\<forall>d \<in> set es. length (ent_Name d) \<le> 255"
    and "e = None \<Longrightarrow> es \<noteq> [] \<and> mem_entries os = es @ mem_entries os'"
    and "e \<noteq> None \<Longrightarrow> e = Some RdEOF \<and> es = [] \<and> mem_entries os = [] \<and> os' = os"
proof -
  show "\<forall>d \<in> set es. length (ent_Name d) \<le> 255"
    using assms by (auto simp: mem_ReadDir_def mem_entries_def Let_def split: if_splits dest!: in_set_takeD)
  show "es \<noteq> [] \<and> mem_entries os = es @ mem_entries os'" if "e = None"
    using assms that by (auto simp: mem_ReadDir_def mem_entries_def Let_def take_map drop_map add.commute simp flip: map_append drop_drop split: if_splits)
  show "e = Some RdEOF \<and> es = [] \<and> mem_entries os = [] \<and> os' = os" if "e \<noteq> None"
    using assms that by (auto simp: mem_ReadDir_def Let_def split: if_splits)
qed

lemma mem_promises: "os_promises mem_sys mem_left"
proof -
  have "(e = None \<longrightarrow> es \<noteq> [] \<and> mem_left f os' < mem_left f os) \<and> (\<forall>d \<in> set es. length (ent_Name d) \<le> 4096)"
    if "mem_ReadDir n os = (os', es, e)" for f n os os' es e
    using mem_ReadDir_cases [OF that] by (fastforce simp: mem_left_def)
  moreover have "fst (mem_Stat p os) = os" for p os
    by (simp add: mem_Stat_def split: option.split)
  ultimately show ?thesis
    unfolding os_promises_def
    by (auto simp: mem_sys_def sys_fail_def mem_Pread_def mem_Open_def mem_Pwrite_def
        intro!: eintr_ends_never split: if_splits option.splits)
qed

lemma mem_session_healthy: "healthy (mem_session fds files)"
  by (simp add: mem_session_def newSession_def healthy_def)



section \<open>Reads\<close>

text \<open>
  \<^verbatim>\<open>pread\<close> on a regular file, in the states \<open>I\<close> in which its bytes are \<open>content\<close>; reading keeps them.
\<close>

definition pread_file :: "'os sys \<Rightarrow> ('os \<Rightarrow> bool) \<Rightarrow> int \<Rightarrow> bytes \<Rightarrow> bool" where
  "pread_file S I fd content \<longleftrightarrow> (\<forall>n off os. I os \<and> unat off < 2 ^ 63 \<longrightarrow>
     (\<exists>os'. sys_Pread S fd n off os = (os', Inr (take n (drop (unat off) content))) \<and> I os'))"

lemma readAtAndSend_data:
  assumes W: "ws_reliable (E_ws E) cur sent" and s: "healthy s" and f: "pread_file (E_sys E) I fd content"
    and I: "I (s_os s)" and off: "unat off < 2 ^ 63" and n: "unat n \<le> 8190"
  defines "d \<equiv> take (unat n) (drop (unat off) content)"
  shows "\<exists>s' os. readAtAndSend E m fd off n partial s = Some ((of_nat (length d), True), s')
    \<and> emits sent (s\<lparr>s_os := os\<rparr>) s' [m # (if partial \<and> length d = unat n then ErrorPartialResponse else ErrorOK) # d] \<and> I os"
proof -
  obtain os where "sys_Pread (E_sys E) fd (unat n) off (s_os s) = (os, Inr d)" "I os"
    using f I off unfolding pread_file_def d_def by blast
  moreover have "length d \<le> unat n" by (simp add: d_def)
  ultimately show ?thesis
    unfolding readAtAndSend_def using read_and_send_ok [OF W s, where rd = "\<lambda>k. sys_Pread (E_sys E) fd k off"] n by blast
qed

lemma readAt_last_data:
  assumes W: "ws_reliable (E_ws E) cur sent" and s: "healthy s" and f: "pread_file (E_sys E) I fd content"
    and I: "I (s_os s)" and off: "unat off < 2 ^ 63" and n: "unat n \<le> 8190"
  shows "answers sent m s (map_option snd (readAtAndSend E m fd off n False s)) ErrorOK (take (unat n) (drop (unat off) content))"
proof -
  let ?d = "take (unat n) (drop (unat off) content)"
  obtain s' os where r: "readAtAndSend E m fd off n False s = Some ((of_nat (length ?d), True), s')"
      "emits sent (s\<lparr>s_os := os\<rparr>) s' [m # ErrorOK # ?d]"
    using readAtAndSend_data [OF W s f I off n, of m False] by auto
  show ?thesis
    by (rule answers_os_emits [OF s, of _ sent os]) (use r n in auto)
qed

lemma unat_add_chunk: "unat off + 8190 < 2 ^ 63 \<Longrightarrow> unat ((off :: u64) + 8190) = unat off + 8190"
  by (subst unat_add_lem [THEN iffD1]) simp_all

lemma unat_of_nat64: "k < 2 ^ 64 \<Longrightarrow> unat (of_nat k :: u64) = k"
  by (simp add: unat_of_nat take_bit_nat_eq_self)

lemma take_drop_full: "length (take n d) = n \<Longrightarrow> take n d @ take k (drop n d) = take (n + k) d"
  by (simp add: take_add)

lemma cmdReadAt_loop_data:
  assumes W: "ws_reliable (E_ws E) cur sent" and f: "pread_file (E_sys E) I fd content"
  shows "healthy s \<Longrightarrow> I (s_os s) \<Longrightarrow> unat off + n * 8190 < 2 ^ 63 \<Longrightarrow>
    (\<And>s. healthy s \<Longrightarrow> I (s_os s) \<Longrightarrow> answers sent m s (k (off + of_nat (n * 8190)) s) ErrorOK rest) \<Longrightarrow>
    (length (drop (unat off) content) < n * 8190 \<Longrightarrow> rest = []) \<Longrightarrow>
    answers sent m s
      (Option.bind (cmdReadAt_loop E m fd n off s) (\<lambda>((go, off), s). if \<not> go then Some s else k off s)) ErrorOK
      (take (n * 8190) (drop (unat off) content) @ rest)"
proof (induction n arbitrary: off s)
  case 0
  then show ?case by simp
next
  case (Suc n)
  let ?D = "drop (unat off) content" and ?d = "take 8190 (drop (unat off) content)"
  have off: "unat off < 2 ^ 63" using Suc.prems(3) by simp
  obtain s' os where r: "readAtAndSend E m fd off 8190 True s = Some ((of_nat (length ?d), True), s')"
      "emits sent (s\<lparr>s_os := os\<rparr>) s' [m # (if length ?d = 8190 then ErrorPartialResponse else ErrorOK) # ?d]" "I os"
    using readAtAndSend_data [OF W Suc.prems(1) f Suc.prems(2) off, of 8190 m True] by auto
  show ?case
  proof (cases "length ?d = 8190")
    case True
    have p: "parts sent m s s' ?d"
      using parts_trans [OF parts_os parts_emits] r(2) True by fastforce
    have u: "unat (off + 8190) = unat off + 8190"
      using Suc.prems(3) by (simp add: unat_add_chunk)
    have "answers sent m s' (Option.bind (cmdReadAt_loop E m fd n (off + 8190) s') (\<lambda>((go, off), s). if \<not> go then Some s else k off s)) ErrorOK
        (take (n * 8190) (drop (unat (off + 8190)) content) @ rest)"
    proof (rule Suc.IH)
      show "healthy s'" using parts_fields(3) [OF p] Suc.prems(1) by simp
      show "I (s_os s')" using emits_fields(2) [OF r(2)] r(3) by simp
      show "unat (off + 8190) + n * 8190 < 2 ^ 63" using Suc.prems(3) u by simp
      show "answers sent m s (k (off + 8190 + of_nat (n * 8190)) s) ErrorOK rest" if "healthy s" "I (s_os s)" for s
        using Suc.prems(4) [OF that] by (simp add: algebra_simps)
      show "rest = []" if "length (drop (unat (off + 8190)) content) < n * 8190"
        using Suc.prems(5) that u by simp
    qed
    note a = answers_after [OF p Suc.prems(1) this]
    have l: "cmdReadAt_loop E m fd (Suc n) off s = cmdReadAt_loop E m fd n (off + 8190) s'"
      using r(1) True by simp
    have "?d @ take (n * 8190) (drop (unat (off + 8190)) content) @ rest = take (Suc n * 8190) ?D @ rest"
      using take_drop_full [OF True, of "n * 8190"] u by (simp add: add.commute)
    then show ?thesis unfolding l using a by (simp only:)
  next
    case False
    then have D: "length ?D < 8190" by simp
    have "answers sent m s (Some s') ErrorOK ?d"
      by (rule answers_os_emits [OF Suc.prems(1), of _ sent os]) (use r(2) [unfolded if_not_P [OF False]] in auto)
    moreover have "(of_nat (length ?d) :: u64) < 8190"
      using D by (simp add: word_less_nat_alt unat_of_nat take_bit_nat_eq_self)
    ultimately show ?thesis
      using r(1) D Suc.prems(5) by simp
  qed
qed

lemma readAt_bytes:
  assumes W: "ws_reliable (E_ws E) cur sent" and s: "healthy s"
    and fd: "map_of (s_fds s) (ReadAt_FD req) = Some fd" and f: "pread_file (E_sys E) I fd content"
    and I: "I (s_os s)" and sz: "unat (ReadAt_Offset req) + unat (ReadAt_Size req) < 2 ^ 63"
  shows "answers sent m s (cmdReadAt E m req s) ErrorOK
    (take (unat (ReadAt_Size req)) (drop (unat (ReadAt_Offset req)) content))"
proof -
  let ?off = "ReadAt_Offset req" and ?n = "ReadAt_Size req"
  let ?k = "unat (?n div 8190)" and ?r = "unat (?n mod 8190)"
  have off: "unat ?off < 2 ^ 63" using sz by simp
  have nk: "?k * 8190 + ?r = unat ?n"
    by (simp add: unat_div unat_mod)
  have le: "?r \<le> 8190" by (simp add: unat_mod less_imp_le)
  have off': "unat (?off + of_nat (?k * 8190)) = unat ?off + ?k * 8190"
  proof -
    have "?k * 8190 < 2 ^ 64" "unat ?off + ?k * 8190 < 2 ^ 64" using sz nk by simp_all
    moreover from this(1) have "unat (of_nat (?k * 8190) :: u64) = ?k * 8190" by (rule unat_of_nat64)
    ultimately show ?thesis
      by (subst unat_add_lem [THEN iffD1]) (simp_all only: len_bit0 len_num1 mult_1_right, simp_all)
  qed
  define k where "k = (\<lambda>off s. if ?n mod 8190 = 0 then writeRspOK E m s
    else map_option snd (readAtAndSend E m fd off (?n mod 8190) False s))"
  let ?rest = "take ?r (drop (?k * 8190) (drop (unat ?off) content))"
  have kk: "answers sent m s (k (?off + of_nat (?k * 8190)) s) ErrorOK ?rest" if "healthy s" "I (s_os s)" for s
  proof (cases "?n mod 8190 = 0")
    case True
    then show ?thesis using answers_emits [OF that(1) writeRspOK_emits [OF W that(1), of m]] by (simp add: k_def)
  next
    case False
    have "unat (?off + of_nat (?k * 8190)) < 2 ^ 63" using off' sz nk by linarith
    from readAt_last_data [OF W that(1) f that(2) this le] show ?thesis
      using False off' by (simp add: k_def add.commute)
  qed
  have "answers sent m s (Option.bind (cmdReadAt_loop E m fd ?k ?off s) (\<lambda>((go, off), s). if \<not> go then Some s else k off s)) ErrorOK
      (take (?k * 8190) (drop (unat ?off) content) @ ?rest)"
    by (rule cmdReadAt_loop_data [OF W f s I]) (use sz nk in simp, rule kk, simp_all)
  moreover have "take (?k * 8190) (drop (unat ?off) content) @ ?rest = take (unat ?n) (drop (unat ?off) content)"
    using nk by (metis take_add)
  ultimately show ?thesis
    unfolding k_def using fd readAt_last_data [OF W s f I off, of ?n m]
    by (auto simp: cmdReadAt_def with_fd_def word_less_nat_alt less_imp_le)
qed

text \<open>
  (C19) \<^verbatim>\<open>CmdReadAt\<close> returns the bytes of the file: the payloads of the responses, put together, are exactly the
  requested range of the file, cut at its end, for every size, however many messages it takes.
\<close>

theorem readAt_returns_file_bytes:
  assumes W: "ws_reliable (E_ws E) cur sent" and s: "healthy s"
    and fd: "map_of (s_fds s) (ReadAt_FD req) = Some fd" and f: "pread_file (E_sys E) I fd content"
    and I: "I (s_os s)" and sz: "unat (ReadAt_Offset req) + unat (ReadAt_Size req) < 2 ^ 63"
  shows "answers sent m s (cmdReadAt E m req s) ErrorOK
    (take (unat (ReadAt_Size req)) (drop (unat (ReadAt_Offset req)) content))"
  by (rule readAt_bytes [OF assms])

lemma mem_pread_file:
  assumes "i < length files"
  shows "pread_file mem_sys (\<lambda>os. mem_files os = files) (int i) (snd (files ! i))"
  using assms by (simp add: pread_file_def mem_sys_def mem_Pread_def)

text \<open>A request for 10000 bytes at offset 1 of a file of 9000 bytes: two messages.\<close>

theorem readAt_returns_file_bytes_witness:
  "answers snd 3 (mem_session [(5, 0)] [(''/srv/a'', replicate 9000 1)])
     (cmdReadAt mem_env 3 \<lparr>ReadAt_FD = 5, ReadAt_Offset = 1, ReadAt_Size = 10000\<rparr>
        (mem_session [(5, 0)] [(''/srv/a'', replicate 9000 1)])) ErrorOK (replicate 8999 1)"
proof -
  let ?files = "[(''/srv/a'', replicate 9000 (1 :: u8))]"
  have "answers snd 3 (mem_session [(5, 0)] ?files)
     (cmdReadAt mem_env 3 \<lparr>ReadAt_FD = 5, ReadAt_Offset = 1, ReadAt_Size = 10000\<rparr> (mem_session [(5, 0)] ?files)) ErrorOK
     (take (unat (10000 :: u64)) (drop (unat (1 :: u64)) (snd (?files ! 0))))"
    using readAt_returns_file_bytes [of mem_env fst snd "mem_session [(5, 0)] ?files"
        "\<lparr>ReadAt_FD = 5, ReadAt_Offset = 1, ReadAt_Size = 10000\<rparr>" 0 "\<lambda>os. mem_files os = ?files" "snd (?files ! 0)" 3]
      mem_pread_file [of 0 ?files] mem_session_healthy [of "[(5, 0)]" ?files]
    by (simp add: mem_env_def mem_ws_reliable mem_session_def newSession_def)
  then show ?thesis by simp
qed

section \<open>Listings\<close>

text \<open>
  A directory stream that nobody disturbs: \<open>dir os\<close> are the entries still to be read; looking at files does not
  change them.
\<close>

definition dir_stream :: "'os sys \<Rightarrow> ('os \<Rightarrow> os_DirEntry list) \<Rightarrow> int \<Rightarrow> bool" where
  "dir_stream S dir f \<longleftrightarrow>
     (\<forall>os os' es e. os_ReadDir S f 16 os = (os', es, e) \<longrightarrow>
        (e = None \<and> es \<noteq> [] \<and> dir os = es @ dir os') \<or> (e = Some RdEOF \<and> dir os = es))
     \<and> (\<forall>b p os. dir (fst (os_Stat S b p os)) = dir os)
     \<and> (\<forall>p os. dir (fst (os_Readlink S p os)) = dir os)"

lemma dir_stream_Stat: "dir_stream S dir f \<Longrightarrow> dir (fst (Stat S p b os)) = dir os"
  by (cases "os_Stat S b p os") (metis (mono_tags, lifting) Stat_def dir_stream_def fst_conv prod.case sum.case_eq_if)

lemma dir_stream_lookupAll:
  assumes D: "dir_stream S dir f"
  shows "dir (fst (lookupAll S s b es os)) = dir os"
proof -
  have r: "dir (fst (restrictingSymlinkByFileInfo S st b fi os)) = dir os" for st fi os
  proof -
    obtain os1 x where x: "os_Readlink S (b @ st_Name fi) os = (os1, x)" by fastforce
    then have "dir os1 = dir os" using D unfolding dir_stream_def by (metis fst_conv)
    then show ?thesis
      using x dir_stream_Stat [OF D] by (cases x) (auto simp: restrictingSymlinkByFileInfo_def Let_def)
  qed
  have l: "dir (fst (lookupDirentSafe S s b e os)) = dir os" for e os
  proof -
    obtain os1 x where x: "Stat S (b @ ent_Name e) False os = (os1, x)" by fastforce
    then have "dir os1 = dir os" using dir_stream_Stat [OF D] by (metis fst_conv)
    then show ?thesis
      using x r by (auto simp: lookupDirentSafe_def lookupDirent_def split: sum.split prod.split) (metis fst_conv)+
  qed
  show ?thesis
    by (induction es arbitrary: os) (auto split: prod.split dest: l [THEN trans, rotated] intro: l, metis fst_conv l)
qed

lemma dir_stream_listing:
  assumes D: "dir_stream S dir f"
  shows "\<exists>ds. listing S s b f os ds \<and> map de_Name ds = map ent_Name (dir os)"
proof (induction "length (dir os)" arbitrary: os rule: less_induct)
  case less
  obtain os1 es e where rd: "os_ReadDir S f 16 os = (os1, es, e)" by (cases "os_ReadDir S f 16 os")
  obtain os2 ds where la: "lookupAll S s b es os1 = (os2, ds)" by fastforce
  have nm: "map de_Name ds = map ent_Name es"
    using lookupAll_names [of S s b es os1] la by simp
  have "(e = None \<and> es \<noteq> [] \<and> dir os = es @ dir os1) \<or> (e = Some RdEOF \<and> dir os = es)"
    using D rd unfolding dir_stream_def by blast
  then show ?case
  proof
    assume "e = Some RdEOF \<and> dir os = es"
    then show ?thesis using listing_end [OF rd _ la] nm by auto
  next
    assume e: "e = None \<and> es \<noteq> [] \<and> dir os = es @ dir os1"
    have "dir os2 = dir os1" using dir_stream_lookupAll [OF D, of s b es os1] la by simp
    then obtain ds' where "listing S s b f os2 ds'" "map de_Name ds' = map ent_Name (dir os1)"
      using less.hyps [of os2] e by auto
    then show ?thesis
      using listing_more [of S f os os1 es s b os2 ds ds'] e rd la nm by auto
  qed
qed

text \<open>Every message of a listing holds whole entries.\<close>

definition whole_entries :: "bytes \<Rightarrow> bool" where
  "whole_entries bs \<longleftrightarrow> (\<exists>ds. bs = concat (map wire_Dirent ds) \<and> list_all (\<lambda>d. length (de_Name d) \<le> 4096) ds)"

lemma whole_entries_closed: "entry_closed whole_entries"
  unfolding entry_closed_def
proof (intro conjI allI impI)
  show "whole_entries []" unfolding whole_entries_def by (rule exI [of _ "[]"]) simp
  fix c and d :: Dirent assume "length (de_Name d) \<le> 4096 \<and> whole_entries c"
  then obtain ds where "c = concat (map wire_Dirent ds)" "list_all (\<lambda>d. length (de_Name d) \<le> 4096) ds" "length (de_Name d) \<le> 4096"
    by (auto simp: whole_entries_def)
  then show "whole_entries (c @ wire_Dirent d)" unfolding whole_entries_def by (intro exI [of _ "ds @ [d]"]) simp
qed

lemma readDir_pieces:
  assumes W: "ws_reliable (E_ws E) cur sent" and P: "os_promises (E_sys E) left" and s: "healthy s"
    and v: "IsUrlValid (ReadDir_Path req)"
    and o: "os_Open (E_sys E) (s_storage s @ ReadDir_Path req) (s_os s) = (os, Inr f)" and D: "dir_stream (E_sys E) dir f"
    and ds: "listing (E_sys E) (s\<lparr>s_os := os\<rparr>) (ensureDirBase (s_storage s @ ReadDir_Path req)) f os ds"
  shows "answersK whole_entries sent m s (cmdReadDir E m req s) ErrorOK (concat (map wire_Dirent ds))"
proof -
  let ?s = "s\<lparr>s_os := os\<rparr>" and ?b = "ensureDirBase (s_storage s @ ReadDir_Path req)"
  have h: "healthy ?s" using s by simp
  have "answersK whole_entries sent m ?s (readDir_loop E m ?b f (fst (Buffer_write_op (partial_header m) bufPool_Get)) ?s) ErrorOK
      ([] @ concat (map wire_Dirent ds))"
    by (rule readDir_loop_answers [OF W P whole_entries_closed ds _ _ h _ rsp_holds_fresh])
      (use whole_entries_closed in \<open>simp_all add: entry_closed_def\<close>)
  from answers_after [OF parts_os s answers_then_os [OF this]] show ?thesis
    using v o by (simp add: cmdReadDir_def on_os_def [of "os_Open (E_sys E) p" for p])
qed

text \<open>
  (C21) \<^verbatim>\<open>CmdReadDir\<close> lists the whole directory: the payloads, put together, are the encodings of one dirent for
  every entry, in the order of the directory, even for entries that cannot be looked up.
\<close>

theorem readDir_lists_every_entry:
  assumes W: "ws_reliable (E_ws E) cur sent" and P: "os_promises (E_sys E) left" and s: "healthy s"
    and v: "IsUrlValid (ReadDir_Path req)"
    and o: "os_Open (E_sys E) (s_storage s @ ReadDir_Path req) (s_os s) = (os, Inr f)" and D: "dir_stream (E_sys E) dir f"
  shows "\<exists>ds. answers sent m s (cmdReadDir E m req s) ErrorOK (concat (map wire_Dirent ds))
    \<and> map de_Name ds = map ent_Name (dir os)"
  using dir_stream_listing [OF D] readDir_pieces [OF W P s v o D, THEN answersK_answers] by blast

lemma mem_dir_stream: "dir_stream mem_sys mem_entries 0"
  unfolding dir_stream_def
  using mem_ReadDir_cases by (fastforce simp: mem_sys_def mem_Stat_def sys_fail_def split: option.split)

theorem readDir_lists_every_entry_witness:
  "\<exists>ds. answers snd 3 (mem_session [] [(''/srv/a'', [1]), (''/srv/b'', [])])
      (cmdReadDir mem_env 3 \<lparr>ReadDir_Path = ''/''\<rparr> (mem_session [] [(''/srv/a'', [1]), (''/srv/b'', [])])) ErrorOK
      (concat (map wire_Dirent ds)) \<and> map de_Name ds = [''a'', ''b'']"
proof -
  let ?s = "mem_session [] [(''/srv/a'', [1]), (''/srv/b'', [])]"
  have "map ent_Name (mem_entries (s_os ?s)) = [''a'', ''b'']"
    by (simp add: mem_session_def newSession_def mem_entries_def Base_def)
  moreover have "IsUrlValid (ReadDir_Path \<lparr>ReadDir_Path = ''/''\<rparr>)"
    by (simp add: IsUrlValid_iff)
  moreover have "os_Open (E_sys mem_env) (s_storage ?s @ ReadDir_Path \<lparr>ReadDir_Path = ''/''\<rparr>) (s_os ?s) = (s_os ?s, Inr 0)"
    by (simp add: mem_sys_def mem_session_def newSession_def)
  ultimately show ?thesis
    using readDir_lists_every_entry [of mem_env fst snd mem_left ?s "\<lparr>ReadDir_Path = ''/''\<rparr>" "s_os ?s" 0 mem_entries 3]
      mem_ws_reliable mem_promises mem_session_healthy mem_dir_stream by simp
qed

section \<open>Attribute lists\<close>

definition xattr_wire :: "string list \<Rightarrow> bytes" where
  "xattr_wire keys = concat (map (\<lambda>k. bytes_of k @ [0]) keys)"

definition xattr_key :: "string \<Rightarrow> bool" where
  "xattr_key k \<longleftrightarrow> k \<noteq> [] \<and> CHR 0x00 \<notin> set k"

lemma of_char_zero: "(of_char c :: u8) = 0 \<longleftrightarrow> c = CHR 0x00"
proof -
  have "(of_char c :: u8) = 0 \<longleftrightarrow> bytes_of [c] = bytes_of [CHR 0x00]"
    unfolding bytes_of_def by simp
  then show ?thesis by simp
qed

lemma zero_in_bytes_of: "0 \<in> set (bytes_of k) \<longleftrightarrow> CHR 0x00 \<in> set k"
proof -
  have "0 \<in> set (bytes_of k) \<longleftrightarrow> (\<exists>c \<in> set k. (of_char c :: u8) = 0)"
    unfolding bytes_of_def set_map image_iff by metis
  then show ?thesis unfolding of_char_zero by blast
qed

lemma filterXAttr_loop_wire:
  assumes "list_all xattr_key keys"
  shows "filterXAttr_loop allowed (xattr_wire keys) out = Some (out @ xattr_wire (filter (isXAttrKeyAllowed allowed) keys))"
  using assms
proof (induction keys arbitrary: out)
  case Nil
  then show ?case by (simp add: xattr_wire_def filterXAttr_loop.simps)
next
  case (Cons k ks)
  have ix: "IndexByte (xattr_wire (k # ks)) 0 = Some (length k)"
    using Cons.prems IndexByte_append [of 0 "bytes_of k" "xattr_wire ks"] zero_in_bytes_of [of k]
    by (simp add: xattr_wire_def xattr_key_def)
  have "length k \<noteq> 0" using Cons.prems by (simp add: xattr_key_def)
  moreover have "drop (length k + 1) (xattr_wire (k # ks)) = xattr_wire ks"
    "take (length k) (xattr_wire (k # ks)) = bytes_of k" "take (length k + 1) (xattr_wire (k # ks)) = bytes_of k @ [0]"
    "xattr_wire (k # ks) \<noteq> []"
    by (simp_all add: xattr_wire_def)
  ultimately have "filterXAttr_loop allowed (xattr_wire (k # ks)) out =
      filterXAttr_loop allowed (xattr_wire ks) (if isXAttrKeyAllowed allowed k then out @ bytes_of k @ [0] else out)"
    using ix by (subst filterXAttr_loop.simps) simp
  then show ?case
    using Cons.IH Cons.prems by (simp add: xattr_wire_def)
qed

text \<open>
  (C22) \<^verbatim>\<open>CmdListXAttr\<close> shows exactly the allowed attributes: from the list of names the kernel returns, the
  filter keeps the names that start with an allowed prefix, in order and with their terminators, and drops the others.
\<close>

theorem filterXAttrList_exact:
  assumes "list_all xattr_key keys"
  shows "filterXAttrList allowed (xattr_wire keys) = Some (xattr_wire (filter (isXAttrKeyAllowed allowed) keys))"
proof (cases keys rule: rev_cases)
  case Nil
  then show ?thesis by (simp add: filterXAttrList_def xattr_wire_def)
next
  case (snoc ks k)
  have "xattr_wire keys = xattr_wire ks @ bytes_of k @ [0]" using snoc by (simp add: xattr_wire_def)
  then have "xattr_wire keys ! (length (xattr_wire keys) - 1) = 0" "xattr_wire keys \<noteq> []"
    by (simp_all add: nth_append)
  then show ?thesis
    using filterXAttr_loop_wire [OF assms, of allowed "[]"] by (simp add: filterXAttrList_def)
qed

theorem filterXAttrList_exact_witness:
  "filterXAttrList [''user.''] (xattr_wire [''user.a'', ''security.b'']) = Some (xattr_wire [''user.a''])"
  using filterXAttrList_exact [of "[''user.a'', ''security.b'']" "[''user.'']"]
  by (simp add: xattr_key_def isXAttrKeyAllowed_def HasPrefix_def)

section \<open>Write streams\<close>

lemma file_put_split:
  assumes "k \<le> length d"
  shows "file_put (file_put c off (take k d)) (off + k) (drop k d) = file_put c off d"
proof (cases "k = 0 \<or> k = length d")
  case True
  then show ?thesis by (auto simp: file_put_def)
next
  case False
  let ?P = "take off c @ replicate (off - length c) 0"
  have P: "length ?P = off" by simp
  have ne: "take k d \<noteq> []" "drop k d \<noteq> []" "d \<noteq> []" using False assms by auto
  let ?c = "?P @ take k d @ drop (off + k) c"
  have "take (off + k) ?c = ?P @ take k d" "drop (off + length d) ?c = drop (off + length d) c" "off + k - length ?c = 0"
    using assms P by (simp_all add: min_def add.commute)
  then have "file_put ?c (off + k) (drop k d) = (?P @ take k d) @ drop k d @ drop (off + length d) c"
    using assms ne(2) unfolding file_put_def by (simp add: add.assoc)
  moreover have "file_put c off (take k d) = ?c"
    using assms ne(1) unfolding file_put_def by (simp add: min_def)
  moreover have "file_put c off d = (?P @ take k d) @ drop k d @ drop (off + length d) c"
    using ne(3) unfolding file_put_def by simp
  ultimately show ?thesis by (simp only:)
qed

text \<open>
  What \<^verbatim>\<open>pwrite\<close> does to a regular file: it writes a non-empty prefix of the data. \<open>file os\<close> is the
  content of the file in state \<open>os\<close>, \<open>I\<close> the states in which it is open.
\<close>

definition pwrite_file :: "'os sys \<Rightarrow> ('os \<Rightarrow> bool) \<Rightarrow> ('os \<Rightarrow> bytes) \<Rightarrow> int \<Rightarrow> bool" where
  "pwrite_file S I file fd \<longleftrightarrow> (\<forall>d off os. I os \<and> d \<noteq> [] \<and> unat off + length d < 2 ^ 63 \<longrightarrow>
     (\<exists>os' k. sys_Pwrite S fd d off os = (os', Inr k) \<and> 0 < k \<and> k \<le> length d \<and> I os' \<and> file os' = file_put (file os) (unat off) (take k d)))"

lemma ignoringEINTR_Inr: "f os = (os', Inr x) \<Longrightarrow> ignoringEINTR f os = Some (os', Inr x)"
  by (subst ignoringEINTR_unfold) simp

lemma writeStreamWriteChunk_loop_writes:
  assumes F: "pwrite_file S I file fd"
  shows "I os \<Longrightarrow> unat off + length d < 2 ^ 63 \<Longrightarrow>
    \<exists>os'. writeStreamWriteChunk_loop S fd off d tot os = Some (os', tot + of_nat (length d), 0, [], True)
      \<and> I os' \<and> file os' = file_put (file os) (unat off) d"
proof (induction "length d" arbitrary: d off tot os rule: less_induct)
  case less
  show ?case
  proof (cases "d = []")
    case True
    then show ?thesis
      using less.prems(1) by (subst writeStreamWriteChunk_loop.simps) (simp add: file_put_def)
  next
    case False
    obtain os' k where w: "sys_Pwrite S fd d off os = (os', Inr k)" "0 < k" "k \<le> length d" "I os'"
        "file os' = file_put (file os) (unat off) (take k d)"
      using F False less.prems unfolding pwrite_file_def by blast
    have ok: "unat (off + of_nat k) = unat off + k"
    proof -
      have "k < 2 ^ 64" "unat off + k < 2 ^ 64" using w(3) less.prems(2) by simp_all
      moreover from this(1) have "unat (of_nat k :: u64) = k" by (rule unat_of_nat64)
      ultimately show ?thesis
        by (subst unat_add_lem [THEN iffD1]) (simp_all only: len_bit0 len_num1 mult_1_right, simp_all)
    qed
    obtain os'' where i: "writeStreamWriteChunk_loop S fd (off + of_nat k) (drop k d) (tot + of_nat k) os' =
        Some (os'', tot + of_nat k + of_nat (length (drop k d)), 0, [], True)" "I os''"
        "file os'' = file_put (file os') (unat (off + of_nat k)) (drop k d)"
      using less.hyps [of "drop k d" os' "off + of_nat k" "tot + of_nat k"] w less.prems ok False by auto
    have "tot + of_nat k + of_nat (length (drop k d)) = tot + (of_nat (length d) :: u64)"
      using w(3) by (simp add: of_nat_diff)
    moreover have "writeStreamWriteChunk_loop S fd off d tot os =
        writeStreamWriteChunk_loop S fd (off + of_nat k) (drop k d) (tot + of_nat k) os'"
      using False w(2) ignoringEINTR_Inr [of "sys_Pwrite S fd d off", OF w(1)] by (subst writeStreamWriteChunk_loop.simps) simp
    ultimately show ?thesis
      using i ok w(5) file_put_split [OF w(3)] by simp
  qed
qed

text \<open>The goroutine \<^verbatim>\<open>run\<close> of a stream on a sequence of inputs.\<close>

fun run_inputs :: "('os, 'ws) env \<Rightarrow> u8 \<Rightarrow> writeStreamInput list \<Rightarrow> writeStream \<Rightarrow> ('os, 'ws) session \<Rightarrow>
    (writeStream \<times> ('os, 'ws) session) option" where
  "run_inputs E m [] st s = Some (st, s)"
| "run_inputs E m (i # is) st s = (case run_input E m i st s of
     None \<Rightarrow> None
   | Some (st, s) \<Rightarrow> if str_done st then Some (st, s) else run_inputs E m is st s)"

definition str_add :: "nat \<Rightarrow> writeStream \<Rightarrow> writeStream" where
  "str_add n st = st\<lparr>str_offset := str_offset st + of_nat n, str_written := str_written st + of_nat n\<rparr>"

lemma str_add_add: "str_add b (str_add a st) = str_add (a + b) st"
  by (simp add: str_add_def add.assoc)

lemma str_add_sel [simp]:
  "str_fd (str_add n st) = str_fd st" "str_errSent (str_add n st) = str_errSent st" "str_done (str_add n st) = str_done st"
  "str_offset (str_add n st) = str_offset st + of_nat n" "str_written (str_add n st) = str_written st + of_nat n"
  by (simp_all add: str_add_def)

lemma run_input_writes:
  assumes F: "pwrite_file (E_sys E) I file (str_fd st)" and st: "\<not> str_errSent st"
    and I: "I (s_os s)" and sz: "unat (str_offset st) + length (wsi_data i) < 2 ^ 63"
  shows "\<exists>os. run_input E m i st s =
      (let s = s\<lparr>s_os := os, s_fastBuffers := s_fastBuffers s + 1\<rparr>; st = str_add (length (wsi_data i)) st
       in if wsi_isEnd i then do {
            s \<leftarrow> writeRspWriteStreamClose E m (str_written st) s;
            Some (st\<lparr>str_done := True\<rparr>, s)}
          else Some (st, s))
    \<and> I os \<and> file os = file_put (file (s_os s)) (unat (str_offset st)) (wsi_data i)"
proof (cases "wsi_data i = []")
  case True
  then show ?thesis
    using I by (intro exI [of _ "s_os s"]) (simp add: run_input_def releaseFastBuffer_def file_put_def str_add_def Let_def)
next
  case False
  obtain os where "writeStreamWriteChunk (E_sys E) (str_fd st) (str_offset st) (wsi_data i) (s_os s) =
      Some (os, of_nat (length (wsi_data i)), 0, [], True)" "I os"
      "file os = file_put (file (s_os s)) (unat (str_offset st)) (wsi_data i)"
    using writeStreamWriteChunk_loop_writes [OF F I sz, of 0] unfolding writeStreamWriteChunk_def by auto
  then show ?thesis
    using False st by (intro exI [of _ os]) (simp add: run_input_def releaseFastBuffer_def str_add_def Let_def)
qed

lemma file_put_append:
  "file_put (file_put c off a) (off + length a) b = file_put c off (a @ b)"
  using file_put_split [of "length a" "a @ b" c off] by simp

lemma unat_add64: "unat a + n < 2 ^ 63 \<Longrightarrow> unat ((a :: u64) + of_nat n) = unat a + n"
proof -
  assume *: "unat a + n < 2 ^ 63"
  then have "n < 2 ^ 64" "unat a + n < 2 ^ 64" by simp_all
  moreover from this(1) have "unat (of_nat n :: u64) = n" by (rule unat_of_nat64)
  ultimately show ?thesis
    by (subst unat_add_lem [THEN iffD1]) (simp_all only: len_bit0 len_num1 mult_1_right, simp_all)
qed

lemma run_inputs_writes:
  assumes "\<not> str_errSent st" and "\<not> str_done st" and "pwrite_file (E_sys E) I file (str_fd st)" and "list_all (\<lambda>i. \<not> wsi_isEnd i) is"
    and "I (s_os s)" and "unat (str_offset st) + length (concat (map wsi_data is)) < 2 ^ 63"
  shows "\<exists>os. run_inputs E m (is @ js) st s = run_inputs E m js (str_add (length (concat (map wsi_data is))) st)
      (s\<lparr>s_os := os, s_fastBuffers := s_fastBuffers s + length is\<rparr>)
    \<and> I os \<and> file os = file_put (file (s_os s)) (unat (str_offset st)) (concat (map wsi_data is))"
  using assms
proof (induction "is" arbitrary: st s)
  case Nil
  then show ?case by (intro exI [of _ "s_os s"]) (simp add: str_add_def file_put_def)
next
  case (Cons i "is")
  let ?n = "length (wsi_data i)" and ?D = "concat (map wsi_data is)"
  have sz: "unat (str_offset st) + ?n < 2 ^ 63" using Cons.prems(6) by simp
  obtain os where r: "run_input E m i st s = Some (str_add ?n st, s\<lparr>s_os := os, s_fastBuffers := s_fastBuffers s + 1\<rparr>)" "I os"
      "file os = file_put (file (s_os s)) (unat (str_offset st)) (wsi_data i)"
    using run_input_writes [OF Cons.prems(3,1,5) sz, of m] Cons.prems(4) by auto
  have o: "unat (str_offset (str_add ?n st)) = unat (str_offset st) + ?n"
    using unat_add64 [OF sz] by (simp add: str_add_def)
  obtain os' where i: "run_inputs E m (is @ js) (str_add ?n st) (s\<lparr>s_os := os, s_fastBuffers := s_fastBuffers s + 1\<rparr>) =
      run_inputs E m js (str_add (length ?D) (str_add ?n st)) (s\<lparr>s_os := os', s_fastBuffers := s_fastBuffers s + 1 + length is\<rparr>)" "I os'"
      "file os' = file_put (file os) (unat (str_offset (str_add ?n st))) ?D"
    using Cons.IH [of "str_add ?n st" "s\<lparr>s_os := os, s_fastBuffers := s_fastBuffers s + 1\<rparr>"] Cons.prems o r(2)
    by auto
  show ?case
    by (rule exI [of _ os'])
      (use r i o Cons.prems(2) file_put_append in \<open>auto simp: str_add_add\<close>)
qed

text \<open>
  (C20) A write stream writes what it was sent: when \<^verbatim>\<open>pwrite\<close> writes some prefix each time, the goroutine of a
  stream, fed inputs of which the last is the end, leaves the file with the concatenation of all
  inputs at the offset the stream was opened at, sends one response with the total number of bytes,
  and gives every fast buffer back.
\<close>

theorem write_stream_writes_all:
  assumes W: "ws_reliable (E_ws E) cur sent" and s: "healthy s"
    and st: "\<not> str_errSent st" "\<not> str_done st" "str_written st = 0"
    and F: "pwrite_file (E_sys E) I file (str_fd st)"
    and "is": "list_all (\<lambda>i. \<not> wsi_isEnd i) is" and l: "wsi_isEnd l"
    and I: "I (s_os s)" and d: "d = concat (map wsi_data (is @ [l]))" and sz: "unat (str_offset st) + length d < 2 ^ 63"
  shows "\<exists>st' s'. run_inputs E m (is @ [l]) st s = Some (st', s') \<and> str_done st'
    \<and> file (s_os s') = file_put (file (s_os s)) (unat (str_offset st)) d
    \<and> sent (s_ws s') = sent (s_ws s) @ [m # ErrorOK # wire_RspWriteStreamClose \<lparr>RspWriteStreamClose_Written = of_nat (length d)\<rparr>]
    \<and> s_fastBuffers s' = s_fastBuffers s + length (is @ [l]) \<and> healthy s'"
proof -
  let ?D = "concat (map wsi_data is)" and ?st = "str_add (length (concat (map wsi_data is))) st"
  have "unat (str_offset st) + length ?D < 2 ^ 63" using sz d by simp
  note w = run_inputs_writes [OF st(1,2) F "is" I this]
  obtain os where r: "run_inputs E m (is @ [l]) st s = run_inputs E m [l] ?st (s\<lparr>s_os := os, s_fastBuffers := s_fastBuffers s + length is\<rparr>)"
      "file os = file_put (file (s_os s)) (unat (str_offset st)) ?D" "I os"
    using w by blast
  let ?s = "s\<lparr>s_os := os, s_fastBuffers := s_fastBuffers s + length is\<rparr>"
  have o: "unat (str_offset ?st) = unat (str_offset st) + length ?D"
    using unat_add64 [of "str_offset st" "length ?D"] sz d by (simp add: str_add_def)
  have F': "pwrite_file (E_sys E) I file (str_fd ?st)" "\<not> str_errSent ?st" "I (s_os ?s)" using F st r(3) by simp_all
  have sz': "unat (str_offset ?st) + length (wsi_data l) < 2 ^ 63" using o sz d by simp
  obtain os' where i: "run_input E m l ?st ?s = do {
        s \<leftarrow> writeRspWriteStreamClose E m (str_written (str_add (length (wsi_data l)) ?st)) (?s\<lparr>s_os := os', s_fastBuffers := s_fastBuffers ?s + 1\<rparr>);
        Some ((str_add (length (wsi_data l)) ?st)\<lparr>str_done := True\<rparr>, s)}"
      "file os' = file_put (file os) (unat (str_offset ?st)) (wsi_data l)"
    using run_input_writes [OF F' sz', of m] l by (auto simp: Let_def)
  let ?s' = "?s\<lparr>s_os := os', s_fastBuffers := s_fastBuffers ?s + 1\<rparr>"
  have wr: "str_written (str_add (length (wsi_data l)) ?st) = of_nat (length d)"
    using st(3) d by (simp add: str_add_add str_add_def)
  have "healthy ?s'" using s by (simp add: healthy_def)
  then obtain s2 where s2: "writeRspWriteStreamClose E m (of_nat (length d)) ?s' = Some s2"
      "emits sent ?s' s2 [m # ErrorOK # wire_RspWriteStreamClose \<lparr>RspWriteStreamClose_Written = of_nat (length d)\<rparr>]"
    using rspWith_emits [OF W _ puts_WriteRsp(8) [OF W]] unfolding writeRspWriteStreamClose_def by blast
  note e = emits_fields [OF s2(2)]
  show ?thesis
    using r(1) i s2(1) wr e r(2) o file_put_append [of "file (s_os s)" "unat (str_offset st)" ?D "wsi_data l"] d s
    by (simp add: healthy_def)
qed

lemma mem_pwrite_file:
  "pwrite_file mem_sys (\<lambda>os. i < length (mem_files os)) (\<lambda>os. snd (mem_files os ! i)) (int i)"
  by (auto simp: pwrite_file_def mem_sys_def mem_Pwrite_def)

theorem write_stream_writes_all_witness:
  "\<exists>st' s'. run_inputs mem_env 9 ([\<lparr>wsi_data = [1, 2], wsi_isEnd = False\<rparr>] @ [\<lparr>wsi_data = [3], wsi_isEnd = True\<rparr>])
      \<lparr>str_fd = 0, str_offset = 1, str_written = 0, str_errSent = False, str_input = [], str_done = False\<rparr>
      (mem_session [] [(''/srv/a'', [7, 7])]) = Some (st', s') \<and> str_done st'
    \<and> snd (mem_files (s_os s') ! 0) = [7, 1, 2, 3]"
proof -
  let ?s = "mem_session [] [(''/srv/a'', [7, 7])]"
  let ?st = "\<lparr>str_fd = 0, str_offset = 1, str_written = 0, str_errSent = False, str_input = [], str_done = False\<rparr>"
  have F: "pwrite_file (E_sys mem_env) (\<lambda>os. 0 < length (mem_files os)) (\<lambda>os. snd (mem_files os ! 0)) (str_fd ?st)"
    using mem_pwrite_file [of 0] by simp
  have "\<exists>st' s'. run_inputs mem_env 9 ([\<lparr>wsi_data = [1, 2], wsi_isEnd = False\<rparr>] @ [\<lparr>wsi_data = [3], wsi_isEnd = True\<rparr>]) ?st ?s = Some (st', s')
      \<and> str_done st' \<and> snd (mem_files (s_os s') ! 0) = file_put (snd (mem_files (s_os ?s) ! 0)) (unat (str_offset ?st)) [1, 2, 3]"
    using write_stream_writes_all [OF _ mem_session_healthy, of mem_env fst snd ?st _ _ "[\<lparr>wsi_data = [1, 2], wsi_isEnd = False\<rparr>]"
        "\<lparr>wsi_data = [3], wsi_isEnd = True\<rparr>" "[]" "[(''/srv/a'', [7, 7])]" "[1, 2, 3]" 9, OF _ _ _ _ F] mem_ws_reliable
    by (simp add: mem_session_def newSession_def) blast
  then show ?thesis by (simp add: file_put_def mem_session_def newSession_def)
qed

end
