(* ===== verification/Wsfs_Client_Laws.thy ===== *)
theory Wsfs_Client_Laws
  imports Wsfs_Client_XAttr Wsfs_Client_Dirs Wsfs_Server_Data
begin

text \<open>
  What the commands of the client return on a connection that works. The connection is an interface:
  a message that is written and closed is handed to a server, whose responses are read back in order.
  Every command then returns, leaves the session as it found it, and its result is a function of the responses
  the server sends under the mark of the request.
\<close>

section \<open>Sessions between requests\<close>

text \<open>\<open>quiet s\<close>: the connection is up and nothing is being written. \<open>idle s\<close>: also no response waits in a channel, and some mark is free.\<close>

definition quiet :: "'cw Session \<Rightarrow> bool" where
  "quiet s \<longleftrightarrow> c_state s = SessionRunning \<and> c_conn s \<and> \<not> c_writer s \<and> \<not> c_writeLock s \<and> \<not> c_cancelled s"

lemma quiet_upd: "quiet s \<Longrightarrow> s\<lparr>c_ws := w, c_writer := False, c_writeLock := False\<rparr> = s\<lparr>c_ws := w\<rparr>"
  by (cases s) (simp add: quiet_def)

definition idle :: "'cw Session \<Rightarrow> bool" where
  "idle s \<longleftrightarrow> quiet s \<and> c_responses s = (\<lambda>_. None) \<and> (\<exists>m. \<not> c_marks s m)"

lemma newClientMark_loop_unfold:
  "newClientMark_loop marks n = (if marks (ucast (n + 1)) then newClientMark_loop marks (n + 1) else Some (n + 1))"
  by (rule newClientMark_loop.simps)

lemma newClientMark_loop_returns:
  "\<not> marks (ucast (n + of_nat (Suc k) :: u32)) \<Longrightarrow>
    \<exists>n'. newClientMark_loop marks n = Some n' \<and> \<not> marks (ucast n')"
proof (induction k arbitrary: n)
  case 0
  then show ?case by (subst newClientMark_loop_unfold) simp
next
  case (Suc k)
  then have "\<not> marks (ucast ((n + 1) + of_nat (Suc k) :: u32))" by (simp add: add.assoc)
  from Suc.IH [OF this] Suc.prems show ?case by (subst newClientMark_loop_unfold) auto
qed

lemma ucast_u8_add: "(ucast (a + b :: u32) :: u8) = ucast a + ucast b"
proof (transfer, goal_cases)
  case (1 a b)
  have "take_bit 8 (take_bit 32 a + take_bit 32 b) = take_bit 8 (take_bit 8 (take_bit 32 a) + take_bit 8 (take_bit 32 b))" for a b :: int
    by (simp only: take_bit_add)
  then show ?case by (simp add: take_bit_add)
qed

lemma ucast_u8_of_nat: "(ucast (of_nat k :: u32) :: u8) = of_nat k"
  by transfer (simp add: take_bit_of_nat)

text \<open>The loop ends: within 256 rounds the counter meets every mark.\<close>

lemma newClientMark_loop_free:
  assumes "\<not> marks m"
  shows "\<exists>n'. newClientMark_loop marks n = Some n' \<and> \<not> marks (ucast n')"
proof (rule newClientMark_loop_returns)
  let ?k = "unat (m - ucast n - 1)"
  have "(ucast (n + of_nat (Suc ?k) :: u32) :: u8) = m"
    unfolding ucast_u8_add ucast_u8_of_nat by simp
  with assms show "\<not> marks (ucast (n + of_nat (Suc ?k) :: u32))" by simp
qed

lemma newClientMark_loop_all_taken:
  assumes "newClientMark_loop marks n = Some x"
  shows "\<exists>m. \<not> marks m"
proof (rule newClientMark_loop.raw_induct [where P = "\<lambda>marks n x. \<exists>m. \<not> marks m", OF _ assms], goal_cases)
  case (1 f marks n x)
  then show ?case by (auto split: if_splits)
qed

text \<open>
  (C33) The search of \<^verbatim>\<open>newClientMark\<close> ends exactly when it can succeed: on a session that is closing it returns no mark at once; otherwise it
  returns if and only if one of the 256 marks is free (with all marks taken it spins until another request ends), and then
  it returns a mark that was free, takes it, leaves every other mark alone, and counts the request.
\<close>

theorem newClientMark_terminates:
  "(newClientMark s \<noteq> None) = (c_state s \<in> {SessionClosing, SessionClosed} \<or> (\<exists>m. \<not> c_marks s m))
    \<and> (case newClientMark s of
        None \<Rightarrow> True
      | Some (None, s') \<Rightarrow> s' = s \<and> c_state s \<in> {SessionClosing, SessionClosed}
      | Some (Some m, s') \<Rightarrow> \<not> c_marks s m \<and> c_marks s' = (c_marks s)(m := True) \<and> c_activeReqs s' = c_activeReqs s + 1)"
proof (cases "c_state s \<in> {SessionClosing, SessionClosed}")
  case True
  then show ?thesis by (auto simp: newClientMark_def)
next
  case running: False
  show ?thesis
  proof (cases "\<exists>m. \<not> c_marks s m")
    case True
    then obtain m where "\<not> c_marks s m" by blast
    from newClientMark_loop_free [of "c_marks s", OF this] obtain n where
      "newClientMark_loop (c_marks s) (c_lastMark s) = Some n" "\<not> c_marks s (ucast n)" by blast
    then show ?thesis using running True by (auto simp: newClientMark_def Let_def)
  next
    case False
    then have "newClientMark_loop (c_marks s) (c_lastMark s) = None"
      using newClientMark_loop_all_taken [of "c_marks s" "c_lastMark s"] by (cases "newClientMark_loop (c_marks s) (c_lastMark s)") auto
    then show ?thesis using running False by (auto simp: newClientMark_def)
  qed
qed

text \<open>A session with the mark \<open>m\<close> taken.\<close>

definition marked :: "u8 \<Rightarrow> u32 \<Rightarrow> 'cw Session \<Rightarrow> 'cw Session" where
  "marked m n s = s\<lparr>c_activeReqs := c_activeReqs s + 1, c_lastMark := n, c_marks := (c_marks s)(m := True)\<rparr>"

lemma marked_sel [simp]:
  "c_ws (marked m n s) = c_ws s" "c_responses (marked m n s) = c_responses s" "quiet (marked m n s) = quiet s"
  "c_allowedXAttrPrefix (marked m n s) = c_allowedXAttrPrefix s"
  by (simp_all add: marked_def quiet_def)

lemma newClientMark_idle:
  assumes "idle s"
  shows "\<exists>m n. newClientMark s = Some (Some m, marked m n s) \<and> \<not> c_marks s m"
proof -
  obtain m0 where "\<not> c_marks s m0" using assms by (auto simp: idle_def)
  from newClientMark_loop_free [of "c_marks s", OF this] obtain n where
    n: "newClientMark_loop (c_marks s) (c_lastMark s) = Some n" "\<not> c_marks s (ucast n)" by blast
  then show ?thesis
    using assms by (intro exI [of _ "ucast n"] exI [of _ n]) (simp add: newClientMark_def idle_def quiet_def marked_def Let_def)
qed

lemma release_marked:
  assumes "\<not> c_marks s m"
  shows "releaseClientMark m ((marked m n s)\<lparr>c_ws := w\<rparr>) = s\<lparr>c_ws := w, c_lastMark := n\<rparr>"
proof -
  have "(c_marks s)(m := True, m := False) = c_marks s" using assms by (auto simp: fun_eq_iff)
  then show ?thesis by (cases s) (simp add: releaseClientMark_def marked_def)
qed

lemma sendRequest_True:
  assumes "sendRequest C m cmd body s = Some (True, s1)"
  shows "\<exists>sb sc. beginRequest C m cmd s = Some (True, sb) \<and> cl_on_writer body sb = (sc, None) \<and> s1 = cl_writeDone C None sc"
  using assms by (auto simp: sendRequest_def split: bind_splits if_splits prod.splits)

section \<open>Decoding of listings\<close>

lemma appendDirItems_wire:
  assumes "list_all (\<lambda>d. length (de_Name d) \<le> 4096) ds" and "rd_data r = concat (map wire_Dirent ds)"
  shows "appendDirItemsFromReader l r = (l @ map makeDirItemFromDirent ds, None)"
  using assms
proof (induction ds arbitrary: l r)
  case Nil
  then show ?case by (subst appendDirItemsFromReader.simps) simp
next
  case (Cons d ds)
  have "decodes ReadDirentFromReader (wire_Dirent d) d"
    using Cons.prems(1) by (intro ReadDirentFromReader_decodes) simp
  then obtain r' where r: "ReadDirentFromReader r = (r', Inr d)" "rd_data r' = concat (map wire_Dirent ds)"
    using Cons.prems(2) unfolding decodes_def by fastforce
  have "length (wire_Dirent d) \<noteq> 0" by (simp add: wire_Dirent_def)
  then have "rd_data r \<noteq> []" using Cons.prems(2) by auto
  then show ?case
    using r Cons.IH [of r' "l @ [makeDirItemFromDirent d]"] Cons.prems(1) by (subst appendDirItemsFromReader.simps) simp
qed

lemma entries_unique:
  assumes "concat (map wire_Dirent ds) = concat (map wire_Dirent es)"
    and "list_all (\<lambda>d. length (de_Name d) \<le> 4096) ds" and "list_all (\<lambda>d. length (de_Name d) \<le> 4096) es"
  shows "map makeDirItemFromDirent ds = map makeDirItemFromDirent es"
  using appendDirItems_wire [OF assms(2), of "NewReader (concat (map wire_Dirent ds))" "[]"]
    appendDirItems_wire [OF assms(3), of "NewReader (concat (map wire_Dirent es))" "[]"] assms(1) by simp

section \<open>The connection to a server\<close>

text \<open>
  \<open>cur\<close> is the message being written, \<open>srv\<close> the server, \<open>inbox\<close> its responses not read yet. \<open>step msg sv\<close> is what the
  server does with a message: its next state and its responses.
\<close>

locale server_conn =
  fixes C :: "'cw cenv" and cur :: "'cw \<Rightarrow> bytes" and srv :: "'cw \<Rightarrow> 'sv" and inbox :: "'cw \<Rightarrow> bytes list"
    and step :: "bytes \<Rightarrow> 'sv \<Rightarrow> ('sv \<times> bytes list) option"
  assumes Writer: "\<exists>w'. ws_Writer (C_ws C) False w = (w', None) \<and> cur w' = [] \<and> srv w' = srv w \<and> inbox w' = inbox w"
    and Write: "\<exists>w'. ws_Write (C_ws C) bs w = (w', None) \<and> cur w' = cur w @ bs \<and> srv w' = srv w \<and> inbox w' = inbox w"
    and Close: "step (cur w) (srv w) = Some (sv', out) \<Longrightarrow>
      \<exists>w'. ws_Close (C_ws C) w = (w', None) \<and> srv w' = sv' \<and> inbox w' = inbox w @ out"
    and Reader: "inbox w = msg # rest \<Longrightarrow> \<exists>w'. C_Reader C w = (w', Inr msg) \<and> srv w' = srv w \<and> inbox w' = rest"
begin

text \<open>A writer program that adds exactly \<open>bs\<close> to the message.\<close>

definition adds :: "'cw wprog \<Rightarrow> bytes \<Rightarrow> bool" where
  "adds p bs \<longleftrightarrow> (\<forall>w. \<exists>w'. p w = (w', None) \<and> cur w' = cur w @ bs \<and> srv w' = srv w \<and> inbox w' = inbox w)"

lemma conn_writer: "io_writer (ws_Write (C_ws C)) cur (\<lambda>w n. srv w = S \<and> inbox w = I)"
  by unfold_locales (use Write in \<open>fastforce simp: appends_def\<close>)+

lemma adds_command:
  assumes "command_wf c"
  shows "adds (WriteCommandToWriter (ws_Write (C_ws C)) c) (wire_command c)"
  unfolding adds_def
proof
  fix w
  have "appends cur (\<lambda>w' n. srv w' = srv w \<and> inbox w' = inbox w) (WriteCommandToWriter (ws_Write (C_ws C)) c) (wire_command c)"
    by (rule io_writer.WriteCommandToWriter_appends [OF conn_writer assms])
  then show "\<exists>w'. WriteCommandToWriter (ws_Write (C_ws C)) c w = (w', None) \<and> cur w' = cur w @ wire_command c \<and> srv w' = srv w \<and> inbox w' = inbox w"
    unfolding appends_def by blast
qed

text \<open>\<open>busy_with s s' out\<close>: the session \<open>s'\<close> differs from \<open>s\<close> only in its connection, on which \<open>out\<close> waits.\<close>

definition awaits :: "'cw Session \<Rightarrow> 'cw Session \<Rightarrow> 'sv \<Rightarrow> bytes list \<Rightarrow> bool" where
  "awaits s s' sv out \<longleftrightarrow> (\<exists>w. s' = s\<lparr>c_ws := w\<rparr> \<and> srv w = sv \<and> inbox w = out)"

lemma sendRequest_awaits:
  assumes q: "quiet s" and b: "adds body bs" and st: "step (m # cmd # bs) (srv (c_ws s)) = Some (sv', out)"
  shows "\<exists>s'. sendRequest C m cmd body s = Some (True, s') \<and> awaits s s' sv' (inbox (c_ws s) @ out)"
proof -
  obtain w0 where w0: "ws_Writer (C_ws C) False (c_ws s) = (w0, None)" "cur w0 = []" "srv w0 = srv (c_ws s)" "inbox w0 = inbox (c_ws s)"
    using Writer by blast
  obtain w1 where w1: "ws_Write (C_ws C) [m, cmd] w0 = (w1, None)" "cur w1 = [m, cmd]" "srv w1 = srv w0" "inbox w1 = inbox w0"
    using Write [of "[m, cmd]" w0] w0(2) by auto
  obtain w2 where w2: "body w1 = (w2, None)" "cur w2 = m # cmd # bs" "srv w2 = srv w1" "inbox w2 = inbox w1"
    using b w1(2) unfolding adds_def by fastforce
  obtain w3 where w3: "ws_Close (C_ws C) w2 = (w3, None)" "srv w3 = sv'" "inbox w3 = inbox w2 @ out"
    using Close [of w2 sv' out] st w0 w1 w2 by auto
  have "sendRequest C m cmd body s = Some (True, s\<lparr>c_ws := w3, c_writer := False, c_writeLock := False\<rparr>)"
    using q w0 w1 w2 w3
    by (simp add: sendRequest_def beginRequest_def cl_requireWrite_def cl_on_writer_def cl_writeDone_def quiet_def)
  then show ?thesis
    unfolding quiet_upd [OF q] awaits_def using w0 w1 w2 w3 by auto
qed

text \<open>A response to the mark is received, and others wait on.\<close>

lemma receive_next:
  assumes e: "c_responses s m = None" and i: "inbox (c_ws s) = (m # d) # rest" and l: "0 < length d" "length d < maxFrameSize"
  shows "\<exists>w. receive C m s = Some (m # d, s\<lparr>c_ws := w\<rparr>) \<and> srv w = srv (c_ws s) \<and> inbox w = rest"
proof -
  obtain w where w: "C_Reader C (c_ws s) = (w, Inr (m # d))" "srv w = srv (c_ws s)" "inbox w = rest"
    using Reader [OF i] by blast
  have b: "Buffer_fits (NewBuffer maxFrameSize) (length (m # d))" using l by (simp add: Buffer_fits_def NewBuffer_def)
  obtain buf where buf: "Buffer_write_op (m # d) (NewBuffer maxFrameSize) = (buf, None)" "Buffer_content buf = m # d"
    using appendsD [OF buf.wr_appends b] by auto
  have wf: "Buffer_wf maxFrameSize buf"
    using Buffer_wf_Write [OF Buffer_wf_New [of maxFrameSize], of "m # d"] unfolding buf(1) by simp
  have n: "Buffer_Written buf = length (m # d)"
    using Buffer_content_length [OF wf] unfolding buf(2) by simp
  have "buf_Bytes buf ! 0 = Buffer_content buf ! 0" using n by (simp add: Buffer_content_def Buffer_Written_def)
  then have "buf_Bytes buf ! 0 = m" unfolding buf(2) by simp
  with n have "deliver (m # d) (s\<lparr>c_ws := w\<rparr>) = Some (Inr (s\<lparr>c_ws := w, c_responses := (c_responses s)(m \<mapsto> m # d)\<rparr>))"
    using buf e l by (simp add: deliver_def)
  then have "readLoop_round C s = Some (s\<lparr>c_ws := w, c_responses := (c_responses s)(m \<mapsto> m # d)\<rparr>)"
    using w by (simp add: readLoop_round_def)
  moreover have "(c_responses s)(m := None) = c_responses s" using e by auto
  ultimately have "receive C m s = Some (m # d, s\<lparr>c_ws := w\<rparr>)"
    using e by (subst receive.simps) (simp, subst receive.simps, simp)
  then show ?thesis using w by blast
qed

text \<open>\<open>served s sv s'\<close>: the session is as before, the server is in state \<open>sv\<close>, and no response is left.\<close>

definition served :: "'cw Session \<Rightarrow> 'sv \<Rightarrow> 'cw Session \<Rightarrow> bool" where
  "served s sv s' \<longleftrightarrow> (\<exists>w n. s' = s\<lparr>c_ws := w, c_lastMark := n\<rparr> \<and> srv w = sv \<and> inbox w = [])"

lemma served_idle: "served s sv s' \<Longrightarrow> idle s \<Longrightarrow> idle s'"
  by (auto simp: served_def idle_def quiet_def)

text \<open>
  A request whose responses are all consumed by \<open>k\<close>. \<open>R m sv out\<close> is what the server does with the request: its next
  state, and the responses it sends. \<open>Q r sv\<close> is what \<open>k\<close> makes of them.
\<close>

lemma request_runs:
  assumes i: "idle s" "inbox (c_ws s) = []" and b: "adds body bs"
    and st: "\<And>m. \<exists>sv out. step (m # cmd # bs) (srv (c_ws s)) = Some (sv, out) \<and> R m sv out"
    and k: "\<And>m s1. R m (srv (c_ws s1)) (inbox (c_ws s1)) \<Longrightarrow> c_responses s1 m = None \<Longrightarrow>
      \<exists>r w. k m s1 = Some (r, releaseClientMark m (s1\<lparr>c_ws := w\<rparr>)) \<and> srv w = srv (c_ws s1) \<and> inbox w = [] \<and> Q r (srv w)"
  shows "\<exists>r sv s'. withMark noMark (\<lambda>m s. Option.bind (sendRequest C m cmd body s) (\<lambda>(ok, s).
        if \<not> ok then Some (failed, releaseClientMark m s) else k m s)) s = Some (r, s') \<and> served s sv s' \<and> Q r sv"
proof -
  obtain m n where m: "newClientMark s = Some (Some m, marked m n s)" "\<not> c_marks s m"
    using newClientMark_idle [OF i(1)] by blast
  have q: "quiet (marked m n s)" "c_responses s m = None" using i(1) by (simp_all add: idle_def)
  obtain sv out where r: "step (m # cmd # bs) (srv (c_ws s)) = Some (sv, out)" "R m sv out" using st by blast
  obtain s1 where s1: "sendRequest C m cmd body (marked m n s) = Some (True, s1)" "awaits (marked m n s) s1 sv out"
    using sendRequest_awaits [OF q(1) b, of m cmd sv out] r(1) i(2) by auto
  obtain w where w: "s1 = (marked m n s)\<lparr>c_ws := w\<rparr>" "srv w = sv" "inbox w = out" using s1(2) unfolding awaits_def by blast
  obtain x w' where w': "k m s1 = Some (x, releaseClientMark m (s1\<lparr>c_ws := w'\<rparr>))" "srv w' = sv" "inbox w' = []" "Q x sv"
    using k [of m s1] w r(2) q(2) by auto
  have "releaseClientMark m (s1\<lparr>c_ws := w'\<rparr>) = s\<lparr>c_ws := w', c_lastMark := n\<rparr>"
    unfolding w(1) using release_marked [OF m(2), where n = n and w = w'] by simp
  then show ?thesis
    using m(1) s1(1) w'
    by (intro exI [of _ x] exI [of _ sv] exI [of _ "s\<lparr>c_ws := w', c_lastMark := n\<rparr>"]) (auto simp: withMark_def served_def)
qed

text \<open>Commands with one response.\<close>

lemma roundTrip_returns:
  assumes i: "idle s" "inbox (c_ws s) = []" and c: "command_wf c"
    and st: "\<And>m. \<exists>sv rsp. step (m # command_code c # wire_command c) (srv (c_ws s)) = Some (sv, [m # rsp])
      \<and> 0 < length rsp \<and> length rsp < maxFrameSize \<and> Q (k (m # rsp)) sv"
  shows "\<exists>r sv s'. roundTrip C (command_code c) (WriteCommandToWriter (ws_Write (C_ws C)) c) noMark failed k s = Some (r, s')
    \<and> served s sv s' \<and> Q r sv"
proof -
  let ?k = "\<lambda>m s. Option.bind (receive C m s) (\<lambda>(rsp, s). Some (k rsp, releaseClientMark m s))"
  let ?R = "\<lambda>m sv out. \<exists>rsp. out = [m # rsp] \<and> 0 < length rsp \<and> length rsp < maxFrameSize \<and> Q (k (m # rsp)) sv"
  have *: "\<exists>r w. ?k m s1 = Some (r, releaseClientMark m (s1\<lparr>c_ws := w\<rparr>)) \<and> srv w = srv (c_ws s1) \<and> inbox w = [] \<and> Q r (srv w)"
    if h: "?R m (srv (c_ws s1)) (inbox (c_ws s1))" "c_responses s1 m = None" for m s1
  proof -
    obtain rsp where rsp: "inbox (c_ws s1) = [m # rsp]" "0 < length rsp" "length rsp < maxFrameSize" "Q (k (m # rsp)) (srv (c_ws s1))"
      using h(1) by blast
    obtain w where "receive C m s1 = Some (m # rsp, s1\<lparr>c_ws := w\<rparr>)" "srv w = srv (c_ws s1)" "inbox w = []"
      using receive_next [OF h(2) rsp(1-3)] by blast
    then show ?thesis using rsp(4) by (intro exI [of _ "k (m # rsp)"] exI [of _ w]) simp
  qed
  have "\<exists>sv out. step (m # command_code c # wire_command c) (srv (c_ws s)) = Some (sv, out) \<and> ?R m sv out" for m
    using st [of m] by blast
  from request_runs [where k = ?k and R = ?R and Q = Q, OF i adds_command [OF c] this *]
  show ?thesis unfolding roundTrip_def .
qed

section \<open>Responses in several messages\<close>

text \<open>The loop of reads copies the payloads one after the other.\<close>

lemma readInto_returns:
  assumes "list_all (is_partial m) ps" and "inbox (c_ws s) = ps @ [m # ec # f]" and "ec \<noteq> ErrorPartialResponse"
    and "length f \<le> 8190" and "c_responses s m = None" and "off + length (concat (map (drop 2) ps) @ f) \<le> length dest"
  shows "\<exists>w. readInto C m dest off s = Some ((of_nat (off + length (concat (map (drop 2) ps) @ f)), ec,
        take off dest @ (concat (map (drop 2) ps) @ f) @ drop (off + length (concat (map (drop 2) ps) @ f)) dest),
        releaseClientMark m (s\<lparr>c_ws := w\<rparr>))
    \<and> srv w = srv (c_ws s) \<and> inbox w = []"
  using assms
proof (induction ps arbitrary: s off dest)
  case Nil
  obtain w where w: "receive C m s = Some (m # ec # f, s\<lparr>c_ws := w\<rparr>)" "srv w = srv (c_ws s)" "inbox w = []"
    using receive_next [of s m "ec # f" "[]"] Nil by auto
  then show ?case
    using Nil by (intro exI [of _ w]) (subst readInto.simps, simp add: copy_into_def)
next
  case (Cons p ps)
  obtain d where p: "p = m # ErrorPartialResponse # d" "length d \<le> 8190" using Cons.prems(1) by (auto simp: is_partial_def)
  let ?D = "concat (map (drop 2) ps) @ f"
  obtain w where w: "receive C m s = Some (p, s\<lparr>c_ws := w\<rparr>)" "srv w = srv (c_ws s)" "inbox w = ps @ [m # ec # f]"
    using receive_next [of s m "ErrorPartialResponse # d" "ps @ [m # ec # f]"] Cons.prems p by auto
  let ?dest = "take off dest @ d @ drop (off + length d) dest"
  have le: "off + (length d + length ?D) \<le> length dest" using Cons.prems(6) p by simp
  have c: "copy_into dest off d = Some ?dest" using le by (simp add: copy_into_def)
  have r: "readInto C m dest off s = readInto C m ?dest (off + length d) (s\<lparr>c_ws := w\<rparr>)"
    by (subst readInto.simps) (simp add: w(1) c p)
  obtain w' where w': "readInto C m ?dest (off + length d) (s\<lparr>c_ws := w\<rparr>) = Some ((of_nat (off + length d + length ?D), ec,
        take (off + length d) ?dest @ ?D @ drop (off + length d + length ?D) ?dest), releaseClientMark m (s\<lparr>c_ws := w'\<rparr>))"
      "srv w' = srv w" "inbox w' = []"
    using Cons.IH [of "s\<lparr>c_ws := w\<rparr>" "off + length d" ?dest] Cons.prems(1,3,4,5) w le by auto
  have "take (off + length d) ?dest = take off dest @ d" "drop (off + length d + length ?D) ?dest = drop (off + (length d + length ?D)) dest"
    using le by (simp_all add: ac_simps)
  then show ?case using r w' w(2) p by (intro exI [of _ w']) (simp add: add.assoc)
qed

text \<open>The loop of listings collects the entries of all messages.\<close>

lemma readDir_responses_returns:
  assumes "list_all (is_partial m) ps" and "inbox (c_ws s) = ps @ [m # ErrorOK # f]" and "length f \<le> 8190" and "c_responses s m = None"
    and "list_all (\<lambda>p. whole_entries (drop 2 p)) ps" and "whole_entries f"
  shows "\<exists>ds w. readDir_responses C m l s = Some ((l @ map makeDirItemFromDirent ds, ErrorOK), releaseClientMark m (s\<lparr>c_ws := w\<rparr>))
    \<and> concat (map (drop 2) ps) @ f = concat (map wire_Dirent ds) \<and> list_all (\<lambda>d. length (de_Name d) \<le> 4096) ds
    \<and> srv w = srv (c_ws s) \<and> inbox w = []"
  using assms
proof (induction ps arbitrary: s l)
  case Nil
  obtain ds where ds: "f = concat (map wire_Dirent ds)" "list_all (\<lambda>d. length (de_Name d) \<le> 4096) ds"
    using Nil by (auto simp: whole_entries_def)
  obtain w where w: "receive C m s = Some (m # ErrorOK # f, s\<lparr>c_ws := w\<rparr>)" "srv w = srv (c_ws s)" "inbox w = []"
    using receive_next [of s m "ErrorOK # f" "[]"] Nil by auto
  have "appendDirItemsFromReader l (NewReader f) = (l @ map makeDirItemFromDirent ds, None)"
    by (rule appendDirItems_wire) (use ds in simp_all)
  then have "readDir_responses C m l s = Some ((l @ map makeDirItemFromDirent ds, ErrorOK), releaseClientMark m (s\<lparr>c_ws := w\<rparr>))"
    using w(1) by (subst readDir_responses.simps) simp
  then show ?case using ds w(2,3) by auto
next
  case (Cons p ps)
  obtain d where p: "p = m # ErrorPartialResponse # d" "length d \<le> 8190" using Cons.prems(1) by (auto simp: is_partial_def)
  obtain es where es: "d = concat (map wire_Dirent es)" "list_all (\<lambda>d. length (de_Name d) \<le> 4096) es"
    using Cons.prems(5) p by (auto simp: whole_entries_def)
  obtain w where w: "receive C m s = Some (p, s\<lparr>c_ws := w\<rparr>)" "srv w = srv (c_ws s)" "inbox w = ps @ [m # ErrorOK # f]"
    using receive_next [of s m "ErrorPartialResponse # d" "ps @ [m # ErrorOK # f]"] Cons.prems p by auto
  have "appendDirItemsFromReader l (NewReader d) = (l @ map makeDirItemFromDirent es, None)"
    by (rule appendDirItems_wire) (use es in simp_all)
  then have r: "readDir_responses C m l s = readDir_responses C m (l @ map makeDirItemFromDirent es) (s\<lparr>c_ws := w\<rparr>)"
    using w(1) p by (subst readDir_responses.simps) simp
  obtain ds w' where w': "readDir_responses C m (l @ map makeDirItemFromDirent es) (s\<lparr>c_ws := w\<rparr>) =
        Some (((l @ map makeDirItemFromDirent es) @ map makeDirItemFromDirent ds, ErrorOK), releaseClientMark m (s\<lparr>c_ws := w'\<rparr>))"
      "concat (map (drop 2) ps) @ f = concat (map wire_Dirent ds)" "list_all (\<lambda>d. length (de_Name d) \<le> 4096) ds"
      "srv w' = srv w" "inbox w' = []"
    using Cons.IH [of "s\<lparr>c_ws := w\<rparr>" "l @ map makeDirItemFromDirent es"] Cons.prems w by auto
  show ?case
    by (rule exI [of _ "es @ ds"], rule exI [of _ w']) (use r w' w(2) p es in simp)
qed

text \<open>The loop of attribute values.\<close>

lemma readXAttrData_returns:
  assumes "list_all (is_partial m) ps" and "inbox (c_ws s) = ps @ [m # ErrorOK # f]" and "length f \<le> 8190" and "c_responses s m = None"
  shows "\<exists>w. readXAttrData C m data s = Some ((data @ concat (map (drop 2) ps) @ f, ErrorOK), s\<lparr>c_ws := w\<rparr>)
    \<and> srv w = srv (c_ws s) \<and> inbox w = []"
  using assms
proof (induction ps arbitrary: s data)
  case Nil
  obtain w where w: "receive C m s = Some (m # ErrorOK # f, s\<lparr>c_ws := w\<rparr>)" "srv w = srv (c_ws s)" "inbox w = []"
    using receive_next [of s m "ErrorOK # f" "[]"] Nil by auto
  then show ?case by (intro exI [of _ w]) (subst readXAttrData.simps, simp)
next
  case (Cons p ps)
  obtain d where p: "p = m # ErrorPartialResponse # d" "length d \<le> 8190" using Cons.prems(1) by (auto simp: is_partial_def)
  obtain w where w: "receive C m s = Some (p, s\<lparr>c_ws := w\<rparr>)" "srv w = srv (c_ws s)" "inbox w = ps @ [m # ErrorOK # f]"
    using receive_next [of s m "ErrorPartialResponse # d" "ps @ [m # ErrorOK # f]"] Cons.prems p by auto
  have r: "readXAttrData C m data s = readXAttrData C m (data @ d) (s\<lparr>c_ws := w\<rparr>)"
    using w(1) p by (subst readXAttrData.simps) simp
  obtain w' where w': "readXAttrData C m (data @ d) (s\<lparr>c_ws := w\<rparr>) = Some (((data @ d) @ concat (map (drop 2) ps) @ f, ErrorOK), s\<lparr>c_ws := w'\<rparr>)"
      "srv w' = srv w" "inbox w' = []"
    using Cons.IH [of "s\<lparr>c_ws := w\<rparr>" "data @ d"] Cons.prems w by auto
  show ?case by (rule exI [of _ w']) (use r w' w(2) p in simp)
qed

section \<open>Write streams\<close>

text \<open>
  What a stream on mark \<open>m\<close> relies on: \<open>Str d sv\<close>, the server has an open stream for the mark that received \<open>d\<close>; \<open>Fin d sv\<close>, it
  has closed it after writing \<open>d\<close>.
\<close>

definition stream_server :: "u8 \<Rightarrow> (bytes \<Rightarrow> 'sv \<Rightarrow> bool) \<Rightarrow> (bytes \<Rightarrow> 'sv \<Rightarrow> bool) \<Rightarrow> nat \<Rightarrow> bool" where
  "stream_server m Str Fin n \<longleftrightarrow>
     (\<forall>d d' sv. Str d sv \<and> length (d @ d') \<le> n \<and> length d' \<le> maxWriteStreamDataPayload \<longrightarrow> (\<exists>sv'. Str (d @ d') sv'
        \<and> step (m # CmdWriteStreamData # wire_CmdWriteStreamDataStruct \<lparr>WriteStreamData_IsEnd = 0, WriteStreamData_Data = d'\<rparr>) sv = Some (sv', [])))
     \<and> (\<forall>d d' sv. Str d sv \<and> length (d @ d') \<le> n \<and> length d' \<le> maxWriteStreamDataPayload \<longrightarrow> (\<exists>sv'. Fin (d @ d') sv'
        \<and> step (m # CmdWriteStreamData # wire_CmdWriteStreamDataStruct \<lparr>WriteStreamData_IsEnd = 1, WriteStreamData_Data = d'\<rparr>) sv
          = Some (sv', [m # ErrorOK # wire_RspWriteStreamClose \<lparr>RspWriteStreamClose_Written = of_nat (length (d @ d'))\<rparr>])))"

lemma adds_stream_data: "length (WriteStreamData_Data x) \<le> 8192 \<Longrightarrow> adds (WriteCmdWriteStreamDataStructToWriter (ws_Write (C_ws C)) x) (wire_CmdWriteStreamDataStruct x)"
  using adds_command [of "ReqWriteStreamData x"] by simp

lemma stream_Write_loop_sends:
  assumes "stream_server m Str Fin n" and "quiet s" and "Str d (srv (c_ws s))" and "inbox (c_ws s) = []" and "length (d @ data) \<le> n"
  shows "\<exists>w. stream_Write_loop C m data s = Some (None, s\<lparr>c_ws := w\<rparr>) \<and> Str (d @ data) (srv w) \<and> inbox w = []"
  using assms
proof (induction "length data" arbitrary: data d s rule: less_induct)
  case less
  show ?case
  proof (cases "data = []")
    case True
    then show ?thesis using less.prems by (intro exI [of _ "c_ws s"]) (subst stream_Write_loop.simps, simp)
  next
    case False
    define c where "c = (if length data > maxWriteStreamDataPayload then take maxWriteStreamDataPayload data else data)"
    define rest where "rest = drop (length c) data"
    let ?x = "\<lparr>WriteStreamData_IsEnd = 0, WriteStreamData_Data = c\<rparr>"
    have lc: "length c \<le> maxWriteStreamDataPayload" and lx: "length (WriteStreamData_Data ?x) \<le> 8192" by (simp_all add: c_def)
    have cd: "data = c @ rest" by (simp add: c_def rest_def)
    have lr: "length rest < length data" using False by (simp add: c_def rest_def)
    have le: "length (d @ c) \<le> n" "length ((d @ c) @ rest) \<le> n" using less.prems(5) cd by simp_all
    obtain sv where sv: "Str (d @ c) sv" "step (m # CmdWriteStreamData # wire_CmdWriteStreamDataStruct ?x) (srv (c_ws s)) = Some (sv, [])"
      using less.prems(1,3) le(1) lc unfolding stream_server_def by blast
    obtain s1 where s1: "sendRequest C m CmdWriteStreamData (WriteCmdWriteStreamDataStructToWriter (ws_Write (C_ws C)) ?x) s = Some (True, s1)"
        "awaits s s1 sv (inbox (c_ws s) @ [])"
      using sendRequest_awaits [OF less.prems(2) adds_stream_data [OF lx] sv(2)] by blast
    obtain w where w: "s1 = s\<lparr>c_ws := w\<rparr>" "srv w = sv" "inbox w = []" using s1(2) less.prems(4) unfolding awaits_def by auto
    have r: "stream_Write_loop C m data s = stream_Write_loop C m rest (s\<lparr>c_ws := w\<rparr>)"
      unfolding stream_Write_loop.simps [of C m data s] c_def [symmetric] Let_def rest_def [symmetric]
      using False s1(1) w(1) by simp
    have q: "quiet (s\<lparr>c_ws := w\<rparr>)" "Str (d @ c) (srv (c_ws (s\<lparr>c_ws := w\<rparr>)))" "inbox (c_ws (s\<lparr>c_ws := w\<rparr>)) = []"
      using less.prems(2) w(2,3) sv(1) by (simp_all add: quiet_def)
    obtain w' where w': "stream_Write_loop C m rest (s\<lparr>c_ws := w\<rparr>) = Some (None, s\<lparr>c_ws := w\<rparr>\<lparr>c_ws := w'\<rparr>)"
        "Str ((d @ c) @ rest) (srv w')" "inbox w' = []"
      using less.hyps [OF lr less.prems(1) q le(2)] by blast
    show ?thesis by (rule exI [of _ w']) (use r w' cd in simp)
  qed
qed

lemma stream_Close_loop_ok:
  assumes "inbox (c_ws s) = [m # ErrorOK # wire_RspWriteStreamClose x]" and "c_responses s m = None" and "wst_clientMark st = m"
  shows "\<exists>w. stream_Close_loop C st s = Some (((RspWriteStreamClose_Written x, ErrorOK, []), st), s\<lparr>c_ws := w\<rparr>) \<and> srv w = srv (c_ws s) \<and> inbox w = []"
proof -
  obtain w where w: "receive C m s = Some (m # ErrorOK # wire_RspWriteStreamClose x, s\<lparr>c_ws := w\<rparr>)" "srv w = srv (c_ws s)" "inbox w = []"
    using receive_next [OF assms(2), of "ErrorOK # wire_RspWriteStreamClose x" "[]"] assms(1) by (auto simp: wire_RspWriteStreamClose_def)
  have "snd (ReadRspWriteStreamCloseFromReader (NewReader (wire_RspWriteStreamClose x))) = Inr x"
    using ReadRspWriteStreamCloseFromReader_decodes [of x] unfolding decodes_def
    by (metis append_Nil2 rd_data_NewReader snd_conv)
  then show ?thesis using w assms(3) by (intro exI [of _ w]) (subst stream_Close_loop.simps, simp)
qed

lemma stream_Close_ok:
  assumes "stream_server m Str Fin n" and "quiet s" and "Str d (srv (c_ws s))" and "inbox (c_ws s) = []" and "length d \<le> n"
    and "c_responses s m = None" and st: "st = \<lparr>wst_clientMark = m, wst_writeErrCode = 0, wst_writeErrDesc = [], wst_closed = False\<rparr>"
  shows "\<exists>w. stream_Close C st [] s = Some (((of_nat (length d), ErrorOK, []), st\<lparr>wst_closed := True\<rparr>), releaseClientMark m (s\<lparr>c_ws := w\<rparr>))
    \<and> Fin d (srv w) \<and> inbox w = []"
proof -
  let ?x = "\<lparr>WriteStreamData_IsEnd = 1, WriteStreamData_Data = []\<rparr>" and ?st = "st\<lparr>wst_closed := True\<rparr>"
  let ?r = "\<lparr>RspWriteStreamClose_Written = of_nat (length d)\<rparr>"
  obtain sv where sv: "Fin d sv" "step (m # CmdWriteStreamData # wire_CmdWriteStreamDataStruct ?x) (srv (c_ws s))
      = Some (sv, [m # ErrorOK # wire_RspWriteStreamClose ?r])"
    using assms(1,3,5) unfolding stream_server_def by (metis append_Nil2 le0 list.size(3))
  obtain s1 where s1: "sendRequest C m CmdWriteStreamData (WriteCmdWriteStreamDataStructToWriter (ws_Write (C_ws C)) ?x) s = Some (True, s1)"
      "awaits s s1 sv (inbox (c_ws s) @ [m # ErrorOK # wire_RspWriteStreamClose ?r])"
    using sendRequest_awaits [OF assms(2) adds_stream_data sv(2)] by auto
  obtain w where w: "s1 = s\<lparr>c_ws := w\<rparr>" "srv w = sv" "inbox w = [m # ErrorOK # wire_RspWriteStreamClose ?r]"
    using s1(2) assms(4) unfolding awaits_def by auto
  obtain w' where w': "stream_Close_loop C ?st (s\<lparr>c_ws := w\<rparr>) = Some (((of_nat (length d), ErrorOK, []), ?st), s\<lparr>c_ws := w'\<rparr>)" "srv w' = sv" "inbox w' = []"
    using stream_Close_loop_ok [of "s\<lparr>c_ws := w\<rparr>" m ?r ?st] w assms(6) st by auto
  have "stream_Close_finish C st [] s = Some (((of_nat (length d), ErrorOK, []), ?st), releaseClientMark m (s\<lparr>c_ws := w'\<rparr>))"
    using sendRequest_True [OF s1(1)] w(1) w'(1) st by (auto simp: stream_Close_finish_def Let_def)
  then show ?thesis using w' sv(1) st by (intro exI [of _ w']) (simp add: stream_Close_def)
qed

lemma writeAt_stream_returns:
  assumes i: "idle s" "inbox (c_ws s) = []" and big: "length data > maxWriteAtPayload"
    and str: "\<And>m. stream_server m (Str m) Fin (length data)"
    and op: "\<And>m. \<exists>sv. Str m (take maxWriteStreamOpenPayload data) sv \<and> step (m # CmdWriteStreamOpen #
      wire_CmdWriteStreamOpenStruct \<lparr>WriteStreamOpen_FD = fd, WriteStreamOpen_Offset = offset, WriteStreamOpen_Data = take maxWriteStreamOpenPayload data\<rparr>)
      (srv (c_ws s)) = Some (sv, [])"
  shows "\<exists>sv s'. cl_CmdWriteAt C fd offset data s = Some ((of_nat (length data), ErrorOK), s') \<and> served s sv s' \<and> Fin data sv"
proof -
  let ?x = "\<lparr>WriteStreamOpen_FD = fd, WriteStreamOpen_Offset = offset, WriteStreamOpen_Data = take maxWriteStreamOpenPayload data\<rparr>"
  obtain m n where m: "newClientMark s = Some (Some m, marked m n s)" "\<not> c_marks s m"
    using newClientMark_idle [OF i(1)] by blast
  let ?st = "\<lparr>wst_clientMark = m, wst_writeErrCode = 0, wst_writeErrDesc = [], wst_closed = False\<rparr>"
  have q: "quiet (marked m n s)" "c_responses s m = None" using i(1) by (simp_all add: idle_def)
  obtain sv where sv: "Str m (take maxWriteStreamOpenPayload data) sv" "step (m # CmdWriteStreamOpen # wire_CmdWriteStreamOpenStruct ?x) (srv (c_ws s)) = Some (sv, [])"
    using op by blast
  have "adds (WriteCmdWriteStreamOpenStructToWriter (ws_Write (C_ws C)) ?x) (wire_CmdWriteStreamOpenStruct ?x)"
    using adds_command [of "ReqWriteStreamOpen ?x"] by simp
  from sendRequest_awaits [OF q(1) this, of m CmdWriteStreamOpen sv "[]"] obtain s1 where
    s1: "sendRequest C m CmdWriteStreamOpen (WriteCmdWriteStreamOpenStructToWriter (ws_Write (C_ws C)) ?x) (marked m n s) = Some (True, s1)"
      "awaits (marked m n s) s1 sv []" using sv(2) i(2) by auto
  obtain w where w: "s1 = (marked m n s)\<lparr>c_ws := w\<rparr>" "srv w = sv" "inbox w = []" using s1(2) unfolding awaits_def by blast
  have q1: "quiet s1" and sv1: "Str m (take maxWriteStreamOpenPayload data) (srv (c_ws s1))" and in1: "inbox (c_ws s1) = []"
    and ln: "length (take maxWriteStreamOpenPayload data @ drop maxWriteStreamOpenPayload data) \<le> length data"
    and r1: "c_responses s1 m = None"
    using q w sv(1) by (simp_all add: quiet_def)
  obtain w2 where w2: "stream_Write_loop C m (drop maxWriteStreamOpenPayload data) s1 = Some (None, s1\<lparr>c_ws := w2\<rparr>)"
      "Str m (take maxWriteStreamOpenPayload data @ drop maxWriteStreamOpenPayload data) (srv w2)" "inbox w2 = []"
    using stream_Write_loop_sends [OF str q1 sv1 in1 ln] by blast
  have o: "OpenWriteStream C fd offset data s = Some (Inr ?st, s1\<lparr>c_ws := w2\<rparr>)"
    using m(1) s1(1) w2(1) big by (simp add: OpenWriteStream_def withMark_def Let_def stream_Write_def)
  have q2: "quiet (s1\<lparr>c_ws := w2\<rparr>)" and sv2: "Str m data (srv (c_ws (s1\<lparr>c_ws := w2\<rparr>)))"
    and in2: "inbox (c_ws (s1\<lparr>c_ws := w2\<rparr>)) = []" and r2: "c_responses (s1\<lparr>c_ws := w2\<rparr>) m = None"
    using q1 w2(2,3) r1 by (simp_all add: quiet_def)
  obtain w3 where w3: "stream_Close C ?st [] (s1\<lparr>c_ws := w2\<rparr>) = Some (((of_nat (length data), ErrorOK, []), ?st\<lparr>wst_closed := True\<rparr>),
        releaseClientMark m (s1\<lparr>c_ws := w3\<rparr>))" "Fin data (srv w3)" "inbox w3 = []"
    using stream_Close_ok [OF str q2 sv2 in2 le_refl r2 refl] by auto
  have "releaseClientMark m (s1\<lparr>c_ws := w3\<rparr>) = s\<lparr>c_ws := w3, c_lastMark := n\<rparr>"
    unfolding w(1) using release_marked [OF m(2), where n = n and w = w3] by simp
  then have "cl_CmdWriteAt C fd offset data s = Some ((of_nat (length data), ErrorOK), s\<lparr>c_ws := w3, c_lastMark := n\<rparr>)"
    using o w3(1) big by (simp add: cl_CmdWriteAt_def)
  moreover have "served s (srv w3) (s\<lparr>c_ws := w3, c_lastMark := n\<rparr>)" unfolding served_def using w3(3) by blast
  ultimately show ?thesis using w3(2) by (intro exI conjI)
qed

section \<open>Listings with prefetch\<close>

lemma parse_finish:
  assumes "parse_inv ps"
  shows "\<exists>ps1 ps2. flushPrefetch True ps = Some ps1 \<and> closeRemaining ps1 = Some ps2 \<and> parse_done (sendRoot (ps_list ps2) ErrorOK ps2)"
proof -
  obtain ps1 where f: "flushPrefetch True ps = Some ps1" "parse_inv ps1" "ps_current ps1 = None"
    using flushPrefetch_inv [OF assms] by blast
  obtain ps2 where "closeRemaining ps1 = Some ps2" "list_all (\<lambda>i. di_childReady i \<noteq> PrefetchPending) (ps_list ps2)"
    using closeRemaining_done [OF f(2,3)] by blast
  then show ?thesis using f(1) sendRoot_sel(5) [of "ps_list ps2" ErrorOK ps2] by (intro exI [of _ ps1] exI [of _ ps2]) (simp add: parse_done_def)
qed

text \<open>Whatever the messages contain, the parser returns at the latest with the final one, and is then done.\<close>

lemma parseReadDirPlus_returns:
  assumes "list_all (is_partial m) msgs" and "inbox (c_ws s) = msgs @ [m # ec # f]" and "ec \<noteq> ErrorPartialResponse" and "length f \<le> 8190"
    and "c_responses s m = None" and "parse_inv ps"
  shows "\<exists>ps' w. parseReadDirPlus C m ps s = Some (ps', releaseClientMark m (s\<lparr>c_ws := w\<rparr>)) \<and> parse_done ps' \<and> srv w = srv (c_ws s)"
  using assms
proof (induction msgs arbitrary: s ps)
  case Nil
  obtain w where w: "receive C m s = Some (m # ec # f, s\<lparr>c_ws := w\<rparr>)" "srv w = srv (c_ws s)"
    using receive_next [of s m "ec # f" "[]"] Nil by auto
  show ?case
  proof (cases "ec = ErrorOK")
    case False
    obtain ps' where "parseFail ec ps = Some ps'" "parse_done ps'" using parseFail_done [OF Nil.prems(6)] by blast
    then show ?thesis using w False Nil.prems(3) by (intro exI [of _ ps'] exI [of _ w]) (subst parseReadDirPlus.simps, simp)
  next
    case True
    obtain go ps1 where g: "parseRecords f ps = Some (go, ps1)" "if go then parse_inv ps1 else parse_done ps1"
      using parseRecords_parses [OF Nil.prems(6), of f] unfolding parses_def by blast
    show ?thesis
    proof (cases go)
      case False
      then show ?thesis using w g True by (intro exI [of _ ps1] exI [of _ w]) (subst parseReadDirPlus.simps, simp)
    next
      case go: True
      obtain ps2 ps3 where "flushPrefetch True ps1 = Some ps2" "closeRemaining ps2 = Some ps3" "parse_done (sendRoot (ps_list ps3) ErrorOK ps3)"
        using parse_finish [of ps1] g(2) go by auto
      then show ?thesis
        using w g(1) True go by (intro exI [of _ "sendRoot (ps_list ps3) ErrorOK ps3"] exI [of _ w]) (subst parseReadDirPlus.simps, simp)
    qed
  qed
next
  case (Cons p msgs)
  obtain d where p: "p = m # ErrorPartialResponse # d" "length d \<le> 8190" using Cons.prems(1) by (auto simp: is_partial_def)
  obtain w where w: "receive C m s = Some (p, s\<lparr>c_ws := w\<rparr>)" "srv w = srv (c_ws s)" "inbox w = msgs @ [m # ec # f]"
    using receive_next [of s m "ErrorPartialResponse # d" "msgs @ [m # ec # f]"] Cons.prems p by auto
  obtain go ps1 where g: "parseRecords d ps = Some (go, ps1)" "if go then parse_inv ps1 else parse_done ps1"
    using parseRecords_parses [OF Cons.prems(6), of d] unfolding parses_def by blast
  show ?case
  proof (cases go)
    case False
    then show ?thesis using w g p by (intro exI [of _ ps1] exI [of _ w]) (subst parseReadDirPlus.simps, simp)
  next
    case True
    have r: "parseReadDirPlus C m ps s = parseReadDirPlus C m ps1 (s\<lparr>c_ws := w\<rparr>)"
      using w(1) g(1) p True by (subst parseReadDirPlus.simps) simp
    obtain ps' w' where "parseReadDirPlus C m ps1 (s\<lparr>c_ws := w\<rparr>) = Some (ps', releaseClientMark m (s\<lparr>c_ws := w'\<rparr>))" "parse_done ps'" "srv w' = srv w"
      using Cons.IH [of "s\<lparr>c_ws := w\<rparr>" ps1] Cons.prems w g(2) True by auto
    then show ?thesis using r w(2) by (intro exI [of _ ps'] exI [of _ w']) simp
  qed
qed

lemma readDirPlus_returns:
  assumes i: "idle s" "inbox (c_ws s) = []" and p: "length path \<le> 0xffff"
    and st: "\<And>m. \<exists>sv out. step (m # CmdReadDirPlus # wire_CmdReadDirPlusStruct \<lparr>ReadDirPlus_Path = path\<rparr>) (srv (c_ws s)) = Some (sv, out) \<and> response_seq m out"
  shows "\<exists>items code s'. cl_CmdReadDirPlus C path s = Some ((items, code), s') \<and> list_all (\<lambda>i. di_childReady i \<noteq> PrefetchPending) items"
proof -
  let ?req = "\<lparr>ReadDirPlus_Path = path\<rparr>"
  obtain m n where m: "newClientMark s = Some (Some m, marked m n s)" "\<not> c_marks s m"
    using newClientMark_idle [OF i(1)] by blast
  have q: "quiet (marked m n s)" "c_responses s m = None" using i(1) by (simp_all add: idle_def)
  obtain sv out where out: "step (m # CmdReadDirPlus # wire_CmdReadDirPlusStruct ?req) (srv (c_ws s)) = Some (sv, out)" "response_seq m out"
    using st by blast
  obtain ps ec f where o: "out = ps @ [m # ec # f]" "list_all (is_partial m) ps" "ec \<noteq> ErrorPartialResponse" "length f \<le> 8190"
    using out(2) by (auto simp: response_seq_def is_final_def)
  have b: "adds (WriteCmdReadDirPlusStructToWriter (ws_Write (C_ws C)) ?req) (wire_CmdReadDirPlusStruct ?req)"
    using adds_command [of "ReqReadDirPlus ?req"] p by simp
  obtain s1 where s1: "sendRequest C m CmdReadDirPlus (WriteCmdReadDirPlusStructToWriter (ws_Write (C_ws C)) ?req) (marked m n s) = Some (True, s1)"
      "awaits (marked m n s) s1 sv out"
    using sendRequest_awaits [OF q(1) b, of m CmdReadDirPlus sv out] out(1) i(2) by auto
  obtain w where w: "s1 = (marked m n s)\<lparr>c_ws := w\<rparr>" "inbox w = out" using s1(2) unfolding awaits_def by blast
  have h: "inbox (c_ws s1) = ps @ [m # ec # f]" "c_responses s1 m = None" using w o(1) q(2) by simp_all
  obtain ps' w' where r: "parseReadDirPlus C m parse_start s1 = Some (ps', releaseClientMark m (s1\<lparr>c_ws := w'\<rparr>))" "parse_done ps'"
    using parseReadDirPlus_returns [OF o(2) h(1) o(3,4) h(2) parse_inv_start] by blast
  obtain l code where "ps_root ps' = Some (l, code)" using r(2) by (auto simp: parse_done_def)
  then have "cl_CmdReadDirPlus C path s = Some ((if code = ErrorOK then ps_list ps' else [], code), releaseClientMark m (s1\<lparr>c_ws := w'\<rparr>))"
    using m(1) s1(1) r(1) by (simp add: cl_CmdReadDirPlus_def withMark_def)
  moreover have "list_all (\<lambda>i. di_childReady i \<noteq> PrefetchPending) (if code = ErrorOK then ps_list ps' else [])"
    using r(2) by (simp add: parse_done_def)
  ultimately show ?thesis by blast
qed

end

end
