(* ===== verification/Wsfs_Server_Confine.thy ===== *)
theory Wsfs_Server_Confine
  imports Wsfs_Server_Lists
begin

text \<open>
  Confinement of the handlers: whatever the client asks for, the server passes to the operating system
  only paths that lie inside the storage. The statement is about any property \<open>Q\<close> of the state of the operating system that
  operations on descriptors and on paths inside the storage keep (for instance: nothing outside has
  changed; or, with an operating system that records the paths it is given: all of them are inside).
  Every handler keeps \<open>Q\<close>, on any connection.
\<close>

section \<open>Paths the handlers build\<close>

text \<open>A directory base: ends with \<open>/\<close> and is valid below the root.\<close>

definition base_ok :: "string \<Rightarrow> string \<Rightarrow> bool" where
  "base_ok root b \<longleftrightarrow> (\<exists>q. b = root @ q @ ''/'' \<and> IsUrlValid (q @ ''/''))"

lemma base_ok_ensure: "IsUrlValid p \<Longrightarrow> base_ok root (ensureDirBase (root @ p))"
proof -
  assume v: "IsUrlValid p"
  then obtain w where p: "p = CHR ''/'' # w" by (cases p) (auto simp: IsUrlValid_iff)
  show ?thesis
  proof (cases "HasSuffix (root @ p) ''/''")
    case True
    then have "last p = CHR ''/''"
      using p by (auto simp: HasSuffix_iff_suffix suffix_def) (metis last.simps last_appendR last_snoc list.distinct(1))
    then have "p = butlast p @ ''/''" using p by (metis append_butlast_last_id list.distinct(1))
    then show ?thesis using True v unfolding base_ok_def ensureDirBase_def by (metis append_assoc)
  next
    case False
    then show ?thesis using IsUrlValid_slash [OF v] by (auto simp: base_ok_def ensureDirBase_def)
  qed
qed

lemma base_ok_inside: "base_ok root b \<Longrightarrow> proper_name n \<Longrightarrow> inside root (b @ n)"
  using IsUrlValid_name inside_valid unfolding base_ok_def by force

lemma base_ok_child: "base_ok root b \<Longrightarrow> proper_name n \<Longrightarrow> base_ok root (b @ n @ ''/'') \<and> inside root (b @ n @ ''/'')"
proof -
  assume "base_ok root b" and n: "proper_name n"
  then obtain q where q: "b = root @ q @ ''/''" "IsUrlValid (q @ ''/'')" unfolding base_ok_def by blast
  have v: "IsUrlValid ((q @ CHR ''/'' # n) @ ''/'')"
    by (rule IsUrlValid_slash [OF IsUrlValid_name [OF q(2) n]])
  then show ?thesis
    using q(1) inside_valid [OF v, of root] unfolding base_ok_def by (auto intro!: exI [of _ "q @ CHR ''/'' # n"])
qed

lemma Base_name: "n \<noteq> [] \<Longrightarrow> CHR ''/'' \<notin> set n \<Longrightarrow> Base (b @ ''/'' @ n) = n"
proof -
  assume n: "n \<noteq> []" "CHR ''/'' \<notin> set n"
  have "dropWhile (\<lambda>c. c = CHR ''/'') (rev n @ CHR ''/'' # rev b) = rev n @ CHR ''/'' # rev b"
    using n by (cases n rule: rev_cases) auto
  moreover have "takeWhile (\<lambda>c. c \<noteq> CHR ''/'') (rev n @ CHR ''/'' # rev b) = rev n"
    using n(2) by (simp add: takeWhile_append takeWhile_eq_all_conv [THEN iffD2])
  ultimately show ?thesis using n(1) by (simp add: Base_def Let_def)
qed

lemma base_ok_Base: "base_ok root b \<Longrightarrow> proper_name n \<Longrightarrow> Base (b @ n) = n"
  using Base_name [of n "root @ q" for q] by (auto simp: base_ok_def proper_name_def)

lemma hd_Split: "hd (Split x r) = takeWhile (\<lambda>c. c \<noteq> x) r"
  by (induction r) (auto split: list.split)

lemma set_takeWhile_sep: "takeWhile (\<lambda>c. c \<noteq> x) r \<in> set (Split x r)"
  by (metis Split_nonempty hd_Split hd_in_set)

lemma Split_dropWhile: "set (Split x (dropWhile (\<lambda>c. c = x) r)) \<subseteq> set (Split x r)"
  by (induction r) auto

text \<open>The last component of a valid path is a proper name, unless the path consists of slashes.\<close>

lemma Split_rev: "set (Split x (rev r)) = rev ` set (Split x r)"
proof (induction r rule: length_induct)
  case (1 r)
  show ?case
  proof (cases "x \<in> set r")
    case False
    then show ?thesis by (simp add: Split_single)
  next
    case True
    then obtain a b where r: "r = a @ x # b" "x \<notin> set a" by (metis split_list_first)
    have "set (Split x (rev b)) = rev ` set (Split x b)" using 1 r by simp
    then show ?thesis
      using r Split_append_sep [of x "rev b" "rev a"] Split_append_sep [of x a b] by (auto simp: Split_single)
  qed
qed

lemma Base_proper:
  assumes "IsUrlValid a"
  shows "Base a = ''/'' \<or> proper_name (Base a)"
proof -
  let ?r = "dropWhile (\<lambda>c. c = CHR ''/'') (rev a)"
  let ?q = "rev (takeWhile (\<lambda>c. c \<noteq> CHR ''/'') ?r)"
  have a: "a \<noteq> []" "''.'' \<notin> set (comps a)" "''..'' \<notin> set (comps a)"
    using assms by (auto simp: IsUrlValid_iff)
  have "takeWhile (\<lambda>c. c \<noteq> CHR ''/'') ?r \<in> set (comps (rev a))"
    using set_takeWhile_sep [of "CHR ''/''" ?r] Split_dropWhile [of "CHR ''/''" "rev a"] by blast
  then have "?q \<in> set (comps a)"
    using Split_rev [of "CHR ''/''" "rev a"] by auto
  then have "?q \<noteq> ''.''" "?q \<noteq> ''..''" using a by auto
  moreover have "CHR ''/'' \<notin> set ?q" by (auto dest: set_takeWhileD)
  ultimately show ?thesis using a(1) by (auto simp: Base_def Let_def proper_name_def)
qed

lemma IsUrlValid_append: "IsUrlValid a \<Longrightarrow> IsUrlValid b \<Longrightarrow> IsUrlValid (a @ b)"
proof -
  assume a: "IsUrlValid a" and b: "IsUrlValid b"
  obtain w where w: "b = CHR ''/'' # w" using b by (cases b) (auto simp: IsUrlValid_iff)
  show ?thesis
    using a b Split_append_sep [of "CHR ''/''" a w] unfolding w by (auto simp: IsUrlValid_iff hd_append split: if_splits)
qed

lemma resolve_append: "resolve (a @ CHR ''/'' # b) = walk (resolve a) (comps b)"
proof -
  have "walk d (xs @ ys) = walk (walk d xs) ys" for d xs ys
    by (induction xs arbitrary: d) simp_all
  then show ?thesis by (simp add: resolve_def Split_append_sep)
qed

text \<open>The path that \<^verbatim>\<open>getAttr\<close> rebuilds from the directory and the name of a file.\<close>

lemma inside_Dir_Base:
  assumes p: "IsUrlValid p" and r: "root = [] \<or> IsUrlValid root"
  shows "inside root ((Dir (root @ p) @ ''/'') @ Base (root @ p))"
proof -
  have "root = [] \<or> hd root = CHR ''/''" using r by (auto simp: IsUrlValid_iff)
  note i = inside_Dir [OF p this]
  have "IsUrlValid (root @ p)" using r p IsUrlValid_append by auto
  from Base_proper [OF this] show ?thesis
  proof
    assume "Base (root @ p) = ''/''"
    then show ?thesis using i resolve_append [of "Dir (root @ p)" "''/''"] by (simp add: inside_def)
  next
    assume "proper_name (Base (root @ p))"
    then show ?thesis
      using i resolve_append [of "Dir (root @ p)" "Base (root @ p)"]
      by (auto simp: inside_def proper_name_def Split_single)
  qed
qed

section \<open>Operations inside the storage\<close>

definition keeps :: "('os \<Rightarrow> bool) \<Rightarrow> ('os \<Rightarrow> 'os \<times> 'a) \<Rightarrow> bool" where
  "keeps Q f \<longleftrightarrow> (\<forall>os os' r. Q os \<longrightarrow> f os = (os', r) \<longrightarrow> Q os')"

lemma keepsI: "(\<And>os os' r. Q os \<Longrightarrow> f os = (os', r) \<Longrightarrow> Q os') \<Longrightarrow> keeps Q f"
  by (simp add: keeps_def)

lemma keepsD: "keeps Q f \<Longrightarrow> f os = (os', r) \<Longrightarrow> Q os \<Longrightarrow> Q os'"
  by (auto simp: keeps_def)

lemma keeps_fst: "keeps Q f \<Longrightarrow> Q os \<Longrightarrow> Q (fst (f os))"
  using keepsD [of Q f os "fst (f os)" "snd (f os)"] by simp

text \<open>
  What an operating system keeps: operations on descriptors always, operations on a path when the
  path is inside the root (for times, also when it is the \<^verbatim>\<open>/proc\<close> name of a descriptor); names of directory
  entries are proper names.
\<close>

definition path_ops_keep :: "('os \<Rightarrow> bool) \<Rightarrow> 'os sys \<Rightarrow> string \<Rightarrow> bool" where
  "path_ops_keep Q S p \<longleftrightarrow>
     (\<forall>fl mode. keeps Q (sys_Open S p fl mode)) \<and> (\<forall>n. keeps Q (sys_Readlink S p n)) \<and> (\<forall>n. keeps Q (sys_Truncate S p n))
     \<and> (\<forall>t. keeps Q (sys_Utimes S p t)) \<and> (\<forall>m. keeps Q (sys_Chmod S p m)) \<and> (\<forall>u g. keeps Q (sys_Chown S p u g))
     \<and> (\<forall>m. keeps Q (sys_Mkdir S p m)) \<and> keeps Q (sys_Unlink S p) \<and> keeps Q (sys_Rmdir S p) \<and> keeps Q (sys_Statfs S p)
     \<and> (\<forall>b k v fl. keeps Q (sys_Setxattr S b p k v fl)) \<and> (\<forall>b k n. keeps Q (sys_Getxattr S b p k n))
     \<and> (\<forall>b n. keeps Q (sys_Listxattr S b p n)) \<and> (\<forall>b k. keeps Q (sys_Removexattr S b p k))
     \<and> (\<forall>b. keeps Q (os_Stat S b p)) \<and> keeps Q (os_Readlink S p) \<and> keeps Q (os_Open S p)"

definition pair_ops_keep :: "('os \<Rightarrow> bool) \<Rightarrow> 'os sys \<Rightarrow> string \<Rightarrow> string \<Rightarrow> bool" where
  "pair_ops_keep Q S p p' \<longleftrightarrow>
     keeps Q (sys_Symlink S p p') \<and> keeps Q (sys_Link S p p') \<and> keeps Q (sys_Rename S p p')
     \<and> (\<forall>fd fd' fl. keeps Q (sys_Renameat2 S fd p fd' p' fl))"

definition fd_ops_keep :: "('os \<Rightarrow> bool) \<Rightarrow> 'os sys \<Rightarrow> int \<Rightarrow> bool" where
  "fd_ops_keep Q S fd \<longleftrightarrow>
     keeps Q (sys_Close S fd) \<and> (\<forall>n. keeps Q (sys_Read S fd n)) \<and> (\<forall>n off. keeps Q (sys_Pread S fd n off))
     \<and> (\<forall>d. keeps Q (sys_Write S fd d)) \<and> (\<forall>d off. keeps Q (sys_Pwrite S fd d off)) \<and> (\<forall>o' w. keeps Q (sys_Seek S fd o' w))
     \<and> (\<forall>m a b. keeps Q (sys_Fallocate S fd m a b)) \<and> (\<forall>n. keeps Q (sys_Ftruncate S fd n)) \<and> (\<forall>m. keeps Q (sys_Fchmod S fd m))
     \<and> (\<forall>u g. keeps Q (sys_Fchown S fd u g)) \<and> keeps Q (sys_Fsync S fd) \<and> (\<forall>t. keeps Q (sys_Utimes S (Join ''/proc/self/fd'' (Itoa fd)) t))
     \<and> (\<forall>a fd' b n. keeps Q (sys_CopyFileRange S fd a fd' b n)) \<and> (\<forall>fd'. keeps Q (sys_FileClone S fd fd'))
     \<and> (\<forall>fd' a b c. keeps Q (sys_FileCloneRange S fd fd' a b c)) \<and> (\<forall>l. keeps Q (sys_OfdGetlk S fd l))
     \<and> (\<forall>w l. keeps Q (sys_OfdSetlk S w fd l)) \<and> keeps Q (os_CloseFile S fd)
     \<and> (\<forall>n os os' es e. Q os \<longrightarrow> os_ReadDir S fd n os = (os', es, e) \<longrightarrow> Q os' \<and> (\<forall>d \<in> set es. proper_name (ent_Name d)))"

definition os_confined :: "string \<Rightarrow> ('os \<Rightarrow> bool) \<Rightarrow> 'os sys \<Rightarrow> bool" where
  "os_confined root Q S \<longleftrightarrow>
     (\<forall>fd. fd_ops_keep Q S fd) \<and> (\<forall>p. inside root p \<longrightarrow> path_ops_keep Q S p)
     \<and> (\<forall>p p'. inside root p \<longrightarrow> inside root p' \<longrightarrow> pair_ops_keep Q S p p')"

lemma os_confinedD:
  assumes "os_confined root Q S"
  shows "fd_ops_keep Q S fd" and "inside root p \<Longrightarrow> path_ops_keep Q S p"
    and "inside root p \<Longrightarrow> inside root p' \<Longrightarrow> pair_ops_keep Q S p p'"
  using assms by (auto simp: os_confined_def)

lemma sys_fail_keeps: "keeps Q (sys_fail e)"
  by (simp add: keeps_def sys_fail_def)

text \<open>The wrappers of the source around system calls.\<close>

lemma xattr_grow_keeps: "(\<And>n. keeps Q (op n)) \<Longrightarrow> keeps Q (xattr_grow k op n)"
proof (induction k arbitrary: n)
  case 0
  then show ?case by (simp add: keeps_def)
next
  case (Suc k)
  have k: "keeps Q (xattr_grow k op n)" for n using Suc by simp
  show ?case
    by (rule keepsI) (auto split: prod.splits sum.splits if_splits dest: keepsD [OF Suc.prems] keepsD [OF k])
qed

lemma path_wrappers_keep:
  assumes P: "path_ops_keep Q S p"
  shows "keeps Q (FsSize S p)" "keeps Q (Stat S p b)" "keeps Q (SetPathMTime S p t)" "keeps Q (xattr_Get S p k mode)"
    "keeps Q (xattr_List S p mode)" "keeps Q (xattr_Set U S p k v mode)" "keeps Q (xattr_Remove S p k mode)"
proof -
  have P': "keeps Q (sys_Statfs S p)" "\<And>b. keeps Q (os_Stat S b p)" "\<And>t. keeps Q (sys_Utimes S p t)"
    "\<And>b k n. keeps Q (sys_Getxattr S b p k n)" "\<And>b n. keeps Q (sys_Listxattr S b p n)" "\<And>b k v fl. keeps Q (sys_Setxattr S b p k v fl)"
    "\<And>b k. keeps Q (sys_Removexattr S b p k)"
    using P by (simp_all add: path_ops_keep_def)
  show "keeps Q (FsSize S p)"
    by (rule keepsI) (auto simp: FsSize_def split: prod.splits sum.splits dest: keepsD [OF P'(1)])
  show "keeps Q (Stat S p b)"
    by (rule keepsI) (auto simp: Stat_def split: prod.splits sum.splits dest: keepsD [OF P'(2)])
  show "keeps Q (SetPathMTime S p t)"
    by (simp add: SetPathMTime_def P' sys_fail_keeps split: sum.split)
  show g: "keeps Q (xattr_Get S p k mode)" for k mode
    by (simp add: xattr_Get_def P' sys_fail_keeps xattr_grow_keeps)
  show "keeps Q (xattr_List S p mode)"
    by (simp add: xattr_List_def P' sys_fail_keeps xattr_grow_keeps)
  show "keeps Q (xattr_Remove S p k mode)"
    by (simp add: xattr_Remove_def P' sys_fail_keeps)
  show "keeps Q (xattr_Set U S p k v mode)"
    by (rule keepsI) (auto simp: xattr_Set_def xattr_set_def Let_def split: prod.splits sum.splits if_splits
        dest: keepsD [OF P'(6)] keepsD [OF g])
qed

lemma fd_wrappers_keep:
  assumes P: "fd_ops_keep Q S fd"
  shows "keeps Q (SetFDMTime S fd t)" "keeps Q (CloneFileRange S fd fd' a b n)" "keeps Q (CopyFileRange S fd c fd' d len)"
    "keeps Q (Fallocate S fd md off len')" "keeps Q (ofd_GetLock U S fd lock)" "keeps Q (ofd_SetLock U S fd lock w)"
proof -
  have P': "\<And>t. keeps Q (sys_Utimes S (Join ''/proc/self/fd'' (Itoa fd)) t)" "\<And>l. keeps Q (sys_OfdGetlk S fd l)"
    "\<And>w l. keeps Q (sys_OfdSetlk S w fd l)" "\<And>a fd' b n. keeps Q (sys_CopyFileRange S fd a fd' b n)"
    "\<And>fd'. keeps Q (sys_FileClone S fd fd')" "\<And>fd' a b c. keeps Q (sys_FileCloneRange S fd fd' a b c)"
    "\<And>m a b. keeps Q (sys_Fallocate S fd m a b)"
    using P by (simp_all add: fd_ops_keep_def)
  show "keeps Q (SetFDMTime S fd t)" "keeps Q (CloneFileRange S fd fd' a b n)" "keeps Q (CopyFileRange S fd c fd' d len)"
    "keeps Q (Fallocate S fd md off len')" "keeps Q (ofd_SetLock U S fd lock w)"
    by (simp_all add: SetFDMTime_def CloneFileRange_def CopyFileRange_def Fallocate_def ofd_SetLock_def P' sys_fail_keeps
        split: sum.split option.split)
  show "keeps Q (ofd_GetLock U S fd lock)"
    by (rule keepsI) (auto simp: ofd_GetLock_def split: option.splits prod.splits sum.splits dest: keepsD [OF P'(2)])
qed

lemma ignoringEINTR_keeps:
  assumes "ignoringEINTR f os = Some x"
  shows "keeps Q f \<longrightarrow> Q os \<longrightarrow> Q (fst x)"
proof (rule ignoringEINTR.raw_induct [where P = "\<lambda>f os x. keeps Q f \<longrightarrow> Q os \<longrightarrow> Q (fst x)", OF _ assms], intro impI)
  fix g :: "('a, 'b) sysop \<Rightarrow> 'a \<Rightarrow> ('a \<times> (oserror + 'b)) option" and fn os y
  assume IH: "\<And>fn os y. g fn os = Some y \<Longrightarrow> keeps Q fn \<longrightarrow> Q os \<longrightarrow> Q (fst y)" and k: "keeps Q fn" "Q os"
    and y: "(case fn os of (os', Inl (Sys EINTR)) \<Rightarrow> g fn os' | r \<Rightarrow> Some r) = Some y"
  obtain os' r where r: "fn os = (os', r)" by fastforce
  have "Q os'" using keepsD [OF k(1) r k(2)] .
  then show "Q (fst y)"
    using y [unfolded r] IH [of fn os'] k(1) by (cases y) (auto split: sum.splits oserror.splits errno.splits)
qed

lemma rename_paths_keeps:
  assumes C: "os_confined root Q (E_sys E)" and r: "root = [] \<or> hd root = CHR ''/''"
    and p: "IsUrlValid p" "IsUrlValid p'"
  shows "keeps Q (rename_paths E (root @ p) (root @ p') flag)"
proof -
  let ?S = "E_sys E"
  note i = inside_valid [OF p(1), of root] inside_valid [OF p(2), of root]
  have c: "keeps Q (sys_Close ?S fd)" for fd using os_confinedD(1) [OF C, of fd] by (simp add: fd_ops_keep_def)
  have o: "keeps Q (sys_Open ?S (Dir (root @ p)) fl md)" "keeps Q (sys_Open ?S (Dir (root @ p')) fl md)" for fl md
    using os_confinedD(2) [OF C inside_Dir [OF p(1) r]] os_confinedD(2) [OF C inside_Dir [OF p(2) r]]
    by (simp_all add: path_ops_keep_def)
  have pr: "keeps Q (sys_Rename ?S (root @ p) (root @ p'))" "keeps Q (sys_Renameat2 ?S fd (root @ p) fd' (root @ p') fl)" for fd fd' fl
    using os_confinedD(3) [OF C i] by (simp_all add: pair_ops_keep_def)
  have rn: "keeps Q (Renameat2 U ?S fd (root @ p) fd' (root @ p') fl)" for U fd fd' fl
    by (simp add: Renameat2_def sys_fail_keeps pr split: option.split)
  show ?thesis
    by (rule keepsI) (auto simp: rename_paths_def Let_def split: if_splits prod.splits sum.splits
        dest: keepsD [OF o(1)] keepsD [OF o(2)] keepsD [OF pr(1)] keepsD [OF rn] intro!: keeps_fst [OF c])
qed

lemma restricting_keeps:
  assumes "path_ops_keep Q S (b @ st_Name fi)"
  shows "keeps Q (restrictingSymlinkByFileInfo S st b fi)"
proof -
  have r: "keeps Q (os_Readlink S (b @ st_Name fi))" using assms by (simp add: path_ops_keep_def)
  show ?thesis
    by (rule keepsI) (auto simp: restrictingSymlinkByFileInfo_def Let_def split: prod.splits sum.splits if_splits
        dest: keepsD [OF r] keepsD [OF path_wrappers_keep(2) [OF assms]])
qed

lemma Stat_name: "Stat S p b os = (os', Inr (fi, mt)) \<Longrightarrow> st_Name fi = Base p"
  by (auto simp: Stat_def split: prod.splits sum.splits)

lemma lookupDirentSafe_keeps:
  assumes C: "os_confined root Q S" and b: "base_ok root b" and n: "proper_name (ent_Name e)"
  shows "keeps Q (lookupDirentSafe S s b e)"
proof -
  have P: "path_ops_keep Q S (b @ ent_Name e)"
    by (rule os_confinedD(2) [OF C base_ok_inside [OF b n]])
  note st = path_wrappers_keep(2) [OF P]
  have r: "keeps Q (restrictingSymlinkByFileInfo S (s_storage s) b fi)" if "st_Name fi = ent_Name e" for fi
    using restricting_keeps P that by metis
  have nm: "st_Name fi = ent_Name e" if "Stat S (b @ ent_Name e) False os = (os', Inr (fi, mt))" for os os' fi mt
    using Stat_name [OF that] base_ok_Base [OF b n] by simp
  have "keeps Q (lookupDirent S s b e)"
  proof (rule keepsI)
    fix os os' x
    assume q: "Q os" and l: "lookupDirent S s b e os = (os', x)"
    obtain os1 y where y: "Stat S (b @ ent_Name e) False os = (os1, y)" by fastforce
    have q1: "Q os1" using keepsD [OF st y q] .
    show "Q os'"
    proof (cases y)
      case (Inl err)
      then show ?thesis using l y q1 by (simp add: lookupDirent_def)
    next
      case (Inr z)
      obtain fi mt where z: "z = (fi, mt)" by fastforce
      note rk = r [OF nm [OF y [unfolded Inr z]]]
      show ?thesis
        using l y q1 Inr z by (auto simp: lookupDirent_def split: if_splits prod.splits sum.splits dest: keepsD [OF rk])
    qed
  qed
  then show ?thesis
    by (intro keepsI) (auto simp: lookupDirentSafe_def split: prod.splits sum.splits dest: keepsD)
qed

lemma getAttr_keeps:
  assumes C: "os_confined root Q S" and p: "IsUrlValid p" and r: "root = [] \<or> IsUrlValid root"
  shows "keeps Q (getAttr S st (root @ p))"
proof (rule keepsI)
  fix os os' x
  assume q: "Q os" and l: "getAttr S st (root @ p) os = (os', x)"
  have P: "path_ops_keep Q S (root @ p)" by (rule os_confinedD(2) [OF C inside_valid [OF p]])
  obtain os1 y where y: "Stat S (root @ p) False os = (os1, y)" by fastforce
  have q1: "Q os1" using keepsD [OF path_wrappers_keep(2) [OF P] y q] .
  show "Q os'"
  proof (cases y)
    case (Inl err)
    then show ?thesis using l y q1 by (simp add: getAttr_def)
  next
    case (Inr z)
    obtain fi mt where z: "z = (fi, mt)" by fastforce
    have "st_Name fi = Base (root @ p)" using Stat_name [OF y [unfolded Inr z]] .
    then have "path_ops_keep Q S ((Dir (root @ p) @ ''/'') @ st_Name fi)"
      using os_confinedD(2) [OF C inside_Dir_Base [OF p r]] by simp
    note rk = restricting_keeps [OF this]
    show ?thesis
      using l y q1 Inr z by (auto simp: getAttr_def split: if_splits dest: keepsD [OF rk])
  qed
qed

section \<open>Handlers\<close>

text \<open>
  \<open>evolves s s'\<close>: what a handler may do to a session besides its effect on the disk. Streams, buffers and
  settings stay; the write lock is released; descriptors stay distinct; a connection is only given
  up with an error recorded, and the first error stays.
\<close>

definition evolves :: "('os, 'ws) session \<Rightarrow> ('os, 'ws) session \<Rightarrow> bool" where
  "evolves s s' \<longleftrightarrow>
     s_fsIds s' = s_fsIds s \<and> s_featureOpts s' = s_featureOpts s
     \<and> s_writeStreams s' = s_writeStreams s \<and> s_fastBuffers s' = s_fastBuffers s
     \<and> (\<not> s_writeLock s \<longrightarrow> \<not> s_writeLock s')
     \<and> (distinct (map fst (s_fds s)) \<longrightarrow> distinct (map fst (s_fds s')))
     \<and> (s_conn s' \<longrightarrow> s_conn s)
     \<and> (s_conn s \<and> \<not> s_conn s' \<longrightarrow> s_cancelled s' \<and> s_connErrLock s')
     \<and> (s_cancelled s \<longrightarrow> s_cancelled s')
     \<and> (s_connErrLock s \<longrightarrow> s_connErrLock s' \<and> s_connErr s' = s_connErr s)"

lemma evolves_refl [simp]: "evolves s s"
  by (simp add: evolves_def)

lemma evolves_os [simp]: "evolves s0 (s\<lparr>s_os := os\<rparr>) \<longleftrightarrow> evolves s0 s"
  by (simp add: evolves_def)

lemma evolves_net: "evolves s0 s \<Longrightarrow> net_frame s s' \<Longrightarrow> evolves s0 s'"
  by (auto simp: evolves_def net_frame_def)

lemma evolves_fds:
  assumes "evolves s0 s" and "distinct (map fst (s_fds s)) \<Longrightarrow> distinct (map fst fds)"
  shows "evolves s0 (s\<lparr>s_fds := fds\<rparr>)" "evolves s0 (s\<lparr>s_fds := fds, s_fdLast := fd\<rparr>)"
  using assms by (auto simp: evolves_def)

text \<open>
  \<open>stays\<close>: if the handler returns, the property still holds, the storage is the same and the session
  has evolved from \<open>s0\<close>.
\<close>

definition in_storage :: "string \<Rightarrow> ('os, 'ws) session \<Rightarrow> ('os \<Rightarrow> bool) \<Rightarrow> ('os, 'ws) session \<Rightarrow> bool" where
  "in_storage root s0 Q s \<longleftrightarrow> Q (s_os s) \<and> s_storage s = root \<and> evolves s0 s"

definition stays :: "string \<Rightarrow> ('os, 'ws) session \<Rightarrow> ('os \<Rightarrow> bool) \<Rightarrow> ('os, 'ws) session option \<Rightarrow> bool" where
  "stays root s0 Q r \<longleftrightarrow> (\<forall>s. r = Some s \<longrightarrow> in_storage root s0 Q s)"

lemma stays_simps [simp]: "stays root s0 Q None" "stays root s0 Q (Some s) \<longleftrightarrow> in_storage root s0 Q s"
  by (simp_all add: stays_def)

lemma in_storage_os: "in_storage root s0 Q s \<Longrightarrow> keeps Q f \<Longrightarrow> f (s_os s) = (os, r) \<Longrightarrow> in_storage root s0 Q (s\<lparr>s_os := os\<rparr>)"
  by (auto simp: in_storage_def dest: keepsD)

lemma stays_bind:
  assumes "stays root s0 Q r" and "\<And>s. in_storage root s0 Q s \<Longrightarrow> stays root s0 Q (k s)"
  shows "stays root s0 Q (Option.bind r k)"
  using assms by (cases r) auto

text \<open>Responses touch neither the operating system nor the storage, on any connection.\<close>

lemma in_storage_same: "net_frame s s' \<Longrightarrow> in_storage root s0 Q s \<Longrightarrow> in_storage root s0 Q s'"
  using evolves_net [of s0 s s'] by (simp add: net_frame_def in_storage_def)

lemma rspWith_same: "rspWith E m ec body s = Some s' \<Longrightarrow> net_frame s s'"
  using rspWith_frame [of s E m ec body] by (cases "s_writeLock s") (auto simp: rspWith_def beginRsp_def requireWrite_def)

lemma s_write_same: "s_write E d s = Some s' \<Longrightarrow> net_frame s s'"
  using s_write_frame [of s E d] by (cases "s_writeLock s") (auto simp: s_write_def requireWrite_def)

lemma response_stays:
  assumes "in_storage root s0 Q s"
  shows "stays root s0 Q (rspWith E m ec body s)" "stays root s0 Q (s_write E d s)" "stays root s0 Q (writeRspOK E m s)"
    "stays root s0 Q (writeRspError E m ec desc s)" "stays root s0 Q (bad_path E m s)"
  using assms in_storage_same rspWith_same s_write_same
  unfolding stays_def writeRspOK_rspWith writeRspError_def bad_path_def by blast+

lemma with_fd_stays:
  assumes "in_storage root s0 Q s" and "\<And>sfd. stays root s0 Q (k sfd s)"
  shows "stays root s0 Q (with_fd E m fd k s)"
  using assms response_stays by (auto simp: with_fd_def split: option.split)

lemma on_os_stays:
  assumes "in_storage root s0 Q s" and "keeps Q f"
  shows "in_storage root s0 Q (fst (on_os f s))"
  using assms keeps_fst by (auto simp: on_os_def in_storage_def split: prod.split dest: keepsD)

lemma rsp_unit_stays:
  assumes "in_storage root s0 Q s" and "keeps Q f"
  shows "stays root s0 Q (rsp_unit E m (on_os f s))"
  using on_os_stays [OF assms] response_stays by (auto simp: rsp_unit_def split: prod.split sum.split)

lemma rsp_value_stays:
  assumes "in_storage root s0 Q s"
  shows "stays root s0 Q (rsp_value E m body (s, r))"
  using response_stays [OF assms] by (auto simp: rsp_value_def split: sum.split)

lemma rsp_value_on_os_stays:
  assumes "in_storage root s0 Q s" and "keeps Q f"
  shows "stays root s0 Q (rsp_value E m body (on_os f s))"
  using rsp_value_stays [OF on_os_stays [OF assms]] by (metis prod.collapse)

lemma retry_os_stays:
  assumes "in_storage root s0 Q s" and "keeps Q f" and "retry_os f s = Some (s', r)"
  shows "in_storage root s0 Q s'"
  using assms ignoringEINTR_keeps [of f "s_os s" _ Q]
  by (fastforce simp: retry_os_def bind_eq_Some_conv in_storage_def)

lemma setattr_step_stays:
  assumes "in_storage root s0 Q s" and "keeps Q f" and "\<And>s. in_storage root s0 Q s \<Longrightarrow> stays root s0 Q (k s)"
  shows "stays root s0 Q (setattr_step E m c f k s)"
  using assms on_os_stays [OF assms(1,2)] response_stays by (auto simp: setattr_step_def split: prod.split sum.split)

lemma stays_Some: "stays root s0 Q r \<Longrightarrow> r = Some s \<Longrightarrow> in_storage root s0 Q s"
  by simp

lemma read_and_send_stays:
  assumes s: "in_storage root s0 Q s" and k: "keeps Q (rd (unat n))" and r: "read_and_send E m rd n partial s = Some (x, s')"
  shows "in_storage root s0 Q s'"
proof -
  obtain s1 y where y: "on_os (rd (unat n)) s = (s1, y)" by fastforce
  have s1: "in_storage root s0 Q s1" using on_os_stays [OF s k] y by simp
  show ?thesis
    using r y stays_Some [OF response_stays(2) [OF s1]] stays_Some [OF response_stays(4) [OF s1]]
    by (auto simp: read_and_send_def Let_def bind_eq_Some_conv split: sum.splits)
qed

lemma read_and_send_last_stays:
  assumes "in_storage root s0 Q s" and "keeps Q (rd (unat n))"
  shows "stays root s0 Q (map_option snd (read_and_send E m rd n partial s))"
  using read_and_send_stays [OF assms(1), of rd n] assms(2) by (auto simp: stays_def)

lemma cmdRead_loop_stays:
  assumes k: "\<And>n. keeps Q (sys_Read (E_sys E) sfd n)"
  shows "in_storage root s0 Q s \<Longrightarrow> cmdRead_loop E m sfd n s = Some (go, s') \<Longrightarrow> in_storage root s0 Q s'"
proof (induction n arbitrary: s)
  case (Suc n)
  then obtain readed ok s1 where r: "readAndSend E m sfd 8190 True s = Some ((readed, ok), s1)"
    by (auto simp: bind_eq_Some_conv)
  have "in_storage root s0 Q s1" using read_and_send_stays [OF Suc.prems(1), of "sys_Read (E_sys E) sfd"] k r unfolding readAndSend_def by blast
  then show ?case using Suc r by (auto split: if_splits)
qed simp

lemma cmdReadAt_loop_stays:
  assumes k: "\<And>n off. keeps Q (sys_Pread (E_sys E) sfd n off)"
  shows "in_storage root s0 Q s \<Longrightarrow> cmdReadAt_loop E m sfd n off s = Some ((go, off'), s') \<Longrightarrow> in_storage root s0 Q s'"
proof (induction n arbitrary: s off)
  case (Suc n)
  then obtain readed ok s1 where r: "readAtAndSend E m sfd off 8190 True s = Some ((readed, ok), s1)"
    by (auto simp: bind_eq_Some_conv)
  have "in_storage root s0 Q s1"
    using read_and_send_stays [OF Suc.prems(1), of "\<lambda>k. sys_Pread (E_sys E) sfd k off"] k r unfolding readAtAndSend_def by blast
  then show ?case using Suc r by (auto split: if_splits)
qed simp

lemma newFD_loop_fresh: "newFD_loop sfd fds l = Some (fd, fds') \<Longrightarrow> fds' = (fd, sfd) # fds \<and> map_of fds fd = None"
proof -
  assume r: "newFD_loop sfd fds l = Some (fd, fds')"
  show ?thesis
    by (rule newFD_loop.raw_induct [where P = "\<lambda>sfd fds l (fd, fds'). fds' = (fd, sfd) # fds \<and> map_of fds fd = None",
          OF _ r, simplified]) (auto simp: Let_def split: option.splits)
qed

lemma newFD_stays:
  assumes "in_storage root s0 Q s" and "newFD sfd s = Some (fd, s')"
  shows "in_storage root s0 Q s'"
proof -
  obtain fds where r: "newFD_loop sfd (s_fds s) (s_fdLast s) = Some (fd, fds)" "s' = s\<lparr>s_fds := fds, s_fdLast := fd\<rparr>"
    using assms(2) by (auto simp: newFD_def bind_eq_Some_conv)
  have "evolves s0 s'"
    unfolding r(2) using newFD_loop_fresh [OF r(1)] assms(1)
    by (intro evolves_fds) (auto simp: in_storage_def map_of_eq_None_iff)
  then show ?thesis using assms(1) r(2) by (simp add: in_storage_def)
qed

lemma writeXAttrData_loop_stays: "in_storage root s0 Q s \<Longrightarrow> stays root s0 Q (writeXAttrData_loop E m data b s)"
proof (induction E m data b s rule: writeXAttrData_loop.induct)
  case (1 E m data b s)
  show ?case
  proof (cases "length data > maxXAttrResponsePayload")
    case True
    let ?b = "fst (Buffer_write_op (take maxXAttrResponsePayload data) (fst (Buffer_write_op (partial_header m) b)))"
    show ?thesis
    proof (cases "s_write E (snd (Buffer_Done ?b)) s")
      case None
      then show ?thesis using True by (subst writeXAttrData_loop.simps) (simp add: Let_def)
    next
      case (Some s')
      then have "in_storage root s0 Q s'" using stays_Some [OF response_stays(2) [OF "1.prems"]] by blast
      then have "stays root s0 Q (writeXAttrData_loop E m (drop maxXAttrResponsePayload data) (fst (Buffer_Done ?b)) s')"
        using "1.IH" [OF True refl refl Some] by blast
      then show ?thesis using True Some by (subst writeXAttrData_loop.simps) (simp add: Let_def)
    qed
  next
    case False
    then show ?thesis using response_stays(2) [OF "1.prems"] by (subst writeXAttrData_loop.simps) (simp add: Let_def)
  qed
qed

lemma writeXAttrData_stays: "in_storage root s0 Q s \<Longrightarrow> stays root s0 Q (writeXAttrData E m data s)"
  by (simp add: writeXAttrData_def writeXAttrData_loop_stays response_stays)

lemma xattr_checked_stays:
  assumes "in_storage root s0 Q s" and "IsUrlValid path \<Longrightarrow> stays root s0 Q (k s)"
  shows "stays root s0 Q (xattr_checked E m path key k s)"
  using assms response_stays [OF assms(1)] by (simp add: xattr_checked_def)

text \<open>Directory listings.\<close>

lemma flush_full_stays:
  assumes "in_storage root s0 Q s" and "flush_full E m n rsp s = Some (rsp', s')"
  shows "in_storage root s0 Q s'"
  using assms stays_Some [OF response_stays(2) [OF assms(1)]] by (auto simp: flush_full_def bind_eq_Some_conv split: if_splits)

lemma readDir_entries_stays:
  assumes C: "os_confined root Q (E_sys E)" and b: "base_ok root base"
  shows "in_storage root s0 Q s \<Longrightarrow> \<forall>e \<in> set es. proper_name (ent_Name e) \<Longrightarrow>
    readDir_entries E m base es rsp s = Some (rsp', s') \<Longrightarrow> in_storage root s0 Q s'"
proof (induction es arbitrary: rsp s)
  case (Cons e es)
  obtain os d where l: "lookupDirentSafe (E_sys E) s base e (s_os s) = (os, d)" by fastforce
  have s1: "in_storage root s0 Q (s\<lparr>s_os := os\<rparr>)"
    using in_storage_os [OF Cons.prems(1) lookupDirentSafe_keeps [OF C b] l] Cons.prems(2) by simp
  obtain rsp2 s2 where x: "flush_full E m (GetDirentRequiredSize d) rsp (s\<lparr>s_os := os\<rparr>) = Some (rsp2, s2)"
    "readDir_entries E m base es (fst (WriteDirentToWriter Buffer_write_op d rsp2)) s2 = Some (rsp', s')"
    using Cons.prems(3) l unfolding readDir_entries_Cons by (auto simp: bind_eq_Some_conv)
  show ?case using Cons.IH [OF flush_full_stays [OF s1 x(1)] _ x(2)] Cons.prems(2) by simp
qed simp

lemma writeDirentChunk_stays: "in_storage root s0 Q s \<Longrightarrow> writeDirentChunk E m d rsp s = Some (rsp', s') \<Longrightarrow> in_storage root s0 Q s'"
  unfolding writeDirentChunk_flush by (auto simp: bind_eq_Some_conv dest: flush_full_stays)

lemma writePrefetchIndicator_stays:
  "in_storage root s0 Q s \<Longrightarrow> writePrefetchIndicator E m i rsp s = Some (rsp', s') \<Longrightarrow> in_storage root s0 Q s'"
  unfolding writePrefetchIndicator_flush by (auto simp: bind_eq_Some_conv dest: flush_full_stays)

lemma rootChunks_stays:
  assumes C: "os_confined root Q (E_sys E)" and b: "base_ok root base"
  shows "in_storage root s0 Q s \<Longrightarrow> \<forall>e \<in> set es. proper_name (ent_Name e) \<Longrightarrow>
    rootChunks E m base es rsp s = Some (rsp', s') \<Longrightarrow> in_storage root s0 Q s'"
proof (induction es arbitrary: rsp s)
  case (Cons e es)
  obtain os d where l: "lookupDirentSafe (E_sys E) s base e (s_os s) = (os, d)" by fastforce
  have s1: "in_storage root s0 Q (s\<lparr>s_os := os\<rparr>)"
    using in_storage_os [OF Cons.prems(1) lookupDirentSafe_keeps [OF C b] l] Cons.prems(2) by simp
  from Cons.prems(3) l obtain rsp2 s2 where x: "writeDirentChunk E m d rsp (s\<lparr>s_os := os\<rparr>) = Some (rsp2, s2)"
    "rootChunks E m base es rsp2 s2 = Some (rsp', s')"
    by (auto simp: bind_eq_Some_conv)
  then show ?case using Cons.IH [OF writeDirentChunk_stays [OF s1 x(1)] _ x(2)] Cons.prems(2) by simp
qed simp

lemma streamPending_stays:
  assumes C: "os_confined root Q (E_sys E)" and b: "base_ok root base"
  shows "in_storage root s0 Q s \<Longrightarrow> \<forall>e \<in> set es. proper_name (ent_Name e) \<Longrightarrow>
    streamPending E m base es n rsp s = Some (over, k, rsp', s') \<Longrightarrow> in_storage root s0 Q s'"
proof (induction es arbitrary: rsp s n)
  case (Cons e es)
  obtain os d where l: "lookupDirentSafe (E_sys E) s base e (s_os s) = (os, d)" by fastforce
  have s1: "in_storage root s0 Q (s\<lparr>s_os := os\<rparr>)"
    using in_storage_os [OF Cons.prems(1) lookupDirentSafe_keeps [OF C b] l] Cons.prems(2) by simp
  show ?case
  proof (cases "n + 1 > maxPrefetchDirEntries")
    case True
    then show ?thesis using Cons.prems by simp
  next
    case False
    from Cons.prems(3) l False obtain rsp2 s2 where x: "writeDirentChunk E m d rsp (s\<lparr>s_os := os\<rparr>) = Some (rsp2, s2)"
      "streamPending E m base es (n + 1) rsp2 s2 = Some (over, k, rsp', s')"
      by (auto simp: bind_eq_Some_conv)
    then show ?thesis using Cons.IH [OF writeDirentChunk_stays [OF s1 x(1)] _ x(2)] Cons.prems(2) by simp
  qed
qed simp

lemma ReadDir_stays:
  assumes C: "os_confined root Q S" and s: "in_storage root s0 Q s" and rd: "os_ReadDir S f n (s_os s) = (os, es, e)"
  shows "in_storage root s0 Q (s\<lparr>s_os := os\<rparr>)" and "\<forall>d \<in> set es. proper_name (ent_Name d)"
proof -
  have "\<forall>n os os' es e. Q os \<longrightarrow> os_ReadDir S f n os = (os', es, e) \<longrightarrow> Q os' \<and> (\<forall>d \<in> set es. proper_name (ent_Name d))"
    using os_confinedD(1) [OF C, of f] unfolding fd_ops_keep_def by (elim conjE)
  then have "Q os \<and> (\<forall>d \<in> set es. proper_name (ent_Name d))" using s rd unfolding in_storage_def by blast
  then show "in_storage root s0 Q (s\<lparr>s_os := os\<rparr>)" and "\<forall>d \<in> set es. proper_name (ent_Name d)"
    using s by (auto simp: in_storage_def)
qed

lemma readDir_loop_stays:
  assumes "readDir_loop E m base f rsp s = Some s'"
  shows "os_confined root Q (E_sys E) \<longrightarrow> base_ok root base \<longrightarrow> in_storage root s0 Q s \<longrightarrow> in_storage root s0 Q s'"
proof (rule readDir_loop.raw_induct [where P = "\<lambda>E m base f rsp s s'. os_confined root Q (E_sys E) \<longrightarrow> base_ok root base \<longrightarrow>
    in_storage root s0 Q s \<longrightarrow> in_storage root s0 Q s'", OF _ assms], intro impI, goal_cases)
  case (1 g E m base f rsp s s')
  note IH = 1(1) and C = 1(3) and b = 1(4) and s = 1(5)
  obtain os es e where rd: "os_ReadDir (E_sys E) f 16 (s_os s) = (os, es, e)" by (cases "os_ReadDir (E_sys E) f 16 (s_os s)")
  note s1 = ReadDir_stays [OF C s rd]
  show ?case
  proof (cases "\<exists>err. e = Some (RdErr err)")
    case True
    then show ?thesis using 1(2) rd stays_Some [OF response_stays(4) [OF s1(1)]] by auto
  next
    case False
    then have "e = None \<or> e = Some RdEOF" by (metis not_None_eq rd_end.exhaust)
    then obtain rsp2 s2 where x: "readDir_entries E m base es rsp (s\<lparr>s_os := os\<rparr>) = Some (rsp2, s2)"
        "(if length es = 0 \<or> e = Some RdEOF
          then s_write E (snd (Buffer_Done (rsp2\<lparr>buf_Bytes := (buf_Bytes rsp2)[1 := ErrorOK]\<rparr>))) s2
          else g E m base f rsp2 s2) = Some s'"
      using 1(2) rd by (auto simp: bind_eq_Some_conv)
    have s2: "in_storage root s0 Q s2" using readDir_entries_stays [OF C b s1 x(1)] .
    then show ?thesis
      using x(2) IH C b stays_Some [OF response_stays(2) [OF s2]] by (auto split: if_splits)
  qed
qed

lemma streamPrefetchDir_loop_stays:
  assumes "streamPrefetchDir_loop E m state rsp s = Some x"
  shows "os_confined root Q (E_sys E) \<longrightarrow> base_ok root (pf_absPath state) \<longrightarrow> (\<forall>e \<in> set (pf_pending state). proper_name (ent_Name e)) \<longrightarrow>
    in_storage root s0 Q s \<longrightarrow> in_storage root s0 Q (snd (snd x))"
proof (rule streamPrefetchDir_loop.raw_induct [where P = "\<lambda>E m state rsp s x. os_confined root Q (E_sys E) \<longrightarrow> base_ok root (pf_absPath state) \<longrightarrow>
    (\<forall>e \<in> set (pf_pending state). proper_name (ent_Name e)) \<longrightarrow> in_storage root s0 Q s \<longrightarrow> in_storage root s0 Q (snd (snd x))", OF _ assms], intro impI, goal_cases)
  case (1 g E m state rsp s x)
  note IH = 1(1) and C = 1(3) and b = 1(4) and nm = 1(5) and s = 1(6)
  obtain over k rsp1 s1 where p: "streamPending E m (pf_absPath state) (pf_pending state) (pf_count state) rsp s = Some (over, k, rsp1, s1)"
    using 1(2) by (auto simp: bind_eq_Some_conv)
  have s1: "in_storage root s0 Q s1" by (rule streamPending_stays [OF C b s nm p])
  obtain os es e where rd: "os_ReadDir (E_sys E) (pf_file state) 16 (s_os s1) = (os, es, e)"
    by (cases "os_ReadDir (E_sys E) (pf_file state) 16 (s_os s1)")
  note s2 = ReadDir_stays [OF C s1 rd]
  show ?case
  proof (cases over)
    case True
    then show ?thesis using 1(2) p s1 by auto
  next
    case False
    show ?thesis
    proof (cases e)
      case None
      then have "g E m (state\<lparr>pf_pending := es, pf_count := k\<rparr>) rsp1 (s1\<lparr>s_os := os\<rparr>) = Some x"
        using 1(2) p rd False by auto
      then show ?thesis using IH [of E m "state\<lparr>pf_pending := es, pf_count := k\<rparr>"] C b s2 by auto
    next
      case (Some y)
      then show ?thesis using 1(2) p rd False s2(1) by (cases y) auto
    qed
  qed
qed

lemma streamPrefetchDir_stays:
  assumes "streamPrefetchDir E m state rsp s = Some (failed, rsp', s')" and C: "os_confined root Q (E_sys E)"
    and "base_ok root (pf_absPath state)" and "\<forall>e \<in> set (pf_pending state). proper_name (ent_Name e)" and "in_storage root s0 Q s"
  shows "in_storage root s0 Q s'"
proof -
  obtain rsp1 s1 where r: "streamPrefetchDir_loop E m state rsp s = Some (failed, rsp1, s1)"
      "s' = fst (on_os (os_CloseFile (E_sys E) (pf_file state)) s1)"
    using assms(1) by (auto simp: streamPrefetchDir_def bind_eq_Some_conv)
  have "in_storage root s0 Q s1" using streamPrefetchDir_loop_stays [OF r(1)] assms by simp
  moreover have "keeps Q (os_CloseFile (E_sys E) (pf_file state))" using os_confinedD(1) [OF C] by (simp add: fd_ops_keep_def)
  ultimately show ?thesis unfolding r(2) by (rule on_os_stays)
qed

lemma rootMore_stays:
  assumes "rootMore E m base f rsp s = Some x"
  shows "os_confined root Q (E_sys E) \<longrightarrow> base_ok root base \<longrightarrow> in_storage root s0 Q s \<longrightarrow> in_storage root s0 Q (snd x)"
proof (rule rootMore.raw_induct [where P = "\<lambda>E m base f rsp s x. os_confined root Q (E_sys E) \<longrightarrow> base_ok root base \<longrightarrow>
    in_storage root s0 Q s \<longrightarrow> in_storage root s0 Q (snd x)", OF _ assms], intro impI, goal_cases)
  case (1 g E m base f rsp s x)
  note IH = 1(1) and C = 1(3) and b = 1(4) and s = 1(5)
  obtain os es e where rd: "os_ReadDir (E_sys E) f 16 (s_os s) = (os, es, e)" by (cases "os_ReadDir (E_sys E) f 16 (s_os s)")
  note s1 = ReadDir_stays [OF C s rd]
  obtain rsp2 s2 where r: "rootChunks E m base es rsp (s\<lparr>s_os := os\<rparr>) = Some (rsp2, s2)"
    using 1(2) rd by (auto simp: bind_eq_Some_conv)
  have s2: "in_storage root s0 Q s2" by (rule rootChunks_stays [OF C b s1 r])
  show ?case
    using 1(2) rd r s2 IH [of E m base f rsp2 s2 x] C b by (auto split: option.splits rd_end.splits if_splits)
qed

lemma preparePrefetchDir_stays:
  assumes C: "os_confined root Q S" and b: "base_ok root base" and n: "proper_name (ent_Name e)" and q: "Q os"
    and r: "preparePrefetchDir S base e os = (os', x)"
  shows "Q os'" and "x = Inr st \<Longrightarrow> base_ok root (pf_absPath st) \<and> (\<forall>e \<in> set (pf_pending st). proper_name (ent_Name e))"
proof -
  let ?p = "base @ ent_Name e @ ''/''"
  note bc = base_ok_child [OF b n]
  have o: "keeps Q (os_Open S ?p)" using os_confinedD(2) [OF C] bc by (simp add: path_ops_keep_def)
  have F: "fd_ops_keep Q S cf" for cf by (rule os_confinedD(1) [OF C])
  have cl: "keeps Q (os_CloseFile S cf)" for cf using F by (simp add: fd_ops_keep_def)
  have rd: "Q os2 \<and> (\<forall>d \<in> set es. proper_name (ent_Name d))" if "Q os1" "os_ReadDir S cf 16 os1 = (os2, es, y)" for cf os1 os2 es y
    using F that unfolding fd_ops_keep_def by blast
  obtain os1 y where y: "os_Open S ?p os = (os1, y)" by fastforce
  have q1: "Q os1" using keepsD [OF o y q] .
  have "Q os' \<and> (x = Inr st \<longrightarrow> base_ok root (pf_absPath st) \<and> (\<forall>e \<in> set (pf_pending st). proper_name (ent_Name e)))"
  proof (cases y)
    case (Inl err)
    then show ?thesis using r y q1 by (auto simp: preparePrefetchDir_def)
  next
    case (Inr cf)
    obtain os2 es z where z: "os_ReadDir S cf 16 os1 = (os2, es, z)" by (cases "os_ReadDir S cf 16 os1")
    show ?thesis
      using r y Inr z rd [OF q1 z] bc
      by (auto simp: preparePrefetchDir_def Let_def intro: keeps_fst [OF cl] split: option.splits rd_end.splits)
  qed
  then show "Q os'" and "x = Inr st \<Longrightarrow> base_ok root (pf_absPath st) \<and> (\<forall>e \<in> set (pf_pending st). proper_name (ent_Name e))"
    by blast+
qed

lemma nextPrefetchDir_stays:
  assumes C: "os_confined root Q S" and b: "base_ok root base" and q: "Q os"
  shows "\<forall>e \<in> set es. proper_name (ent_Name e) \<Longrightarrow> nextPrefetchDir S base es i used os = (os', used', r, i') \<Longrightarrow>
    Q os' \<and> (\<forall>st. r = Inr (Some st) \<longrightarrow> base_ok root (pf_absPath st) \<and> (\<forall>e \<in> set (pf_pending st). proper_name (ent_Name e)))"
proof (induction es arbitrary: i)
  case (Cons e es)
  obtain os1 x where x: "preparePrefetchDir S base e os = (os1, x)" by fastforce
  note ps = preparePrefetchDir_stays [OF C b _ q x]
  show ?case
    using Cons ps x q by (auto split: if_splits sum.splits)
qed (use q in auto)

lemma prefetchLoop_stays:
  assumes "prefetchLoop E m base first idx pc cur s = Some s'"
  shows "os_confined root Q (E_sys E) \<longrightarrow> base_ok root base \<longrightarrow> (\<forall>e \<in> set first. proper_name (ent_Name e)) \<longrightarrow>
    (\<forall>rsp st. cur = Some (rsp, st) \<longrightarrow> base_ok root (pf_absPath st) \<and> (\<forall>e \<in> set (pf_pending st). proper_name (ent_Name e))) \<longrightarrow>
    in_storage root s0 Q s \<longrightarrow> in_storage root s0 Q s'"
proof (rule prefetchLoop.raw_induct [where P = "\<lambda>E m base first idx pc cur s s'. os_confined root Q (E_sys E) \<longrightarrow> base_ok root base \<longrightarrow>
    (\<forall>e \<in> set first. proper_name (ent_Name e)) \<longrightarrow>
    (\<forall>rsp st. cur = Some (rsp, st) \<longrightarrow> base_ok root (pf_absPath st) \<and> (\<forall>e \<in> set (pf_pending st). proper_name (ent_Name e))) \<longrightarrow>
    in_storage root s0 Q s \<longrightarrow> in_storage root s0 Q s'", OF _ assms], intro impI, goal_cases)
  case (1 g E m base first idx pc cur s s')
  note IH = 1(1) and C = 1(3) and b = 1(4) and nm = 1(5) and cr = 1(6) and s = 1(7)
  have nx: "in_storage root s0 Q (s\<lparr>s_os := os\<rparr>) \<and> (\<forall>st. r = Inr (Some st) \<longrightarrow> base_ok root (pf_absPath st)
      \<and> (\<forall>e \<in> set (pf_pending st). proper_name (ent_Name e)))"
    if "in_storage root s0 Q s" "nextPrefetchDir (E_sys E) base (drop idx first) idx pc (s_os s) = (os, pc', r, idx')" for s os pc' r idx'
    using nextPrefetchDir_stays [OF C b _ _ that(2)] that(1) nm by (auto simp: in_storage_def dest: in_set_dropD)
  show ?case
  proof (cases cur)
    case None
    show ?thesis
    proof (cases "idx < length first \<and> pc < maxPrefetchDirs")
      case True
      obtain os pc' r idx' where n: "nextPrefetchDir (E_sys E) base (drop idx first) idx pc (s_os s) = (os, pc', r, idx')"
        by (cases "nextPrefetchDir (E_sys E) base (drop idx first) idx pc (s_os s)")
      note s1 = nx [OF s n]
      consider (err) e where "r = Inl e" | (none) "r = Inr None" | (some) st where "r = Inr (Some st)"
        by (metis option.exhaust sum.exhaust)
      then show ?thesis
      proof cases
        case err
        then show ?thesis using 1(2) None True n stays_Some [OF response_stays(4)] s1 by auto
      next
        case none
        then have "g E m base first idx' pc' None (s\<lparr>s_os := os\<rparr>) = Some s'" using 1(2) None True n by auto
        then show ?thesis using IH C b nm s1 by blast
      next
        case some
        then obtain rsp2 s2 where x: "writePrefetchIndicator E m READDIRPLUS_INDICATOR_PREFETCH
            (fst (Buffer_write_op (partial_header m) bufPool_Get)) (s\<lparr>s_os := os\<rparr>) = Some (rsp2, s2)"
            "g E m base first idx' pc' (Some (rsp2, st)) s2 = Some s'"
          using 1(2) None True n by (auto simp: bind_eq_Some_conv)
        then show ?thesis using IH [OF x(2)] C b nm s1 some writePrefetchIndicator_stays [OF _ x(1)] by blast
      qed
    next
      case False
      have "writeRspOK E m s = Some s'"
        using 1(2) unfolding None option.case if_not_P [OF False] .
      then show ?thesis using stays_Some [OF response_stays(3) [OF s]] by blast
    qed
  next
    case (Some p)
    obtain rsp st where p: "p = (rsp, st)" by fastforce
    obtain failed rsp1 s1 where x: "streamPrefetchDir E m st rsp s = Some (failed, rsp1, s1)"
      using 1(2) Some p by (auto simp: bind_eq_Some_conv)
    have s1: "in_storage root s0 Q s1" using streamPrefetchDir_stays [OF x C] cr Some p s by blast
    show ?thesis
    proof (cases failed)
      case False
      then obtain s2 where y: "s_write E (snd (Buffer_Done rsp1)) s1 = Some s2" "g E m base first idx pc None s2 = Some s'"
        using 1(2) Some p x by (auto simp: bind_eq_Some_conv)
      then show ?thesis using IH C b nm stays_Some [OF response_stays(2) [OF s1]] by blast
    next
      case True
      obtain os pc' r idx' where n: "nextPrefetchDir (E_sys E) base (drop idx first) idx pc (s_os s1) = (os, pc', r, idx')"
        by (cases "nextPrefetchDir (E_sys E) base (drop idx first) idx pc (s_os s1)")
      note s2 = nx [OF s1 n]
      show ?thesis
      proof (cases "\<exists>st'. r = Inr (Some st')")
        case t: True
        then obtain st' where st': "r = Inr (Some st')" by blast
        then obtain rsp3 s3 where y: "writePrefetchIndicator E m READDIRPLUS_INDICATOR_PREFETCH_SKIP rsp1 (s1\<lparr>s_os := os\<rparr>) = Some (rsp3, s3)"
            "g E m base first idx' pc' (Some (rsp3, st')) s3 = Some s'"
          using 1(2) Some p x True n by (auto simp: bind_eq_Some_conv)
        then show ?thesis using IH [OF y(2)] C b nm s2 st' writePrefetchIndicator_stays [OF _ y(1)] by blast
      next
        case f: False
        then have "writeRspError E m ErrorIO ''read prefetch dir failed'' (s1\<lparr>s_os := os\<rparr>) = Some s'"
          using 1(2) Some p x True n by (auto simp: Let_def split: sum.splits option.splits)
        then show ?thesis using stays_Some [OF response_stays(4)] s2 by blast
      qed
    qed
  qed
qed

lemma listing_handlers_stay:
  assumes C: "os_confined root Q (E_sys E)" and s: "in_storage root s0 Q s"
  shows "stays root s0 Q (cmdReadDir E m a s)" and "stays root s0 Q (cmdReadDirPlus E m b s)"
proof -
  have st: "s_storage s = root" using s by (simp add: in_storage_def)
  have cl: "keeps Q (os_CloseFile (E_sys E) f)" for f using os_confinedD(1) [OF C] by (simp add: fd_ops_keep_def)
  have op: "keeps Q (os_Open (E_sys E) (root @ p))" if "IsUrlValid p" for p
    using os_confinedD(2) [OF C inside_valid [OF that]] by (simp add: path_ops_keep_def)
  have close: "stays root s0 Q (Option.bind r (\<lambda>s. Some (fst (on_os (os_CloseFile (E_sys E) f) s))))" if "stays root s0 Q r" for r f
    by (rule stays_bind [OF that]) (simp add: on_os_stays cl)
  have rd: "stays root s0 Q (readDir_loop E m (ensureDirBase (root @ p)) f rsp s)" if "IsUrlValid p" "in_storage root s0 Q s" for p f rsp s
    using readDir_loop_stays C base_ok_ensure [OF that(1)] that(2) by (fastforce simp: stays_def)
  have plus: "stays root s0 Q (readDirPlus_opened E m base f s)" if b: "base_ok root base" and s: "in_storage root s0 Q s" for base f s
  proof -
    obtain os first err where r: "os_ReadDir (E_sys E) f 501 (s_os s) = (os, first, err)" by (cases "os_ReadDir (E_sys E) f 501 (s_os s)")
    note s1 = ReadDir_stays [OF C s r]
    have k: "stays root s0 Q (do {
          (rsp, s) \<leftarrow> rootChunks E m base first rsp0 (s\<lparr>s_os := os\<rparr>);
          (r, s) \<leftarrow> rootMore E m base f rsp s;
          case r of
            Inl e \<Rightarrow> writeRspError E m (osErrCode e) ''read dir failed'' s
          | Inr rsp \<Rightarrow>
              if length first > maxRootEntriesForPrefetch then
                s_write E (snd (Buffer_Done (rsp\<lparr>buf_Bytes := (buf_Bytes rsp)[1 := ErrorOK]\<rparr>))) s
              else do {
                s \<leftarrow> s_write E (snd (Buffer_Done rsp)) s;
                prefetchLoop E m base first 0 0 None s}})" for rsp0
    proof (cases "rootChunks E m base first rsp0 (s\<lparr>s_os := os\<rparr>)")
      case (Some x)
      obtain rsp2 s2 where x: "x = (rsp2, s2)" by fastforce
      have s2: "in_storage root s0 Q s2" using rootChunks_stays [OF C b s1 Some [unfolded x]] .
      show ?thesis
      proof (cases "rootMore E m base f rsp2 s2")
        case s: (Some y)
        obtain r s3 where y: "y = (r, s3)" by fastforce
        have s3: "in_storage root s0 Q s3" using rootMore_stays [OF s] C b s2 y by simp
        have "stays root s0 Q (Option.bind (s_write E d s3) (prefetchLoop E m base first 0 0 None))" for d
          by (rule stays_bind [OF response_stays(2) [OF s3]]) (use prefetchLoop_stays C b s1(2) in \<open>fastforce simp: stays_def\<close>)
        then show ?thesis using Some x s y response_stays [OF s3] by (simp split: sum.split)
      qed (use Some x in simp)
    qed simp
    show ?thesis
    proof (cases "\<exists>e. err = Some (RdErr e)")
      case True
      then show ?thesis using r response_stays(4) [OF s1(1)] by (auto simp: readDirPlus_opened_def)
    next
      case False
      then have "err = None \<or> err = Some RdEOF" by (metis not_None_eq rd_end.exhaust)
      then show ?thesis
        using r k [of "fst (Buffer_write_op (partial_header m) bufPool_Get)"]
        by (elim disjE) (simp_all only: readDirPlus_opened_def Let_def, simp_all)
    qed
  qed
  show "stays root s0 Q (cmdReadDir E m a s)"
  proof (cases "IsUrlValid (ReadDir_Path a)")
    case True
    obtain os r where o: "os_Open (E_sys E) (root @ ReadDir_Path a) (s_os s) = (os, r)" by fastforce
    note s1 = in_storage_os [OF s op [OF True] o]
    show ?thesis
      using True o st response_stays(4) [OF s1] close [OF rd [OF True s1]]
      by (cases r) (simp_all add: cmdReadDir_def on_os_def [of "os_Open (E_sys E) p" for p])
  qed (use response_stays [OF s] in \<open>simp add: cmdReadDir_def\<close>)
  show "stays root s0 Q (cmdReadDirPlus E m b s)"
  proof (cases "IsUrlValid (ReadDirPlus_Path b)")
    case True
    obtain os r where o: "os_Open (E_sys E) (root @ ReadDirPlus_Path b) (s_os s) = (os, r)" by fastforce
    note s1 = in_storage_os [OF s op [OF True] o]
    show ?thesis
      using True o st response_stays(4) [OF s1] close [OF plus [OF base_ok_ensure [OF True] s1]]
      by (cases r) (simp_all add: cmdReadDirPlus_def on_os_def [of "os_Open (E_sys E) p" for p])
  qed (use response_stays [OF s] in \<open>simp add: cmdReadDirPlus_def\<close>)
qed

lemma read_loop_bind_stays:
  assumes "in_storage root s0 Q s" and "\<And>s. in_storage root s0 Q s \<Longrightarrow> stays root s0 Q (k s)" and "\<And>off s. in_storage root s0 Q s \<Longrightarrow> stays root s0 Q (k' off s)"
    and "\<And>n. keeps Q (sys_Read (E_sys E) sfd n)" and "\<And>n off. keeps Q (sys_Pread (E_sys E) sfd n off)"
  shows "stays root s0 Q (Option.bind (cmdRead_loop E m sfd n s) (\<lambda>(go, s). if \<not> go then Some s else k s))"
    and "stays root s0 Q (Option.bind (cmdReadAt_loop E m sfd n off s) (\<lambda>((go, off), s). if \<not> go then Some s else k' off s))"
proof -
  show "stays root s0 Q (Option.bind (cmdRead_loop E m sfd n s) (\<lambda>(go, s). if \<not> go then Some s else k s))"
  proof (cases "cmdRead_loop E m sfd n s")
    case (Some x)
    then show ?thesis using cmdRead_loop_stays [OF assms(4,1)] assms(2) by (cases x) auto
  qed simp
  show "stays root s0 Q (Option.bind (cmdReadAt_loop E m sfd n off s) (\<lambda>((go, off), s). if \<not> go then Some s else k' off s))"
  proof (cases "cmdReadAt_loop E m sfd n off s")
    case (Some x)
    obtain go off' s' where "x = ((go, off'), s')" by (cases x) auto
    then show ?thesis using Some cmdReadAt_loop_stays [OF assms(5,1)] assms(3) by auto
  qed simp
qed

lemma fd_handlers_stay:
  assumes C: "os_confined root Q (E_sys E)" and s: "in_storage root s0 Q s"
  shows "stays root s0 Q (cmdClose E m a s)" "stays root s0 Q (cmdRead E m b s)" "stays root s0 Q (cmdSeek E m c s)"
    "stays root s0 Q (cmdWrite E m d s)" "stays root s0 Q (cmdAllocate E m e s)" "stays root s0 Q (cmdSync E m f s)"
    "stays root s0 Q (cmdReadAt E m g s)" "stays root s0 Q (cmdWriteAt E m h s)" "stays root s0 Q (cmdCopyFileRange E m i s)"
    "stays root s0 Q (cmdCloneFileRange E m j s)" "stays root s0 Q (cmdSetAttrByFD E m k s)" "stays root s0 Q (cmdGetFileLock E m l s)"
    "stays root s0 Q (cmdSetFileLock E m n s)" "stays root s0 Q (cmdSetFileLockWait E m o' s)"
proof -
  have F: "keeps Q (sys_Close (E_sys E) fd)" "\<And>n. keeps Q (sys_Read (E_sys E) fd n)" "\<And>n off. keeps Q (sys_Pread (E_sys E) fd n off)"
    "\<And>d. keeps Q (sys_Write (E_sys E) fd d)" "\<And>d off. keeps Q (sys_Pwrite (E_sys E) fd d off)" "\<And>a w. keeps Q (sys_Seek (E_sys E) fd a w)"
    "\<And>n. keeps Q (sys_Ftruncate (E_sys E) fd n)" "\<And>m. keeps Q (sys_Fchmod (E_sys E) fd m)" "\<And>u g. keeps Q (sys_Fchown (E_sys E) fd u g)"
    "keeps Q (sys_Fsync (E_sys E) fd)" for fd
    using os_confinedD(1) [OF C, of fd] by (simp_all add: fd_ops_keep_def)
  note W = fd_wrappers_keep [OF os_confinedD(1) [OF C]]
  have ret: "stays root s0 Q (Option.bind (retry_os f s) (rsp_value E m body))" if "keeps Q f" for f and body :: "nat \<Rightarrow> 'b wprog"
    using retry_os_stays [OF s that] rsp_value_stays by (cases "retry_os f s") (auto simp: split_paired_all)
  have cs: "in_storage root s0 Q (s\<lparr>s_fds := AList.delete x (s_fds s)\<rparr>)" for x
    using s evolves_fds(1) [of s0 s "AList.delete x (s_fds s)"] by (simp add: in_storage_def distinct_delete)
  show "stays root s0 Q (cmdClose E m a s)"
    by (auto simp: cmdClose_def Let_def intro!: with_fd_stays [OF s] rsp_unit_stays [OF cs] F)
  show "stays root s0 Q (cmdRead E m b s)"
    unfolding cmdRead_def readAndSend_def
    by (auto intro!: with_fd_stays [OF s] read_and_send_last_stays F read_loop_bind_stays(1) response_stays s)
  show "stays root s0 Q (cmdSeek E m c s)"
    by (auto simp: cmdSeek_def response_stays [OF s] intro!: with_fd_stays [OF s] rsp_value_on_os_stays [OF s] F split: option.split)
  show "stays root s0 Q (cmdWrite E m d s)" "stays root s0 Q (cmdWriteAt E m h s)"
    by (auto simp: cmdWrite_def cmdWriteAt_def intro!: with_fd_stays [OF s] ret F)
  show "stays root s0 Q (cmdAllocate E m e s)" "stays root s0 Q (cmdSync E m f s)" "stays root s0 Q (cmdCloneFileRange E m j s)"
      "stays root s0 Q (cmdSetFileLock E m n s)" "stays root s0 Q (cmdSetFileLockWait E m o' s)"
    by (auto simp: cmdAllocate_def cmdSync_def cmdCloneFileRange_def cmdSetFileLock_def cmdSetFileLockWait_def cmdSetFileLockCommon_def
        intro!: with_fd_stays [OF s] rsp_unit_stays [OF s] F W)
  show "stays root s0 Q (cmdCopyFileRange E m i s)" "stays root s0 Q (cmdGetFileLock E m l s)"
    by (auto simp: cmdCopyFileRange_def cmdGetFileLock_def response_stays [OF s] intro!: with_fd_stays [OF s] rsp_value_on_os_stays [OF s] W)
  show "stays root s0 Q (cmdSetAttrByFD E m k s)"
    by (auto simp: cmdSetAttrByFD_def Let_def split: prod.split intro!: with_fd_stays [OF s] setattr_step_stays s F W response_stays)
  show "stays root s0 Q (cmdReadAt E m g s)"
    unfolding cmdReadAt_def readAtAndSend_def
    by (auto intro!: with_fd_stays [OF s] read_and_send_last_stays F read_loop_bind_stays(2) response_stays s)
qed

lemma on_os_case_stays:
  assumes s: "in_storage root s0 Q s" and f: "keeps Q f" and k: "\<And>x s. in_storage root s0 Q s \<Longrightarrow> stays root s0 Q (k s x)"
  shows "stays root s0 Q (case on_os f s of (s, Inl err) \<Rightarrow> writeRspError E m (ec err) desc s | (s, Inr x) \<Rightarrow> k s x)"
proof -
  obtain s1 r where r: "on_os f s = (s1, r)" by fastforce
  have "in_storage root s0 Q s1" using on_os_stays [OF s f] r by simp
  then show ?thesis using r k response_stays by (cases r) simp_all
qed

lemma path_handlers_stay:
  assumes C: "os_confined root Q (E_sys E)" and s: "in_storage root s0 Q s" and r: "root = [] \<or> IsUrlValid root"
  shows "stays root s0 Q (cmdOpen E m a s)" "stays root s0 Q (cmdReadLink E m b s)" "stays root s0 Q (cmdGetAttr E m c s)"
    "stays root s0 Q (cmdSetAttr E m d s)" "stays root s0 Q (cmdMkdir E m e s)" "stays root s0 Q (cmdSymLink E m f s)"
    "stays root s0 Q (cmdRemove E m g s)" "stays root s0 Q (cmdRmDir E m h s)" "stays root s0 Q (cmdFsStat E m i s)"
    "stays root s0 Q (cmdRename E m j s)" "stays root s0 Q (cmdLink E m k s)" "stays root s0 Q (cmdSetXAttr E m l s)"
    "stays root s0 Q (cmdGetXAttr E m n s)" "stays root s0 Q (cmdListXAttr E m o' s)" "stays root s0 Q (cmdRemoveXAttr E m q s)"
proof -
  have st: "s_storage s = root" using s by (simp add: in_storage_def)
  have hd: "root = [] \<or> hd root = CHR ''/''" using r by (auto simp: IsUrlValid_iff)
  have P: "path_ops_keep Q (E_sys E) (root @ p)" if "IsUrlValid p" for p
    by (rule os_confinedD(2) [OF C inside_valid [OF that]])
  note W = path_wrappers_keep [OF P]
  have P': "keeps Q (sys_Open (E_sys E) (root @ p) fl md)" "keeps Q (sys_Readlink (E_sys E) (root @ p) z)"
    "keeps Q (sys_Truncate (E_sys E) (root @ p) y)" "keeps Q (sys_Chmod (E_sys E) (root @ p) md)"
    "keeps Q (sys_Chown (E_sys E) (root @ p) u g)" "keeps Q (sys_Mkdir (E_sys E) (root @ p) md)"
    "keeps Q (sys_Unlink (E_sys E) (root @ p))" "keeps Q (sys_Rmdir (E_sys E) (root @ p))"
    if "IsUrlValid p" for p fl md z y u g
    using P [OF that] by (simp_all add: path_ops_keep_def)
  have PP: "keeps Q (sys_Symlink (E_sys E) (root @ p) (root @ p'))" "keeps Q (sys_Link (E_sys E) (root @ p) (root @ p'))"
    if "IsUrlValid p" "IsUrlValid p'" for p p'
    using os_confinedD(3) [OF C inside_valid [OF that(1)] inside_valid [OF that(2)]] by (simp_all add: pair_ops_keep_def)
  show "stays root s0 Q (cmdMkdir E m e s)" "stays root s0 Q (cmdRemove E m g s)" "stays root s0 Q (cmdRmDir E m h s)"
    by (auto simp: cmdMkdir_def cmdRemove_def cmdRmDir_def Let_def st response_stays [OF s] intro!: rsp_unit_stays [OF s] P')
  show "stays root s0 Q (cmdSymLink E m f s)" "stays root s0 Q (cmdLink E m k s)"
    by (auto simp: cmdSymLink_def cmdLink_def st response_stays [OF s] intro!: rsp_unit_stays [OF s] PP)
  show "stays root s0 Q (cmdRename E m j s)"
    by (auto simp: cmdRename_def st response_stays [OF s] intro!: rsp_unit_stays [OF s] rename_paths_keeps [OF C hd])
  show "stays root s0 Q (cmdFsStat E m i s)"
    by (auto simp: cmdFsStat_def st response_stays [OF s] intro!: rsp_value_on_os_stays [OF s] W)
  show "stays root s0 Q (cmdSetAttr E m d s)"
    by (auto simp: cmdSetAttr_def Let_def st response_stays [OF s] split: prod.split intro!: setattr_step_stays s P' W response_stays)
  show "stays root s0 Q (cmdGetAttr E m c s)"
  proof (cases "IsUrlValid (GetAttr_Path c)")
    case True
    note s1 = on_os_stays [OF s getAttr_keeps [OF C True r, of root]]
    show ?thesis
      using True st response_stays [OF s1] by (auto simp: cmdGetAttr_def split: prod.split sum.split)
  qed (use response_stays [OF s] in \<open>simp add: cmdGetAttr_def\<close>)
  show "stays root s0 Q (cmdSetXAttr E m l s)"
    unfolding cmdSetXAttr_def
    by (rule xattr_checked_stays [OF s], subst st, rule on_os_case_stays [OF s W(6)], assumption) (simp add: response_stays)
  show "stays root s0 Q (cmdGetXAttr E m n s)"
    unfolding cmdGetXAttr_def
    by (rule xattr_checked_stays [OF s], subst st, rule on_os_case_stays [OF s W(4)], assumption) (simp add: writeXAttrData_stays)
  show "stays root s0 Q (cmdRemoveXAttr E m q s)"
    unfolding cmdRemoveXAttr_def
    by (rule xattr_checked_stays [OF s], subst st, rule on_os_case_stays [OF s W(7)], assumption) (simp add: response_stays)
  show "stays root s0 Q (cmdListXAttr E m o' s)"
  proof (cases "IsUrlValid (ListXAttr_Path o')")
    case True
    show ?thesis
      unfolding cmdListXAttr_def st using True
      by (simp, intro on_os_case_stays [OF s W(5) [OF True]])
        (auto split: option.split intro: response_stays writeXAttrData_stays)
  qed (use response_stays [OF s] in \<open>simp add: cmdListXAttr_def\<close>)
  show "stays root s0 Q (cmdOpen E m a s)"
  proof (cases "IsUrlValid (Open_Path a)")
    case True
    have "stays root s0 Q (Option.bind (retry_os f s) (\<lambda>(s, r). case r of
        Inl err \<Rightarrow> writeRspError E m (wsfsErrCode err) ''syscall error'' s
      | Inr sfd \<Rightarrow> Option.bind (newFD sfd s) (\<lambda>(wfd, s). rspWith E m ErrorOK (body wfd) s)))" if "keeps Q f" for f and body :: "u32 \<Rightarrow> 'b wprog"
    proof (cases "retry_os f s")
      case (Some x)
      obtain s1 r where x: "x = (s1, r)" by fastforce
      have s1: "in_storage root s0 Q s1" by (rule retry_os_stays [OF s that Some [unfolded x]])
      have "stays root s0 Q (Option.bind (newFD sfd s1) (\<lambda>(wfd, s). rspWith E m ErrorOK (body wfd) s))" for sfd
        by (cases "newFD sfd s1") (auto intro: response_stays newFD_stays [OF s1])
      then show ?thesis using Some x response_stays [OF s1] by (auto split: sum.split)
    qed simp
    from this [OF P'(1) [OF True]] show ?thesis
      using True st response_stays [OF s] by (auto simp: cmdOpen_def Let_def split: sum.split)
  qed (use response_stays [OF s] in \<open>simp add: cmdOpen_def\<close>)
  show "stays root s0 Q (cmdReadLink E m b s)"
  proof (cases "IsUrlValid (ReadLink_Path b)")
    case True
    show ?thesis
    proof (cases "retry_os (sys_Readlink (E_sys E) (root @ ReadLink_Path b) 256) s")
      case (Some x)
      obtain s1 r where x: "x = (s1, r)" by fastforce
      have s1: "in_storage root s0 Q s1" by (rule retry_os_stays [OF s P'(2) [OF True] Some [unfolded x]])
      show ?thesis
        using True st Some x response_stays [OF s1] by (auto simp: cmdReadLink_def Let_def split: sum.split)
    qed (use True st in \<open>simp add: cmdReadLink_def\<close>)
  qed (use response_stays [OF s] in \<open>simp add: cmdReadLink_def\<close>)
qed

text \<open>The commands whose goroutine owns a fast buffer, which it releases when its handler has returned.\<close>

definition holds_buffer :: "command \<Rightarrow> bool" where
  "holds_buffer c \<longleftrightarrow> (case c of ReqWrite _ \<Rightarrow> True | ReqWriteAt _ \<Rightarrow> True | ReqSetXAttr _ \<Rightarrow> True | _ \<Rightarrow> False)"

lemma runCommand_stays:
  assumes C: "os_confined root Q (E_sys E)" and r: "root = [] \<or> IsUrlValid root" and s: "in_storage root s0 Q s"
    and x: "runCommand E m c s = Some s'"
  shows "\<exists>s1. in_storage root s0 Q s1 \<and> s' = (if holds_buffer c then releaseFastBuffer s1 else s1)"
  using x s
  by (cases c) (auto simp: holds_buffer_def dest: path_handlers_stay [OF C s r, THEN stays_Some]
      fd_handlers_stay [OF C s, THEN stays_Some] listing_handlers_stay [OF C s, THEN stays_Some])

text \<open>
  (C18) Clients stay in the storage: let \<open>Q\<close> be a property of the state of the operating system that is kept by
  every operation on a descriptor and by every operation on a path inside the storage. Then every
  command of a client keeps \<open>Q\<close>, whatever path it names, on any connection.
\<close>

theorem commands_confined:
  assumes "os_confined (s_storage s) Q (E_sys E)" and "s_storage s = [] \<or> IsUrlValid (s_storage s)"
    and "Q (s_os s)" and "runCommand E m c s = Some s'"
  shows "Q (s_os s') \<and> s_storage s' = s_storage s"
proof -
  have "in_storage (s_storage s) s Q s" using assms(3) by (simp add: in_storage_def)
  from runCommand_stays [OF assms(1,2) this assms(4)] show ?thesis
    by (auto simp: in_storage_def releaseFastBuffer_def)
qed

text \<open>
  An operating system that only records the paths it is given, as an instance: the recorded paths are all
  inside the storage, or \<^verbatim>\<open>/proc\<close> names of descriptors.
\<close>

definition rec1 :: "string \<Rightarrow> (string list, 'a) sysop" where
  "rec1 p log = (p # log, Inl (Sys EACCES))"

definition rec2 :: "string \<Rightarrow> string \<Rightarrow> (string list, 'a) sysop" where
  "rec2 p p' log = (p # p' # log, Inl (Sys EACCES))"

abbreviation rec0 :: "(string list, 'a) sysop" where "rec0 \<equiv> sys_fail (Sys EACCES)"

definition log_sys :: "string list sys" where
  "log_sys = \<lparr>
     sys_Open = (\<lambda>p _ _. rec1 p), sys_Close = (\<lambda>_. rec0), sys_Read = (\<lambda>_ _. rec0), sys_Pread = (\<lambda>_ _ _. rec0),
     sys_Write = (\<lambda>_ _. rec0), sys_Pwrite = (\<lambda>_ _ _. rec0), sys_Seek = (\<lambda>_ _ _. rec0), sys_Readlink = (\<lambda>p _. rec1 p),
     sys_Fallocate = (\<lambda>_ _ _ _. rec0), sys_Truncate = (\<lambda>p _. rec1 p), sys_Ftruncate = (\<lambda>_ _. rec0),
     sys_Utimes = (\<lambda>p _. rec1 p), sys_Chmod = (\<lambda>p _. rec1 p), sys_Fchmod = (\<lambda>_ _. rec0), sys_Chown = (\<lambda>p _ _. rec1 p),
     sys_Fchown = (\<lambda>_ _ _. rec0), sys_Fsync = (\<lambda>_. rec0), sys_Mkdir = (\<lambda>p _. rec1 p), sys_Symlink = rec2,
     sys_Link = rec2, sys_Unlink = rec1, sys_Rmdir = rec1, sys_Rename = rec2, sys_Renameat2 = (\<lambda>_ p _ p' _. rec2 p p'),
     sys_Statfs = rec1, sys_CopyFileRange = (\<lambda>_ _ _ _ _. rec0), sys_FileClone = (\<lambda>_ _. rec0),
     sys_FileCloneRange = (\<lambda>_ _ _ _ _. rec0), sys_OfdGetlk = (\<lambda>_ _. rec0), sys_OfdSetlk = (\<lambda>_ _ _. rec0),
     sys_Setxattr = (\<lambda>_ p _ _ _. rec1 p), sys_Getxattr = (\<lambda>_ p _ _. rec1 p), sys_Listxattr = (\<lambda>_ p _. rec1 p),
     sys_Removexattr = (\<lambda>_ p _. rec1 p), os_Stat = (\<lambda>_. rec1), os_Readlink = rec1, os_Open = rec1,
     os_ReadDir = (\<lambda>_ _ log. (log, [], Some RdEOF)), os_CloseFile = (\<lambda>_. rec0)\<rparr>"

definition log_ok :: "string \<Rightarrow> string list \<Rightarrow> bool" where
  "log_ok root = list_all (\<lambda>p. inside root p \<or> (\<exists>fd. p = Join ''/proc/self/fd'' (Itoa fd)))"

lemma log_confined: "os_confined root (log_ok root) log_sys"
  unfolding os_confined_def fd_ops_keep_def path_ops_keep_def pair_ops_keep_def
  by (auto simp: log_sys_def keeps_def rec1_def rec2_def sys_fail_def log_ok_def)

definition log_session :: "(string list, bytes \<times> bytes list) session" where
  "log_session = newSession ''/srv'' \<lparr>ids_Uid = 0, ids_Gid = 0, ids_OtherUid = 1, ids_OtherGid = 1\<rparr>
     \<lparr>opt_EnableLink = False, opt_AllowedXAttrPrefix = []\<rparr> ([], []) []"

theorem commands_confined_witness:
  "\<exists>s'. runCommand \<lparr>E_sys = log_sys, E_ws = mem_ws, E_unix = linux_amd64\<rparr> 1 (ReqRemove \<lparr>Remove_Path = ''/x''\<rparr>) log_session = Some s'
    \<and> s_os s' = [''/srv/x''] \<and> log_ok ''/srv'' (s_os s') \<and> s_storage s' = ''/srv''"
proof -
  let ?E = "\<lparr>E_sys = log_sys, E_ws = mem_ws, E_unix = linux_amd64\<rparr>"
  have v: "IsUrlValid ''/srv''" "IsUrlValid ''/x''" by (simp_all add: IsUrlValid_iff)
  have r: "runCommand ?E 1 (ReqRemove \<lparr>Remove_Path = ''/x''\<rparr>) log_session = Some (log_session\<lparr>s_os := [''/srv/x'']\<rparr>)"
    using v(2) by (simp add: cmdRemove_def log_session_def newSession_def on_os_def log_sys_def rec1_def rsp_unit_def
        writeRspError_def rspWith_def beginRsp_def requireWrite_def)
  show ?thesis
    using commands_confined [of log_session "log_ok ''/srv''" ?E 1 "ReqRemove \<lparr>Remove_Path = ''/x''\<rparr>", OF _ _ _ r] log_confined v r
    by (simp add: log_session_def newSession_def log_ok_def)
qed

end
