(* ===== verification/Wsfs_Server_Inv.thy ===== *)
theory Wsfs_Server_Inv
  imports Wsfs_Server_Confine
begin

text \<open>
  Invariants of a running session, over every interleaving of the read loop, the handler goroutines
  and the stream goroutines: the pool of fast buffers never overflows, the command group and the
  stream queues keep their limits, descriptors and stream marks stay distinct, and the write lock is
  free between steps.
\<close>

section \<open>Decoded requests\<close>

lemma rmap_Inr: "rmap f p r = (r', Inr c) \<Longrightarrow> \<exists>x. c = f x"
  by (auto simp: rmap_def rbind_def rret_def split: prod.splits sum.splits)

lemma decodeCommand_code:
  assumes "decodeCommand cmd = Some p" and "p r = (r', Inr c)"
  shows "command_code c = cmd"
  using assms by (auto simp: decodeCommand_def split: if_splits dest!: rmap_Inr)

lemma usesFastBuffer_code: "usesFastBuffer (command_code c) \<longleftrightarrow> holds_buffer c \<or> is_stream_command c"
  by (cases c) (simp_all add: usesFastBuffer_def holds_buffer_def is_stream_command_def)

text \<open>A message with an encoded command starts that command, in a fast buffer when it uses one.\<close>

lemma dispatch_wire:
  assumes c: "command_wf c" and d: "rd_data r = m # command_code c # wire_command c" and e: "rd_err r = EOF" "rd_wf r"
  shows "dispatchCommand E r sv =
    Option.bind (if usesFastBuffer (command_code c) then on_session acquireFastBuffer sv else Some sv)
      (\<lambda>sv. map_option (Pair None) (startCommand E m c sv))"
proof -
  obtain r1 where r1: "io_ReadFull 2 r = (r1, Inr [m, command_code c])" "rd_data r1 = wire_command c" "rd_err r1 = EOF" "rd_wf r1"
    using io_ReadFull_enough [of r "[m, command_code c]" "wire_command c" 2] d e by (metis append_Cons append_Nil length_Cons list.size(3) numeral_2_eq_2)
  obtain p r2 where p: "decodeCommand (command_code c) = Some p" "p r1 = (r2, Inr c)" "rd_err r2 = EOF"
    using decodeCommand_wire [OF c] r1(2-4) unfolding decodes_all_def by blast
  show ?thesis
    unfolding dispatchCommand_def r1(1) doCommandCall_def
    by (cases "if usesFastBuffer (command_code c) then on_session acquireFastBuffer sv else Some sv")
      (simp_all add: p option.map_comp comp_def map_conv_bind_option)
qed

text \<open>A message arrives at an idle read loop and is dispatched.\<close>

lemma server_reach_recv:
  assumes "server_reach E sv0 sv" and "sv_inbox sv = []" and "msg \<noteq> []"
    and "dispatchCommand E (NewReader msg) sv = Some (None, sv')"
  shows "server_reach E sv0 sv'"
proof -
  have e: "sv\<lparr>sv_inbox := [msg]\<rparr>\<lparr>sv_inbox := []\<rparr> = sv" using assms(2) by (cases sv) simp
  have "server_reach E sv0 (sv\<lparr>sv_inbox := [msg]\<rparr>)" using server_reach.arrive [OF assms(1), of msg] assms(2) by simp
  moreover have "server_step E (sv\<lparr>sv_inbox := [msg]\<rparr>) sv'"
    by (rule server_step.recv [where r = "NewReader msg" and rest = "[]"])
      (use assms(3,4) e in \<open>simp_all add: NewReader_def rd_wf_def rd_data_def\<close>)
  ultimately show ?thesis by (rule server_reach.step)
qed

section \<open>The invariant\<close>

text \<open>Buffers in use: one per handler of a data command, one per queued stream input.\<close>

definition held_buffers :: "('os, 'ws) server \<Rightarrow> nat" where
  "held_buffers sv = length (filter (holds_buffer \<circ> snd) (sv_pending sv))
     + sum_list (map (length \<circ> str_input \<circ> snd) (s_writeStreams (sv_session sv)))"

definition server_inv :: "('os, 'ws) server \<Rightarrow> bool" where
  "server_inv sv \<longleftrightarrow>
     s_fastBuffers (sv_session sv) + held_buffers sv \<le> sessionFastBuffer
     \<and> cmdGroup_size sv \<le> cmdGroupLimit
     \<and> (\<forall>st \<in> set (s_writeStreams (sv_session sv)). length (str_input (snd st)) \<le> writeStreamInputBuffer)
     \<and> distinct (map fst (s_writeStreams (sv_session sv)))
     \<and> distinct (map fst (s_fds (sv_session sv)))
     \<and> \<not> s_writeLock (sv_session sv)
     \<and> (s_conn (sv_session sv) \<or> s_cancelled (sv_session sv) \<and> s_connErrLock (sv_session sv))
     \<and> (\<forall>p \<in> set (sv_pending sv). \<not> is_stream_command (snd p))"

definition server_start :: "('os, 'ws) session \<Rightarrow> ('os, 'ws) server" where
  "server_start s = \<lparr>sv_session = s\<lparr>s_conn := True, s_cancelled := False\<rparr>, sv_pending = [], sv_inbox = []\<rparr>"

lemma server_inv_start: "server_inv (server_start (newSession root ids opts ws os))"
  by (simp add: server_inv_def server_start_def newSession_def held_buffers_def cmdGroup_size_def)

lemma server_inv_inbox [simp]: "server_inv (sv\<lparr>sv_inbox := b\<rparr>) \<longleftrightarrow> server_inv sv"
  by (simp add: server_inv_def held_buffers_def cmdGroup_size_def)

lemma server_inv_evolves: "server_inv sv \<Longrightarrow> evolves (sv_session sv) s' \<Longrightarrow> server_inv (sv\<lparr>sv_session := s'\<rparr>)"
  by (auto simp: server_inv_def evolves_def held_buffers_def cmdGroup_size_def)

section \<open>Steps\<close>

text \<open>The invariant, with a property of the disk and the storage root.\<close>

definition sv_ok :: "string \<Rightarrow> ('os \<Rightarrow> bool) \<Rightarrow> ('os, 'ws) server \<Rightarrow> bool" where
  "sv_ok root Q sv \<longleftrightarrow> server_inv sv \<and> Q (s_os (sv_session sv)) \<and> s_storage (sv_session sv) = root"

text \<open>The state in which the read loop owns a fast buffer.\<close>

abbreviation released :: "('os, 'ws) server \<Rightarrow> ('os, 'ws) server" where
  "released sv \<equiv> sv\<lparr>sv_session := releaseFastBuffer (sv_session sv)\<rparr>"

lemma net_frame_ok:
  assumes "sv_ok root Q sv" and "net_frame (sv_session sv) s'"
  shows "sv_ok root Q (sv\<lparr>sv_session := s'\<rparr>)"
  using assms server_inv_evolves [of sv s'] evolves_net [OF evolves_refl, of "sv_session sv" s']
  by (auto simp: sv_ok_def net_frame_def)

lemma error_ok:
  assumes "sv_ok root Q sv" and "on_session (writeRspError E m ec desc) sv = Some sv'"
  shows "sv_ok root Q sv'"
  using assms net_frame_ok [OF assms(1)] rspWith_same by (fastforce simp: on_session_def writeRspError_def)

lemma error_release_ok:
  assumes "sv_ok root Q (released sv)" and "on_session (\<lambda>s. writeRspError E m ec desc (releaseFastBuffer s)) sv = Some sv'"
  shows "sv_ok root Q sv'"
  using error_ok [OF assms(1), of E m ec desc sv'] assms(2) by (simp add: on_session_def option.map_comp comp_def)

lemma acquire_ok:
  assumes "sv_ok root Q sv" and "on_session acquireFastBuffer sv = Some sv'"
  shows "sv_ok root Q (released sv')"
  using assms by (auto simp: on_session_def acquireFastBuffer_def releaseFastBuffer_def split: if_splits)

lemma cmdWriteStreamOpen_ok:
  assumes r: "sv_ok root Q (released sv)" and x: "cmdWriteStreamOpen E m req sv = Some sv'"
  shows "sv_ok root Q sv'"
proof (cases "map_of (s_fds (sv_session sv)) (WriteStreamOpen_FD req)")
  case None
  then show ?thesis using x error_release_ok [OF r] by (auto simp: cmdWriteStreamOpen_def Let_def)
next
  case fd: (Some sfd)
  show ?thesis
  proof (cases "map_of (s_writeStreams (sv_session sv)) m")
    case (Some st)
    then show ?thesis using x fd error_release_ok [OF r] by (auto simp: cmdWriteStreamOpen_def Let_def)
  next
    case None
    let ?st = "\<lparr>str_fd = sfd, str_offset = WriteStreamOpen_Offset req, str_written = 0, str_errSent = False,
        str_input = [\<lparr>wsi_data = WriteStreamOpen_Data req, wsi_isEnd = False\<rparr>], str_done = False\<rparr>"
    have st: "length (str_input ?st) = 1" "cmdGroup_size sv < cmdGroupLimit"
        "sv' = sv\<lparr>sv_session := (sv_session sv)\<lparr>s_writeStreams := (m, ?st) # s_writeStreams (sv_session sv)\<rparr>\<rparr>"
      using x fd None by (auto simp: cmdWriteStreamOpen_def Let_def split: if_splits)
    have "m \<notin> fst ` set (s_writeStreams (sv_session sv))" using None by (simp add: map_of_eq_None_iff)
    then show ?thesis
      using r st(1,2) unfolding st(3)
      by (simp add: sv_ok_def server_inv_def held_buffers_def cmdGroup_size_def releaseFastBuffer_def)
  qed
qed

lemma sum_list_update:
  assumes "map_of al k = Some v" and "distinct (map fst al)"
  shows "sum_list (map (f \<circ> snd) (AList.update k v' al)) + f v = sum_list (map (f \<circ> snd) al) + (f v' :: nat)"
  using assms by (induction al) (auto simp: image_iff)

lemma length_update: "map_of al k = Some v \<Longrightarrow> length (AList.update k v' al) = length al"
  by (induction al) auto

lemma set_update_cases: "x \<in> set (AList.update k v al) \<Longrightarrow> x = (k, v) \<or> x \<in> set al"
  by (induction al) (auto split: if_splits)

text \<open>Replacing the state of one stream.\<close>

lemma stream_update:
  assumes st: "map_of (s_writeStreams (sv_session sv)) m = Some st" and i: "server_inv sv"
    and l: "length (str_input st') \<le> writeStreamInputBuffer"
    and b: "n + held_buffers sv + length (str_input st') \<le> sessionFastBuffer + length (str_input st)"
  shows "server_inv (sv\<lparr>sv_session := (sv_session sv)\<lparr>s_fastBuffers := n,
      s_writeStreams := AList.update m st' (s_writeStreams (sv_session sv))\<rparr>\<rparr>)"
proof -
  let ?w = "s_writeStreams (sv_session sv)"
  have "sum_list (map (length \<circ> str_input \<circ> snd) (AList.update m st' ?w)) + length (str_input st)
      = sum_list (map (length \<circ> str_input \<circ> snd) ?w) + length (str_input st')"
    using sum_list_update [OF st, of "length \<circ> str_input" st'] i by (simp add: server_inv_def comp_assoc)
  then show ?thesis
    using i b l length_update [OF st, of st']
    by (auto simp: server_inv_def held_buffers_def cmdGroup_size_def distinct_update dest!: set_update_cases)
qed

lemma cmdWriteStreamData_ok:
  assumes r: "sv_ok root Q (released sv)" and x: "cmdWriteStreamData E m req sv = Some sv'"
  shows "sv_ok root Q sv'"
proof (cases "map_of (s_writeStreams (sv_session sv)) m")
  case None
  then show ?thesis using x error_release_ok [OF r] by (auto simp: cmdWriteStreamData_def Let_def)
next
  case (Some st)
  let ?st = "st\<lparr>str_input := str_input st @ [\<lparr>wsi_data = WriteStreamData_Data req, wsi_isEnd = (WriteStreamData_IsEnd req \<noteq> 0)\<rparr>]\<rparr>"
  have i: "server_inv sv" "s_fastBuffers (sv_session sv) + held_buffers sv + 1 \<le> sessionFastBuffer"
    using r by (auto simp: sv_ok_def server_inv_def releaseFastBuffer_def held_buffers_def cmdGroup_size_def)
  have "length (str_input st) < writeStreamInputBuffer"
      "sv' = sv\<lparr>sv_session := (sv_session sv)\<lparr>s_writeStreams := AList.update m ?st (s_writeStreams (sv_session sv))\<rparr>\<rparr>"
    using x Some by (auto simp: cmdWriteStreamData_def Let_def split: if_splits)
  then show ?thesis
    using stream_update [OF Some i(1), of ?st "s_fastBuffers (sv_session sv)"] i(2) r by (simp add: sv_ok_def releaseFastBuffer_def)
qed

text \<open>A decoded request: the read loop owns a fast buffer exactly when the command uses one.\<close>

lemma startCommand_ok:
  assumes r: "sv_ok root Q (if usesFastBuffer (command_code c) then released sv else sv)"
    and x: "startCommand E m c sv = Some sv'"
  shows "sv_ok root Q sv'"
proof (cases "is_stream_command c")
  case True
  then have "sv_ok root Q (released sv)" using r by (simp add: usesFastBuffer_code)
  then show ?thesis
    using True x cmdWriteStreamOpen_ok cmdWriteStreamData_ok by (auto simp: is_stream_command_def startCommand_def)
next
  case False
  then have "sv' = sv\<lparr>sv_pending := sv_pending sv @ [(m, c)]\<rparr>" "cmdGroup_size sv < cmdGroupLimit"
    using x by (cases c; auto simp: startCommand_def is_stream_command_def split: if_splits)+
  then show ?thesis
    using False r
    by (simp add: usesFastBuffer_code sv_ok_def server_inv_def held_buffers_def cmdGroup_size_def releaseFastBuffer_def
        split: if_splits)
qed

lemma doCommandCall_ok:
  assumes i: "sv_ok root Q sv" and x: "doCommandCall E m cmd r sv = Some (r', sv')"
  shows "sv_ok root Q sv'"
proof (cases "decodeCommand cmd")
  case None
  then show ?thesis using x error_ok [OF i] by (auto simp: doCommandCall_def)
next
  case (Some p)
  obtain sv1 where sv1: "(if usesFastBuffer cmd then on_session acquireFastBuffer sv else Some sv) = Some sv1"
    using x Some by (auto simp: doCommandCall_def bind_eq_Some_conv)
  have ok: "sv_ok root Q (if usesFastBuffer cmd then released sv1 else sv1)"
    using sv1 i acquire_ok [OF i] by (auto split: if_splits)
  obtain r1 y where y: "p r = (r1, y)" by fastforce
  show ?thesis
  proof (cases y)
    case (Inl e)
    have "on_session (\<lambda>s. writeRspError E m ErrorInvalid ''Bad command format'' (if usesFastBuffer cmd then releaseFastBuffer s else s)) sv1
        = Some sv'"
      using x unfolding doCommandCall_def Some option.case sv1 y Inl by simp
    then show ?thesis
      using ok by (cases "usesFastBuffer cmd") (auto elim: error_ok error_release_ok)
  next
    case (Inr c)
    then have c: "command_code c = cmd" using decodeCommand_code Some y by blast
    have "startCommand E m c sv1 = Some sv'"
      using x unfolding doCommandCall_def Some option.case sv1 y Inr by simp
    then show ?thesis using startCommand_ok [of root Q c sv1] ok c by simp
  qed
qed

lemma dispatchCommand_ok:
  assumes "sv_ok root Q sv" and "dispatchCommand E r sv = Some (e, sv')"
  shows "sv_ok root Q sv'"
  using assms doCommandCall_ok [OF assms(1)] by (auto simp: dispatchCommand_def bind_eq_Some_conv split: prod.splits sum.splits)

lemma job_ok:
  assumes C: "os_confined root Q (E_sys E)" and r: "root = [] \<or> IsUrlValid root" and i: "sv_ok root Q sv"
    and p: "sv_pending sv = xs @ (m, c) # ys" and x: "runCommand E m c (sv_session sv) = Some s'"
  shows "sv_ok root Q (sv\<lparr>sv_session := s', sv_pending := xs @ ys\<rparr>)"
proof -
  have "in_storage root (sv_session sv) Q (sv_session sv)" using i by (simp add: sv_ok_def in_storage_def)
  from runCommand_stays [OF C r this x] obtain s1 where s1: "in_storage root (sv_session sv) Q s1"
    "s' = (if holds_buffer c then releaseFastBuffer s1 else s1)" by blast
  have "server_inv (sv\<lparr>sv_session := s1\<rparr>)" using i s1(1) server_inv_evolves by (auto simp: sv_ok_def in_storage_def)
  then show ?thesis
    using s1 p i by (auto simp: sv_ok_def in_storage_def server_inv_def held_buffers_def cmdGroup_size_def releaseFastBuffer_def)
qed

lemma writeChunk_loop_keeps:
  assumes "writeStreamWriteChunk_loop S fd off data tot os = Some x"
  shows "(\<forall>d off. keeps Q (sys_Pwrite S fd d off)) \<longrightarrow> Q os \<longrightarrow> Q (fst x)"
proof (rule writeStreamWriteChunk_loop.raw_induct [where P = "\<lambda>S fd off data tot os x.
    (\<forall>d off. keeps Q (sys_Pwrite S fd d off)) \<longrightarrow> Q os \<longrightarrow> Q (fst x)", OF _ assms], intro impI, goal_cases)
  case (1 g S fd off data tot os x)
  note IH = 1(1) and k = 1(3) and q = 1(4)
  show ?case
  proof (cases "length data = 0")
    case True
    then show ?thesis using 1(2) q by auto
  next
    case False
    then obtain os1 y where y: "ignoringEINTR (sys_Pwrite S fd data off) os = Some (os1, y)"
      using 1(2) by (auto simp: bind_eq_Some_conv)
    have "Q os1" using ignoringEINTR_keeps [OF y, of Q] k q by simp
    then show ?thesis
      using 1(2) False y IH k by (cases y) (auto split: if_splits)
  qed
qed

lemma in_storage_release: "in_storage root s0 Q s \<Longrightarrow> in_storage root (releaseFastBuffer s0) Q (releaseFastBuffer s)"
  by (auto simp: in_storage_def evolves_def releaseFastBuffer_def)

lemma run_input_stays:
  assumes C: "os_confined root Q (E_sys E)" and s: "in_storage root s0 Q s" and x: "run_input E m msg st s = Some (st', s')"
  shows "in_storage root (releaseFastBuffer s0) Q s' \<and> str_input st' = str_input st"
proof -
  obtain st1 s1 where y: "(if length (wsi_data msg) > 0 \<and> \<not> str_errSent st then do {
          (os, written, errCode, errDesc, ok) \<leftarrow>
            writeStreamWriteChunk (E_sys E) (str_fd st) (str_offset st) (wsi_data msg) (s_os s);
          let s = s\<lparr>s_os := os\<rparr>;
          let st = st\<lparr>str_offset := str_offset st + written, str_written := str_written st + written\<rparr>;
          if ok then Some (st, s)
          else do {
            s \<leftarrow> writeRspError E m errCode errDesc s;
            Some (st\<lparr>str_errSent := True\<rparr>, s)}}
        else Some (st, s)) = Some (st1, s1)"
      "(if wsi_isEnd msg then do {
          s \<leftarrow> writeRspWriteStreamClose E m (str_written st1) (releaseFastBuffer s1);
          Some (st1\<lparr>str_done := True\<rparr>, s)}
        else Some (st1, releaseFastBuffer s1)) = Some (st', s')"
    using x by (auto simp: run_input_def Let_def bind_eq_Some_conv)
  have k: "\<forall>d off. keeps Q (sys_Pwrite (E_sys E) fd d off)" for fd
    using os_confinedD(1) [OF C, of fd] by (simp add: fd_ops_keep_def)
  have s1: "in_storage root s0 Q s1 \<and> str_input st1 = str_input st"
  proof (cases "length (wsi_data msg) > 0 \<and> \<not> str_errSent st")
    case False
    then show ?thesis using y(1) s by (auto split: if_splits)
  next
    case True
    then obtain os1 written ec ed ok where w: "writeStreamWriteChunk (E_sys E) (str_fd st) (str_offset st) (wsi_data msg) (s_os s)
        = Some (os1, written, ec, ed, ok)"
      using y(1) by (auto simp: bind_eq_Some_conv)
    have "Q os1" using writeChunk_loop_keeps [OF w [unfolded writeStreamWriteChunk_def], of Q] k s by (simp add: in_storage_def)
    then have s2: "in_storage root s0 Q (s\<lparr>s_os := os1\<rparr>)" using s by (simp add: in_storage_def)
    show ?thesis
      using y(1) True w s2 stays_Some [OF response_stays(4) [OF s2]] by (auto simp: Let_def bind_eq_Some_conv split: if_splits)
  qed
  then have s2: "in_storage root (releaseFastBuffer s0) Q (releaseFastBuffer s1)" using in_storage_release by blast
  show ?thesis
    using y(2) s1 s2 stays_Some [OF response_stays(1) [OF s2]]
    by (auto simp: writeRspWriteStreamClose_def bind_eq_Some_conv split: if_splits)
qed

lemma stream_ok:
  assumes C: "os_confined root Q (E_sys E)" and i: "sv_ok root Q sv"
    and st: "map_of (s_writeStreams (sv_session sv)) m = Some st" "str_input st = msg # rest"
    and x: "run_input E m msg (st\<lparr>str_input := rest\<rparr>) (sv_session sv) = Some (st', s')"
  shows "sv_ok root Q (sv\<lparr>sv_session := s'\<lparr>s_writeStreams := AList.update m st' (s_writeStreams s')\<rparr>\<rparr>)"
proof -
  let ?s = "s'\<lparr>s_fastBuffers := s_fastBuffers (sv_session sv)\<rparr>"
  have "in_storage root (sv_session sv) Q (sv_session sv)" using i by (simp add: sv_ok_def in_storage_def)
  from run_input_stays [OF C this x] have s': "in_storage root (releaseFastBuffer (sv_session sv)) Q s'" "str_input st' = rest"
    by simp_all
  then have f: "s_writeStreams s' = s_writeStreams (sv_session sv)" "s_fastBuffers s' = s_fastBuffers (sv_session sv) + 1"
    by (simp_all add: in_storage_def evolves_def releaseFastBuffer_def)
  have inv: "server_inv sv" using i by (simp add: sv_ok_def)
  have "evolves (sv_session sv) ?s"
    using s'(1) by (simp add: in_storage_def evolves_def releaseFastBuffer_def)
  then have "server_inv (sv\<lparr>sv_session := ?s\<rparr>)" using inv server_inv_evolves by blast
  moreover have "length (str_input st) \<le> writeStreamInputBuffer" "s_fastBuffers (sv_session sv) + held_buffers sv \<le> sessionFastBuffer"
    using inv map_of_SomeD [OF st(1)] by (auto simp: server_inv_def)
  moreover have "held_buffers (sv\<lparr>sv_session := ?s\<rparr>) = held_buffers sv" using f by (simp add: held_buffers_def)
  ultimately have "server_inv (sv\<lparr>sv_session := ?s\<lparr>s_fastBuffers := s_fastBuffers s', s_writeStreams := AList.update m st' (s_writeStreams s')\<rparr>\<rparr>)"
    using stream_update [of "sv\<lparr>sv_session := ?s\<rparr>" m st st' "s_fastBuffers s'"] st s'(2) f by simp
  then show ?thesis using s'(1) by (simp add: sv_ok_def in_storage_def)
qed

lemma finish_ok:
  assumes "sv_ok root Q sv"
  shows "sv_ok root Q (sv\<lparr>sv_session := (sv_session sv)\<lparr>s_writeStreams := AList.delete m (s_writeStreams (sv_session sv))\<rparr>\<rparr>)"
proof -
  let ?w = "s_writeStreams (sv_session sv)"
  have "sum_list (map (length \<circ> str_input \<circ> snd) (AList.delete m w)) \<le> sum_list (map (length \<circ> str_input \<circ> snd) w)" for w
    by (induction w) auto
  note this [of ?w]
  moreover have "length (AList.delete m ?w) \<le> length ?w" by (simp add: AList.delete_eq)
  moreover have "set (AList.delete m ?w) \<subseteq> set ?w" by (auto simp: AList.delete_eq)
  ultimately show ?thesis
    using assms by (auto simp: sv_ok_def server_inv_def held_buffers_def cmdGroup_size_def distinct_delete)
qed

lemma server_step_ok:
  assumes C: "os_confined root Q (E_sys E)" and r: "root = [] \<or> IsUrlValid root" and x: "server_step E sv sv'" and i: "sv_ok root Q sv"
  shows "sv_ok root Q sv'"
  using x
proof cases
  case (recv msg rest rd)
  have "sv_ok root Q (sv\<lparr>sv_inbox := rest\<rparr>)" using i by (simp add: sv_ok_def)
  then show ?thesis using recv(5) by (rule dispatchCommand_ok)
next
  case (job xs m c ys s')
  show ?thesis unfolding job(1) by (rule job_ok [OF C r i job(2,3)])
next
  case (stream m st msg rest st' s')
  show ?thesis unfolding stream(1) by (rule stream_ok [OF C i stream(2,4,5)])
next
  case (finish m st)
  show ?thesis unfolding finish(1) by (rule finish_ok [OF i])
qed

lemma server_reach_ok:
  assumes C: "os_confined root Q (E_sys E)" and r: "root = [] \<or> IsUrlValid root" and x: "server_reach E sv sv'" and i: "sv_ok root Q sv"
  shows "sv_ok root Q sv'"
  using x i by induction (auto simp: sv_ok_def dest: server_step_ok [OF C r, unfolded sv_ok_def])

text \<open>
  (C9) Whatever a client sends, and however the read loop, the handlers and the write streams of its
  session interleave, from a new connection of a new session on: free and used fast buffers are at
  most 32 together, so that returning a buffer to the pool never blocks; at most 64 goroutines are in the
  command group and at most 4 inputs wait in a stream; descriptors and stream marks are distinct; the
  write lock is free between steps; a lost connection has its error recorded; and every property of
  the disk that operations inside the storage keep still holds.
\<close>

theorem session_invariant:
  assumes "os_confined root Q (E_sys E)" and "root = [] \<or> IsUrlValid root" and "Q os"
    and "server_reach E (server_start (newSession root ids opts ws os)) sv"
  shows "server_inv sv \<and> Q (s_os (sv_session sv)) \<and> s_storage (sv_session sv) = root"
proof -
  have "sv_ok root Q (server_start (newSession root ids opts ws os))"
    using server_inv_start assms(3) by (simp add: sv_ok_def server_start_def newSession_def)
  then show ?thesis using server_reach_ok [OF assms(1,2,4)] by (simp add: sv_ok_def)
qed

theorem session_invariant_witness:
  "\<exists>sv. server_reach \<lparr>E_sys = log_sys, E_ws = mem_ws, E_unix = linux_amd64\<rparr> (server_start log_session) sv
    \<and> s_os (sv_session sv) = [''/srv/x''] \<and> server_inv sv \<and> log_ok ''/srv'' (s_os (sv_session sv))"
proof -
  let ?E = "\<lparr>E_sys = log_sys, E_ws = mem_ws, E_unix = linux_amd64\<rparr>" and ?c = "ReqRemove \<lparr>Remove_Path = ''/x''\<rparr>"
  let ?sv = "server_start log_session" and ?msg = "1 # command_code ?c # wire_command ?c"
  have v: "IsUrlValid ''/srv''" "IsUrlValid ''/x''" by (simp_all add: IsUrlValid_iff)
  have "dispatchCommand ?E (NewReader ?msg) ?sv = Some (None, ?sv\<lparr>sv_pending := [(1, ?c)]\<rparr>)"
    by (subst dispatch_wire [where c = ?c and m = 1])
      (simp_all add: usesFastBuffer_def startCommand_def cmdGroup_size_def server_start_def log_session_def newSession_def rd_data_def NewReader_def rd_wf_def)
  then have r: "server_reach ?E ?sv (?sv\<lparr>sv_pending := [(1, ?c)]\<rparr>)"
    by (rule server_reach_recv [OF server_reach.start, rotated 2]) (simp_all add: server_start_def)
  obtain s' where s': "runCommand ?E 1 ?c (sv_session ?sv) = Some s'" "s_os s' = [''/srv/x'']"
  proof -
    have l: "sys_Unlink log_sys = rec1" by (simp add: log_sys_def)
    have "runCommand ?E 1 ?c (sv_session ?sv)
        = writeRspError ?E 1 (wsfsErrCode (Sys EACCES)) ''syscall error'' ((sv_session ?sv)\<lparr>s_os := [''/srv/x'']\<rparr>)"
      using v(2) by (simp add: cmdRemove_def on_os_def l rec1_def rsp_unit_def server_start_def log_session_def newSession_def)
    then show ?thesis
      using writeRspError_frame [of "(sv_session ?sv)\<lparr>s_os := [''/srv/x'']\<rparr>" ?E 1 "wsfsErrCode (Sys EACCES)" "''syscall error''"] that
      by (auto simp: net_frame_def server_start_def log_session_def newSession_def)
  qed
  have "server_reach ?E ?sv (?sv\<lparr>sv_session := s', sv_pending := []\<rparr>)"
    using server_reach.step [OF r server_step.job [of "?sv\<lparr>sv_pending := [(1, ?c)]\<rparr>" "[]" 1 ?c "[]"]] s'(1) by (simp add: server_start_def)
  with session_invariant [of "''/srv''" "log_ok ''/srv''" ?E "[]"] s'(2) log_confined v show ?thesis
    by (fastforce simp: log_session_def log_ok_def)
qed

end
