(* ===== verification/Wsfs_Loop.thy ===== *)
theory Wsfs_Loop
  imports Wsfs_Client_Laws Wsfs_Server_Live
begin

text \<open>
  A client session and a server session on the two ends of one connection. The connection delivers every message; a
  message is dispatched when it is complete, and the goroutine it starts or feeds runs at once. The operating system of
  the server is a parameter. What a call on the client does to the files of the server, and what it returns, is
  shown for every size of request and response.
\<close>

section \<open>The connection\<close>

record 'os link =
  lk_cur :: bytes
  lk_server :: "('os, bytes \<times> bytes list) server"
  lk_inbox :: "bytes list"

definition loop_env :: "'os sys \<Rightarrow> unixc \<Rightarrow> ('os, bytes \<times> bytes list) env" where
  "loop_env S u = \<lparr>E_sys = S, E_ws = mem_ws, E_unix = u\<rparr>"

lemma loop_env_sel [simp]: "E_sys (loop_env S u) = S" "E_ws (loop_env S u) = mem_ws" "E_unix (loop_env S u) = u"
  by (simp_all add: loop_env_def)

text \<open>The handler that waits first runs.\<close>

definition serve_job :: "('os, 'ws) env \<Rightarrow> ('os, 'ws) server \<Rightarrow> ('os, 'ws) server option" where
  "serve_job E sv = (case sv_pending sv of
       [] \<Rightarrow> Some sv
     | (m, c) # rest \<Rightarrow> Option.bind (runCommand E m c (sv_session sv)) (\<lambda>s. Some (sv\<lparr>sv_session := s, sv_pending := rest\<rparr>)))"

text \<open>The stream of a mark takes its next input, and ends after the last one.\<close>

definition serve_stream :: "('os, 'ws) env \<Rightarrow> u8 \<Rightarrow> ('os, 'ws) server \<Rightarrow> ('os, 'ws) server option" where
  "serve_stream E m sv = (case map_of (s_writeStreams (sv_session sv)) m of
       None \<Rightarrow> Some sv
     | Some st \<Rightarrow> if str_done st then None else (case str_input st of
           [] \<Rightarrow> Some sv
         | msg # rest \<Rightarrow> Option.bind (run_input E m msg (st\<lparr>str_input := rest\<rparr>) (sv_session sv)) (\<lambda>(st', s').
             let streams = AList.update m st' (s_writeStreams s')
             in Some (sv\<lparr>sv_session := s'\<lparr>s_writeStreams := (if str_done st' then AList.delete m streams else streams)\<rparr>\<rparr>))))"

definition serve :: "('os, 'ws) env \<Rightarrow> bytes \<Rightarrow> ('os, 'ws) server \<Rightarrow> ('os, 'ws) server option" where
  "serve E msg sv = (case msg of
       [] \<Rightarrow> None
     | m # _ \<Rightarrow> (case dispatchCommand E (NewReader msg) sv of
           Some (None, sv) \<Rightarrow> Option.bind (serve_job E sv) (serve_stream E m)
         | _ \<Rightarrow> None))"

text \<open>This is one of the schedules of the server.\<close>

lemma serve_reaches:
  assumes "serve E msg sv = Some sv'" and "sv_inbox sv = []"
  shows "server_reach E sv sv'"
proof -
  obtain m body sv1 sv2 where m: "msg = m # body" and d: "dispatchCommand E (NewReader msg) sv = Some (None, sv1)"
    and j: "serve_job E sv1 = Some sv2" and t: "serve_stream E m sv2 = Some sv'"
    using assms(1) by (auto simp: serve_def split: list.splits option.splits prod.splits bind_splits)
  have r1: "server_reach E sv sv1"
    by (rule server_reach_recv [OF server_reach.start assms(2) _ d]) (simp add: m)
  have r2: "server_reach E sv sv2"
  proof (cases "sv_pending sv1")
    case Nil
    then show ?thesis using j r1 by (simp add: serve_job_def)
  next
    case (Cons p rest)
    obtain k c where p: "p = (k, c)" by fastforce
    obtain s where s: "runCommand E k c (sv_session sv1) = Some s" "sv2 = sv1\<lparr>sv_session := s, sv_pending := rest\<rparr>"
      using j Cons p by (auto simp: serve_job_def split: bind_splits)
    from server_step.job [of sv1 "[]" k c rest, OF _ s(1)] show ?thesis
      using Cons p s(2) server_reach.step [OF r1] by simp
  qed
  show ?thesis
  proof (cases "map_of (s_writeStreams (sv_session sv2)) m")
    case None
    then show ?thesis using t r2 by (simp add: serve_stream_def)
  next
    case (Some st)
    show ?thesis
    proof (cases "str_input st")
      case Nil
      then show ?thesis using t r2 Some by (simp add: serve_stream_def split: if_splits)
    next
      case (Cons x rest)
      obtain st' s' where s': "run_input E m x (st\<lparr>str_input := rest\<rparr>) (sv_session sv2) = Some (st', s')" "\<not> str_done st"
        "sv' = sv2\<lparr>sv_session := s'\<lparr>s_writeStreams := (if str_done st' then AList.delete m (AList.update m st' (s_writeStreams s'))
           else AList.update m st' (s_writeStreams s'))\<rparr>\<rparr>"
        using t Some Cons by (auto simp: serve_stream_def Let_def split: bind_splits if_splits)
      let ?sv = "sv2\<lparr>sv_session := s'\<lparr>s_writeStreams := AList.update m st' (s_writeStreams s')\<rparr>\<rparr>"
      have r3: "server_reach E sv ?sv"
        by (rule server_reach.step [OF r2 server_step.stream [OF Some s'(2) Cons s'(1)]])
      show ?thesis
      proof (cases "str_done st'")
        case True
        have "server_step E ?sv (?sv\<lparr>sv_session := (sv_session ?sv)\<lparr>s_writeStreams := AList.delete m (s_writeStreams (sv_session ?sv))\<rparr>\<rparr>)"
          by (rule server_step.finish [where st = st']) (simp_all add: True update_conv')
        from server_reach.step [OF r3 this] show ?thesis using s'(3) True by simp
      qed (use r3 s'(3) in simp)
    qed
  qed
qed

text \<open>What the server sent since the last message is delivered to the client.\<close>

definition deliver_out :: "('os, bytes \<times> bytes list) server \<Rightarrow> ('os, bytes \<times> bytes list) server \<times> bytes list" where
  "deliver_out sv = (sv\<lparr>sv_session := (sv_session sv)\<lparr>s_ws := (fst (s_ws (sv_session sv)), [])\<rparr>\<rparr>, snd (s_ws (sv_session sv)))"

definition exchange :: "('os, bytes \<times> bytes list) env \<Rightarrow> bytes \<Rightarrow> ('os, bytes \<times> bytes list) server \<Rightarrow>
    (('os, bytes \<times> bytes list) server \<times> bytes list) option" where
  "exchange E msg sv = map_option deliver_out (serve E msg sv)"

definition loop_ws :: "('os, bytes \<times> bytes list) env \<Rightarrow> 'os link wsops" where
  "loop_ws E = \<lparr>ws_Writer = (\<lambda>_ w. (w\<lparr>lk_cur := []\<rparr>, None)),
     ws_Write = (\<lambda>bs w. (w\<lparr>lk_cur := lk_cur w @ bs\<rparr>, None)),
     ws_Close = (\<lambda>w. case exchange E (lk_cur w) (lk_server w) of
         None \<Rightarrow> (w, Some (NetError ''no answer''))
       | Some (sv, out) \<Rightarrow> (w\<lparr>lk_server := sv, lk_inbox := lk_inbox w @ out\<rparr>, None)),
     ws_CloseNow = (\<lambda>w. w)\<rparr>"

definition loop_cenv :: "('os, bytes \<times> bytes list) env \<Rightarrow> 'os link cenv" where
  "loop_cenv E = \<lparr>C_ws = loop_ws E,
     C_Reader = (\<lambda>w. case lk_inbox w of [] \<Rightarrow> (w, Inl (NetError ''closed'')) | msg # rest \<Rightarrow> (w\<lparr>lk_inbox := rest\<rparr>, Inr msg)),
     C_Close = (\<lambda>w. (w, None)), C_CloseStatus = (\<lambda>_. - 1), C_reDial = None\<rparr>"

interpretation lk: server_conn "loop_cenv E" lk_cur lk_server lk_inbox "exchange E" for E
  by unfold_locales (auto simp: loop_cenv_def loop_ws_def)

section \<open>A server that waits for requests\<close>

definition ready :: "('os, bytes \<times> bytes list) server \<Rightarrow> bool" where
  "ready sv \<longleftrightarrow> healthy (sv_session sv) \<and> s_writeStreams (sv_session sv) = [] \<and> sv_pending sv = [] \<and> sv_inbox sv = []
     \<and> 0 < s_fastBuffers (sv_session sv) \<and> snd (s_ws (sv_session sv)) = []"

text \<open>A client session with nothing under way, connected to such a server.\<close>

definition linked :: "'os link Session \<Rightarrow> bool" where
  "linked s \<longleftrightarrow> idle s \<and> lk_inbox (c_ws s) = [] \<and> ready (lk_server (c_ws s))"

abbreviation remote_session :: "'os link Session \<Rightarrow> ('os, bytes \<times> bytes list) session" where
  "remote_session s \<equiv> sv_session (lk_server (c_ws s))"

lemma served_linked: "lk.served s sv s' \<Longrightarrow> linked s \<Longrightarrow> ready sv \<Longrightarrow> linked s' \<and> remote_session s' = sv_session sv"
  using lk.served_idle [of s sv s'] by (auto simp: linked_def lk.served_def)

text \<open>A command that runs in a goroutine of its own.\<close>

lemma exchange_command:
  assumes r: "ready sv" and c: "command_wf c" "\<not> is_stream_command c"
    and h: "runCommand E m c (if usesFastBuffer (command_code c) then (sv_session sv)\<lparr>s_fastBuffers := s_fastBuffers (sv_session sv) - 1\<rparr> else sv_session sv) = Some s'"
    and st: "s_writeStreams s' = []"
  shows "exchange E (m # command_code c # wire_command c) sv = Some (sv\<lparr>sv_session := s'\<lparr>s_ws := (fst (s_ws s'), [])\<rparr>\<rparr>, snd (s_ws s'))"
proof -
  let ?s1 = "if usesFastBuffer (command_code c) then (sv_session sv)\<lparr>s_fastBuffers := s_fastBuffers (sv_session sv) - 1\<rparr> else sv_session sv"
  let ?msg = "m # command_code c # wire_command c" and ?sv = "sv\<lparr>sv_session := ?s1, sv_pending := [(m, c)]\<rparr>"
  have d: "dispatchCommand E (NewReader ?msg) sv = Some (None, ?sv)"
    by (subst dispatch_wire [where c = c and m = m])
      (use r c in \<open>simp_all add: ready_def rd_data_def NewReader_def rd_wf_def on_session_def acquireFastBuffer_def startCommand_handler cmdGroup_size_def\<close>)
  have "sv\<lparr>sv_session := s', sv_pending := []\<rparr> = sv\<lparr>sv_session := s'\<rparr>" using r by (cases sv) (simp add: ready_def)
  then have "serve_job E ?sv = Some (sv\<lparr>sv_session := s'\<rparr>)" using h by (simp add: serve_job_def)
  then show ?thesis using d st by (simp add: exchange_def serve_def serve_stream_def deliver_out_def)
qed

section \<open>Reads\<close>

lemma exchange_answers:
  assumes r: "ready sv" and c: "command_wf c" "\<not> is_stream_command c" "\<not> usesFastBuffer (command_code c)"
    and a: "answersK K snd m (sv_session sv) (runCommand E m c (sv_session sv)) ec data"
  shows "\<exists>sv' ps f. exchange E (m # command_code c # wire_command c) sv = Some (sv', ps @ [m # ec # f]) \<and> ready sv'
    \<and> list_all (is_partial m) ps \<and> length f \<le> 8190 \<and> concat (map (drop 2) ps) @ f = data \<and> list_all (\<lambda>p. K (drop 2 p)) ps \<and> K f"
proof -
  obtain s' ps f where *: "runCommand E m c (sv_session sv) = Some s'" "sends snd (sv_session sv) s' (ps @ [m # ec # f])"
      "list_all (is_partial m) ps" "length f \<le> 8190" "concat (map (drop 2) ps) @ f = data" "list_all (\<lambda>p. K (drop 2 p)) ps" "K f"
    using a unfolding answersK_def by blast
  have "exchange E (m # command_code c # wire_command c) sv = Some (sv\<lparr>sv_session := s'\<lparr>s_ws := (fst (s_ws s'), [])\<rparr>\<rparr>, snd (s_ws s'))"
    by (rule exchange_command [OF r c(1,2)]) (use * c(3) r in \<open>simp_all add: sends_def ready_def\<close>)
  moreover have "snd (s_ws s') = ps @ [m # ec # f]" "ready (sv\<lparr>sv_session := s'\<lparr>s_ws := (fst (s_ws s'), [])\<rparr>\<rparr>)"
    using *(2) r by (auto simp: sends_def ready_def healthy_def)
  ultimately show ?thesis using * by auto
qed

text \<open>
  (C2) Reading a remote file end to end: on a session connected to a server, \<^verbatim>\<open>CmdReadAt\<close> returns success and the number of
  bytes between the offset and the end of the file, at most the length of the buffer; these bytes of the file are at the start of
  the buffer, the rest of the buffer is as before, and the session can be used again. The result does not depend on how the
  server splits the data into messages.
\<close>

theorem remote_readAt:
  assumes l: "linked s" and fd: "map_of (s_fds (remote_session s)) wfd = Some fd" and f: "pread_file S I fd content"
    and I: "I (s_os (remote_session s))" and sz: "unat off + length dest < 2 ^ 63"
  shows "\<exists>s'. cl_CmdReadAt (loop_cenv (loop_env S u)) wfd off dest s =
      Some ((of_nat (length (take (length dest) (drop (unat off) content))), ErrorOK,
        take (length dest) (drop (unat off) content) @ drop (length (take (length dest) (drop (unat off) content))) dest), s') \<and> linked s'"
proof -
  let ?E = "loop_env S u" and ?d = "take (length dest) (drop (unat off) content)"
  let ?req = "\<lparr>ReadAt_FD = wfd, ReadAt_Offset = off, ReadAt_Size = of_nat (length dest)\<rparr>"
  let ?R = "\<lambda>m sv out. ready sv \<and> (\<exists>ps f. out = ps @ [m # ErrorOK # f] \<and> list_all (is_partial m) ps \<and> length f \<le> 8190 \<and> concat (map (drop 2) ps) @ f = ?d)"
  let ?Q = "\<lambda>r sv. ready sv \<and> r = (of_nat (length ?d), ErrorOK, ?d @ drop (length ?d) dest)"
  have un: "unat (of_nat (length dest) :: u64) = length dest" using sz by (intro unat_of_nat64) simp
  have rd: "ready (lk_server (c_ws s))" and i: "idle s" "lk_inbox (c_ws s) = []" using l by (auto simp: linked_def)
  have h: "healthy (remote_session s)" using rd by (simp add: ready_def)
  have "answers snd m (remote_session s) (cmdReadAt ?E m ?req (remote_session s)) ErrorOK
      (take (unat (ReadAt_Size ?req)) (drop (unat (ReadAt_Offset ?req)) content))" for m
    by (rule readAt_bytes [where cur = fst and fd = fd and I = I]) (use h fd f I sz un in \<open>simp_all add: mem_ws_reliable\<close>)
  then have a: "answers snd m (remote_session s) (runCommand ?E m (ReqReadAt ?req) (remote_session s)) ErrorOK ?d" for m
    using un by simp
  have st: "\<exists>sv out. exchange ?E (m # CmdReadAt # wire_command (ReqReadAt ?req)) (lk_server (c_ws s)) = Some (sv, out) \<and> ?R m sv out" for m
    using exchange_answers [OF rd _ _ _ a, of m] by (auto simp: is_stream_command_def usesFastBuffer_def)
  have k: "\<exists>r w. readInto (loop_cenv ?E) m dest 0 s1 = Some (r, releaseClientMark m (s1\<lparr>c_ws := w\<rparr>)) \<and> lk_server w = lk_server (c_ws s1)
      \<and> lk_inbox w = [] \<and> ?Q r (lk_server w)"
    if R: "?R m (lk_server (c_ws s1)) (lk_inbox (c_ws s1))" and n: "c_responses s1 m = None" for m s1
  proof -
    obtain ps f where pf: "lk_inbox (c_ws s1) = ps @ [m # ErrorOK # f]" "list_all (is_partial m) ps" "length f \<le> 8190" "concat (map (drop 2) ps) @ f = ?d"
      using R by blast
    obtain w where "readInto (loop_cenv ?E) m dest 0 s1 = Some ((of_nat (0 + length ?d), ErrorOK, take 0 dest @ ?d @ drop (0 + length ?d) dest), releaseClientMark m (s1\<lparr>c_ws := w\<rparr>))"
        "lk_server w = lk_server (c_ws s1)" "lk_inbox w = []"
      using lk.readInto_returns [OF pf(2,1) _ pf(3) n, of 0 dest, unfolded pf(4)] by auto
    then show ?thesis using R by auto
  qed
  have b: "lk.adds (WriteCmdReadAtStructToWriter (ws_Write (C_ws (loop_cenv ?E))) ?req) (wire_command (ReqReadAt ?req))"
    using lk.adds_command [of "ReqReadAt ?req"] by simp
  from lk.request_runs [where R = ?R and Q = ?Q, OF i b st k] show ?thesis
    unfolding cl_CmdReadAt_def using served_linked [OF _ l] by blast
qed

definition mem_link :: "(u32 \<times> int) list \<Rightarrow> (string \<times> bytes) list \<Rightarrow> mem_os link Session" where
  "mem_link fds files = (NewSession [''user.''] True \<lparr>lk_cur = [], lk_server = server_start (mem_session fds files), lk_inbox = []\<rparr>)\<lparr>c_conn := True\<rparr>"

lemma mem_link_sel [simp]: "remote_session (mem_link fds files) = mem_session fds files"
  by (simp add: mem_link_def NewSession_def server_start_def mem_session_def newSession_def)

lemma mem_session_sel [simp]: "s_fds (mem_session fds files) = fds" "mem_files (s_os (mem_session fds files)) = files"
  "s_storage (mem_session fds files) = ''/srv''"
  by (simp_all add: mem_session_def newSession_def)

lemma mem_linked: "linked (mem_link fds files)"
  by (simp add: mem_link_def linked_def idle_def quiet_def ready_def NewSession_def server_start_def healthy_def mem_session_def newSession_def)

lemma mem_env_loop: "mem_env = loop_env mem_sys linux_amd64"
  by (simp add: mem_env_def loop_env_def)

lemma replicate_two: "replicate 2 x = [x, x]"
  by (simp add: numeral_2_eq_2)

theorem remote_readAt_witness:
  "\<exists>s'. cl_CmdReadAt (loop_cenv mem_env) 5 1 (replicate 9001 0) (mem_link [(5, 0)] [(''/srv/a'', replicate 9000 1)]) =
     Some ((8999, ErrorOK, replicate 8999 1 @ [0, 0]), s') \<and> linked s'"
  using remote_readAt [of "mem_link [(5, 0)] [(''/srv/a'', replicate 9000 1)]" 5 0 mem_sys "\<lambda>os. mem_files os = [(''/srv/a'', replicate 9000 1)]"
      "replicate 9000 1" 1 "replicate 9001 0" linux_amd64] mem_pread_file [of 0 "[(''/srv/a'', replicate 9000 (1 :: u8))]"]
    mem_linked [of "[(5, 0)]" "[(''/srv/a'', replicate 9000 1)]"]
  by (simp add: mem_env_loop replicate_two)

section \<open>Listings\<close>

lemma listing_short_names:
  assumes P: "os_promises S left" and "listing S s b f os ds"
  shows "list_all (\<lambda>d. length (de_Name d) \<le> 4096) ds"
  using assms(2)
proof (induction rule: listing.induct)
  case (listing_end os os1 es e os2 ds)
  have "map de_Name ds = map ent_Name es" using lookupAll_names [of S s b es os1] listing_end.hyps(3) by simp
  then have "\<forall>n \<in> set (map de_Name ds). length n \<le> 4096" using promise_names [OF P listing_end.hyps(1)] by auto
  then show ?case by (simp add: list_all_iff)
next
  case (listing_more os os1 es os2 ds ds')
  have "map de_Name ds = map ent_Name es" using lookupAll_names [of S s b es os1] listing_more.hyps(3) by simp
  then have "\<forall>n \<in> set (map de_Name ds). length n \<le> 4096" using promise_names [OF P listing_more.hyps(1)] by auto
  then show ?case using listing_more.IH by (auto simp: list_all_iff)
qed

text \<open>
  (C4) Listing a remote directory end to end: \<^verbatim>\<open>CmdReadDir\<close> on the client returns success and one item for every entry of the directory,
  in its order, whatever its size: no entry is lost or doubled where the server begins a new message, and no item
  has children or a pending prefetch.
\<close>

theorem remote_readDir:
  assumes l: "linked s" and P: "os_promises S left" and v: "IsUrlValid path" and p: "length path \<le> 0xffff"
    and o: "os_Open S (s_storage (remote_session s) @ path) (s_os (remote_session s)) = (os, Inr f)" and D: "dir_stream S dir f"
  shows "\<exists>items s'. cl_CmdReadDir (loop_cenv (loop_env S u)) path s = Some ((items, ErrorOK), s') \<and> linked s'
    \<and> map di_Name items = map ent_Name (dir os) \<and> list_all (\<lambda>i. di_Child i = None \<and> di_childReady i = NoPrefetch) items"
proof -
  let ?E = "loop_env S u" and ?req = "\<lparr>ReadDir_Path = path\<rparr>"
  let ?rs = "(remote_session s)\<lparr>s_os := os\<rparr>" and ?b = "ensureDirBase (s_storage (remote_session s) @ path)"
  obtain ds where ds: "listing S ?rs ?b f os ds" "map de_Name ds = map ent_Name (dir os)"
    using dir_stream_listing [OF D] by blast
  note short = listing_short_names [OF P ds(1)]
  let ?d = "concat (map wire_Dirent ds)"
  let ?R = "\<lambda>m sv out. ready sv \<and> (\<exists>ps f. out = ps @ [m # ErrorOK # f] \<and> list_all (is_partial m) ps \<and> length f \<le> 8190
    \<and> concat (map (drop 2) ps) @ f = ?d \<and> list_all (\<lambda>p. whole_entries (drop 2 p)) ps \<and> whole_entries f)"
  let ?Q = "\<lambda>r sv. ready sv \<and> r = (map makeDirItemFromDirent ds, ErrorOK)"
  have rd: "ready (lk_server (c_ws s))" and i: "idle s" "lk_inbox (c_ws s) = []" using l by (auto simp: linked_def)
  have h: "healthy (remote_session s)" using rd by (simp add: ready_def)
  have a: "answersK whole_entries snd m (remote_session s) (runCommand ?E m (ReqReadDir ?req) (remote_session s)) ErrorOK ?d" for m
    using readDir_pieces [of ?E fst snd left "remote_session s" ?req os f dir ds m] mem_ws_reliable P h v o D ds(1) by simp
  have st: "\<exists>sv out. exchange ?E (m # CmdReadDir # wire_command (ReqReadDir ?req)) (lk_server (c_ws s)) = Some (sv, out) \<and> ?R m sv out" for m
    using exchange_answers [OF rd _ _ _ a, of m] p by (auto simp: is_stream_command_def usesFastBuffer_def)
  have k: "\<exists>r w. readDir_responses (loop_cenv ?E) m [] s1 = Some (r, releaseClientMark m (s1\<lparr>c_ws := w\<rparr>)) \<and> lk_server w = lk_server (c_ws s1)
      \<and> lk_inbox w = [] \<and> ?Q r (lk_server w)"
    if R: "?R m (lk_server (c_ws s1)) (lk_inbox (c_ws s1))" and n: "c_responses s1 m = None" for m s1
  proof -
    obtain ps f where pf: "lk_inbox (c_ws s1) = ps @ [m # ErrorOK # f]" "list_all (is_partial m) ps" "length f \<le> 8190" "concat (map (drop 2) ps) @ f = ?d"
        "list_all (\<lambda>p. whole_entries (drop 2 p)) ps" "whole_entries f"
      using R by blast
    obtain es w where e: "readDir_responses (loop_cenv ?E) m [] s1 = Some (([] @ map makeDirItemFromDirent es, ErrorOK), releaseClientMark m (s1\<lparr>c_ws := w\<rparr>))"
        "?d = concat (map wire_Dirent es)" "list_all (\<lambda>d. length (de_Name d) \<le> 4096) es" "lk_server w = lk_server (c_ws s1)" "lk_inbox w = []"
      using lk.readDir_responses_returns [OF pf(2,1,3) n pf(5,6), where l = "[]", unfolded pf(4)] by blast
    show ?thesis using e R entries_unique [OF e(2) short e(3)] by auto
  qed
  have b: "lk.adds (WriteCmdReadDirStructToWriter (ws_Write (C_ws (loop_cenv ?E))) ?req) (wire_command (ReqReadDir ?req))"
    using lk.adds_command [of "ReqReadDir ?req"] p by simp
  from lk.request_runs [where R = ?R and Q = ?Q, OF i b st k] obtain s' where
    "cl_CmdReadDir (loop_cenv ?E) path s = Some ((map makeDirItemFromDirent ds, ErrorOK), s')" "linked s'"
    unfolding cl_CmdReadDir_def using served_linked [OF _ l] by blast
  moreover have "map di_Name (map makeDirItemFromDirent ds) = map ent_Name (dir os)"
    using ds(2) by (simp add: makeDirItemFromDirent_def comp_def)
  moreover have "list_all (\<lambda>i. di_Child i = None \<and> di_childReady i = NoPrefetch) (map makeDirItemFromDirent ds)"
    by (simp add: list_all_iff makeDirItemFromDirent_def)
  ultimately show ?thesis by blast
qed

theorem remote_readDir_witness:
  "\<exists>items s'. cl_CmdReadDir (loop_cenv mem_env) ''/'' (mem_link [] [(''/srv/a'', [1]), (''/srv/b'', [])]) = Some ((items, ErrorOK), s') \<and> linked s'
    \<and> map di_Name items = [''a'', ''b''] \<and> list_all (\<lambda>i. di_Child i = None \<and> di_childReady i = NoPrefetch) items"
proof -
  let ?s = "mem_link [] [(''/srv/a'', [1]), (''/srv/b'', [])]"
  have "map ent_Name (mem_entries (s_os (remote_session ?s))) = [''a'', ''b'']"
    by (simp add: mem_session_def newSession_def mem_entries_def Base_def)
  moreover have "os_Open mem_sys (s_storage (remote_session ?s) @ ''/'') (s_os (remote_session ?s)) = (s_os (remote_session ?s), Inr 0)"
    by (simp add: mem_sys_def mem_session_def newSession_def)
  moreover have "IsUrlValid ''/''" by (simp add: IsUrlValid_iff)
  ultimately show ?thesis
    using remote_readDir [OF mem_linked mem_promises _ _ _ mem_dir_stream, of "''/''" "[]" "[(''/srv/a'', [1]), (''/srv/b'', [])]" "s_os (remote_session ?s)" linux_amd64]
    unfolding mem_env_loop by simp
qed

section \<open>Writes\<close>

text \<open>A stream opened at \<open>off\<close> that has written \<open>d\<close> and waits.\<close>

definition at_stream :: "int \<Rightarrow> u64 \<Rightarrow> bytes \<Rightarrow> writeStream" where
  "at_stream fd off d = \<lparr>str_fd = fd, str_offset = off + of_nat (length d), str_written = of_nat (length d), str_errSent = False,
     str_input = [], str_done = False\<rparr>"

lemma at_stream_sel [simp]:
  "str_fd (at_stream fd off d) = fd" "str_offset (at_stream fd off d) = off + of_nat (length d)" "str_written (at_stream fd off d) = of_nat (length d)"
  "\<not> str_errSent (at_stream fd off d)" "str_input (at_stream fd off d) = []" "\<not> str_done (at_stream fd off d)"
  by (simp_all add: at_stream_def)

lemma at_stream_input: "(at_stream fd off d)\<lparr>str_input := []\<rparr> = at_stream fd off d"
  by (simp add: at_stream_def)

lemma at_stream_add: "str_add (length x) (at_stream fd off d) = at_stream fd off (d @ x)"
  by (simp add: str_add_def at_stream_def add.assoc)

lemma run_stream_input:
  assumes F: "pwrite_file (E_sys E) I file fd" and I: "I (s_os s)" "file (s_os s) = file_put f0 (unat off) d"
    and sz: "unat off + length (d @ wsi_data i) < 2 ^ 63"
  shows "\<exists>os. run_input E m i (at_stream fd off d) s =
      (let s = s\<lparr>s_os := os, s_fastBuffers := s_fastBuffers s + 1\<rparr>
       in if wsi_isEnd i then do {
            s \<leftarrow> writeRspWriteStreamClose E m (of_nat (length (d @ wsi_data i))) s;
            Some ((at_stream fd off (d @ wsi_data i))\<lparr>str_done := True\<rparr>, s)}
          else Some (at_stream fd off (d @ wsi_data i), s))
    \<and> I os \<and> file os = file_put f0 (unat off) (d @ wsi_data i)"
proof -
  have o: "unat (off + of_nat (length d)) = unat off + length d" using sz by (intro unat_add64) simp
  have st: "unat (str_offset (at_stream fd off d)) + length (wsi_data i) < 2 ^ 63" "pwrite_file (E_sys E) I file (str_fd (at_stream fd off d))"
    "\<not> str_errSent (at_stream fd off d)" using o sz F by simp_all
  show ?thesis
    using run_input_writes [OF st(2,3) I(1) st(1), of m] o I(2) file_put_append [of f0 "unat off" d "wsi_data i"]
    unfolding at_stream_add by (auto simp: Let_def)
qed

text \<open>The server while a stream is open, and after it was closed.\<close>

definition streaming :: "('os \<Rightarrow> bool) \<Rightarrow> ('os \<Rightarrow> bytes) \<Rightarrow> bytes \<Rightarrow> int \<Rightarrow> u64 \<Rightarrow> u8 \<Rightarrow> bytes \<Rightarrow> ('os, bytes \<times> bytes list) server \<Rightarrow> bool" where
  "streaming I file f0 fd off m d sv \<longleftrightarrow> healthy (sv_session sv) \<and> s_writeStreams (sv_session sv) = [(m, at_stream fd off d)]
     \<and> sv_pending sv = [] \<and> sv_inbox sv = [] \<and> 0 < s_fastBuffers (sv_session sv) \<and> snd (s_ws (sv_session sv)) = []
     \<and> I (s_os (sv_session sv)) \<and> file (s_os (sv_session sv)) = file_put f0 (unat off) d"

definition stream_written :: "('os \<Rightarrow> bool) \<Rightarrow> ('os \<Rightarrow> bytes) \<Rightarrow> bytes \<Rightarrow> u64 \<Rightarrow> bytes \<Rightarrow> ('os, bytes \<times> bytes list) server \<Rightarrow> bool" where
  "stream_written I file f0 off d sv \<longleftrightarrow> ready sv \<and> I (s_os (sv_session sv)) \<and> file (s_os (sv_session sv)) = file_put f0 (unat off) d"

text \<open>A stream goroutine takes the only input.\<close>

lemma serve_stream_data:
  assumes F: "pwrite_file (E_sys E) I file fd" and sz: "unat off + length (d @ x) < 2 ^ 63"
    and sv: "streaming I file f0 fd off m d sv"
  shows "\<exists>sv'. serve_stream E m (sv\<lparr>sv_session := (sv_session sv)\<lparr>s_fastBuffers := s_fastBuffers (sv_session sv) - 1,
        s_writeStreams := [(m, (at_stream fd off d)\<lparr>str_input := [\<lparr>wsi_data = x, wsi_isEnd = False\<rparr>]\<rparr>)]\<rparr>\<rparr>) = Some sv'
      \<and> streaming I file f0 fd off m (d @ x) sv'"
proof -
  let ?i = "\<lparr>wsi_data = x, wsi_isEnd = False\<rparr>"
  let ?s = "(sv_session sv)\<lparr>s_fastBuffers := s_fastBuffers (sv_session sv) - 1, s_writeStreams := [(m, (at_stream fd off d)\<lparr>str_input := [?i]\<rparr>)]\<rparr>"
  obtain os where os: "run_input E m ?i (at_stream fd off d) ?s = Some (at_stream fd off (d @ x), ?s\<lparr>s_os := os, s_fastBuffers := s_fastBuffers ?s + 1\<rparr>)"
      "I os" "file os = file_put f0 (unat off) (d @ x)"
    using run_stream_input [OF F, of ?s f0 off d ?i m] sv sz by (auto simp: streaming_def Let_def)
  have r: "serve_stream E m (sv\<lparr>sv_session := ?s\<rparr>) =
      Some (sv\<lparr>sv_session := ?s\<lparr>s_os := os, s_fastBuffers := s_fastBuffers ?s + 1, s_writeStreams := [(m, at_stream fd off (d @ x))]\<rparr>\<rparr>)"
    using os(1) by (simp add: serve_stream_def at_stream_input)
  have "streaming I file f0 fd off m (d @ x)
      (sv\<lparr>sv_session := ?s\<lparr>s_os := os, s_fastBuffers := s_fastBuffers ?s + 1, s_writeStreams := [(m, at_stream fd off (d @ x))]\<rparr>\<rparr>)"
    using sv os(2,3) by (simp add: streaming_def healthy_def)
  with r show ?thesis by blast
qed

lemma serve_stream_end:
  assumes W: "ws_reliable (E_ws E) fst snd" and F: "pwrite_file (E_sys E) I file fd" and sz: "unat off + length (d @ x) < 2 ^ 63"
    and sv: "streaming I file f0 fd off m d sv"
  shows "\<exists>sv'. serve_stream E m (sv\<lparr>sv_session := (sv_session sv)\<lparr>s_fastBuffers := s_fastBuffers (sv_session sv) - 1,
        s_writeStreams := [(m, (at_stream fd off d)\<lparr>str_input := [\<lparr>wsi_data = x, wsi_isEnd = True\<rparr>]\<rparr>)]\<rparr>\<rparr>) = Some sv'
      \<and> stream_written I file f0 off (d @ x) (fst (deliver_out sv'))
      \<and> snd (deliver_out sv') = [m # ErrorOK # wire_RspWriteStreamClose \<lparr>RspWriteStreamClose_Written = of_nat (length (d @ x))\<rparr>]"
proof -
  let ?i = "\<lparr>wsi_data = x, wsi_isEnd = True\<rparr>" and ?rsp = "m # ErrorOK # wire_RspWriteStreamClose \<lparr>RspWriteStreamClose_Written = of_nat (length (d @ x))\<rparr>"
  let ?s = "(sv_session sv)\<lparr>s_fastBuffers := s_fastBuffers (sv_session sv) - 1, s_writeStreams := [(m, (at_stream fd off d)\<lparr>str_input := [?i]\<rparr>)]\<rparr>"
  obtain os where os: "run_input E m ?i (at_stream fd off d) ?s = do {
        s \<leftarrow> writeRspWriteStreamClose E m (of_nat (length (d @ x))) (?s\<lparr>s_os := os, s_fastBuffers := s_fastBuffers ?s + 1\<rparr>);
        Some ((at_stream fd off (d @ x))\<lparr>str_done := True\<rparr>, s)}"
      "I os" "file os = file_put f0 (unat off) (d @ x)"
    using run_stream_input [OF F, of ?s f0 off d ?i m] sv sz by (auto simp: streaming_def Let_def)
  let ?s1 = "?s\<lparr>s_os := os, s_fastBuffers := s_fastBuffers ?s + 1\<rparr>"
  have "healthy ?s1" using sv by (simp add: streaming_def healthy_def)
  then obtain s2 where s2: "writeRspWriteStreamClose E m (of_nat (length (d @ x))) ?s1 = Some s2" "emits snd ?s1 s2 [?rsp]"
    using rspWith_emits [OF W _ puts_WriteRsp(8) [OF W]] unfolding writeRspWriteStreamClose_def by blast
  note e = emits_fields [OF s2(2)]
  have r: "serve_stream E m (sv\<lparr>sv_session := ?s\<rparr>) = Some (sv\<lparr>sv_session := s2\<lparr>s_writeStreams := []\<rparr>\<rparr>)"
    using os(1) s2(1) e(7) by (simp add: serve_stream_def at_stream_input Let_def AList.delete_eq)
  have h: "healthy s2" using e(10) sv by (simp add: streaming_def healthy_def)
  have "stream_written I file f0 off (d @ x) (fst (deliver_out (sv\<lparr>sv_session := s2\<lparr>s_writeStreams := []\<rparr>\<rparr>)))"
    using h e(2,8) os(2,3) sv by (simp add: stream_written_def ready_def deliver_out_def streaming_def healthy_def)
  moreover have "snd (deliver_out (sv\<lparr>sv_session := s2\<lparr>s_writeStreams := []\<rparr>\<rparr>)) = [?rsp]"
    using e(9) sv by (simp add: deliver_out_def streaming_def)
  ultimately show ?thesis using r by blast
qed

lemma exchange_stream_data:
  assumes sv: "streaming I file f0 fd off m d sv" and x: "length x \<le> MaxCommandLength"
  shows "serve E (m # CmdWriteStreamData # wire_CmdWriteStreamDataStruct \<lparr>WriteStreamData_IsEnd = e, WriteStreamData_Data = x\<rparr>) sv =
    serve_stream E m (sv\<lparr>sv_session := (sv_session sv)\<lparr>s_fastBuffers := s_fastBuffers (sv_session sv) - 1,
        s_writeStreams := [(m, (at_stream fd off d)\<lparr>str_input := [\<lparr>wsi_data = x, wsi_isEnd = (e \<noteq> 0)\<rparr>]\<rparr>)]\<rparr>\<rparr>)"
proof -
  let ?c = "ReqWriteStreamData \<lparr>WriteStreamData_IsEnd = e, WriteStreamData_Data = x\<rparr>"
  let ?sv = "sv\<lparr>sv_session := (sv_session sv)\<lparr>s_fastBuffers := s_fastBuffers (sv_session sv) - 1,
        s_writeStreams := [(m, (at_stream fd off d)\<lparr>str_input := [\<lparr>wsi_data = x, wsi_isEnd = (e \<noteq> 0)\<rparr>]\<rparr>)]\<rparr>\<rparr>"
  have "dispatchCommand E (NewReader (m # command_code ?c # wire_command ?c)) sv = Some (None, ?sv)"
    by (subst dispatch_wire [where c = ?c and m = m])
      (use sv x in \<open>simp_all add: streaming_def rd_data_def NewReader_def rd_wf_def on_session_def acquireFastBuffer_def startCommand_def
        cmdWriteStreamData_def usesFastBuffer_def\<close>)
  moreover have "serve_job E ?sv = Some ?sv" using sv by (simp add: serve_job_def streaming_def)
  ultimately show ?thesis by (simp add: serve_def)
qed

lemma exchange_stream_open:
  assumes r: "ready sv" and fd: "map_of (s_fds (sv_session sv)) wfd = Some fd" and F: "pwrite_file S I file fd" and I: "I (s_os (sv_session sv))"
    and x: "length x \<le> MaxCommandLength" and sz: "unat off + length x < 2 ^ 63"
  shows "\<exists>sv'. streaming I file (file (s_os (sv_session sv))) fd off m x sv' \<and> exchange (loop_env S u) (m # CmdWriteStreamOpen #
      wire_CmdWriteStreamOpenStruct \<lparr>WriteStreamOpen_FD = wfd, WriteStreamOpen_Offset = off, WriteStreamOpen_Data = x\<rparr>) sv = Some (sv', [])"
proof -
  let ?E = "loop_env S u" and ?c = "ReqWriteStreamOpen \<lparr>WriteStreamOpen_FD = wfd, WriteStreamOpen_Offset = off, WriteStreamOpen_Data = x\<rparr>"
  let ?f0 = "file (s_os (sv_session sv))" and ?st = "(at_stream fd off [])\<lparr>str_input := [\<lparr>wsi_data = x, wsi_isEnd = False\<rparr>]\<rparr>"
  let ?waiting = "sv\<lparr>sv_session := (sv_session sv)\<lparr>s_writeStreams := [(m, at_stream fd off [])]\<rparr>\<rparr>"
  let ?sv = "sv\<lparr>sv_session := (sv_session sv)\<lparr>s_fastBuffers := s_fastBuffers (sv_session sv) - 1, s_writeStreams := [(m, ?st)]\<rparr>\<rparr>"
  have d: "dispatchCommand ?E (NewReader (m # command_code ?c # wire_command ?c)) sv = Some (None, ?sv)"
    by (subst dispatch_wire [where c = ?c and m = m])
      (use r x fd in \<open>simp_all add: ready_def rd_data_def NewReader_def rd_wf_def on_session_def acquireFastBuffer_def startCommand_def
        cmdWriteStreamOpen_def usesFastBuffer_def cmdGroup_size_def at_stream_def\<close>)
  have j: "serve_job ?E ?sv = Some ?sv" using r by (simp add: serve_job_def ready_def)
  have st: "streaming I file ?f0 fd off m [] ?waiting"
    using r I by (simp add: streaming_def ready_def healthy_def file_put_def)
  obtain sv' where v: "serve_stream ?E m ?sv = Some sv'" "streaming I file ?f0 fd off m ([] @ x) sv'"
    using serve_stream_data [of ?E, OF _ _ st, of x] F sz by auto
  then have "deliver_out sv' = (sv', [])"
    by (cases sv'; cases "s_ws (sv_session sv')") (auto simp: deliver_out_def streaming_def)
  then show ?thesis using d j v by (auto simp: exchange_def serve_def)
qed

lemma loop_stream_server:
  assumes F: "pwrite_file S I file fd" and sz: "unat off + n < 2 ^ 63"
  shows "server_conn.stream_server (exchange (loop_env S u)) m (streaming I file f0 fd off m) (stream_written I file f0 off) n"
proof -
  let ?E = "loop_env S u"
  have F': "pwrite_file (E_sys ?E) I file fd" and W: "ws_reliable (E_ws ?E) fst snd" using F mem_ws_reliable by simp_all
  have "\<exists>sv'. streaming I file f0 fd off m (d @ d') sv' \<and>
      exchange ?E (m # CmdWriteStreamData # wire_CmdWriteStreamDataStruct \<lparr>WriteStreamData_IsEnd = 0, WriteStreamData_Data = d'\<rparr>) sv = Some (sv', [])"
    if h: "streaming I file f0 fd off m d sv" "length (d @ d') \<le> n" "length d' \<le> maxWriteStreamDataPayload" for d d' sv
  proof -
    obtain sv' where v: "serve ?E (m # CmdWriteStreamData # wire_CmdWriteStreamDataStruct \<lparr>WriteStreamData_IsEnd = 0, WriteStreamData_Data = d'\<rparr>) sv = Some sv'"
        "streaming I file f0 fd off m (d @ d') sv'"
      using serve_stream_data [OF F' _ h(1), of d'] h sz exchange_stream_data [OF h(1), of d' ?E 0] by auto
    then have "deliver_out sv' = (sv', [])"
      by (cases sv'; cases "s_ws (sv_session sv')") (auto simp: deliver_out_def streaming_def)
    then show ?thesis using v by (auto simp: exchange_def)
  qed
  moreover have "\<exists>sv'. stream_written I file f0 off (d @ d') sv' \<and>
      exchange ?E (m # CmdWriteStreamData # wire_CmdWriteStreamDataStruct \<lparr>WriteStreamData_IsEnd = 1, WriteStreamData_Data = d'\<rparr>) sv =
        Some (sv', [m # ErrorOK # wire_RspWriteStreamClose \<lparr>RspWriteStreamClose_Written = of_nat (length (d @ d'))\<rparr>])"
    if h: "streaming I file f0 fd off m d sv" "length (d @ d') \<le> n" "length d' \<le> maxWriteStreamDataPayload" for d d' sv
  proof -
    obtain sv' where "serve ?E (m # CmdWriteStreamData # wire_CmdWriteStreamDataStruct \<lparr>WriteStreamData_IsEnd = 1, WriteStreamData_Data = d'\<rparr>) sv = Some sv'"
        "stream_written I file f0 off (d @ d') (fst (deliver_out sv'))"
        "snd (deliver_out sv') = [m # ErrorOK # wire_RspWriteStreamClose \<lparr>RspWriteStreamClose_Written = of_nat (length (d @ d'))\<rparr>]"
      using serve_stream_end [OF W F' _ h(1), of d'] h sz exchange_stream_data [OF h(1), of d' ?E 1] by auto
    then show ?thesis by (intro exI [of _ "fst (deliver_out sv')"]) (simp add: exchange_def prod_eq_iff)
  qed
  ultimately show ?thesis unfolding lk.stream_server_def by blast
qed

text \<open>A command with one response.\<close>

lemma exchange_one:
  assumes r: "ready sv" and c: "command_wf c" "\<not> is_stream_command c"
    and h: "runCommand E m c (if usesFastBuffer (command_code c) then (sv_session sv)\<lparr>s_fastBuffers := s_fastBuffers (sv_session sv) - 1\<rparr> else sv_session sv) = Some s'"
    and s': "snd (s_ws s') = [msg]" "s_writeStreams s' = []" "healthy s'" "0 < s_fastBuffers s'"
  shows "\<exists>sv'. exchange E (m # command_code c # wire_command c) sv = Some (sv', [msg]) \<and> ready sv'
    \<and> s_os (sv_session sv') = s_os s' \<and> s_fds (sv_session sv') = s_fds s' \<and> s_storage (sv_session sv') = s_storage s'"
  using exchange_command [OF r c h s'(2)] r s' by (intro exI [of _ "sv\<lparr>sv_session := s'\<lparr>s_ws := (fst (s_ws s'), [])\<rparr>\<rparr>"]) (simp add: ready_def healthy_def)

lemma exchange_writeAt:
  assumes r: "ready sv" and fd: "map_of (s_fds (sv_session sv)) wfd = Some fd" and F: "pwrite_file S I file fd" and I: "I (s_os (sv_session sv))"
    and d: "data \<noteq> []" "length data \<le> maxWriteAtPayload" and sz: "unat off + length data < 2 ^ 63"
  shows "\<exists>sv' k. exchange (loop_env S u) (m # CmdWriteAt # wire_CmdWriteAtStruct \<lparr>WriteAt_FD = wfd, WriteAt_Offset = off, WriteAt_Data = data\<rparr>) sv
      = Some (sv', [m # ErrorOK # wire_RspWriteAt \<lparr>RspWriteAt_Written = of_nat k\<rparr>])
    \<and> 0 < k \<and> k \<le> length data \<and> stream_written I file (file (s_os (sv_session sv))) off (take k data) sv'"
proof -
  let ?E = "loop_env S u" and ?c = "ReqWriteAt \<lparr>WriteAt_FD = wfd, WriteAt_Offset = off, WriteAt_Data = data\<rparr>"
  let ?s = "(sv_session sv)\<lparr>s_fastBuffers := s_fastBuffers (sv_session sv) - 1\<rparr>"
  obtain os k where w: "sys_Pwrite S fd data off (s_os (sv_session sv)) = (os, Inr k)" "0 < k" "k \<le> length data" "I os"
      "file os = file_put (file (s_os (sv_session sv))) (unat off) (take k data)"
    using F I d(1) sz unfolding pwrite_file_def by blast
  let ?rsp = "m # ErrorOK # wire_RspWriteAt \<lparr>RspWriteAt_Written = of_nat k\<rparr>"
  have W: "ws_reliable (E_ws ?E) fst snd" and h: "healthy (?s\<lparr>s_os := os\<rparr>)" using mem_ws_reliable r by (simp_all add: ready_def healthy_def)
  obtain s' where s': "rspWith ?E m ErrorOK (WriteRspWriteAtToWriter (ws_Write (E_ws ?E)) \<lparr>RspWriteAt_Written = of_nat k\<rparr>) (?s\<lparr>s_os := os\<rparr>) = Some s'"
      "emits snd (?s\<lparr>s_os := os\<rparr>) s' [?rsp]"
    using rspWith_emits [OF W h puts_WriteRsp(6) [OF W]] by blast
  note e = emits_fields [OF s'(2)]
  have "ignoringEINTR (sys_Pwrite S fd data off) (s_os (sv_session sv)) = Some (os, Inr k)"
    using ignoringEINTR_Inr [of "sys_Pwrite S fd data off", OF w(1)] .
  then have "runCommand ?E m ?c (if usesFastBuffer (command_code ?c) then ?s else sv_session sv) = Some (releaseFastBuffer s')"
    using fd s'(1) by (simp add: usesFastBuffer_def cmdWriteAt_def with_fd_def retry_os_def rsp_value_def)
  from exchange_one [OF r _ _ this, of ?rsp] obtain sv' where v: "exchange ?E (m # command_code ?c # wire_command ?c) sv = Some (sv', [?rsp])" "ready sv'"
      "s_os (sv_session sv') = os"
    using d(2) e r h by (auto simp: is_stream_command_def releaseFastBuffer_def ready_def healthy_def)
  then show ?thesis using w by (intro exI [of _ sv'] exI [of _ k]) (simp add: stream_written_def)
qed

text \<open>
  (C3) Writing a remote file end to end: \<^verbatim>\<open>CmdWriteAt\<close> returns success and a positive number \<open>k\<close> of bytes, the file on the
  server has the first \<open>k\<close> bytes of the data at the offset and is otherwise as before, and the session can be used again. More
  data than fits one message goes through a write stream, and then all of it is written, in order, even when the
  server's \<^verbatim>\<open>pwrite\<close> is short each time.
\<close>

theorem remote_writeAt:
  assumes l: "linked s" and fd: "map_of (s_fds (remote_session s)) wfd = Some fd" and F: "pwrite_file S I file fd"
    and I: "I (s_os (remote_session s))" and d: "data \<noteq> []" and sz: "unat off + length data < 2 ^ 63"
  shows "\<exists>k s'. cl_CmdWriteAt (loop_cenv (loop_env S u)) wfd off data s = Some ((of_nat k, ErrorOK), s') \<and> 0 < k \<and> k \<le> length data
    \<and> (length data > maxWriteAtPayload \<longrightarrow> k = length data) \<and> linked s'
    \<and> file (s_os (remote_session s')) = file_put (file (s_os (remote_session s))) (unat off) (take k data)"
proof -
  let ?E = "loop_env S u" and ?f0 = "file (s_os (remote_session s))"
  let ?C = "loop_cenv ?E"
  have rd: "ready (lk_server (c_ws s))" and i: "idle s" "lk_inbox (c_ws s) = []" using l by (auto simp: linked_def)
  show ?thesis
  proof (cases "length data > maxWriteAtPayload")
    case True
    have str: "server_conn.stream_server (exchange ?E) m (streaming I file ?f0 fd off m) (stream_written I file ?f0 off) (length data)" for m
      by (rule loop_stream_server [OF F sz])
    have op: "\<exists>sv. streaming I file ?f0 fd off m (take maxWriteStreamOpenPayload data) sv \<and> exchange ?E (m # CmdWriteStreamOpen #
        wire_CmdWriteStreamOpenStruct \<lparr>WriteStreamOpen_FD = wfd, WriteStreamOpen_Offset = off, WriteStreamOpen_Data = take maxWriteStreamOpenPayload data\<rparr>)
        (lk_server (c_ws s)) = Some (sv, [])" for m
      by (rule exchange_stream_open [OF rd fd F I]) (use sz in simp_all)
    from lk.writeAt_stream_returns [OF i True str op] obtain sv s' where
      r: "cl_CmdWriteAt ?C wfd off data s = Some ((of_nat (length data), ErrorOK), s')" "lk.served s sv s'" "stream_written I file ?f0 off data sv" by blast
    then show ?thesis
      using served_linked [OF r(2) l] d by (intro exI [of _ "length data"] exI [of _ s']) (auto simp: stream_written_def)
  next
    case False
    let ?req = "\<lparr>WriteAt_FD = wfd, WriteAt_Offset = off, WriteAt_Data = data\<rparr>"
    let ?Q = "\<lambda>r sv. \<exists>k. r = (of_nat k, ErrorOK) \<and> 0 < k \<and> k \<le> length data \<and> stream_written I file ?f0 off (take k data) sv"
    have ln: "length (wire_RspWriteAt x) = 8" for x by (simp add: wire_RspWriteAt_def)
    have dec: "rsp_value_of ReadRspWriteAtFromReader RspWriteAt_Written 0 (m # ErrorOK # wire_RspWriteAt x) = (RspWriteAt_Written x, ErrorOK)" for m x
      using ReadRspWriteAtFromReader_decodes [of x] unfolding decodes_def
      by (auto simp: rsp_value_of_def dest!: spec [of _ "NewReader (wire_RspWriteAt x)"])
    have "\<exists>sv rsp. exchange ?E (m # command_code (ReqWriteAt ?req) # wire_command (ReqWriteAt ?req)) (lk_server (c_ws s)) = Some (sv, [m # rsp])
      \<and> 0 < length rsp \<and> length rsp < maxFrameSize \<and> ?Q (rsp_value_of ReadRspWriteAtFromReader RspWriteAt_Written 0 (m # rsp)) sv" for m
    proof -
      obtain sv k where "exchange ?E (m # CmdWriteAt # wire_CmdWriteAtStruct ?req) (lk_server (c_ws s)) =
          Some (sv, [m # ErrorOK # wire_RspWriteAt \<lparr>RspWriteAt_Written = of_nat k\<rparr>])" "0 < k" "k \<le> length data" "stream_written I file ?f0 off (take k data) sv"
        using exchange_writeAt [OF rd fd F I d _ sz, where m = m and u = u] False by auto
      then show ?thesis
        by (intro exI [of _ sv] exI [of _ "ErrorOK # wire_RspWriteAt \<lparr>RspWriteAt_Written = of_nat k\<rparr>"]) (auto simp: dec ln)
    qed
    from lk.roundTrip_returns [where Q = ?Q, OF i _ this] obtain r sv s' where
      "cl_CmdWriteAt ?C wfd off data s = Some (r, s')" "lk.served s sv s'" "?Q r sv"
      using False unfolding cl_CmdWriteAt_def cmdWriteAt_small_def by fastforce
    then show ?thesis using served_linked [OF _ l] False by (auto simp: stream_written_def)
  qed
qed

theorem remote_writeAt_witness:
  "\<exists>s'. cl_CmdWriteAt (loop_cenv mem_env) 5 1 (replicate 20000 7) (mem_link [(5, 0)] [(''/srv/a'', [1, 1])]) = Some ((20000, ErrorOK), s')
    \<and> linked s' \<and> snd (mem_files (s_os (remote_session s')) ! 0) = 1 # replicate 20000 7"
proof -
  have "pwrite_file mem_sys (\<lambda>os. 0 < length (mem_files os)) (\<lambda>os. snd (mem_files os ! 0)) 0"
    using mem_pwrite_file [of 0] by simp
  from remote_writeAt [OF mem_linked [of "[(5, 0)]" "[(''/srv/a'', [1, 1])]"] _ this, of 5 "replicate 20000 7" 1 linux_amd64]
  show ?thesis by (auto simp: mem_env_loop file_put_def)
qed

section \<open>Calls without a payload\<close>

text \<open>
  The calls that only return a code, as operations on the file system of the server: \<open>local_op\<close> is what a process on the
  server with the open files \<open>fds\<close> would do, below the directory \<open>root\<close>.
\<close>

datatype fsop = OpMkdir string u32 | OpSymLink string string | OpRemove string | OpRmDir string | OpRename string string u32
  | OpSync u32 | OpAllocate u32 u32 u64 u64 | OpClose u32

definition status_of :: "('os, 'a) sysop \<Rightarrow> 'os \<Rightarrow> u8 \<times> 'os" where
  "status_of f os = (case f os of (os, Inl err) \<Rightarrow> (wsfsErrCode err, os) | (os, Inr _) \<Rightarrow> (ErrorOK, os))"

definition at_paths :: "string list \<Rightarrow> ('os, 'a) sysop \<Rightarrow> (u32 \<times> int) list \<Rightarrow> 'os \<Rightarrow> u8 \<times> (u32 \<times> int) list \<times> 'os" where
  "at_paths ps f fds os = (if list_all IsUrlValid ps then (case status_of f os of (ec, os) \<Rightarrow> (ec, fds, os)) else (ErrorInvalid, fds, os))"

definition at_fd :: "u32 \<Rightarrow> (int \<Rightarrow> ('os, 'a) sysop) \<Rightarrow> (u32 \<times> int) list \<Rightarrow> 'os \<Rightarrow> u8 \<times> (u32 \<times> int) list \<times> 'os" where
  "at_fd wfd f fds os = (case map_of fds wfd of None \<Rightarrow> (ErrorInvalidFD, fds, os) | Some fd \<Rightarrow> (case status_of (f fd) os of (ec, os) \<Rightarrow> (ec, fds, os)))"

fun local_op :: "('os, 'ws) env \<Rightarrow> string \<Rightarrow> fsop \<Rightarrow> (u32 \<times> int) list \<Rightarrow> 'os \<Rightarrow> u8 \<times> (u32 \<times> int) list \<times> 'os" where
  "local_op E root (OpMkdir p mode) = at_paths [p] (sys_Mkdir (E_sys E) (root @ p) (syscallMode mode))"
| "local_op E root (OpSymLink target p) = at_paths [target, p] (sys_Symlink (E_sys E) (root @ target) (root @ p))"
| "local_op E root (OpRemove p) = at_paths [p] (sys_Unlink (E_sys E) (root @ p))"
| "local_op E root (OpRmDir p) = at_paths [p] (sys_Rmdir (E_sys E) (root @ p))"
| "local_op E root (OpRename p q flag) = at_paths [p, q] (rename_paths E (root @ p) (root @ q) flag)"
| "local_op E root (OpSync wfd) = at_fd wfd (sys_Fsync (E_sys E))"
| "local_op E root (OpAllocate wfd flag off sz) = at_fd wfd (\<lambda>fd. Fallocate (E_sys E) fd flag off sz)"
| "local_op E root (OpClose wfd) = (\<lambda>fds os. case at_fd wfd (sys_Close (E_sys E)) fds os of (ec, _, os) \<Rightarrow> (ec, AList.delete wfd fds, os))"

fun remote_op :: "'cw cenv \<Rightarrow> fsop \<Rightarrow> ('cw, u8) request" where
  "remote_op C (OpMkdir p mode) = cl_CmdMkdir C p mode"
| "remote_op C (OpSymLink target p) = cl_CmdSymLink C target p"
| "remote_op C (OpRemove p) = cl_CmdRemove C p"
| "remote_op C (OpRmDir p) = cl_CmdRmDir C p"
| "remote_op C (OpRename p q flag) = cl_CmdRename C p q flag"
| "remote_op C (OpSync wfd) = cl_CmdSync C wfd"
| "remote_op C (OpAllocate wfd flag off sz) = cl_CmdAllocate C wfd flag off sz"
| "remote_op C (OpClose wfd) = cl_CmdClose C wfd"

fun op_command :: "fsop \<Rightarrow> command" where
  "op_command (OpMkdir p mode) = ReqMkdir \<lparr>Mkdir_Path = p, Mkdir_Mode = mode\<rparr>"
| "op_command (OpSymLink target p) = ReqSymLink \<lparr>SymLink_TargetPath = target, SymLink_FilePath = p\<rparr>"
| "op_command (OpRemove p) = ReqRemove \<lparr>Remove_Path = p\<rparr>"
| "op_command (OpRmDir p) = ReqRmDir \<lparr>RmDir_Path = p\<rparr>"
| "op_command (OpRename p q flag) = ReqRename \<lparr>Rename_OldPath = p, Rename_NewPath = q, Rename_Flag = flag\<rparr>"
| "op_command (OpSync wfd) = ReqSync \<lparr>Sync_FD = wfd\<rparr>"
| "op_command (OpAllocate wfd flag off sz) = ReqAllocate \<lparr>Allocate_FD = wfd, Allocate_Flag = flag, Allocate_Offset = off, Allocate_Size = sz\<rparr>"
| "op_command (OpClose wfd) = ReqClose \<lparr>Close_FD = wfd\<rparr>"

lemma remote_op_roundTrip:
  "remote_op C a = roundTrip C (command_code (op_command a)) (WriteCommandToWriter (ws_Write (C_ws C)) (op_command a)) ErrorIO ErrorIO rsp_code"
  by (cases a) (simp_all add: cl_CmdMkdir_def cl_CmdSymLink_def cl_CmdRemove_def cl_CmdRmDir_def cl_CmdRename_def cl_CmdSync_def
    cl_CmdAllocate_def cl_CmdClose_def)

lemma op_command_kind: "\<not> is_stream_command (op_command a)" "\<not> usesFastBuffer (command_code (op_command a))"
  by (cases a; simp add: is_stream_command_def usesFastBuffer_def)+

text \<open>What the handlers do: the code of the local operation is sent, and nothing else changes.\<close>

definition statuses :: "u8 \<Rightarrow> ('os, bytes \<times> bytes list) session option \<Rightarrow> ('os, bytes \<times> bytes list) session \<Rightarrow> u8 \<times> (u32 \<times> int) list \<times> 'os \<Rightarrow> bool" where
  "statuses m r s x \<longleftrightarrow> (\<exists>s' f. r = Some s' \<and> emits snd (s\<lparr>s_fds := fst (snd x), s_os := snd (snd x)\<rparr>) s' [m # fst x # f] \<and> length f \<le> 8190)"

lemma statuses_error:
  assumes "ws_reliable (E_ws E) fst snd" and "healthy s"
  shows "statuses m (writeRspError E m ec desc (s\<lparr>s_fds := fds, s_os := os\<rparr>)) s (ec, fds, os)"
proof -
  obtain s' where "writeRspError E m ec desc (s\<lparr>s_fds := fds, s_os := os\<rparr>) = Some s'"
      "emits snd (s\<lparr>s_fds := fds, s_os := os\<rparr>) s' [m # ec # wire_str (error_desc desc)]"
    using writeRspError_emits [OF assms(1), of "s\<lparr>s_fds := fds, s_os := os\<rparr>" m ec desc] assms(2) by auto
  then show ?thesis
    unfolding statuses_def by (intro exI [of _ s'] exI [of _ "wire_str (error_desc desc)"]) (simp add: error_desc_def)
qed

lemma statuses_unit:
  assumes W: "ws_reliable (E_ws E) fst snd" and h: "healthy s"
  shows "statuses m (rsp_unit E m (on_os f (s\<lparr>s_fds := fds\<rparr>))) s (case status_of f (s_os s) of (ec, os) \<Rightarrow> (ec, fds, os))"
proof -
  obtain os x where x: "f (s_os s) = (os, x)" by fastforce
  have "healthy (s\<lparr>s_fds := fds, s_os := os\<rparr>)" using h by simp
  then obtain s' where s': "writeRspOK E m (s\<lparr>s_fds := fds, s_os := os\<rparr>) = Some s'" "emits snd (s\<lparr>s_fds := fds, s_os := os\<rparr>) s' [m # ErrorOK # []]"
    using writeRspOK_emits [OF W] by blast
  show ?thesis
  proof (cases x)
    case (Inl err)
    then show ?thesis using x statuses_error [OF W h] by (simp add: rsp_unit_def on_os_def status_of_def)
  next
    case (Inr y)
    have "statuses m (writeRspOK E m (s\<lparr>s_fds := fds, s_os := os\<rparr>)) s (ErrorOK, fds, os)"
      unfolding statuses_def using s' by (intro exI [of _ s'] exI [of _ "[]"]) simp
    then show ?thesis using Inr x by (simp add: rsp_unit_def on_os_def status_of_def)
  qed
qed

lemma op_statuses:
  assumes W: "ws_reliable (E_ws E) fst snd" and h: "healthy s"
  shows "statuses m (runCommand E m (op_command a) s) s (local_op E (s_storage s) a (s_fds s) (s_os s))"
proof -
  have u: "statuses m (rsp_unit E m (on_os f s)) s (case status_of f (s_os s) of (ec, os) \<Rightarrow> (ec, s_fds s, os))" for f
    using statuses_unit [OF W h, of m f "s_fds s"] by simp
  have e: "statuses m (writeRspError E m ec desc s) s (ec, s_fds s, s_os s)" for ec desc
    using statuses_error [OF W h, of m ec desc "s_os s" "s_fds s"] by simp
  show ?thesis
  proof (cases a)
    case (OpClose wfd)
    show ?thesis
    proof (cases "map_of (s_fds s) wfd")
      case None
      then have "AList.delete wfd (s_fds s) = s_fds s" by (metis delete_id map_of_eq_None_iff)
      then show ?thesis using OpClose None e by (simp add: cmdClose_def with_fd_def at_fd_def)
    next
      case (Some fd)
      obtain ec os where x: "status_of (sys_Close (E_sys E) fd) (s_os s) = (ec, os)" by fastforce
      show ?thesis
        using OpClose Some x statuses_unit [OF W h, of m "sys_Close (E_sys E) fd" "AList.delete wfd (s_fds s)"]
        by (simp add: cmdClose_def with_fd_def at_fd_def)
    qed
  qed (use u e in \<open>auto simp: at_paths_def at_fd_def with_fd_def bad_path_def cmdMkdir_def cmdSymLink_def cmdRemove_def cmdRmDir_def
      cmdRename_def cmdSync_def cmdAllocate_def Let_def split: option.split\<close>)
qed

lemma remote_op_local:
  assumes l: "linked s" and c: "command_wf (op_command a)"
  shows "\<exists>s'. remote_op (loop_cenv (loop_env S u)) a s = Some (fst (local_op (loop_env S u) (s_storage (remote_session s)) a (s_fds (remote_session s)) (s_os (remote_session s))), s')
    \<and> linked s' \<and> s_storage (remote_session s') = s_storage (remote_session s)
    \<and> (s_fds (remote_session s'), s_os (remote_session s')) =
      snd (local_op (loop_env S u) (s_storage (remote_session s)) a (s_fds (remote_session s)) (s_os (remote_session s)))"
proof -
  let ?E = "loop_env S u" and ?rs = "remote_session s" and ?c = "op_command a"
  obtain ec fds os where x: "local_op ?E (s_storage ?rs) a (s_fds ?rs) (s_os ?rs) = (ec, fds, os)" by (metis prod_cases3)
  let ?Q = "\<lambda>r sv. r = ec \<and> ready sv \<and> s_fds (sv_session sv) = fds \<and> s_os (sv_session sv) = os \<and> s_storage (sv_session sv) = s_storage ?rs"
  have rd: "ready (lk_server (c_ws s))" and i: "idle s" "lk_inbox (c_ws s) = []" using l by (auto simp: linked_def)
  have h: "healthy ?rs" using rd by (simp add: ready_def)
  have W: "ws_reliable (E_ws ?E) fst snd" using mem_ws_reliable by simp
  have st: "\<exists>sv rsp. exchange ?E (m # command_code ?c # wire_command ?c) (lk_server (c_ws s)) = Some (sv, [m # rsp])
      \<and> 0 < length rsp \<and> length rsp < maxFrameSize \<and> ?Q (rsp_code (m # rsp)) sv" for m
  proof -
    obtain s' f where s': "runCommand ?E m ?c ?rs = Some s'" "emits snd (?rs\<lparr>s_fds := fds, s_os := os\<rparr>) s' [m # ec # f]" "length f \<le> 8190"
      using op_statuses [OF W h, of m a] x by (auto simp: statuses_def)
    note e = emits_fields [OF s'(2)]
    have "runCommand ?E m ?c (if usesFastBuffer (command_code ?c) then ?rs\<lparr>s_fastBuffers := s_fastBuffers ?rs - 1\<rparr> else ?rs) = Some s'"
      using s'(1) op_command_kind(2) by simp
    from exchange_one [OF rd c op_command_kind(1) this, of "m # ec # f"] obtain sv where
      "exchange ?E (m # command_code ?c # wire_command ?c) (lk_server (c_ws s)) = Some (sv, [m # ec # f])" "ready sv"
      "s_os (sv_session sv) = os" "s_fds (sv_session sv) = fds" "s_storage (sv_session sv) = s_storage ?rs"
      using e rd h by (auto simp: ready_def)
    then show ?thesis using s'(3) by (intro exI [of _ sv] exI [of _ "ec # f"]) simp
  qed
  from lk.roundTrip_returns [where Q = ?Q and k = rsp_code and noMark = ErrorIO and failed = ErrorIO, OF i c st] obtain sv s' where
    r: "remote_op (loop_cenv ?E) a s = Some (ec, s')" "lk.served s sv s'" "?Q ec sv"
    unfolding remote_op_roundTrip by blast
  then show ?thesis using served_linked [OF r(2) l] x by (intro exI [of _ s']) simp
qed

fun run_remote :: "'cw cenv \<Rightarrow> fsop list \<Rightarrow> ('cw, u8 list) request" where
  "run_remote C [] s = Some ([], s)"
| "run_remote C (a # as) s = do { (ec, s) \<leftarrow> remote_op C a s; (ecs, s) \<leftarrow> run_remote C as s; Some (ec # ecs, s) }"

fun run_local :: "('os, 'ws) env \<Rightarrow> string \<Rightarrow> fsop list \<Rightarrow> (u32 \<times> int) list \<Rightarrow> 'os \<Rightarrow> u8 list \<times> (u32 \<times> int) list \<times> 'os" where
  "run_local E root [] fds os = ([], fds, os)"
| "run_local E root (a # as) fds os =
     (case local_op E root a fds os of (ec, fds, os) \<Rightarrow> (case run_local E root as fds os of (ecs, r) \<Rightarrow> (ec # ecs, r)))"



section \<open>Listings with prefetch\<close>

text \<open>
  (C5) \<^verbatim>\<open>CmdReadDirPlus\<close> always returns: on a session connected to a server, for every path, every state of the server's file
  system and every error its operating system reports on the way, the call ends, the parser closes no channel twice, and no
  entry of the result waits for a prefetch that never comes.
\<close>

theorem remote_readDirPlus_returns:
  assumes l: "linked s" and P: "os_promises S left" and n: "length (s_fds (remote_session s)) < 2 ^ 32" and p: "length path \<le> 0xffff"
  shows "\<exists>items code s'. cl_CmdReadDirPlus (loop_cenv (loop_env S u)) path s = Some ((items, code), s')
    \<and> list_all (\<lambda>i. di_childReady i \<noteq> PrefetchPending) items"
proof -
  let ?E = "loop_env S u" and ?req = "\<lparr>ReadDirPlus_Path = path\<rparr>"
  have rd: "ready (lk_server (c_ws s))" and i: "idle s" "lk_inbox (c_ws s) = []" using l by (auto simp: linked_def)
  have h: "healthy (remote_session s)" using rd by (simp add: ready_def)
  have W: "ws_reliable (E_ws ?E) fst snd" and P': "os_promises (E_sys ?E) left" using mem_ws_reliable P by simp_all
  have "\<exists>sv out. exchange ?E (m # CmdReadDirPlus # wire_CmdReadDirPlusStruct ?req) (lk_server (c_ws s)) = Some (sv, out) \<and> response_seq m out" for m
  proof -
    obtain s' msgs where s': "cmdReadDirPlus ?E m ?req (remote_session s) = Some s'" "sends snd (remote_session s) s' msgs" "response_seq m msgs"
      using cmdReadDirPlus_replies [OF W h P', of m ?req] by (auto simp: replies_def)
    have "exchange ?E (m # command_code (ReqReadDirPlus ?req) # wire_command (ReqReadDirPlus ?req)) (lk_server (c_ws s)) =
        Some ((lk_server (c_ws s))\<lparr>sv_session := s'\<lparr>s_ws := (fst (s_ws s'), [])\<rparr>\<rparr>, snd (s_ws s'))"
      by (rule exchange_command [OF rd]) (use s' p rd in \<open>simp_all add: is_stream_command_def usesFastBuffer_def sends_def ready_def\<close>)
    moreover have "snd (s_ws s') = msgs" using s'(2) rd by (simp add: sends_def ready_def)
    ultimately show ?thesis using s'(3) by simp
  qed
  from lk.readDirPlus_returns [OF i p this] show ?thesis .
qed

theorem remote_readDirPlus_returns_witness:
  "\<exists>items code s'. cl_CmdReadDirPlus (loop_cenv mem_env) ''/'' (mem_link [] [(''/srv/a'', [1])]) = Some ((items, code), s')
    \<and> list_all (\<lambda>i. di_childReady i \<noteq> PrefetchPending) items"
  unfolding mem_env_loop by (rule remote_readDirPlus_returns [OF mem_linked mem_promises]) simp_all

end
