(* ===== verification/Wsfs_Base64.thy ===== *)
theory Wsfs_Base64
  imports Wsfs_Prelude
begin

text \<open>
  What the program uses of Go's \<^verbatim>\<open>encoding/base64\<close>: \<^verbatim>\<open>StdEncoding\<close> for HTTP credentials and
  \<^verbatim>\<open>RawURLEncoding\<close> for session identifiers. The lemmas show that decoding undoes encoding and that
  both encodings are injective.
\<close>

section \<open>Alphabets\<close>

definition std_alphabet :: string where
  "std_alphabet = ''ABCDEFGHIJKLMNOPQRSTUVWXYZabcdefghijklmnopqrstuvwxyz0123456789+/''"

definition url_alphabet :: string where
  "url_alphabet = ''ABCDEFGHIJKLMNOPQRSTUVWXYZabcdefghijklmnopqrstuvwxyz0123456789-_''"

text \<open>The sextets of one, two and three bytes.\<close>

definition sextets1 :: "nat \<Rightarrow> nat list" where
  "sextets1 a = [a div 4, a mod 4 * 16]"

definition sextets2 :: "nat \<Rightarrow> nat \<Rightarrow> nat list" where
  "sextets2 a b = [a div 4, a mod 4 * 16 + b div 16, b mod 16 * 4]"

definition sextets3 :: "nat \<Rightarrow> nat \<Rightarrow> nat \<Rightarrow> nat list" where
  "sextets3 a b c = [a div 4, a mod 4 * 16 + b div 16, b mod 16 * 4 + c div 64, c mod 64]"

section \<open>Encoding\<close>

fun StdEncoding_Encode :: "bytes \<Rightarrow> string" where
  "StdEncoding_Encode [] = []"
| "StdEncoding_Encode [a] = map ((!) std_alphabet) (sextets1 (unat a)) @ ''==''"
| "StdEncoding_Encode [a, b] = map ((!) std_alphabet) (sextets2 (unat a) (unat b)) @ ''=''"
| "StdEncoding_Encode (a # b # c # r) =
     map ((!) std_alphabet) (sextets3 (unat a) (unat b) (unat c)) @ StdEncoding_Encode r"

fun RawURLEncoding_Encode :: "bytes \<Rightarrow> string" where
  "RawURLEncoding_Encode [] = []"
| "RawURLEncoding_Encode [a] = map ((!) url_alphabet) (sextets1 (unat a))"
| "RawURLEncoding_Encode [a, b] = map ((!) url_alphabet) (sextets2 (unat a) (unat b))"
| "RawURLEncoding_Encode (a # b # c # r) =
     map ((!) url_alphabet) (sextets3 (unat a) (unat b) (unat c)) @ RawURLEncoding_Encode r"

section \<open>Decoding\<close>

definition sextet :: "char \<Rightarrow> nat option" where
  "sextet c = IndexByte std_alphabet c"

text \<open>
  \<^verbatim>\<open>StdEncoding.DecodeString\<close> on text without line breaks: groups of four characters, the last of which may
  be padded; unused bits of a padded group are ignored.
\<close>

fun decode_quads :: "string \<Rightarrow> bytes option" where
  "decode_quads [] = Some []"
| "decode_quads (c0 # c1 # c2 # c3 # r) = (case (sextet c0, sextet c1) of
       (Some w, Some x) \<Rightarrow>
         if c2 = CHR ''='' then
           (if c3 = CHR ''='' \<and> r = [] then Some [of_nat (w * 4 + x div 16)] else None)
         else (case sextet c2 of
             None \<Rightarrow> None
           | Some y \<Rightarrow>
               if c3 = CHR ''='' then
                 (if r = [] then Some [of_nat (w * 4 + x div 16), of_nat (x mod 16 * 16 + y div 4)] else None)
               else (case sextet c3 of
                   None \<Rightarrow> None
                 | Some z \<Rightarrow> map_option
                     ((@) [of_nat (w * 4 + x div 16), of_nat (x mod 16 * 16 + y div 4), of_nat (y mod 4 * 64 + z)])
                     (decode_quads r)))
     | _ \<Rightarrow> None)"
| "decode_quads _ = None"

text \<open>Line breaks are skipped wherever they are.\<close>

definition StdEncoding_Decode :: "string \<Rightarrow> bytes option" where
  "StdEncoding_Decode s = decode_quads (filter (\<lambda>c. c \<noteq> CHR 0x0A \<and> c \<noteq> CHR 0x0D) s)"

section \<open>Round trips\<close>

lemma sextet_nth: "n < 64 \<Longrightarrow> sextet (std_alphabet ! n) = Some n"
proof -
  have "\<forall>n \<in> set [0..<64]. sextet (std_alphabet ! n) = Some n"
    by code_simp
  then show "n < 64 \<Longrightarrow> sextet (std_alphabet ! n) = Some n" by simp
qed

lemma std_alphabet_plain: "n < 64 \<Longrightarrow> std_alphabet ! n \<notin> {CHR ''='', CHR 0x0A, CHR 0x0D}"
proof -
  have "\<forall>n \<in> set [0..<64]. std_alphabet ! n \<noteq> CHR ''='' \<and> std_alphabet ! n \<noteq> CHR 0x0A \<and> std_alphabet ! n \<noteq> CHR 0x0D"
    by code_simp
  then show "n < 64 \<Longrightarrow> std_alphabet ! n \<notin> {CHR ''='', CHR 0x0A, CHR 0x0D}" by simp
qed

lemma unat_byte [simp]: "unat (a :: u8) < 256"
  using unsigned_less [of a] by simp

lemma rejoin:
  assumes "(b :: nat) < 256" and "c < 256"
  shows "a div 4 * 4 + (a mod 4 * 16 + b div 16) div 16 = a
    \<and> (a mod 4 * 16 + b div 16) mod 16 * 16 + (b mod 16 * 4 + c div 64) div 4 = b
    \<and> (b mod 16 * 4 + c div 64) mod 4 * 64 + c mod 64 = c"
proof -
  have "b div 16 < 16" "c div 64 < 4" using assms by auto
  then have "(a mod 4 * 16 + b div 16) div 16 = a mod 4" "(a mod 4 * 16 + b div 16) mod 16 = b div 16"
      "(b mod 16 * 4 + c div 64) div 4 = b mod 16" "(b mod 16 * 4 + c div 64) mod 4 = c div 64"
    by auto
  then show ?thesis
    by simp
qed

lemma sextet_bounds:
  assumes "(a :: nat) < 256" and "b < 256" and "c < 256"
  shows "a div 4 < 64" "a mod 4 * 16 + b div 16 < 64" "b mod 16 * 4 + c div 64 < 64" "c mod 64 < 64"
proof -
  have "a mod 4 < 4" "b mod 16 < 16" "b div 16 < 16" "c div 64 < 4" using assms by auto
  then show "a div 4 < 64" "a mod 4 * 16 + b div 16 < 64" "b mod 16 * 4 + c div 64 < 64" "c mod 64 < 64"
    using assms by auto
qed

lemma decode_quads_3:
  assumes "a < 256" "b < 256" "c < 256"
  shows "decode_quads (map ((!) std_alphabet) (sextets3 a b c) @ r)
    = map_option ((@) [of_nat a, of_nat b, of_nat c]) (decode_quads r)"
  using sextet_bounds [OF assms] std_alphabet_plain rejoin [where a = a, OF assms(2,3)]
  by (simp add: sextets3_def sextet_nth del: of_nat_add of_nat_mult)

lemma decode_quads_2:
  assumes "a < 256" "b < 256"
  shows "decode_quads (map ((!) std_alphabet) (sextets2 a b) @ ''='') = Some [of_nat a, of_nat b]"
  using sextet_bounds [where c = 0, OF assms] std_alphabet_plain rejoin [where a = a and c = 0, OF assms(2)]
  by (simp add: sextets2_def sextet_nth del: of_nat_add of_nat_mult)

lemma decode_quads_1:
  assumes "a < 256"
  shows "decode_quads (map ((!) std_alphabet) (sextets1 a) @ ''=='') = Some [of_nat a]"
  using sextet_bounds [where b = 0 and c = 0, OF assms] std_alphabet_plain rejoin [where a = a and b = 0 and c = 0]
  by (simp add: sextets1_def sextet_nth del: of_nat_add of_nat_mult)

lemma decode_quads_Encode: "decode_quads (StdEncoding_Encode bs) = Some bs"
  by (induction bs rule: StdEncoding_Encode.induct) (simp_all add: decode_quads_1 decode_quads_2 decode_quads_3)

lemma map_alphabet_plain:
  "list_all (\<lambda>x. x < 64) xs \<Longrightarrow> filter (\<lambda>c. c \<noteq> CHR 0x0A \<and> c \<noteq> CHR 0x0D) (map ((!) std_alphabet) xs) = map ((!) std_alphabet) xs"
  using std_alphabet_plain by (induction xs) auto

lemma sextets_less:
  "a < 256 \<Longrightarrow> list_all (\<lambda>x. x < 64) (sextets1 a)"
  "a < 256 \<Longrightarrow> b < 256 \<Longrightarrow> list_all (\<lambda>x. x < 64) (sextets2 a b)"
  "a < 256 \<Longrightarrow> b < 256 \<Longrightarrow> c < 256 \<Longrightarrow> list_all (\<lambda>x. x < 64) (sextets3 a b c)"
  using sextet_bounds [where a = a and b = 0 and c = 0] sextet_bounds [where a = a and b = b and c = 0] sextet_bounds [where a = a and b = b and c = c]
  by (simp_all add: sextets1_def sextets2_def sextets3_def)

lemma StdEncoding_Decode_Encode [simp]: "StdEncoding_Decode (StdEncoding_Encode bs) = Some bs"
proof -
  have "filter (\<lambda>c. c \<noteq> CHR 0x0A \<and> c \<noteq> CHR 0x0D) (StdEncoding_Encode bs) = StdEncoding_Encode bs"
    by (induction bs rule: StdEncoding_Encode.induct) (simp_all add: sextets_less map_alphabet_plain)
  then show ?thesis by (simp add: StdEncoding_Decode_def decode_quads_Encode)
qed

section \<open>Identifiers\<close>

lemma url_alphabet_inj: "m < 64 \<Longrightarrow> n < 64 \<Longrightarrow> url_alphabet ! m = url_alphabet ! n \<longleftrightarrow> m = n"
proof -
  have "distinct url_alphabet" "length url_alphabet = 64" by code_simp+
  then show "m < 64 \<Longrightarrow> n < 64 \<Longrightarrow> url_alphabet ! m = url_alphabet ! n \<longleftrightarrow> m = n"
    by (simp add: nth_eq_iff_index_eq)
qed

lemma map_url_alphabet_inj:
  "list_all (\<lambda>x. x < 64) xs \<Longrightarrow> list_all (\<lambda>x. x < 64) ys \<Longrightarrow> map ((!) url_alphabet) xs = map ((!) url_alphabet) ys \<longleftrightarrow> xs = ys"
  by (induction xs ys rule: list_induct2') (auto simp: url_alphabet_inj)

lemma sextets3_inj:
  assumes "a < 256" "b < 256" "c < 256" "a' < 256" "b' < 256" "c' < 256" and "sextets3 a b c = sextets3 a' b' c'"
  shows "a = a' \<and> b = b' \<and> c = c'"
proof -
  have "a div 4 = a' div 4" "a mod 4 * 16 + b div 16 = a' mod 4 * 16 + b' div 16"
      "b mod 16 * 4 + c div 64 = b' mod 16 * 4 + c' div 64" "c mod 64 = c' mod 64"
    using assms(7) by (simp_all add: sextets3_def)
  then show ?thesis using rejoin [of b c a] rejoin [of b' c' a'] assms(1-6) by metis
qed

lemma sextets_eq_iff:
  fixes a b c :: u8
  shows "sextets3 (unat a) (unat b) (unat c) = sextets3 (unat a') (unat b') (unat c') \<longleftrightarrow> a = a' \<and> b = b' \<and> c = c'"
    and "sextets2 (unat a) (unat b) = sextets2 (unat a') (unat b') \<longleftrightarrow> a = a' \<and> b = b'"
    and "sextets1 (unat a) = sextets1 (unat a') \<longleftrightarrow> a = a'"
proof -
  have eq: "sextets3 (unat x) (unat y) (unat z) = sextets3 (unat x') (unat y') (unat z') \<longleftrightarrow> x = x' \<and> y = y' \<and> z = z'"
    for x y z x' y' z' :: u8
    using sextets3_inj [of "unat x" "unat y" "unat z" "unat x'" "unat y'" "unat z'"] by (metis unat_byte word_unat_eq_iff)
  show "sextets3 (unat a) (unat b) (unat c) = sextets3 (unat a') (unat b') (unat c') \<longleftrightarrow> a = a' \<and> b = b' \<and> c = c'"
    by (rule eq)
  have "sextets2 (unat a) (unat b) = sextets2 (unat a') (unat b') \<longleftrightarrow>
      sextets3 (unat a) (unat b) (unat (0 :: u8)) = sextets3 (unat a') (unat b') (unat (0 :: u8))"
    by (simp add: sextets2_def sextets3_def)
  then show "sextets2 (unat a) (unat b) = sextets2 (unat a') (unat b') \<longleftrightarrow> a = a' \<and> b = b'"
    by (simp only: eq simp_thms)
  have "sextets1 (unat a) = sextets1 (unat a') \<longleftrightarrow>
      sextets3 (unat a) (unat (0 :: u8)) (unat (0 :: u8)) = sextets3 (unat a') (unat (0 :: u8)) (unat (0 :: u8))"
    by (simp add: sextets1_def sextets3_def)
  then show "sextets1 (unat a) = sextets1 (unat a') \<longleftrightarrow> a = a'"
    by (simp only: eq simp_thms)
qed

lemma length_RawURLEncoding_Encode: "length (RawURLEncoding_Encode bs) = (length bs * 4 + 2) div 3"
  by (induction bs rule: RawURLEncoding_Encode.induct) (simp_all add: sextets1_def sextets2_def sextets3_def)

lemma RawURLEncoding_Encode_inj:
  "length bs = length bs' \<Longrightarrow> RawURLEncoding_Encode bs = RawURLEncoding_Encode bs' \<longleftrightarrow> bs = bs'"
proof (induction bs arbitrary: bs' rule: RawURLEncoding_Encode.induct)
  case (2 a)
  then obtain a' where "bs' = [a']" by (cases bs') auto
  then show ?case by (simp add: map_url_alphabet_inj sextets_less sextets_eq_iff)
next
  case (3 a b)
  then obtain a' b' where "bs' = [a', b']" by (cases bs'; cases "tl bs'") auto
  then show ?case by (simp add: map_url_alphabet_inj sextets_less sextets_eq_iff)
next
  case (4 a b c r)
  then obtain a' b' c' r' where bs': "bs' = a' # b' # c' # r'" "length r = length r'"
    by (cases bs'; cases "tl bs'"; cases "tl (tl bs')") auto
  have l: "length (sextets3 x y z) = 4" for x y z by (simp add: sextets3_def)
  show ?case
    unfolding bs'(1) RawURLEncoding_Encode.simps
    by (simp add: map_url_alphabet_inj sextets_less sextets_eq_iff l 4(1) [OF bs'(2)])
qed simp

end
