(* ===== verification/Wsfs_Users.thy ===== *)
theory Wsfs_Users
  imports Wsfs_Env Wsfs_Base64
begin

text \<open>
  Who may use the server: the configuration of storages and users
  (\<^verbatim>\<open>src/src/internal/server/storage\<close>, \<^verbatim>\<open>src/src/internal/server/config/config.go\<close>) and HTTP basic
  authentication (\<^verbatim>\<open>src/src/internal/server/user.go\<close>), with the header that the client sends
  (\<^verbatim>\<open>dial\<close> of \<^verbatim>\<open>src/src/internal/client/mount.go\<close>). The working directory and bcrypt are parameters. The lemmas show that
  an accepted configuration gives every user a clean absolute storage root, that only the right
  password authenticates a user, and that what the client sends is what the server checks.
\<close>

section \<open>Configuration\<close>

record conf_Storage =
  cs_Id :: string
  cs_Path :: string
  cs_ReadOnly :: bool

record conf_User =
  cu_Name :: string
  cu_SecretHash :: string
  cu_ReadOnly :: bool
  cu_Storage :: string

record conf_AnonymousUser =
  ca_Enable :: bool
  ca_ReadOnly :: bool
  ca_Storage :: string

record conf_Server =
  cf_Storages :: "conf_Storage list"
  cf_Users :: "conf_User list"
  cf_Anonymous :: conf_AnonymousUser

datatype conf_error =
    DefaultStorageRepeated | StorageRepeated string | UserRepeated string | EmptyUsername
  | UserStorageMissing string | AnonymousStorageMissing | AbsError oserror

section \<open>Storages and users\<close>

text \<open>\<^verbatim>\<open>filepath.Abs\<close> on Unix; \<open>wd\<close> is what \<^verbatim>\<open>os.Getwd\<close> returns.\<close>

definition Abs :: "(oserror + string) \<Rightarrow> string \<Rightarrow> oserror + string" where
  "Abs wd p = (if HasPrefix p ''/'' then Inr (Clean p) else map_sum id (\<lambda>d. Join d p) wd)"

record Storage =
  Storage_Path :: string

record User =
  u_Name :: string
  u_Password :: bytes
  u_ReadOnly :: bool
  u_Storage :: Storage

definition NewStorage :: "(oserror + string) \<Rightarrow> conf_Storage \<Rightarrow> oserror + Storage" where
  "NewStorage wd c = map_sum id (\<lambda>p. \<lparr>Storage_Path = TrimSuffix p ''/''\<rparr>) (Abs wd (cs_Path c))"

text \<open>The two maps of storages as one: the storage and whether it is read-only.\<close>

primrec NewUsers_storages :: "(oserror + string) \<Rightarrow> conf_Storage list \<Rightarrow> (string \<rightharpoonup> Storage \<times> bool)
    \<Rightarrow> conf_error + (string \<rightharpoonup> Storage \<times> bool)" where
  "NewUsers_storages wd [] storages = Inr storages"
| "NewUsers_storages wd (st # sts) storages =
     (if storages (cs_Id st) \<noteq> None then Inl (if cs_Id st = [] then DefaultStorageRepeated else StorageRepeated (cs_Id st))
      else case NewStorage wd st of
          Inl e \<Rightarrow> Inl (AbsError e)
        | Inr s \<Rightarrow> NewUsers_storages wd sts (storages(cs_Id st \<mapsto> (s, cs_ReadOnly st))))"

primrec NewUsers_users :: "(string \<rightharpoonup> Storage \<times> bool) \<Rightarrow> conf_User list \<Rightarrow> (string \<rightharpoonup> User)
    \<Rightarrow> conf_error + (string \<rightharpoonup> User)" where
  "NewUsers_users storages [] users = Inr users"
| "NewUsers_users storages (us # uss) users =
     (if users (cu_Name us) \<noteq> None then Inl (UserRepeated (cu_Name us))
      else if cu_Name us = [] then Inl EmptyUsername
      else case storages (cu_Storage us) of
          None \<Rightarrow> Inl (UserStorageMissing (cu_Name us))
        | Some (st, ro) \<Rightarrow> NewUsers_users storages uss (users(cu_Name us \<mapsto>
            \<lparr>u_Name = cu_Name us, u_Password = bytes_of (cu_SecretHash us), u_ReadOnly = (ro \<or> cu_ReadOnly us), u_Storage = st\<rparr>)))"

definition anonymous_name :: string where
  "anonymous_name = ''<anonymous>''"

definition NewUsers_anonymous :: "(string \<rightharpoonup> Storage \<times> bool) \<Rightarrow> conf_AnonymousUser \<Rightarrow> conf_error + User option" where
  "NewUsers_anonymous storages c =
     (if \<not> ca_Enable c then Inr None
      else case storages (ca_Storage c) of
          None \<Rightarrow> Inl AnonymousStorageMissing
        | Some (st, ro) \<Rightarrow> Inr (Some \<lparr>u_Name = anonymous_name, u_Password = [], u_ReadOnly = (ro \<or> ca_ReadOnly c), u_Storage = st\<rparr>))"

definition NewUsers :: "(oserror + string) \<Rightarrow> conf_Server \<Rightarrow> conf_error + (string \<rightharpoonup> User) \<times> User option" where
  "NewUsers wd conf = (case NewUsers_storages wd (cf_Storages conf) Map.empty of
       Inl e \<Rightarrow> Inl e
     | Inr storages \<Rightarrow> (case NewUsers_users storages (cf_Users conf) Map.empty of
           Inl e \<Rightarrow> Inl e
         | Inr users \<Rightarrow> map_sum id (Pair users) (NewUsers_anonymous storages (cf_Anonymous conf))))"

section \<open>Authentication\<close>

definition anonymousUsername :: string where
  "anonymousUsername = ''anonymous''"

text \<open>What \<^verbatim>\<open>bcrypt.CompareHashAndPassword\<close> returns besides \<^verbatim>\<open>nil\<close>.\<close>

datatype bcrypt_error = ErrMismatchedHashAndPassword | OtherBcryptError

datatype auth_error =
    ErrBadHttpAuthHeader | ErrUserNotExists | ErrHashMismatch | ErrAuthHeaderNotExists | ErrAnonymous
  | AuthBcrypt bcrypt_error

type_synonym bcrypt = "bytes \<Rightarrow> bytes \<Rightarrow> bcrypt_error option"

definition checkPassword :: "bcrypt \<Rightarrow> User \<Rightarrow> bytes \<Rightarrow> auth_error option" where
  "checkPassword bc user password = (case bc (u_Password user) password of
       Some ErrMismatchedHashAndPassword \<Rightarrow> Some ErrHashMismatch
     | Some e \<Rightarrow> Some (AuthBcrypt e)
     | None \<Rightarrow> None)"

definition authUser :: "bcrypt \<Rightarrow> (string \<rightharpoonup> User) \<Rightarrow> string \<Rightarrow> string \<Rightarrow> auth_error + User" where
  "authUser bc users username password = (case users username of
       None \<Rightarrow> Inl (if username = anonymousUsername then ErrAnonymous else ErrUserNotExists)
     | Some user \<Rightarrow> (case checkPassword bc user (bytes_of password) of None \<Rightarrow> Inr user | Some e \<Rightarrow> Inl e))"

text \<open>\<^verbatim>\<open>Request.BasicAuth\<close> on the value of the header \<^verbatim>\<open>Authorization\<close>.\<close>

definition Cut :: "char \<Rightarrow> string \<Rightarrow> (string \<times> string) option" where
  "Cut c s = map_option (\<lambda>i. (take i s, drop (i + 1) s)) (IndexByte s c)"

definition BasicAuth :: "string \<Rightarrow> (string \<times> string) option" where
  "BasicAuth auth =
     (if length auth < 6 \<or> \<not> EqualFold (take 6 auth) ''Basic '' then None
      else Option.bind (StdEncoding_Decode (drop 6 auth)) (\<lambda>c. Cut CHR '':'' (string_of c)))"

definition httpBasicAuth :: "bcrypt \<Rightarrow> (string \<rightharpoonup> User) \<Rightarrow> string \<Rightarrow> auth_error + User" where
  "httpBasicAuth bc users auth =
     (if auth = [] then Inl ErrAuthHeaderNotExists
      else case BasicAuth auth of
          None \<Rightarrow> Inl ErrBadHttpAuthHeader
        | Some (username, password) \<Rightarrow> authUser bc users username password)"

text \<open>The header \<^verbatim>\<open>Authorization\<close> that the client sends; empty when it sends none.\<close>

definition dial_Authorization :: "string \<Rightarrow> string \<Rightarrow> string" where
  "dial_Authorization username password =
     (if username = [] then [] else ''Basic '' @ StdEncoding_Encode (bytes_of (username @ '':'' @ password)))"

section \<open>Storage roots\<close>

text \<open>A storage root: absolute and clean, without a final separator; the root directory is the empty string.\<close>

definition storage_root :: "string \<Rightarrow> bool" where
  "storage_root p \<longleftrightarrow> p = [] \<or> IsUrlValid p \<and> last p \<noteq> CHR ''/''"

lemma join_comps_last:
  "ds \<noteq> [] \<Longrightarrow> \<forall>n \<in> set ds. proper_name n \<Longrightarrow> join_comps ds \<noteq> [] \<and> last (join_comps ds) \<noteq> CHR ''/''"
proof (induction ds rule: join_comps.induct)
  case (2 c)
  then show ?case by (auto simp: proper_name_def) (metis last_in_set)
next
  case (3 c d ds)
  then show ?case by auto
qed simp

lemma Clean_storage_root:
  assumes "HasPrefix p ''/''"
  shows "storage_root (TrimSuffix (Clean p) ''/'')"
proof -
  obtain q where p: "p = CHR ''/'' # q" using assms by (cases p) (auto simp: HasPrefix_def)
  let ?ds = "walk [] (comps p)"
  have ds: "\<forall>n \<in> set ?ds. proper_name n" by (rule walk_proper) (auto dest: Split_no_sep)
  have c: "Clean p = CHR ''/'' # join_comps ?ds" using p by (simp add: Clean_def clean_comps_rooted)
  show ?thesis
  proof (cases "?ds = []")
    case True
    then show ?thesis unfolding c by (simp add: TrimSuffix_def HasSuffix_def storage_root_def)
  next
    case False
    have n: "comps (join_comps ?ds) = ?ds" using ds False by (intro comps_join_comps) (auto simp: proper_name_def)
    have "IsUrlValid (Clean p)" using ds n unfolding c IsUrlValid_iff by (auto simp: proper_name_def)
    moreover have l: "last (Clean p) \<noteq> CHR ''/''" using join_comps_last [OF False ds] unfolding c by simp
    moreover have "\<not> HasSuffix (Clean p) ''/''" using l by (auto simp: HasSuffix_iff_suffix suffix_def)
    ultimately show ?thesis by (simp add: TrimSuffix_def storage_root_def)
  qed
qed

lemma Join_rooted: "HasPrefix d ''/'' \<Longrightarrow> \<exists>q. HasPrefix q ''/'' \<and> Join d p = Clean q"
proof -
  assume "HasPrefix d ''/''"
  then obtain l where d: "d = CHR ''/'' # l" by (cases d) (auto simp: HasPrefix_def)
  show ?thesis
    by (intro exI [of _ "join_comps (filter (\<lambda>s. s \<noteq> []) [d, p])"]) (simp add: d Join_def HasPrefix_def)
qed

text \<open>The hypothesis on the parameter: \<^verbatim>\<open>os.Getwd\<close> returns an absolute path.\<close>

definition getwd_absolute :: "(oserror + string) \<Rightarrow> bool" where
  "getwd_absolute wd \<longleftrightarrow> (\<forall>d. wd = Inr d \<longrightarrow> HasPrefix d ''/'')"

lemma NewStorage_root:
  assumes "getwd_absolute wd" and "NewStorage wd c = Inr st"
  shows "storage_root (Storage_Path st)"
proof -
  obtain q where "HasPrefix q ''/''" "Abs wd (cs_Path c) = Inr (Clean q)"
  proof (cases "HasPrefix (cs_Path c) ''/''")
    case True
    then show ?thesis by (auto simp: Abs_def intro: that)
  next
    case False
    then obtain d where "wd = Inr d" using assms(2) by (cases wd) (auto simp: NewStorage_def Abs_def)
    then show ?thesis
      using False assms(1) Join_rooted [of d "cs_Path c"] by (auto simp: Abs_def getwd_absolute_def intro: that)
  qed
  then show ?thesis using assms(2) Clean_storage_root by (auto simp: NewStorage_def)
qed

section \<open>Accepted configurations\<close>

lemma NewUsers_storages_iff:
  "NewUsers_storages wd sts m = Inr storages \<Longrightarrow>
     storages k = Some (st, ro) \<longleftrightarrow> m k = Some (st, ro) \<or> (\<exists>c \<in> set sts. cs_Id c = k \<and> cs_ReadOnly c = ro \<and> NewStorage wd c = Inr st)"
proof (induction sts arbitrary: m)
  case (Cons c sts)
  obtain st' where st': "m (cs_Id c) = None" "NewStorage wd c = Inr st'"
      "NewUsers_storages wd sts (m(cs_Id c \<mapsto> (st', cs_ReadOnly c))) = Inr storages"
    using Cons.prems by (cases "m (cs_Id c)"; cases "NewStorage wd c") simp_all
  show ?case
    using Cons.IH [OF st'(3)] st'(1,2) by (cases "k = cs_Id c") auto
qed simp

lemma NewUsers_users_iff:
  "NewUsers_users storages uss m = Inr users \<Longrightarrow>
     users k = Some u \<longleftrightarrow> m k = Some u \<or> (\<exists>c \<in> set uss. \<exists>st ro. cu_Name c = k \<and> k \<noteq> [] \<and> storages (cu_Storage c) = Some (st, ro)
       \<and> u = \<lparr>u_Name = k, u_Password = bytes_of (cu_SecretHash c), u_ReadOnly = (ro \<or> cu_ReadOnly c), u_Storage = st\<rparr>)"
proof (induction uss arbitrary: m)
  case (Cons c uss)
  let ?u = "\<lambda>st ro. \<lparr>u_Name = cu_Name c, u_Password = bytes_of (cu_SecretHash c), u_ReadOnly = (ro \<or> cu_ReadOnly c), u_Storage = st\<rparr>"
  obtain st ro where c: "m (cu_Name c) = None" "cu_Name c \<noteq> []" "storages (cu_Storage c) = Some (st, ro)"
      "NewUsers_users storages uss (m(cu_Name c \<mapsto> ?u st ro)) = Inr users"
    using Cons.prems by (cases "m (cu_Name c)"; cases "storages (cu_Storage c)") (auto split: if_splits)
  show ?case
    using Cons.IH [OF c(4)] c(1-3) by (cases "k = cu_Name c") auto
qed simp

text \<open>What an accepted configuration gives: the tables of storages and users behind the result.\<close>

lemma NewUsers_cases:
  assumes "NewUsers wd conf = Inr (users, anonymous)"
  obtains storages where "NewUsers_storages wd (cf_Storages conf) Map.empty = Inr storages"
    and "NewUsers_users storages (cf_Users conf) Map.empty = Inr users"
    and "NewUsers_anonymous storages (cf_Anonymous conf) = Inr anonymous"
proof -
  obtain storages where st: "NewUsers_storages wd (cf_Storages conf) Map.empty = Inr storages"
    using assms by (cases "NewUsers_storages wd (cf_Storages conf) Map.empty") (simp_all add: NewUsers_def)
  obtain us where us: "NewUsers_users storages (cf_Users conf) Map.empty = Inr us"
    using assms st by (cases "NewUsers_users storages (cf_Users conf) Map.empty") (simp_all add: NewUsers_def)
  have "NewUsers_anonymous storages (cf_Anonymous conf) = Inr anonymous \<and> us = users"
    using assms st us by (cases "NewUsers_anonymous storages (cf_Anonymous conf)") (simp_all add: NewUsers_def)
  then show ?thesis using st us by (blast intro: that)
qed

text \<open>The tables of users that the rest of the server relies on.\<close>

definition user_wf :: "User \<Rightarrow> bool" where
  "user_wf u \<longleftrightarrow> u_Name u \<noteq> [] \<and> storage_root (Storage_Path (u_Storage u))"

definition users_wf :: "(string \<rightharpoonup> User) \<Rightarrow> User option \<Rightarrow> bool" where
  "users_wf users anonymous \<longleftrightarrow>
     (\<forall>n u. users n = Some u \<longrightarrow> u_Name u = n \<and> user_wf u)
     \<and> (\<forall>a. anonymous = Some a \<longrightarrow> u_Name a = anonymous_name \<and> user_wf a)"

text \<open>
  (C13) From an accepted configuration every user gets the name it is filed under, which is not empty, and a
  storage whose root is an absolute clean path without a final separator, as the comment in
  \<^verbatim>\<open>storage.go\<close> demands and as the confinement of paths needs; the same for the anonymous user.
\<close>

theorem NewUsers_wf:
  assumes wd: "getwd_absolute wd" and n: "NewUsers wd conf = Inr (users, anonymous)"
  shows "users_wf users anonymous"
proof -
  obtain storages where s: "NewUsers_storages wd (cf_Storages conf) Map.empty = Inr storages"
    "NewUsers_users storages (cf_Users conf) Map.empty = Inr users" "NewUsers_anonymous storages (cf_Anonymous conf) = Inr anonymous"
    using NewUsers_cases [OF n] .
  have r: "storage_root (Storage_Path st)" if "storages k = Some (st, ro)" for k st ro
    using NewUsers_storages_iff [OF s(1), of k st ro] that NewStorage_root [OF wd] by auto
  have "u_Name u = n \<and> user_wf u" if "users n = Some u" for n u
    using NewUsers_users_iff [OF s(2), of n u] that r by (auto simp: user_wf_def)
  moreover have "u_Name a = anonymous_name \<and> user_wf a" if "anonymous = Some a" for a
    using s(3) that r by (auto simp: NewUsers_anonymous_def user_wf_def anonymous_name_def split: if_splits option.splits)
  ultimately show ?thesis by (simp add: users_wf_def)
qed

definition sample_conf :: conf_Server where
  "sample_conf = \<lparr>cf_Storages = [\<lparr>cs_Id = [], cs_Path = ''/srv//data/'', cs_ReadOnly = False\<rparr>, \<lparr>cs_Id = ''pub'', cs_Path = ''pub'', cs_ReadOnly = True\<rparr>],
     cf_Users = [\<lparr>cu_Name = ''ann'', cu_SecretHash = ''h'', cu_ReadOnly = False, cu_Storage = []\<rparr>],
     cf_Anonymous = \<lparr>ca_Enable = True, ca_ReadOnly = False, ca_Storage = ''pub''\<rparr>\<rparr>"

theorem NewUsers_wf_witness:
  "\<exists>users anonymous. NewUsers (Inr ''/home'') sample_conf = Inr (users, anonymous) \<and> users_wf users anonymous
     \<and> map_option (Storage_Path \<circ> u_Storage) (users ''ann'') = Some ''/srv/data''
     \<and> map_option (\<lambda>a. (Storage_Path (u_Storage a), u_ReadOnly a)) anonymous = Some (''/home/pub'', True)"
proof -
  let ?u = "\<lparr>u_Name = ''ann'', u_Password = bytes_of ''h'', u_ReadOnly = False, u_Storage = \<lparr>Storage_Path = ''/srv/data''\<rparr>\<rparr>"
  let ?a = "\<lparr>u_Name = anonymous_name, u_Password = [], u_ReadOnly = True, u_Storage = \<lparr>Storage_Path = ''/home/pub''\<rparr>\<rparr>"
  have n: "NewUsers (Inr ''/home'') sample_conf = Inr ([''ann'' \<mapsto> ?u], Some ?a)"
    by (simp add: NewUsers_def sample_conf_def NewStorage_def Abs_def HasPrefix_def Clean_def Join_def TrimSuffix_def HasSuffix_def
        NewUsers_anonymous_def)
  have "getwd_absolute (Inr ''/home'')" by (simp add: getwd_absolute_def HasPrefix_def)
  from NewUsers_wf [OF this n] n show ?thesis by simp
qed

text \<open>Read-only storages make their users read-only; all others are as configured.\<close>

lemma NewUsers_readonly:
  assumes n: "NewUsers wd conf = Inr (users, anonymous)" and u: "users k = Some u"
  shows "\<exists>c \<in> set (cf_Users conf). \<exists>st \<in> set (cf_Storages conf). cu_Name c = k \<and> cu_Storage c = cs_Id st
    \<and> NewStorage wd st = Inr (u_Storage u) \<and> (u_ReadOnly u \<longleftrightarrow> cu_ReadOnly c \<or> cs_ReadOnly st)"
proof -
  obtain storages where s: "NewUsers_storages wd (cf_Storages conf) Map.empty = Inr storages"
    "NewUsers_users storages (cf_Users conf) Map.empty = Inr users"
    using NewUsers_cases [OF n] by blast
  obtain c st ro where c: "c \<in> set (cf_Users conf)" "cu_Name c = k" "storages (cu_Storage c) = Some (st, ro)"
      "u = \<lparr>u_Name = k, u_Password = bytes_of (cu_SecretHash c), u_ReadOnly = (ro \<or> cu_ReadOnly c), u_Storage = st\<rparr>"
    using NewUsers_users_iff [OF s(2), of k u] u by auto
  then obtain d where "d \<in> set (cf_Storages conf)" "cs_Id d = cu_Storage c" "cs_ReadOnly d = ro" "NewStorage wd d = Inr st"
    using NewUsers_storages_iff [OF s(1), of "cu_Storage c" st ro] by auto
  with c show ?thesis by (intro bexI [of _ c] bexI [of _ d]) auto
qed

section \<open>Credentials\<close>

lemma EqualFold_refl [simp]: "EqualFold s s"
  by (simp add: EqualFold_def)

lemma Cut_append: "c \<notin> set a \<Longrightarrow> Cut c (a @ c # b) = Some (a, b)"
  by (simp add: Cut_def IndexByte_append)

lemma BasicAuth_dial:
  assumes "username \<noteq> []" and "CHR '':'' \<notin> set username"
  shows "BasicAuth (dial_Authorization username password) = Some (username, password)"
  using assms Cut_append [OF assms(2), of password] by (simp add: BasicAuth_def dial_Authorization_def)

lemma httpBasicAuth_sound:
  assumes "httpBasicAuth bc users auth = Inr u"
  shows "\<exists>name password. BasicAuth auth = Some (name, password) \<and> users name = Some u \<and> bc (u_Password u) (bytes_of password) = None"
  using assms
  by (auto simp: httpBasicAuth_def authUser_def checkPassword_def split: if_splits option.splits bcrypt_error.splits)



end
