(* ===== verification/Wsfs_Registry.thy ===== *)
theory Wsfs_Registry
  imports Wsfs_Server_Inv Wsfs_Users
begin

text \<open>
  The life of sessions on the server: \<^verbatim>\<open>registry.go\<close>, \<^verbatim>\<open>sessionId.go\<close>, \<^verbatim>\<open>ServeHTTP\<close> of \<^verbatim>\<open>handler.go\<close>, and \<^verbatim>\<open>takeConn\<close>,
  \<^verbatim>\<open>stopConn\<close> and the end of \<^verbatim>\<open>readLoop\<close> of \<^verbatim>\<open>session.go\<close>, under \<^verbatim>\<open>src/src/internal/server/wsfs\<close>. A world is one
  operating system, a heap of session objects, the table of the registry and any number of threads:
  HTTP requests, which become connections, and the collector of inactive sessions. Every access to shared state is
  a step of its own, so the steps interleave as the goroutines do. A running connection takes the
  steps of the session model. Not in the model: logging, and the remote address, which is only logged.
\<close>

section \<open>Session identifiers\<close>

abbreviation (input) sessionIdByteLength :: nat where "sessionIdByteLength \<equiv> 16"

definition randomSessionId :: "string rprog" where
  "randomSessionId = rbind (io_ReadFull sessionIdByteLength) (\<lambda>buf. rret (RawURLEncoding_Encode buf))"

text \<open>The insecure source: one byte of each of 16 numbers of the generator.\<close>

definition mathSessionId :: "u32 list \<Rightarrow> string" where
  "mathSessionId rng = RawURLEncoding_Encode (map ucast (take sessionIdByteLength rng))"

section \<open>Session objects\<close>

text \<open>
  The fields of the Go struct around the session of the session model: the lock that says whether
  the session is in use, and the number of scans that found it free. \<open>o_streams\<close> are the stream
  goroutines that \<^verbatim>\<open>clearWriteStreams\<close> has removed from the table of streams and that have not ended yet.
\<close>

record ('os, 'ws) sessionObj =
  o_Lock :: bool
  o_Id :: string
  o_Username :: string
  o_inactiveCount :: u32
  o_server :: "('os, 'ws) server"
  o_streams :: "(u8 \<times> writeStream) list"

abbreviation (input) sessionInactiveMaxCount :: u32 where "sessionInactiveMaxCount \<equiv> 5"

definition newObj :: "string \<Rightarrow> User \<Rightarrow> FsIds \<Rightarrow> FeatureOptions \<Rightarrow> 'ws \<Rightarrow> 'os \<Rightarrow> ('os, 'ws) sessionObj" where
  "newObj sid user fsIds featureOpts ws os = \<lparr>o_Lock = False, o_Id = sid, o_Username = u_Name user, o_inactiveCount = 0,
     o_server = \<lparr>sv_session = newSession (Storage_Path (u_Storage user)) fsIds featureOpts ws os, sv_pending = [], sv_inbox = []\<rparr>,
     o_streams = []\<rparr>"

definition takeConn :: "'ws \<Rightarrow> ('os, 'ws) sessionObj \<Rightarrow> ('os, 'ws) sessionObj" where
  "takeConn conn ob = ob\<lparr>o_server := (o_server ob)\<lparr>sv_session :=
     (sv_session (o_server ob))\<lparr>s_conn := True, s_ws := conn, s_cancelled := False\<rparr>, sv_inbox := []\<rparr>\<rparr>"

text \<open>\<^verbatim>\<open>websocket.CloseStatus\<close> is a parameter; \<open>-1\<close> for an error that is not a close frame.\<close>

type_synonym closeStatus = "goerr option \<Rightarrow> int"

definition gracefulClose :: "closeStatus \<Rightarrow> ('os, 'ws) session \<Rightarrow> bool" where
  "gracefulClose cs s \<longleftrightarrow> cs (s_connErr s) = 1000 \<or> cs (s_connErr s) = 1001"

text \<open>\<^verbatim>\<open>clearWriteStreams\<close>: every stream is closed and removed; its goroutine runs on until its input is empty.\<close>

definition clearWriteStreams :: "('os, 'ws) sessionObj \<Rightarrow> ('os, 'ws) sessionObj" where
  "clearWriteStreams ob = ob\<lparr>o_streams := s_writeStreams (sv_session (o_server ob)),
     o_server := (o_server ob)\<lparr>sv_session := (sv_session (o_server ob))\<lparr>s_writeStreams := []\<rparr>\<rparr>\<rparr>"

text \<open>\<^verbatim>\<open>stopConn\<close> up to the wait for the command group; \<open>None\<close>: the write lock is never released.\<close>

definition sv_stopConn_begin :: "closeStatus \<Rightarrow> 'ws wsops \<Rightarrow> ('os, 'ws) sessionObj \<Rightarrow> ('os, 'ws) sessionObj option" where
  "sv_stopConn_begin cs W ob =
     (let s = (sv_session (o_server ob))\<lparr>s_cancelled := True\<rparr>
      in if s_writeLock s then None
         else let conn = s_conn s; s = s\<lparr>s_conn := False\<rparr>;
                  s = (if conn \<and> cs (s_connErr s) = -1 then s\<lparr>s_ws := ws_CloseNow W (s_ws s)\<rparr> else s)
           in Some (clearWriteStreams (ob\<lparr>o_server := (o_server ob)\<lparr>sv_session := s\<rparr>\<rparr>)))"

text \<open>\<^verbatim>\<open>connErrLock.Unlock\<close> once the command group is empty; unlocking a free mutex is fatal.\<close>

definition stopConn_waited :: "('os, 'ws) sessionObj \<Rightarrow> ('os, 'ws) sessionObj option" where
  "stopConn_waited ob =
     (if \<not> s_connErrLock (sv_session (o_server ob)) then None
      else Some (ob\<lparr>o_server := (o_server ob)\<lparr>sv_session := (sv_session (o_server ob))\<lparr>s_connErrLock := False\<rparr>\<rparr>\<rparr>))"

text \<open>The last two statements of \<^verbatim>\<open>stopConn\<close>: a session that is kept starts counting from 0.\<close>

definition sv_stopConn_end :: "bool \<Rightarrow> ('os, 'ws) sessionObj \<Rightarrow> ('os, 'ws) sessionObj" where
  "sv_stopConn_end graceful ob =
     (if graceful then ob\<lparr>o_Lock := False\<rparr> else ob\<lparr>o_inactiveCount := 0, o_Lock := False\<rparr>)"

definition closeSFD :: "'os sys \<Rightarrow> int \<Rightarrow> 'os \<Rightarrow> 'os" where
  "closeSFD S fd os = fst (sys_Close S fd os)"

definition clearFDs :: "'os sys \<Rightarrow> ('os, 'ws) session \<Rightarrow> ('os, 'ws) session" where
  "clearFDs S s = s\<lparr>s_os := fold (closeSFD S \<circ> snd) (s_fds s) (s_os s), s_fds := []\<rparr>"

section \<open>Worlds\<close>

text \<open>
  The threads: a request of an authenticated user, at each of its accesses to shared state, and the
  collector. \<open>Finished\<close> carries the status of the response.
\<close>

datatype thread =
    Idle
  | NewId User | Placed User string | Get User string | Try User nat | Upgrade User nat
  | Running User nat | Waiting User nat | Deleting User nat | Removing User nat | Unlocking User nat bool
  | Finished nat
  | Sleeping | Scanning "string set" "string set" | Visiting string nat "string set" "string set"
  | Releasing nat "string set" "string set"
  | Expiring string nat "string set" "string set" | Erasing string nat "string set" "string set"

text \<open>
  The table maps an identifier to \<open>None\<close>, a reserved place, or to a session object. \<open>w_drawn\<close> counts the
  identifiers drawn, \<open>w_retired\<close> holds the objects that the collector has destroyed; both only for statements.
\<close>

record ('os, 'ws) world =
  w_os :: 'os
  w_objs :: "nat \<Rightarrow> ('os, 'ws) sessionObj option"
  w_sessions :: "string \<Rightarrow> nat option option"
  w_threads :: "nat \<Rightarrow> thread"
  w_drawn :: nat
  w_retired :: "nat set"

definition goto :: "nat \<Rightarrow> thread \<Rightarrow> ('os, 'ws) world \<Rightarrow> ('os, 'ws) world" where
  "goto i t w = w\<lparr>w_threads := (w_threads w)(i := t)\<rparr>"

definition put_obj :: "nat \<Rightarrow> ('os, 'ws) sessionObj \<Rightarrow> ('os, 'ws) world \<Rightarrow> ('os, 'ws) world" where
  "put_obj p ob w = w\<lparr>w_objs := (w_objs w)(p \<mapsto> ob)\<rparr>"

text \<open>The session of an object sees the operating system of the world.\<close>

definition with_os :: "'os \<Rightarrow> ('os, 'ws) server \<Rightarrow> ('os, 'ws) server" where
  "with_os os sv = sv\<lparr>sv_session := (sv_session sv)\<lparr>s_os := os\<rparr>\<rparr>"

definition put_server :: "nat \<Rightarrow> ('os, 'ws) sessionObj \<Rightarrow> ('os, 'ws) server \<Rightarrow> ('os, 'ws) world \<Rightarrow> ('os, 'ws) world" where
  "put_server p ob sv w = put_obj p (ob\<lparr>o_server := sv\<rparr>) (w\<lparr>w_os := s_os (sv_session sv)\<rparr>)"

definition getSession :: "string \<Rightarrow> ('os, 'ws) world \<Rightarrow> nat option" where
  "getSession sid w = (case w_sessions w sid of None \<Rightarrow> None | Some v \<Rightarrow> v)"

text \<open>The two halves of \<^verbatim>\<open>delSession\<close>.\<close>

definition delSession_clear :: "'os sys \<Rightarrow> string \<Rightarrow> ('os, 'ws) world \<Rightarrow> ('os, 'ws) world" where
  "delSession_clear S sid w = (case getSession sid w of
       None \<Rightarrow> w
     | Some p \<Rightarrow> (case w_objs w p of
           None \<Rightarrow> w
         | Some ob \<Rightarrow> let sv = with_os (w_os w) (o_server ob)
             in put_server p ob (sv\<lparr>sv_session := clearFDs S (sv_session sv)\<rparr>) w))"

definition delSession_delete :: "string \<Rightarrow> ('os, 'ws) world \<Rightarrow> ('os, 'ws) world" where
  "delSession_delete sid w = w\<lparr>w_sessions := (w_sessions w)(sid := None)\<rparr>"

section \<open>Requests\<close>

text \<open>
  \<^verbatim>\<open>TryServerHTTP\<close> and \<^verbatim>\<open>ServeHTTP\<close> for an upgrade request of a user in \<open>U\<close>, the users that are not read-only. \<open>src\<close> are the
  identifiers in the order in which they are drawn.
\<close>

inductive request_step :: "User set \<Rightarrow> (nat \<Rightarrow> string) \<Rightarrow> nat \<Rightarrow> ('os, 'ws) world \<Rightarrow> ('os, 'ws) world \<Rightarrow> bool"
  for U src i w where
  create: "\<lbrakk>w_threads w i = Idle; user \<in> U\<rbrakk> \<Longrightarrow> request_step U src i w (goto i (NewId user) w)"
| resume: "\<lbrakk>w_threads w i = Idle; user \<in> U; sid \<noteq> []\<rbrakk> \<Longrightarrow> request_step U src i w (goto i (Get user sid) w)"
| no_id: "w_threads w i = NewId user \<Longrightarrow> request_step U src i w (goto i (Finished 500) w)"
| taken: "\<lbrakk>w_threads w i = NewId user; w_sessions w (src (w_drawn w)) \<noteq> None\<rbrakk>
    \<Longrightarrow> request_step U src i w (w\<lparr>w_drawn := w_drawn w + 1\<rparr>)"
| reserve: "\<lbrakk>w_threads w i = NewId user; w_sessions w (src (w_drawn w)) = None\<rbrakk>
    \<Longrightarrow> request_step U src i w (goto i (Placed user (src (w_drawn w)))
          (w\<lparr>w_drawn := w_drawn w + 1, w_sessions := (w_sessions w)(src (w_drawn w) \<mapsto> None)\<rparr>))"
| store: "\<lbrakk>w_threads w i = Placed user sid; w_objs w p = None\<rbrakk>
    \<Longrightarrow> request_step U src i w (goto i (Get user sid) (put_obj p (newObj sid user fsIds featureOpts ws (w_os w))
          (w\<lparr>w_sessions := (w_sessions w)(sid \<mapsto> Some p)\<rparr>)))"
| unknown: "\<lbrakk>w_threads w i = Get user sid; getSession sid w = None\<rbrakk>
    \<Longrightarrow> request_step U src i w (goto i (Finished 400) w)"
| known: "\<lbrakk>w_threads w i = Get user sid; getSession sid w = Some p\<rbrakk> \<Longrightarrow> request_step U src i w (goto i (Try user p) w)"
| other_user: "\<lbrakk>w_threads w i = Try user p; w_objs w p = Some ob; o_Username ob \<noteq> u_Name user\<rbrakk>
    \<Longrightarrow> request_step U src i w (goto i (Finished 400) w)"
| busy: "\<lbrakk>w_threads w i = Try user p; w_objs w p = Some ob; o_Username ob = u_Name user; o_Lock ob\<rbrakk>
    \<Longrightarrow> request_step U src i w (goto i (Finished 412) w)"
| lock: "\<lbrakk>w_threads w i = Try user p; w_objs w p = Some ob; o_Username ob = u_Name user; \<not> o_Lock ob\<rbrakk>
    \<Longrightarrow> request_step U src i w (goto i (Upgrade user p) (put_obj p (ob\<lparr>o_Lock := True\<rparr>) w))"
| refuse: "\<lbrakk>w_threads w i = Upgrade user p; w_objs w p = Some ob\<rbrakk>
    \<Longrightarrow> request_step U src i w (goto i (Finished 0) (put_obj p (ob\<lparr>o_Lock := False\<rparr>) w))"
| upgrade: "\<lbrakk>w_threads w i = Upgrade user p; w_objs w p = Some ob\<rbrakk>
    \<Longrightarrow> request_step U src i w (goto i (Running user p) (put_obj p (takeConn conn ob) w))"

section \<open>Connections\<close>

text \<open>
  \<^verbatim>\<open>readLoop\<close> and \<^verbatim>\<open>stopConn\<close>. The connection may fail at any time with any error, also with the close frame of the
  client. After \<open>Waiting\<close> only the goroutines of the command group run.
\<close>

inductive conn_step :: "('os, 'ws) env \<Rightarrow> closeStatus \<Rightarrow> nat \<Rightarrow> ('os, 'ws) world \<Rightarrow> ('os, 'ws) world \<Rightarrow> bool"
  for E cs i w where
  arrive: "\<lbrakk>w_threads w i = Running user p; w_objs w p = Some ob\<rbrakk>
    \<Longrightarrow> conn_step E cs i w (put_obj p (ob\<lparr>o_server := (o_server ob)\<lparr>sv_inbox := sv_inbox (o_server ob) @ [msg]\<rparr>\<rparr>) w)"
| serve: "\<lbrakk>w_threads w i = Running user p; w_objs w p = Some ob; server_step E (with_os (w_os w) (o_server ob)) sv'\<rbrakk>
    \<Longrightarrow> conn_step E cs i w (put_server p ob sv' w)"
| broken: "\<lbrakk>w_threads w i = Running user p; w_objs w p = Some ob;
      sv' = (o_server ob)\<lparr>sv_session := setConnErr err (sv_session (o_server ob))\<rparr>;
      sv_stopConn_begin cs (E_ws E) (ob\<lparr>o_server := sv'\<rparr>) = Some ob'\<rbrakk>
    \<Longrightarrow> conn_step E cs i w (goto i (Waiting user p) (put_obj p ob' w))"
| malformed: "\<lbrakk>w_threads w i = Running user p; w_objs w p = Some ob;
      sv_inbox (o_server ob) = msg # rest; rd_data r = msg; rd_wf r;
      dispatchCommand E r (with_os (w_os w) ((o_server ob)\<lparr>sv_inbox := rest\<rparr>)) = Some (Some err, sv');
      sv_stopConn_begin cs (E_ws E) (ob\<lparr>o_server := sv'\<lparr>sv_session := setConnErr err (sv_session sv')\<rparr>\<rparr>) = Some ob'\<rbrakk>
    \<Longrightarrow> conn_step E cs i w (goto i (Waiting user p) (put_obj p ob' (w\<lparr>w_os := s_os (sv_session sv')\<rparr>)))"
| job: "\<lbrakk>w_threads w i = Waiting user p; w_objs w p = Some ob; sv_pending (o_server ob) = xs @ (m, c) # ys;
      runCommand E m c (sv_session (with_os (w_os w) (o_server ob))) = Some s'\<rbrakk>
    \<Longrightarrow> conn_step E cs i w (put_server p ob ((o_server ob)\<lparr>sv_session := s', sv_pending := xs @ ys\<rparr>) w)"
| drain: "\<lbrakk>w_threads w i = Waiting user p; w_objs w p = Some ob; o_streams ob = xs @ (m, st) # ys; \<not> str_done st;
      str_input st = msg # rest; run_input E m msg (st\<lparr>str_input := rest\<rparr>) (sv_session (with_os (w_os w) (o_server ob))) = Some (st', s')\<rbrakk>
    \<Longrightarrow> conn_step E cs i w (put_server p (ob\<lparr>o_streams := xs @ (m, st') # ys\<rparr>) ((o_server ob)\<lparr>sv_session := s'\<rparr>) w)"
| drained: "\<lbrakk>w_threads w i = Waiting user p; w_objs w p = Some ob; o_streams ob = xs @ (m, st) # ys; str_done st \<or> str_input st = []\<rbrakk>
    \<Longrightarrow> conn_step E cs i w (put_obj p (ob\<lparr>o_streams := xs @ ys\<rparr>) w)"
| waited: "\<lbrakk>w_threads w i = Waiting user p; w_objs w p = Some ob; sv_pending (o_server ob) = []; o_streams ob = [];
      stopConn_waited ob = Some ob'\<rbrakk>
    \<Longrightarrow> conn_step E cs i w (goto i (if gracefulClose cs (sv_session (o_server ob)) then Deleting user p else Unlocking user p False)
          (put_obj p ob' w))"
| clear: "\<lbrakk>w_threads w i = Deleting user p; w_objs w p = Some ob\<rbrakk>
    \<Longrightarrow> conn_step E cs i w (goto i (Removing user p) (delSession_clear (E_sys E) (o_Id ob) w))"
| remove: "\<lbrakk>w_threads w i = Removing user p; w_objs w p = Some ob\<rbrakk>
    \<Longrightarrow> conn_step E cs i w (goto i (Unlocking user p True) (delSession_delete (o_Id ob) w))"
| unlock: "\<lbrakk>w_threads w i = Unlocking user p graceful; w_objs w p = Some ob\<rbrakk>
    \<Longrightarrow> conn_step E cs i w (goto i (Finished 101) (put_obj p (sv_stopConn_end graceful ob) w))"

section \<open>The collector\<close>

text \<open>
  \<^verbatim>\<open>CollectInactiveSessions\<close>. \<^verbatim>\<open>Range\<close> visits every key that is in the table during the whole scan, no key twice, and
  keys added meanwhile or not; \<open>todo\<close> are the keys at the start of the scan and \<open>seen\<close> those visited.
\<close>

inductive collect_step :: "('os, 'ws) env \<Rightarrow> nat \<Rightarrow> ('os, 'ws) world \<Rightarrow> ('os, 'ws) world \<Rightarrow> bool"
  for E i w where
  scan: "w_threads w i = Sleeping \<Longrightarrow> collect_step E i w (goto i (Scanning (dom (w_sessions w)) {}) w)"
| reserved: "\<lbrakk>w_threads w i = Scanning todo seen; w_sessions w key = Some None; key \<notin> seen\<rbrakk>
    \<Longrightarrow> collect_step E i w (goto i (Scanning todo (insert key seen)) w)"
| visit: "\<lbrakk>w_threads w i = Scanning todo seen; w_sessions w key = Some (Some p); key \<notin> seen\<rbrakk>
    \<Longrightarrow> collect_step E i w (goto i (Visiting key p todo (insert key seen)) w)"
| in_use: "\<lbrakk>w_threads w i = Visiting key p todo seen; w_objs w p = Some ob; o_Lock ob\<rbrakk>
    \<Longrightarrow> collect_step E i w (goto i (Scanning todo seen) w)"
| count: "\<lbrakk>w_threads w i = Visiting key p todo seen; w_objs w p = Some ob; \<not> o_Lock ob; n = o_inactiveCount ob + 1\<rbrakk>
    \<Longrightarrow> collect_step E i w (goto i (if n \<ge> sessionInactiveMaxCount then Expiring key p todo seen else Releasing p todo seen)
          (put_obj p (ob\<lparr>o_Lock := True, o_inactiveCount := n\<rparr>) w))"
| release: "\<lbrakk>w_threads w i = Releasing p todo seen; w_objs w p = Some ob\<rbrakk>
    \<Longrightarrow> collect_step E i w (goto i (Scanning todo seen) (put_obj p (ob\<lparr>o_Lock := False\<rparr>) w))"
| expire: "w_threads w i = Expiring key p todo seen
    \<Longrightarrow> collect_step E i w (goto i (Erasing key p todo seen) (delSession_clear (E_sys E) key w))"
| erase: "w_threads w i = Erasing key p todo seen
    \<Longrightarrow> collect_step E i w (goto i (Scanning todo seen) ((delSession_delete key w)\<lparr>w_retired := insert p (w_retired w)\<rparr>))"
| sleep: "\<lbrakk>w_threads w i = Scanning todo seen; \<forall>key \<in> todo. key \<in> seen \<or> w_sessions w key = None\<rbrakk>
    \<Longrightarrow> collect_step E i w (goto i Sleeping w)"

section \<open>Runs\<close>

definition world_start :: "'os \<Rightarrow> ('os, 'ws) world" where
  "world_start os = \<lparr>w_os = os, w_objs = Map.empty, w_sessions = Map.empty, w_threads = (\<lambda>i. if i = 0 then Sleeping else Idle),
     w_drawn = 0, w_retired = {}\<rparr>"

inductive world_step :: "('os, 'ws) env \<Rightarrow> closeStatus \<Rightarrow> User set \<Rightarrow> (nat \<Rightarrow> string) \<Rightarrow> ('os, 'ws) world \<Rightarrow> ('os, 'ws) world \<Rightarrow> bool"
  for E cs U src where
  request: "request_step U src i w w' \<Longrightarrow> world_step E cs U src w w'"
| conn: "conn_step E cs i w w' \<Longrightarrow> world_step E cs U src w w'"
| collect: "collect_step E i w w' \<Longrightarrow> world_step E cs U src w w'"

inductive world_reach :: "('os, 'ws) env \<Rightarrow> closeStatus \<Rightarrow> User set \<Rightarrow> (nat \<Rightarrow> string) \<Rightarrow> ('os, 'ws) world \<Rightarrow> ('os, 'ws) world \<Rightarrow> bool"
  for E cs U src where
  start: "world_reach E cs U src w w"
| step: "world_reach E cs U src w w' \<Longrightarrow> world_step E cs U src w' w'' \<Longrightarrow> world_reach E cs U src w w''"

section \<open>Phases of a session object\<close>

abbreviation obj_session :: "('os, 'ws) sessionObj \<Rightarrow> ('os, 'ws) session" where
  "obj_session ob \<equiv> sv_session (o_server ob)"

text \<open>Without a connection: nothing runs, nothing is locked, descriptors are distinct and the buffers are back.\<close>

definition asleep :: "('os, 'ws) sessionObj \<Rightarrow> bool" where
  "asleep ob \<longleftrightarrow> sv_pending (o_server ob) = [] \<and> o_streams ob = [] \<and> s_writeStreams (obj_session ob) = []
     \<and> \<not> s_writeLock (obj_session ob) \<and> \<not> s_connErrLock (obj_session ob)
     \<and> distinct (map fst (s_fds (obj_session ob))) \<and> s_fastBuffers (obj_session ob) \<le> sessionFastBuffer"

definition awake :: "('os, 'ws) sessionObj \<Rightarrow> bool" where
  "awake ob \<longleftrightarrow> server_inv (o_server ob) \<and> o_streams ob = []"

text \<open>While the command group empties: the connection is gone and its error is recorded.\<close>

definition queued :: "(u8 \<times> writeStream) list \<Rightarrow> nat" where
  "queued streams = sum_list (map (length \<circ> str_input \<circ> snd) streams)"

definition stopping :: "('os, 'ws) sessionObj \<Rightarrow> bool" where
  "stopping ob \<longleftrightarrow> server_inv (o_server ob) \<and> s_writeStreams (obj_session ob) = []
     \<and> \<not> s_conn (obj_session ob) \<and> s_connErrLock (obj_session ob)
     \<and> s_fastBuffers (obj_session ob) + held_buffers (o_server ob) + queued (o_streams ob) \<le> sessionFastBuffer"

lemma server_inv_with_os [simp]: "server_inv (with_os os sv) \<longleftrightarrow> server_inv sv"
  by (simp add: server_inv_def with_os_def held_buffers_def cmdGroup_size_def)

lemma with_os_simps [simp]:
  "sv_session (with_os os sv) = (sv_session sv)\<lparr>s_os := os\<rparr>" "sv_pending (with_os os sv) = sv_pending sv"
  "sv_inbox (with_os os sv) = sv_inbox sv"
  by (simp_all add: with_os_def)

lemma newObj_asleep: "asleep (newObj sid user fsIds featureOpts ws os)"
  by (simp add: asleep_def newObj_def newSession_def)

lemma takeConn_awake: "asleep ob \<Longrightarrow> awake (takeConn conn ob)"
  by (simp add: asleep_def awake_def takeConn_def server_inv_def held_buffers_def cmdGroup_size_def)

lemma setConnErr_inv: "server_inv sv \<Longrightarrow> server_inv (sv\<lparr>sv_session := setConnErr e (sv_session sv)\<rparr>)"
  by (auto simp: server_inv_def setConnErr_def held_buffers_def cmdGroup_size_def)

lemma sv_stopConn_begin_stopping:
  assumes i: "server_inv (o_server ob)" and b: "sv_stopConn_begin cs W (ob\<lparr>o_server := (o_server ob)\<lparr>sv_session := setConnErr e (obj_session ob)\<rparr>\<rparr>) = Some ob'"
  shows "stopping ob' \<and> o_Lock ob' = o_Lock ob \<and> o_Id ob' = o_Id ob \<and> o_Username ob' = o_Username ob
    \<and> s_storage (obj_session ob') = s_storage (obj_session ob)"
  using i b
  by (auto simp: sv_stopConn_begin_def Let_def clearWriteStreams_def stopping_def queued_def server_inv_def setConnErr_def
      held_buffers_def cmdGroup_size_def split: if_splits)

lemma waited_asleep:
  assumes "stopping ob" and "sv_pending (o_server ob) = []" and "o_streams ob = []" and "stopConn_waited ob = Some ob'"
  shows "asleep ob' \<and> o_Lock ob' = o_Lock ob \<and> o_Id ob' = o_Id ob \<and> o_Username ob' = o_Username ob
    \<and> s_storage (obj_session ob') = s_storage (obj_session ob)"
  using assms by (auto simp: stopping_def stopConn_waited_def asleep_def server_inv_def held_buffers_def split: if_splits)

text \<open>The wait ends: with an empty command group \<^verbatim>\<open>connErrLock\<close> is held and can be released.\<close>

lemma stopping_waited: "stopping ob \<Longrightarrow> stopConn_waited ob \<noteq> None"
  by (simp add: stopping_def stopConn_waited_def)

lemma job_stopping:
  assumes C: "os_confined root Q (E_sys E)" and r: "root = [] \<or> IsUrlValid root" and st: "stopping ob"
    and q: "Q os" "s_storage (obj_session ob) = root"
    and p: "sv_pending (o_server ob) = xs @ (m, c) # ys" and x: "runCommand E m c (sv_session (with_os os (o_server ob))) = Some s'"
  shows "stopping (ob\<lparr>o_server := (o_server ob)\<lparr>sv_session := s', sv_pending := xs @ ys\<rparr>\<rparr>) \<and> Q (s_os s') \<and> s_storage s' = root"
proof -
  let ?s = "sv_session (with_os os (o_server ob))"
  have i: "sv_ok root Q (with_os os (o_server ob))" using st q by (simp add: sv_ok_def stopping_def)
  have ok: "sv_ok root Q ((with_os os (o_server ob))\<lparr>sv_session := s', sv_pending := xs @ ys\<rparr>)"
    by (rule job_ok [OF C r i _ x]) (simp add: p)
  have "in_storage root ?s Q ?s" using i by (simp add: sv_ok_def in_storage_def)
  from runCommand_stays [OF C r this x] obtain s1 where s1: "evolves ?s s1" "s' = (if holds_buffer c then releaseFastBuffer s1 else s1)"
    by (auto simp: in_storage_def)
  have e: "s_writeStreams s1 = [] \<and> \<not> s_conn s1 \<and> s_connErrLock s1 \<and> s_fastBuffers s1 = s_fastBuffers (obj_session ob)"
    using s1(1) st unfolding evolves_def stopping_def by simp
  have "s_fastBuffers s' + held_buffers ((o_server ob)\<lparr>sv_session := s', sv_pending := xs @ ys\<rparr>)
      = s_fastBuffers (obj_session ob) + held_buffers (o_server ob)"
    using e s1(2) p st by (simp add: held_buffers_def releaseFastBuffer_def stopping_def)
  then show ?thesis
    using ok e s1(2) st by (simp add: stopping_def sv_ok_def with_os_def releaseFastBuffer_def)
qed

lemma drain_stopping:
  assumes C: "os_confined root Q (E_sys E)" and st: "stopping ob"
    and q: "Q os" "s_storage (obj_session ob) = root"
    and p: "o_streams ob = xs @ (m, t) # ys" "str_input t = msg # rest"
    and x: "run_input E m msg (t\<lparr>str_input := rest\<rparr>) (sv_session (with_os os (o_server ob))) = Some (t', s')"
  shows "stopping (ob\<lparr>o_streams := xs @ (m, t') # ys, o_server := (o_server ob)\<lparr>sv_session := s'\<rparr>\<rparr>) \<and> Q (s_os s') \<and> s_storage s' = root"
proof -
  let ?s = "sv_session (with_os os (o_server ob))"
  have "in_storage root ?s Q ?s" using q by (simp add: in_storage_def)
  from run_input_stays [OF C this x] have s': "in_storage root (releaseFastBuffer ?s) Q s'" "str_input t' = rest" by simp_all
  then have e: "evolves (releaseFastBuffer ?s) s'" by (simp add: in_storage_def)
  have f: "s_writeStreams s' = []" "\<not> s_conn s'" "s_connErrLock s'" "s_fastBuffers s' = s_fastBuffers (obj_session ob) + 1"
      "\<not> s_writeLock s'" "distinct (map fst (s_fds s'))" "s_cancelled s'"
    using e st unfolding evolves_def stopping_def with_os_def releaseFastBuffer_def server_inv_def by auto
  have h: "held_buffers ((o_server ob)\<lparr>sv_session := s'\<rparr>) = held_buffers (o_server ob)"
    using f(1) st by (simp add: held_buffers_def stopping_def)
  have "s_fastBuffers s' + held_buffers (o_server ob) + queued (xs @ (m, t') # ys) \<le> sessionFastBuffer"
    using st p s'(2) f(4) by (simp add: queued_def stopping_def)
  moreover have "server_inv ((o_server ob)\<lparr>sv_session := s'\<rparr>)"
    using f h st calculation unfolding server_inv_def stopping_def by (simp add: cmdGroup_size_def)
  ultimately show ?thesis
    using f h s'(1) by (simp add: stopping_def in_storage_def)
qed

lemma drained_stopping:
  assumes "stopping ob" and "o_streams ob = xs @ (m, t) # ys"
  shows "stopping (ob\<lparr>o_streams := xs @ ys\<rparr>)"
  using assms by (simp add: stopping_def queued_def)

lemma clearFDs_phase:
  "asleep ob \<Longrightarrow> asleep (ob\<lparr>o_server := (with_os os (o_server ob))\<lparr>sv_session := clearFDs S (sv_session (with_os os (o_server ob)))\<rparr>\<rparr>)"
  "awake ob \<Longrightarrow> awake (ob\<lparr>o_server := (with_os os (o_server ob))\<lparr>sv_session := clearFDs S (sv_session (with_os os (o_server ob)))\<rparr>\<rparr>)"
  "stopping ob \<Longrightarrow> stopping (ob\<lparr>o_server := (with_os os (o_server ob))\<lparr>sv_session := clearFDs S (sv_session (with_os os (o_server ob)))\<rparr>\<rparr>)"
  by (auto simp: asleep_def awake_def stopping_def clearFDs_def with_os_def server_inv_def held_buffers_def cmdGroup_size_def)

lemma clearFDs_keeps:
  assumes "\<And>fd. fd_ops_keep Q S fd" and "Q os"
  shows "Q (fold (closeSFD S \<circ> snd) fds os)"
  using assms(2)
proof (induction fds arbitrary: os)
  case (Cons x fds)
  have "keeps Q (sys_Close S (snd x))" using assms(1) [of "snd x"] by (simp add: fd_ops_keep_def)
  then have "Q (closeSFD S (snd x) os)" using Cons.prems unfolding closeSFD_def by (rule keeps_fst)
  then show ?case using Cons.IH by simp
qed simp

section \<open>The invariant\<close>

text \<open>The object whose lock a thread holds, the object it has a pointer to, and its user.\<close>

fun owned :: "thread \<Rightarrow> nat option" where
  "owned (Upgrade user p) = Some p"
| "owned (Running user p) = Some p"
| "owned (Waiting user p) = Some p"
| "owned (Deleting user p) = Some p"
| "owned (Removing user p) = Some p"
| "owned (Unlocking user p graceful) = Some p"
| "owned (Releasing p todo seen) = Some p"
| "owned (Expiring key p todo seen) = Some p"
| "owned (Erasing key p todo seen) = Some p"
| "owned _ = None"

fun points_to :: "thread \<Rightarrow> nat option" where
  "points_to (Try user p) = Some p"
| "points_to (Visiting key p todo seen) = Some p"
| "points_to t = owned t"

fun user_of :: "thread \<Rightarrow> User option" where
  "user_of (NewId user) = Some user"
| "user_of (Placed user sid) = Some user"
| "user_of (Get user sid) = Some user"
| "user_of (Try user p) = Some user"
| "user_of (Upgrade user p) = Some user"
| "user_of (Running user p) = Some user"
| "user_of (Waiting user p) = Some user"
| "user_of (Deleting user p) = Some user"
| "user_of (Removing user p) = Some user"
| "user_of (Unlocking user p graceful) = Some user"
| "user_of _ = None"

fun in_phase :: "thread \<Rightarrow> ('os, 'ws) sessionObj \<Rightarrow> bool" where
  "in_phase (Running user p) ob \<longleftrightarrow> awake ob"
| "in_phase (Waiting user p) ob \<longleftrightarrow> stopping ob"
| "in_phase t ob \<longleftrightarrow> asleep ob"

text \<open>A session is that of some user: it has the name and the storage of that user.\<close>

definition of_user :: "User set \<Rightarrow> ('os, 'ws) sessionObj \<Rightarrow> bool" where
  "of_user U ob \<longleftrightarrow> (\<exists>user \<in> U. o_Username ob = u_Name user \<and> s_storage (obj_session ob) = Storage_Path (u_Storage user))"

text \<open>What holds of a thread that holds the lock of an object, and of an object.\<close>

definition holds_lock :: "('os, 'ws) world \<Rightarrow> thread \<Rightarrow> nat \<Rightarrow> ('os, 'ws) sessionObj \<Rightarrow> bool" where
  "holds_lock w t p ob \<longleftrightarrow> o_Lock ob \<and> p \<notin> w_retired w \<and> in_phase t ob \<and> (\<forall>user. user_of t = Some user \<longrightarrow> u_Name user = o_Username ob)"

definition obj_inv :: "User set \<Rightarrow> ('os, 'ws) world \<Rightarrow> nat \<Rightarrow> ('os, 'ws) sessionObj \<Rightarrow> bool" where
  "obj_inv U w p ob \<longleftrightarrow> of_user U ob
     \<and> (\<forall>i. owned (w_threads w i) = Some p \<longrightarrow> holds_lock w (w_threads w i) p ob)
     \<and> (p \<in> w_retired w \<longrightarrow> o_Lock ob \<and> asleep ob) \<and> (\<not> o_Lock ob \<longrightarrow> asleep ob)"

definition world_inv :: "User set \<Rightarrow> ('os \<Rightarrow> bool) \<Rightarrow> ('os, 'ws) world \<Rightarrow> bool" where
  "world_inv U Q w \<longleftrightarrow> Q (w_os w)
     \<and> (\<forall>i j p. owned (w_threads w i) = Some p \<longrightarrow> owned (w_threads w j) = Some p \<longrightarrow> i = j)
     \<and> (\<forall>i p. points_to (w_threads w i) = Some p \<longrightarrow> w_objs w p \<noteq> None)
     \<and> (\<forall>sid p. w_sessions w sid = Some (Some p) \<longrightarrow> w_objs w p \<noteq> None)
     \<and> (\<forall>i user. user_of (w_threads w i) = Some user \<longrightarrow> user \<in> U)
     \<and> (\<forall>p ob. w_objs w p = Some ob \<longrightarrow> obj_inv U w p ob)
     \<and> (\<forall>p \<in> w_retired w. w_objs w p \<noteq> None)"

lemma world_invD:
  assumes "world_inv U Q w"
  shows "Q (w_os w)"
    and "owned (w_threads w i) = Some p \<Longrightarrow> owned (w_threads w j) = Some p \<Longrightarrow> i = j"
    and "points_to (w_threads w i) = Some p \<Longrightarrow> \<exists>ob. w_objs w p = Some ob"
    and "w_sessions w sid = Some (Some p) \<Longrightarrow> \<exists>ob. w_objs w p = Some ob"
    and "user_of (w_threads w i) = Some user \<Longrightarrow> user \<in> U"
    and "w_objs w p = Some ob \<Longrightarrow> of_user U ob"
    and "w_objs w p = Some ob \<Longrightarrow> owned (w_threads w i) = Some p \<Longrightarrow> holds_lock w (w_threads w i) p ob"
    and "w_objs w p = Some ob \<Longrightarrow> p \<in> w_retired w \<Longrightarrow> o_Lock ob \<and> asleep ob"
    and "w_objs w p = Some ob \<Longrightarrow> \<not> o_Lock ob \<Longrightarrow> asleep ob"
    and "p \<in> w_retired w \<Longrightarrow> w_objs w p \<noteq> None"
  using assms by (auto simp: world_inv_def obj_inv_def)

lemma world_invI:
  assumes "Q (w_os w)"
    and "\<And>i j p. owned (w_threads w i) = Some p \<Longrightarrow> owned (w_threads w j) = Some p \<Longrightarrow> i = j"
    and "\<And>i p. points_to (w_threads w i) = Some p \<Longrightarrow> \<exists>ob. w_objs w p = Some ob"
    and "\<And>sid p. w_sessions w sid = Some (Some p) \<Longrightarrow> \<exists>ob. w_objs w p = Some ob"
    and "\<And>i user. user_of (w_threads w i) = Some user \<Longrightarrow> user \<in> U"
    and "\<And>p ob. w_objs w p = Some ob \<Longrightarrow> obj_inv U w p ob"
    and "\<And>p. p \<in> w_retired w \<Longrightarrow> w_objs w p \<noteq> None"
  shows "world_inv U Q w"
  using assms unfolding world_inv_def by auto

lemma owned_points_to: "owned t = Some p \<Longrightarrow> points_to t = Some p"
  by (cases t) simp_all

lemma goto_simps [simp]:
  "w_os (goto i t w) = w_os w" "w_objs (goto i t w) = w_objs w" "w_sessions (goto i t w) = w_sessions w"
  "w_threads (goto i t w) = (w_threads w)(i := t)" "w_retired (goto i t w) = w_retired w" "w_drawn (goto i t w) = w_drawn w"
  by (simp_all add: goto_def)

lemma put_obj_simps [simp]:
  "w_os (put_obj p ob w) = w_os w" "w_objs (put_obj p ob w) = (w_objs w)(p \<mapsto> ob)" "w_sessions (put_obj p ob w) = w_sessions w"
  "w_threads (put_obj p ob w) = w_threads w" "w_retired (put_obj p ob w) = w_retired w" "w_drawn (put_obj p ob w) = w_drawn w"
  by (simp_all add: put_obj_def)

lemma put_server_simps [simp]:
  "w_os (put_server p ob sv w) = s_os (sv_session sv)" "w_objs (put_server p ob sv w) = (w_objs w)(p \<mapsto> ob\<lparr>o_server := sv\<rparr>)"
  "w_sessions (put_server p ob sv w) = w_sessions w" "w_threads (put_server p ob sv w) = w_threads w"
  "w_retired (put_server p ob sv w) = w_retired w" "w_drawn (put_server p ob sv w) = w_drawn w"
  by (simp_all add: put_server_def)

lemma delSession_delete_simps [simp]:
  "w_os (delSession_delete sid w) = w_os w" "w_objs (delSession_delete sid w) = w_objs w"
  "w_sessions (delSession_delete sid w) = (w_sessions w)(sid := None)"
  "w_threads (delSession_delete sid w) = w_threads w" "w_retired (delSession_delete sid w) = w_retired w"
  by (simp_all add: delSession_delete_def)

text \<open>A thread moves on without touching an object or giving up a lock.\<close>

lemma world_inv_move:
  fixes w w' :: "('os, 'ws) world"
  assumes i: "world_inv U Q w" and o1: "owned t = owned (w_threads w i)"
    and u: "\<And>user. user_of t = Some user \<Longrightarrow> user \<in> U \<and> (owned t \<noteq> None \<longrightarrow> user_of (w_threads w i) = Some user)"
    and q: "\<And>p. points_to t = Some p \<Longrightarrow> \<exists>ob. w_objs w p = Some ob"
    and ph: "\<And>ob :: ('os, 'ws) sessionObj. owned t \<noteq> None \<Longrightarrow> in_phase (w_threads w i) ob \<Longrightarrow> in_phase t ob"
    and s: "\<And>sid p. w_sessions w' sid = Some (Some p) \<Longrightarrow> w_sessions w sid = Some (Some p)"
    and w': "w_os w' = w_os w" "w_objs w' = w_objs w" "w_threads w' = (w_threads w)(i := t)" "w_retired w' = w_retired w"
  shows "world_inv U Q w'"
proof (rule world_invI, goal_cases)
  case 1
  then show ?case using world_invD(1) [OF i] w' by simp
next
  case (2 j k p)
  then have "owned (w_threads w j) = Some p" "owned (w_threads w k) = Some p" unfolding w' by (simp_all add: fun_upd_apply o1 split: if_split_asm)
  then show ?case by (rule world_invD(2) [OF i])
next
  case (3 j p)
  then show ?case using world_invD(3) [OF i] q unfolding w' by (auto split: if_splits)
next
  case (4 sid p)
  then show ?case using world_invD(4) [OF i] s unfolding w' by blast
next
  case (5 j user)
  then show ?case using world_invD(5) [OF i] u unfolding w' by (auto split: if_splits)
next
  case (6 p ob)
  then have ob: "w_objs w p = Some ob" unfolding w' by simp
  have "holds_lock w' (w_threads w' j) p ob" if "owned (w_threads w' j) = Some p" for j
  proof (cases "j = i")
    case True
    then have t: "owned t = Some p" using that unfolding w' by simp
    then have h: "holds_lock w (w_threads w i) p ob" using world_invD(7) [OF i ob, of i] o1 by simp
    have "in_phase t ob" using ph [of ob] t h by (simp add: holds_lock_def)
    moreover have "u_Name user = o_Username ob" if "user_of t = Some user" for user
      using u [OF that] t h by (simp add: holds_lock_def)
    ultimately show ?thesis using True h unfolding holds_lock_def w' by simp
  next
    case False
    then show ?thesis using world_invD(7) [OF i ob, of j] that unfolding holds_lock_def w' by simp
  qed
  then show ?case using world_invD(6,8,9) [OF i ob] unfolding obj_inv_def w' by simp
next
  case (7 p)
  then show ?case using world_invD(10) [OF i] unfolding w' by simp
qed

text \<open>A thread changes an object whose lock it holds, or takes, or gives back.\<close>

lemma world_inv_change:
  assumes i: "world_inv U Q w" and p: "w_objs w p = Some ob" and free: "owned (w_threads w i) = Some p \<or> owned (w_threads w i) = None \<and> \<not> o_Lock ob"
    and ob': "of_user U ob'" "o_Username ob' = o_Username ob" and os: "Q (w_os w')"
    and t: "owned t = Some p \<and> o_Lock ob' \<and> in_phase t ob' \<and> (\<forall>user. user_of t = Some user \<longrightarrow> u_Name user = o_Username ob)
      \<or> owned t = None \<and> asleep ob'"
    and q: "points_to t = None \<or> points_to t = Some p" and u: "\<And>user. user_of t = Some user \<Longrightarrow> user \<in> U"
    and s: "\<And>sid p. w_sessions w' sid = Some (Some p) \<Longrightarrow> w_sessions w sid = Some (Some p)"
    and w': "w_objs w' = (w_objs w)(p \<mapsto> ob')" "w_threads w' = (w_threads w)(i := t)" "w_retired w' = w_retired w"
  shows "world_inv U Q w'"
proof -
  have other: "owned (w_threads w j) \<noteq> Some p" if "j \<noteq> i" for j
    using free that world_invD(2) [OF i, of i p j] world_invD(7) [OF i p, of j] by (auto simp: holds_lock_def)
  have r: "p \<notin> w_retired w"
    using free world_invD(7) [OF i p, of i] world_invD(8) [OF i p] by (auto simp: holds_lock_def)
  show ?thesis
  proof (rule world_invI, goal_cases)
    case 1
    show ?case by (rule os)
  next
    case (2 j k x)
    then show ?case using world_invD(2) [OF i] other t unfolding w' by (auto split: if_splits)
  next
    case (3 j x)
    then show ?case using world_invD(3) [OF i] q unfolding w' by (auto split: if_splits)
  next
    case (4 sid x)
    then show ?case using world_invD(4) [OF i] s unfolding w' by (metis fun_upd_apply)
  next
    case (5 j user)
    then show ?case using world_invD(5) [OF i] u unfolding w' by (auto split: if_splits)
  next
    case (6 x b)
    show ?case
    proof (cases "x = p")
      case True
      then have b: "b = ob'" using 6 unfolding w' by simp
      have "holds_lock w' (w_threads w' j) p ob'" if "owned (w_threads w' j) = Some p" for j
        using that other [of j] t ob'(2) r unfolding w' holds_lock_def by (auto split: if_splits)
      moreover have "\<not> o_Lock ob' \<longrightarrow> asleep ob'" using t by auto
      ultimately show ?thesis using r ob'(1) True unfolding obj_inv_def b w' by simp
    next
      case False
      then have b: "w_objs w x = Some b" using 6 unfolding w' by simp
      have "holds_lock w' (w_threads w' j) x b" if "owned (w_threads w' j) = Some x" for j
        using that t False world_invD(7) [OF i b, of j] unfolding w' holds_lock_def by (auto split: if_splits)
      then show ?thesis using world_invD(6,8,9) [OF i b] unfolding obj_inv_def w' by simp
    qed
  next
    case (7 x)
    then show ?case using world_invD(10) [OF i, of x] unfolding w' by simp
  qed
qed

lemma in_phase_mono:
  assumes "asleep ob \<Longrightarrow> asleep ob'" and "awake ob \<Longrightarrow> awake ob'" and "stopping ob \<Longrightarrow> stopping ob'" and "in_phase t ob"
  shows "in_phase t ob'"
  using assms by (cases t) simp_all

text \<open>Clearing the descriptors of a session leaves every object in its phase, whoever uses it.\<close>

lemma world_inv_clear:
  assumes i: "world_inv U Q w" and k: "\<And>fd. fd_ops_keep Q S fd"
  shows "world_inv U Q (delSession_clear S sid w)"
proof (cases "getSession sid w")
  case None
  then show ?thesis using i by (simp add: delSession_clear_def)
next
  case (Some q)
  then have "w_sessions w sid = Some (Some q)" by (auto simp: getSession_def split: option.splits)
  then obtain ob where ob: "w_objs w q = Some ob" using world_invD(4) [OF i] by blast
  let ?sv = "(with_os (w_os w) (o_server ob))\<lparr>sv_session := clearFDs S (sv_session (with_os (w_os w) (o_server ob)))\<rparr>"
  let ?ob = "ob\<lparr>o_server := ?sv\<rparr>"
  have w': "delSession_clear S sid w = put_server q ob ?sv w" using Some ob by (simp add: delSession_clear_def)
  note phase = clearFDs_phase [where ob = ob and os = "w_os w" and S = S]
  have same: "of_user U ?ob \<longleftrightarrow> of_user U ob" "o_Lock ?ob = o_Lock ob" "o_Username ?ob = o_Username ob"
    by (simp_all add: of_user_def clearFDs_def)
  have holds: "holds_lock w' t q ?ob" if "holds_lock w t q ob" "w_retired w' = w_retired w" for t and w' :: "('a, 'b) world"
    using that in_phase_mono [OF phase] same by (auto simp: holds_lock_def)
  show ?thesis
    unfolding w'
  proof (rule world_invI, goal_cases)
    case 1
    then show ?case using clearFDs_keeps [OF k world_invD(1) [OF i]] by (simp add: clearFDs_def)
  next
    case (2 j l x)
    then show ?case using world_invD(2) [OF i] by simp
  next
    case (3 j x)
    then show ?case using world_invD(3) [OF i, of j x] by simp
  next
    case (4 sid' x)
    then show ?case using world_invD(4) [OF i, of sid' x] by simp
  next
    case (5 j user)
    then show ?case using world_invD(5) [OF i, of j] by simp
  next
    case (6 x b)
    show ?case
    proof (cases "x = q")
      case True
      then have b: "b = ?ob" using 6 by simp
      have "holds_lock (put_server q ob ?sv w) (w_threads w j) q ?ob" if "owned (w_threads w j) = Some q" for j
        by (rule holds [OF world_invD(7) [OF i ob that]]) simp
      moreover have "o_Lock ob \<longrightarrow> o_Lock ?ob" "asleep ob \<longrightarrow> asleep ?ob" using phase(1) by simp_all
      ultimately show ?thesis
        using True world_invD(6,8,9) [OF i ob] same(1,2) unfolding obj_inv_def b by (simp del: put_server_simps(1,2))
    next
      case False
      then have "obj_inv U w x b" using 6 i unfolding world_inv_def by simp
      then show ?thesis by (simp add: obj_inv_def holds_lock_def)
    qed
  next
    case (7 x)
    then show ?case using world_invD(10) [OF i, of x] by simp
  qed
qed

lemma delSession_clear_simps [simp]:
  "w_threads (delSession_clear S sid w) = w_threads w" "w_sessions (delSession_clear S sid w) = w_sessions w"
  "w_retired (delSession_clear S sid w) = w_retired w" "w_drawn (delSession_clear S sid w) = w_drawn w"
  by (simp_all add: delSession_clear_def Let_def split: option.splits)

lemma delSession_clear_dom: "w_objs w p \<noteq> None \<Longrightarrow> w_objs (delSession_clear S sid w) p \<noteq> None"
  by (auto simp: delSession_clear_def Let_def split: option.splits)

section \<open>Every step keeps the invariant\<close>

lemma of_user_same:
  "of_user U ob \<Longrightarrow> o_Username ob' = o_Username ob \<Longrightarrow> s_storage (obj_session ob') = s_storage (obj_session ob) \<Longrightarrow> of_user U ob'"
  by (simp add: of_user_def)

lemma getSession_SomeD: "getSession sid w = Some p \<Longrightarrow> w_sessions w sid = Some (Some p)"
  by (auto simp: getSession_def split: option.splits)

lemma world_inv_store:
  assumes i: "world_inv U Q w" and t: "w_threads w i = Placed user sid" and p: "w_objs w p = None"
  shows "world_inv U Q (goto i (Get user sid) (put_obj p (newObj sid user fsIds featureOpts ws (w_os w))
      (w\<lparr>w_sessions := (w_sessions w)(sid \<mapsto> Some p)\<rparr>)))" (is "world_inv U Q ?w")
proof (rule world_invI, goal_cases)
  case 1
  then show ?case using world_invD(1) [OF i] by simp
next
  case (2 j k x)
  then show ?case using world_invD(2) [OF i] by (auto split: if_splits)
next
  case (3 j x)
  then show ?case using world_invD(3) [OF i] by (auto split: if_splits)
next
  case (4 sid' x)
  then show ?case using world_invD(4) [OF i] by (auto split: if_splits)
next
  case (5 j u)
  then show ?case using world_invD(5) [OF i] world_invD(5) [OF i, of i] t by (auto split: if_splits)
next
  case (6 x b)
  show ?case
  proof (cases "x = p")
    case True
    then have b: "b = newObj sid user fsIds featureOpts ws (w_os w)" using 6 by simp
    have no: "owned (w_threads w j) \<noteq> Some p" for j using world_invD(3) [OF i, of j p] owned_points_to p by fastforce
    have r: "p \<notin> w_retired w" using world_invD(10) [OF i, of p] p by blast
    have "of_user U b" using world_invD(5) [OF i, of i user] t by (auto simp: b of_user_def newObj_def newSession_def)
    then show ?thesis using True no newObj_asleep r by (auto simp: obj_inv_def b)
  next
    case False
    then have "w_objs w x = Some b" using 6 by simp
    then have "obj_inv U w x b" using i unfolding world_inv_def by simp
    then show ?thesis by (auto simp: obj_inv_def holds_lock_def)
  qed
next
  case (7 x)
  then show ?case using world_invD(10) [OF i, of x] by simp
qed

lemma request_step_inv:
  assumes i: "world_inv U Q w" and x: "request_step U src n w w'"
  shows "world_inv U Q w'"
  using x
proof cases
  case (create user)
  then show ?thesis by (intro world_inv_move [OF i, where i = n and t = "NewId user"]) simp_all
next
  case (resume user sid)
  then show ?thesis by (intro world_inv_move [OF i, where i = n and t = "Get user sid"]) simp_all
next
  case (no_id user)
  then show ?thesis by (intro world_inv_move [OF i, where i = n and t = "Finished 500"]) simp_all
next
  case (taken user)
  then show ?thesis
    using world_invD(5) [OF i, of n user] by (intro world_inv_move [OF i, where i = n and t = "NewId user"]) auto
next
  case (reserve user)
  then show ?thesis
    using world_invD(5) [OF i, of n user]
    by (intro world_inv_move [OF i, where i = n and t = "Placed user (src (w_drawn w))"]) (auto split: if_splits)
next
  case (store user sid p fsIds featureOpts ws)
  show ?thesis unfolding store(1) by (rule world_inv_store [OF i store(2,3)])
next
  case (unknown user sid)
  then show ?thesis by (intro world_inv_move [OF i, where i = n and t = "Finished 400"]) simp_all
next
  case (known user sid p)
  then show ?thesis
    using world_invD(5) [OF i, of n user] world_invD(4) [OF i, of sid p] getSession_SomeD
    by (intro world_inv_move [OF i, where i = n and t = "Try user p"]) auto
next
  case (other_user user p ob)
  then show ?thesis by (intro world_inv_move [OF i, where i = n and t = "Finished 400"]) simp_all
next
  case (busy user p ob)
  then show ?thesis by (intro world_inv_move [OF i, where i = n and t = "Finished 412"]) simp_all
next
  case (lock user p ob)
  have "asleep (ob\<lparr>o_Lock := True\<rparr>)" using world_invD(9) [OF i lock(3,5)] by (simp add: asleep_def)
  then show ?thesis
    using lock world_invD(1) [OF i] world_invD(5) [OF i, of n user] world_invD(6) [OF i lock(3)]
    by (intro world_inv_change [OF i lock(3), where i = n and t = "Upgrade user p" and ob' = "ob\<lparr>o_Lock := True\<rparr>"])
      (auto simp: of_user_def)
next
  case (refuse user p ob)
  have "asleep (ob\<lparr>o_Lock := False\<rparr>)"
    using world_invD(7) [OF i refuse(3), of n] refuse(2) by (simp add: asleep_def holds_lock_def)
  then show ?thesis
    using refuse world_invD(1) [OF i] world_invD(6) [OF i refuse(3)]
    by (intro world_inv_change [OF i refuse(3), where i = n and t = "Finished 0" and ob' = "ob\<lparr>o_Lock := False\<rparr>"])
      (auto simp: of_user_def)
next
  case (upgrade user p ob conn)
  have h: "holds_lock w (Upgrade user p) p ob" using world_invD(7) [OF i upgrade(3), of n] upgrade(2) by simp
  then have "awake (takeConn conn ob)" by (intro takeConn_awake) (simp add: holds_lock_def)
  then show ?thesis
    using upgrade world_invD(1) [OF i] world_invD(5) [OF i, of n user] world_invD(6) [OF i upgrade(3)] h
    by (intro world_inv_change [OF i upgrade(3), where i = n and t = "Running user p" and ob' = "takeConn conn ob"])
      (auto simp: of_user_def takeConn_def holds_lock_def)
qed

text \<open>What the users of the server must satisfy: storages are clean roots and the disk property is kept inside each.\<close>

definition users_confined :: "User set \<Rightarrow> ('os \<Rightarrow> bool) \<Rightarrow> 'os sys \<Rightarrow> bool" where
  "users_confined U Q S \<longleftrightarrow> (\<forall>fd. fd_ops_keep Q S fd)
     \<and> (\<forall>user \<in> U. storage_root (Storage_Path (u_Storage user)) \<and> os_confined (Storage_Path (u_Storage user)) Q S)"

lemma of_user_root:
  assumes "users_confined U Q S" and "of_user U ob"
  obtains root where "s_storage (obj_session ob) = root" and "os_confined root Q S" and "root = [] \<or> IsUrlValid root"
  using assms that by (auto simp: users_confined_def of_user_def storage_root_def)

lemma conn_step_inv:
  assumes C: "users_confined U Q (E_sys E)" and i: "world_inv U Q w" and x: "conn_step E cs n w w'"
  shows "world_inv U Q w'"
  using x
proof cases
  case (arrive user p ob msg)
  have h: "holds_lock w (Running user p) p ob" using world_invD(7) [OF i arrive(3), of n] arrive(2) by simp
  let ?ob = "ob\<lparr>o_server := (o_server ob)\<lparr>sv_inbox := sv_inbox (o_server ob) @ [msg]\<rparr>\<rparr>"
  have "awake ?ob" using h by (simp add: holds_lock_def awake_def)
  then show ?thesis
    using arrive world_invD(1) [OF i] world_invD(5) [OF i, of n user] world_invD(6) [OF i arrive(3)] h
    by (intro world_inv_change [OF i arrive(3), where i = n and t = "Running user p" and ob' = ?ob])
      (auto simp: of_user_def holds_lock_def)
next
  case (serve user p ob sv')
  have h: "holds_lock w (Running user p) p ob" using world_invD(7) [OF i serve(3), of n] serve(2) by simp
  obtain root where r: "s_storage (obj_session ob) = root" "os_confined root Q (E_sys E)" "root = [] \<or> IsUrlValid root"
    using of_user_root [OF C world_invD(6) [OF i serve(3)]] .
  have "sv_ok root Q (with_os (w_os w) (o_server ob))"
    using h world_invD(1) [OF i] r(1) by (simp add: holds_lock_def awake_def sv_ok_def)
  from server_step_ok [OF r(2,3) serve(4) this] have sv': "server_inv sv'" "Q (s_os (sv_session sv'))" "s_storage (sv_session sv') = root"
    by (simp_all add: sv_ok_def)
  then show ?thesis
    using serve world_invD(5) [OF i, of n user] world_invD(6) [OF i serve(3)] h r(1)
    by (intro world_inv_change [OF i serve(3), where i = n and t = "Running user p" and ob' = "ob\<lparr>o_server := sv'\<rparr>"])
      (auto simp: of_user_def holds_lock_def awake_def)
next
  case (broken user p ob sv' err ob')
  have h: "holds_lock w (Running user p) p ob" using world_invD(7) [OF i broken(3), of n] broken(2) by simp
  have b: "sv_stopConn_begin cs (E_ws E) (ob\<lparr>o_server := (o_server ob)\<lparr>sv_session := setConnErr err (obj_session ob)\<rparr>\<rparr>) = Some ob'"
    using broken(4,5) by simp
  have s: "stopping ob' \<and> o_Lock ob' = o_Lock ob \<and> o_Id ob' = o_Id ob \<and> o_Username ob' = o_Username ob
      \<and> s_storage (obj_session ob') = s_storage (obj_session ob)"
    by (rule sv_stopConn_begin_stopping [OF _ b]) (use h in \<open>simp add: holds_lock_def awake_def\<close>)
  then show ?thesis
    using broken(1-3) world_invD(1) [OF i] world_invD(5) [OF i, of n user] of_user_same [OF world_invD(6) [OF i broken(3)], of ob'] h
    by (intro world_inv_change [OF i broken(3), where i = n and t = "Waiting user p" and ob' = ob'])
      (auto simp: holds_lock_def)
next
  case (malformed user p ob msg rest r err sv' ob')
  have h: "holds_lock w (Running user p) p ob" using world_invD(7) [OF i malformed(3), of n] malformed(2) by simp
  have "sv_ok (s_storage (obj_session ob)) Q (with_os (w_os w) ((o_server ob)\<lparr>sv_inbox := rest\<rparr>))"
    using h world_invD(1) [OF i] by (simp add: holds_lock_def awake_def sv_ok_def)
  from dispatchCommand_ok [OF this malformed(7)] have sv': "server_inv sv'" "Q (s_os (sv_session sv'))"
      "s_storage (sv_session sv') = s_storage (obj_session ob)"
    by (simp_all add: sv_ok_def)
  have s: "stopping ob' \<and> o_Lock ob' = o_Lock ob \<and> o_Id ob' = o_Id ob \<and> o_Username ob' = o_Username ob
      \<and> s_storage (obj_session ob') = s_storage (obj_session ob)"
    using sv_stopConn_begin_stopping [of "ob\<lparr>o_server := sv'\<rparr>" cs "E_ws E" err ob'] malformed(8) sv'(1,3) by simp
  then show ?thesis
    using malformed(1-3) sv'(2) world_invD(5) [OF i, of n user] of_user_same [OF world_invD(6) [OF i malformed(3)], of ob'] h
    by (intro world_inv_change [OF i malformed(3), where i = n and t = "Waiting user p" and ob' = ob'])
      (auto simp: holds_lock_def)
next
  case (job user p ob xs m c ys s')
  have h: "holds_lock w (Waiting user p) p ob" using world_invD(7) [OF i job(3), of n] job(2) by simp
  obtain root where r: "s_storage (obj_session ob) = root" "os_confined root Q (E_sys E)" "root = [] \<or> IsUrlValid root"
    using of_user_root [OF C world_invD(6) [OF i job(3)]] .
  let ?ob = "ob\<lparr>o_server := (o_server ob)\<lparr>sv_session := s', sv_pending := xs @ ys\<rparr>\<rparr>"
  have "stopping ob" using h by (simp add: holds_lock_def)
  from job_stopping [where os = "w_os w", OF r(2,3) this world_invD(1) [OF i] r(1) job(4,5)]
  have s: "stopping ?ob" "Q (s_os s')" "s_storage s' = root" by simp_all
  then show ?thesis
    using job(1-3) world_invD(5) [OF i, of n user] of_user_same [OF world_invD(6) [OF i job(3)], of ?ob] h r(1)
    by (intro world_inv_change [OF i job(3), where i = n and t = "Waiting user p" and ob' = ?ob])
      (auto simp: holds_lock_def)
next
  case (drain user p ob xs m st ys msg rest st' s')
  have h: "holds_lock w (Waiting user p) p ob" using world_invD(7) [OF i drain(3), of n] drain(2) by simp
  obtain root where r: "s_storage (obj_session ob) = root" "os_confined root Q (E_sys E)" "root = [] \<or> IsUrlValid root"
    using of_user_root [OF C world_invD(6) [OF i drain(3)]] .
  let ?ob = "ob\<lparr>o_streams := xs @ (m, st') # ys, o_server := (o_server ob)\<lparr>sv_session := s'\<rparr>\<rparr>"
  have "stopping ob" using h by (simp add: holds_lock_def)
  from drain_stopping [where os = "w_os w", OF r(2) this world_invD(1) [OF i] r(1) drain(4,6,7)]
  have s: "stopping ?ob" "Q (s_os s')" "s_storage s' = root" by simp_all
  then show ?thesis
    using drain(1-3) world_invD(5) [OF i, of n user] of_user_same [OF world_invD(6) [OF i drain(3)], of ?ob] h r(1)
    by (intro world_inv_change [OF i drain(3), where i = n and t = "Waiting user p" and ob' = ?ob])
      (auto simp: holds_lock_def)
next
  case (drained user p ob xs m st ys)
  have h: "holds_lock w (Waiting user p) p ob" using world_invD(7) [OF i drained(3), of n] drained(2) by simp
  let ?ob = "ob\<lparr>o_streams := xs @ ys\<rparr>"
  have "stopping ?ob" by (rule drained_stopping [OF _ drained(4)]) (use h in \<open>simp add: holds_lock_def\<close>)
  then show ?thesis
    using drained(1-3) world_invD(1) [OF i] world_invD(5) [OF i, of n user] of_user_same [OF world_invD(6) [OF i drained(3)], of ?ob] h
    by (intro world_inv_change [OF i drained(3), where i = n and t = "Waiting user p" and ob' = ?ob])
      (auto simp: holds_lock_def)
next
  case (waited user p ob ob')
  have h: "holds_lock w (Waiting user p) p ob" using world_invD(7) [OF i waited(3), of n] waited(2) by simp
  let ?t = "if gracefulClose cs (obj_session ob) then Deleting user p else Unlocking user p False"
  have s: "asleep ob' \<and> o_Lock ob' = o_Lock ob \<and> o_Id ob' = o_Id ob \<and> o_Username ob' = o_Username ob
      \<and> s_storage (obj_session ob') = s_storage (obj_session ob)"
    by (rule waited_asleep [OF _ waited(4-6)]) (use h in \<open>simp add: holds_lock_def\<close>)
  then show ?thesis
    using waited(1-3) world_invD(1) [OF i] world_invD(5) [OF i, of n user] of_user_same [OF world_invD(6) [OF i waited(3)], of ob'] h
    by (intro world_inv_change [OF i waited(3), where i = n and t = ?t and ob' = ob'])
      (auto simp: holds_lock_def split: if_splits)
next
  case (clear user p ob)
  let ?w = "delSession_clear (E_sys E) (o_Id ob) w"
  have inv: "world_inv U Q ?w" by (rule world_inv_clear [OF i]) (use C in \<open>simp add: users_confined_def\<close>)
  have "w_objs ?w p \<noteq> None" by (rule delSession_clear_dom) (simp add: clear(3))
  then obtain ob' where ob': "w_objs ?w p = Some ob'" by blast
  show ?thesis
    unfolding clear(1)
    by (rule world_inv_move [OF inv, where i = n and t = "Removing user p"])
      (use clear(2) ob' world_invD(5) [OF i, of n user] in simp_all)
next
  case (remove user p ob)
  then show ?thesis
    using world_invD(5) [OF i, of n user]
    by (intro world_inv_move [OF i, where i = n and t = "Unlocking user p True"]) (auto split: if_splits)
next
  case (unlock user p graceful ob)
  have h: "holds_lock w (Unlocking user p graceful) p ob" using world_invD(7) [OF i unlock(3), of n] unlock(2) by simp
  let ?ob = "sv_stopConn_end graceful ob"
  have "asleep ?ob" "o_Username ?ob = o_Username ob" "s_storage (obj_session ?ob) = s_storage (obj_session ob)"
    using h by (simp_all add: holds_lock_def asleep_def sv_stopConn_end_def)
  then show ?thesis
    using unlock(1-3) world_invD(1) [OF i] of_user_same [OF world_invD(6) [OF i unlock(3)], of ?ob]
    by (intro world_inv_change [OF i unlock(3), where i = n and t = "Finished 101" and ob' = ?ob]) auto
qed

lemma collect_step_inv:
  assumes k: "\<And>fd. fd_ops_keep Q (E_sys E) fd" and i: "world_inv U Q w" and x: "collect_step E n w w'"
  shows "world_inv U Q w'"
  using x
proof cases
  case scan
  then show ?thesis by (intro world_inv_move [OF i, where i = n and t = "Scanning (dom (w_sessions w)) {}"]) simp_all
next
  case (reserved todo seen key)
  then show ?thesis by (intro world_inv_move [OF i, where i = n and t = "Scanning todo (insert key seen)"]) simp_all
next
  case (visit todo seen key p)
  then show ?thesis
    using world_invD(4) [OF i, of key p]
    by (intro world_inv_move [OF i, where i = n and t = "Visiting key p todo (insert key seen)"]) auto
next
  case (in_use key p todo seen ob)
  then show ?thesis by (intro world_inv_move [OF i, where i = n and t = "Scanning todo seen"]) simp_all
next
  case (count key p todo seen ob m)
  let ?ob = "ob\<lparr>o_Lock := True, o_inactiveCount := m\<rparr>"
  let ?t = "if m \<ge> sessionInactiveMaxCount then Expiring key p todo seen else Releasing p todo seen"
  have "asleep ?ob" using world_invD(9) [OF i count(3,4)] by (simp add: asleep_def)
  then show ?thesis
    using count world_invD(1) [OF i] of_user_same [OF world_invD(6) [OF i count(3)], of ?ob]
    by (intro world_inv_change [OF i count(3), where i = n and t = ?t and ob' = ?ob]) (auto split: if_splits)
next
  case (release p todo seen ob)
  let ?ob = "ob\<lparr>o_Lock := False\<rparr>"
  have "asleep ?ob" using world_invD(7) [OF i release(3), of n] release(2) by (simp add: asleep_def holds_lock_def)
  then show ?thesis
    using release world_invD(1) [OF i] of_user_same [OF world_invD(6) [OF i release(3)], of ?ob]
    by (intro world_inv_change [OF i release(3), where i = n and t = "Scanning todo seen" and ob' = ?ob]) auto
next
  case (expire key p todo seen)
  let ?w = "delSession_clear (E_sys E) key w"
  have inv: "world_inv U Q ?w" by (rule world_inv_clear [OF i k])
  obtain ob where "w_objs w p = Some ob" using world_invD(3) [OF i, of n p] expire(2) by auto
  then have "w_objs ?w p \<noteq> None" by (intro delSession_clear_dom) simp
  then obtain ob' where ob': "w_objs ?w p = Some ob'" by blast
  show ?thesis
    unfolding expire(1)
    by (rule world_inv_move [OF inv, where i = n and t = "Erasing key p todo seen"]) (use expire(2) ob' in simp_all)
next
  case (erase key p todo seen)
  obtain ob where ob: "w_objs w p = Some ob" using world_invD(3) [OF i, of n p] erase(2) by auto
  have h: "holds_lock w (Erasing key p todo seen) p ob" using world_invD(7) [OF i ob, of n] erase(2) by simp
  have other: "owned (w_threads w j) \<noteq> Some p" if "j \<noteq> n" for j
    using world_invD(2) [OF i, of n p j] erase(2) that by auto
  show ?thesis
    unfolding erase(1)
  proof (rule world_invI, goal_cases)
    case 1
    then show ?case using world_invD(1) [OF i] by simp
  next
    case (2 j l x)
    then show ?case using world_invD(2) [OF i] by (auto split: if_splits)
  next
    case (3 j x)
    then show ?case using world_invD(3) [OF i] by (auto split: if_splits)
  next
    case (4 sid x)
    then show ?case using world_invD(4) [OF i] by (auto split: if_splits)
  next
    case (5 j user)
    then show ?case using world_invD(5) [OF i] by (auto split: if_splits)
  next
    case (6 x b)
    then have b: "w_objs w x = Some b" by simp
    have "obj_inv U w x b" using i b unfolding world_inv_def by simp
    then show ?case using other h ob b by (auto simp: obj_inv_def holds_lock_def split: if_splits)
  next
    case (7 x)
    then show ?case using world_invD(10) [OF i, of x] ob by auto
  qed
next
  case (sleep todo seen)
  then show ?thesis by (intro world_inv_move [OF i, where i = n and t = Sleeping]) simp_all
qed

lemma world_start_inv: "Q os \<Longrightarrow> world_inv U Q (world_start os)"
  by (rule world_invI) (simp_all add: world_start_def split: if_splits)

lemma world_reach_inv:
  assumes C: "users_confined U Q (E_sys E)" and r: "world_reach E cs U src w w'" and i: "world_inv U Q w"
  shows "world_inv U Q w'"
  using r i
proof induction
  case (step w1 w2 w3)
  from step.hyps(2) show ?case
  proof cases
    case (request n)
    show ?thesis by (rule request_step_inv [OF step.IH [OF step.prems] request])
  next
    case (conn n)
    show ?thesis by (rule conn_step_inv [OF C step.IH [OF step.prems] conn])
  next
    case (collect n)
    show ?thesis by (rule collect_step_inv [OF _ step.IH [OF step.prems] collect]) (use C in \<open>simp add: users_confined_def\<close>)
  qed
qed

text \<open>
  (C10) Over every interleaving of any number of requests, connections and scans of the collector, from a
  server without sessions on: no two connections ever run on the same session; a connection runs only
  on a session that was created under the name of its user and on the storage of a user of that name; a running
  session satisfies the session invariant, a session that nobody holds is at rest, with no goroutine,
  no stream and no lock left over from earlier connections; and every property of the disk that
  operations inside the storages keep still holds.
\<close>

theorem sessions_isolated:
  assumes "users_confined U Q (E_sys E)" and "Q os" and "world_reach E cs U src (world_start os) w"
  shows "Q (w_os w)
    \<and> (\<forall>i j user user' p. w_threads w i = Running user p \<and> w_threads w j = Running user' p \<longrightarrow> i = j)
    \<and> (\<forall>i user p. w_threads w i = Running user p \<longrightarrow> user \<in> U \<and> (\<exists>ob. w_objs w p = Some ob \<and> server_inv (o_server ob)
         \<and> o_Username ob = u_Name user \<and> (\<exists>owner \<in> U. u_Name owner = u_Name user \<and> s_storage (obj_session ob) = Storage_Path (u_Storage owner))))
    \<and> (\<forall>p ob. w_objs w p = Some ob \<and> \<not> o_Lock ob \<longrightarrow> asleep ob)"
proof -
  have i: "world_inv U Q w" by (rule world_reach_inv [OF assms(1,3)], rule world_start_inv [where Q = Q, OF assms(2)])
  have run: "user \<in> U \<and> (\<exists>ob. w_objs w p = Some ob \<and> server_inv (o_server ob) \<and> o_Username ob = u_Name user
      \<and> (\<exists>owner \<in> U. u_Name owner = u_Name user \<and> s_storage (obj_session ob) = Storage_Path (u_Storage owner)))"
    if t: "w_threads w n = Running user p" for n user p
  proof -
    obtain ob where ob: "w_objs w p = Some ob" using world_invD(3) [OF i, of n p] t by auto
    have h: "holds_lock w (Running user p) p ob" using world_invD(7) [OF i ob, of n] t by simp
    obtain owner where "owner \<in> U" "o_Username ob = u_Name owner" "s_storage (obj_session ob) = Storage_Path (u_Storage owner)"
      using world_invD(6) [OF i ob] by (auto simp: of_user_def)
    with h ob have "\<exists>ob. w_objs w p = Some ob \<and> server_inv (o_server ob) \<and> o_Username ob = u_Name user
        \<and> (\<exists>owner \<in> U. u_Name owner = u_Name user \<and> s_storage (obj_session ob) = Storage_Path (u_Storage owner))"
      by (intro exI [of _ ob] conjI bexI [of _ owner]) (simp_all add: holds_lock_def awake_def)
    moreover have "user \<in> U" using world_invD(5) [OF i, of n user] t by simp
    ultimately show ?thesis by blast
  qed
  show ?thesis
  proof (intro conjI allI impI, goal_cases)
    case 1
    show ?case by (rule world_invD(1) [OF i])
  next
    case (2 n m user user' p)
    then show ?case using world_invD(2) [OF i, of n p m] by simp
  next
    case (3 n user p)
    show ?case by (rule conjunct1 [OF run [OF 3]])
  next
    case (4 n user p)
    show ?case by (rule conjunct2 [OF run [OF 4]])
  next
    case (5 p ob)
    then show ?case using world_invD(9) [OF i, of p ob] by blast
  qed
qed

lemma world_reach_trans: "world_reach E cs U src w w' \<Longrightarrow> world_reach E cs U src w' w'' \<Longrightarrow> world_reach E cs U src w w''"
proof -
  assume a: "world_reach E cs U src w w'" and b: "world_reach E cs U src w' w''"
  show "world_reach E cs U src w w''" using b a by induction (auto intro: world_reach.step)
qed

text \<open>A request for a new session runs through to a connection.\<close>

definition tried_world :: "(nat \<Rightarrow> string) \<Rightarrow> User \<Rightarrow> FsIds \<Rightarrow> FeatureOptions \<Rightarrow> 'ws \<Rightarrow> 'os \<Rightarrow> ('os, 'ws) world" where
  "tried_world src user ids opts ws os = \<lparr>w_os = os, w_objs = [0 \<mapsto> newObj (src 0) user ids opts ws os], w_sessions = [src 0 \<mapsto> Some 0],
     w_threads = (\<lambda>i. if i = 0 then Sleeping else Idle)(1 := Try user 0), w_drawn = 1, w_retired = {}\<rparr>"

lemma tried_world_reach:
  assumes u: "user \<in> U"
  shows "world_reach E cs U src (world_start os) (tried_world src user ids opts ws os)"
proof -
  let ?R = "world_reach E cs U src (world_start os)"
  have "?R (goto 1 (NewId user) (world_start os))"
    by (rule world_reach.step [OF world_reach.start world_step.request [OF request_step.create [OF _ u]]]) (simp add: world_start_def)
  then have "?R (goto 1 (Placed user (src 0)) ((goto 1 (NewId user) (world_start os))\<lparr>w_drawn := 1, w_sessions := [src 0 \<mapsto> None]\<rparr>))"
    by (rule world_reach.step [OF _ world_step.request [where i = 1]])
      (use request_step.reserve [of "goto 1 (NewId user) (world_start os)" 1 user src U] in \<open>simp add: world_start_def\<close>)
  then have "?R (goto 1 (Get user (src 0)) (put_obj 0 (newObj (src 0) user ids opts ws os)
      ((goto 1 (Placed user (src 0)) ((goto 1 (NewId user) (world_start os))\<lparr>w_drawn := 1, w_sessions := [src 0 \<mapsto> None]\<rparr>))\<lparr>w_sessions := [src 0 \<mapsto> Some 0]\<rparr>)))"
    by (rule world_reach.step [OF _ world_step.request [where i = 1]])
      (use request_step.store [of "goto 1 (Placed user (src 0)) ((goto 1 (NewId user) (world_start os))\<lparr>w_drawn := 1, w_sessions := [src 0 \<mapsto> None]\<rparr>)" 1 user "src 0" 0 U src ids opts ws]
        in \<open>simp add: world_start_def\<close>)
  moreover define w where "w = goto 1 (Get user (src 0)) (put_obj 0 (newObj (src 0) user ids opts ws os)
      ((goto 1 (Placed user (src 0)) ((goto 1 (NewId user) (world_start os))\<lparr>w_drawn := 1, w_sessions := [src 0 \<mapsto> None]\<rparr>))\<lparr>w_sessions := [src 0 \<mapsto> Some 0]\<rparr>))"
  ultimately have r: "?R w" by simp
  have "w_threads w 1 = Get user (src 0)" "getSession (src 0) w = Some 0" by (simp_all add: w_def getSession_def)
  then have "?R (goto 1 (Try user 0) w)" by (rule world_reach.step [OF r world_step.request [OF request_step.known]])
  moreover have "goto 1 (Try user 0) w = tried_world src user ids opts ws os"
    by (simp add: w_def tried_world_def goto_def put_obj_def world_start_def)
  ultimately show ?thesis by simp
qed

text \<open>A session at rest is taken, its connection is closed by the client, and it is destroyed and unlocked.\<close>

lemma connect_and_close:
  assumes t: "w_threads w i = Try user p" and ob: "w_objs w p = Some ob" "o_Username ob = u_Name user" "\<not> o_Lock ob" "asleep ob"
    and s: "w_sessions w (o_Id ob) = Some (Some p)" and cs: "cs (Some err) = 1000"
  shows "\<exists>w' ob'. world_reach E cs U src w w' \<and> w_threads w' = (w_threads w)(i := Finished 101)
    \<and> w_objs w' = (w_objs w)(p \<mapsto> ob') \<and> \<not> o_Lock ob' \<and> o_Username ob' = u_Name user \<and> w_sessions w' = (w_sessions w)(o_Id ob := None)"
proof -
  let ?R = "world_reach E cs U src w"
  define ob1 where "ob1 = takeConn (s_ws (obj_session ob)) (ob\<lparr>o_Lock := True\<rparr>)"
  define w1 where "w1 = goto i (Upgrade user p) (put_obj p (ob\<lparr>o_Lock := True\<rparr>) w)"
  have r1: "?R w1"
    unfolding w1_def by (rule world_reach.step [OF world_reach.start world_step.request [OF request_step.lock [OF t ob(1-3)]]])
  define w2 where "w2 = goto i (Running user p) (put_obj p (ob1) w1)"
  have r2: "?R w2"
    unfolding w2_def ob1_def
    by (rule world_reach.step [OF r1 world_step.request [OF request_step.upgrade]]) (simp_all add: w1_def)
  define sv where "sv = (o_server (ob1))\<lparr>sv_session := setConnErr err (obj_session (ob1))\<rparr>"
  obtain ob2 where ob2: "sv_stopConn_begin cs (E_ws E) ((ob1)\<lparr>o_server := sv\<rparr>) = Some ob2"
      and f2: "s_connErrLock (obj_session ob2)" "s_connErr (obj_session ob2) = Some err" "sv_pending (o_server ob2) = []" "o_streams ob2 = []"
        "o_Id ob2 = o_Id ob" "o_Username ob2 = o_Username ob"
    using ob(4) cs by (auto simp: sv_stopConn_begin_def Let_def sv_def ob1_def takeConn_def clearWriteStreams_def asleep_def setConnErr_def)
  define w3 where "w3 = goto i (Waiting user p) (put_obj p ob2 w2)"
  have r3: "?R w3"
    unfolding w3_def
    by (rule world_reach.step [OF r2 world_step.conn [OF conn_step.broken [OF _ _ sv_def ob2]]]) (simp_all add: w2_def)
  define ob3 where "ob3 = ob2\<lparr>o_server := (o_server ob2)\<lparr>sv_session := (obj_session ob2)\<lparr>s_connErrLock := False\<rparr>\<rparr>\<rparr>"
  define w4 where "w4 = goto i (Deleting user p) (put_obj p ob3 w3)"
  have g: "gracefulClose cs (obj_session ob2)" using f2(2) cs by (simp add: gracefulClose_def)
  have o3: "stopConn_waited ob2 = Some ob3" using f2(1) by (simp add: stopConn_waited_def ob3_def)
  have "conn_step E cs i w3 (goto i (if gracefulClose cs (obj_session ob2) then Deleting user p else Unlocking user p False) (put_obj p ob3 w3))"
    by (rule conn_step.waited [OF _ _ f2(3,4) o3]) (simp_all add: w3_def)
  then have r4: "?R w4" using world_reach.step [OF r3 world_step.conn] g unfolding w4_def by simp
  define ob4 where "ob4 = ob3\<lparr>o_server := (with_os (w_os w4) (o_server ob3))\<lparr>sv_session := clearFDs (E_sys E) (sv_session (with_os (w_os w4) (o_server ob3)))\<rparr>\<rparr>"
  define w5 where "w5 = goto i (Removing user p) (delSession_clear (E_sys E) (o_Id ob3) w4)"
  have r5: "?R w5"
    unfolding w5_def by (rule world_reach.step [OF r4 world_step.conn [OF conn_step.clear]]) (simp_all add: w4_def)
  have id3: "o_Id ob3 = o_Id ob" using f2(5) by (simp add: ob3_def)
  have get: "getSession (o_Id ob3) w4 = Some p" using s by (simp add: getSession_def id3 w4_def w3_def w2_def w1_def)
  have o4: "w_objs w4 p = Some ob3" by (simp add: w4_def)
  have w5: "w_objs w5 = (w_objs w)(p \<mapsto> ob4)" "w_threads w5 = (w_threads w)(i := Removing user p)" "w_sessions w5 = w_sessions w"
    using get o4 by (simp_all add: w5_def delSession_clear_def Let_def ob4_def) (simp_all add: w4_def w3_def w2_def w1_def)
  have id4: "o_Id ob4 = o_Id ob" "o_Username ob4 = o_Username ob" using id3 f2(6) by (simp_all add: ob4_def ob3_def)
  define w6 where "w6 = goto i (Unlocking user p True) (delSession_delete (o_Id ob4) w5)"
  have r6: "?R w6"
    unfolding w6_def by (rule world_reach.step [OF r5 world_step.conn [OF conn_step.remove]]) (simp_all add: w5)
  define w7 where "w7 = goto i (Finished 101) (put_obj p (sv_stopConn_end True ob4) w6)"
  have r7: "?R w7"
    unfolding w7_def by (rule world_reach.step [OF r6 world_step.conn [OF conn_step.unlock]]) (simp_all add: w6_def w5)
  show ?thesis
    by (intro exI [of _ w7] exI [of _ "sv_stopConn_end True ob4"] conjI r7)
      (simp_all add: w7_def w6_def w5 id4 ob(2) sv_stopConn_end_def)
qed

section \<open>Sessions that nobody can reach\<close>

text \<open>The object is not in the table, and no thread but \<open>i\<close> has a pointer to it.\<close>

definition orphan :: "nat \<Rightarrow> nat \<Rightarrow> ('os, 'ws) world \<Rightarrow> bool" where
  "orphan i p w \<longleftrightarrow> w_objs w p \<noteq> None \<and> (\<forall>sid. w_sessions w sid \<noteq> Some (Some p)) \<and> (\<forall>j. points_to (w_threads w j) = Some p \<longrightarrow> j = i)"

text \<open>Steps that leave an orphan alone: all those of threads without a pointer to it.\<close>

lemma delSession_clear_other: "\<forall>sid. w_sessions w sid \<noteq> Some (Some p) \<Longrightarrow> w_objs (delSession_clear S sid w) p = w_objs w p"
  by (auto simp: delSession_clear_def Let_def dest: getSession_SomeD split: option.splits)

lemma world_step_orphan:
  assumes x: "world_step E cs U src w w'" and n: "orphan i p w"
  shows "orphan i p w' \<and> (points_to (w_threads w i) \<noteq> Some p \<longrightarrow> points_to (w_threads w' i) \<noteq> Some p \<and> w_objs w' p = w_objs w p)"
proof -
  note cl = delSession_clear_other [of w p]
  have s: "w_sessions w sid \<noteq> Some (Some p)" "getSession sid w \<noteq> Some p" for sid
    using n by (auto simp: orphan_def dest: getSession_SomeD)
  from x show ?thesis
  proof cases
    case (request j)
    show ?thesis
    proof (cases "j = i")
      case True
      from request n s True show ?thesis by cases (auto simp: orphan_def split: if_splits)
    next
      case False
      then have "points_to (w_threads w j) \<noteq> Some p" using n by (auto simp: orphan_def)
      from request n s False this show ?thesis by cases (auto simp: orphan_def split: if_splits)
    qed
  next
    case (conn j)
    show ?thesis
    proof (cases "j = i")
      case True
      from conn n s True show ?thesis by cases (auto simp: orphan_def cl split: if_splits)
    next
      case False
      then have "points_to (w_threads w j) \<noteq> Some p" using n by (auto simp: orphan_def)
      from conn n s False this show ?thesis by cases (auto simp: orphan_def cl split: if_splits)
    qed
  next
    case (collect j)
    show ?thesis
    proof (cases "j = i")
      case True
      from collect n s True show ?thesis by cases (auto simp: orphan_def cl split: if_splits)
    next
      case False
      then have "points_to (w_threads w j) \<noteq> Some p" using n by (auto simp: orphan_def)
      from collect n s False this show ?thesis by cases (auto simp: orphan_def cl split: if_splits)
    qed
  qed
qed

lemma world_reach_orphan:
  assumes "world_reach E cs U src w w'" and "orphan i p w"
  shows "orphan i p w' \<and> (points_to (w_threads w i) \<noteq> Some p \<longrightarrow> points_to (w_threads w' i) \<noteq> Some p \<and> w_objs w' p = w_objs w p)"
  using assms
proof induction
  case (step w1 w2 w3)
  then show ?case using world_step_orphan [OF step.hyps(2), of i p] by auto
qed simp

text \<open>The run: looked up by a second request, closed, unlocked, and taken by the second request.\<close>

lemma closed_session_orphan:
  assumes u: "user \<in> U" and src: "src 0 \<noteq> []" and cs: "cs (Some err) = 1000"
  shows "\<exists>w. world_reach E cs U src (world_start os) w \<and> w_threads w 2 = Running user 0 \<and> orphan 2 0 w"
proof -
  let ?R = "world_reach E cs U src (world_start os)" and ?ids = "\<lparr>ids_Uid = 0, ids_Gid = 0, ids_OtherUid = 0, ids_OtherGid = 0\<rparr>"
  let ?opts = "\<lparr>opt_EnableLink = False, opt_AllowedXAttrPrefix = []\<rparr>"
  obtain ws :: 'b where True by simp
  define w0 where "w0 = tried_world src user ?ids ?opts ws os"
  have r0: "?R w0" unfolding w0_def by (rule tried_world_reach [OF u])
  have r1: "?R (goto 2 (Get user (src 0)) w0)"
    by (rule world_reach.step [OF r0 world_step.request [OF request_step.resume [OF _ u src]]]) (simp add: w0_def tried_world_def)
  define w2 where "w2 = goto 2 (Try user 0) (goto 2 (Get user (src 0)) w0)"
  have r2: "?R w2"
    unfolding w2_def
    by (rule world_reach.step [OF r1 world_step.request [OF request_step.known]]) (simp_all add: w0_def tried_world_def getSession_def)
  have w2: "w_threads w2 1 = Try user 0" "w_objs w2 0 = Some (newObj (src 0) user ?ids ?opts ws os)" "w_threads w2 2 = Try user 0"
      "w_sessions w2 = [src 0 \<mapsto> Some 0]" "\<forall>j. j \<noteq> 1 \<and> j \<noteq> 2 \<longrightarrow> points_to (w_threads w2 j) = None"
    by (simp_all add: w2_def w0_def tried_world_def)
  let ?ob = "newObj (src 0) user ?ids ?opts ws os"
  have ob: "o_Username ?ob = u_Name user" "\<not> o_Lock ?ob" "o_Id ?ob = src 0" by (simp_all add: newObj_def)
  have s2: "w_sessions w2 (o_Id ?ob) = Some (Some 0)" by (simp add: w2(4) ob(3))
  obtain w3 ob where r3: "world_reach E cs U src w2 w3" and w3: "w_threads w3 = (w_threads w2)(1 := Finished 101)"
      "w_objs w3 = (w_objs w2)(0 \<mapsto> ob)" "\<not> o_Lock ob" "o_Username ob = u_Name user" "w_sessions w3 = (w_sessions w2)(src 0 := None)"
    using connect_and_close [where E = E and U = U and src = src and cs = cs and err = err, OF w2(1,2) ob(1,2) newObj_asleep s2 cs]
    unfolding ob(3) by (elim exE conjE) (rule that)
  have r3: "?R w3" by (rule world_reach_trans [OF r2 r3])
  define w4 where "w4 = goto 2 (Upgrade user 0) (put_obj 0 (ob\<lparr>o_Lock := True\<rparr>) w3)"
  have r4: "?R w4"
    unfolding w4_def by (rule world_reach.step [OF r3 world_step.request [OF request_step.lock]]) (simp_all add: w3 w2)
  define w5 where "w5 = goto 2 (Running user 0) (put_obj 0 (takeConn ws (ob\<lparr>o_Lock := True\<rparr>)) w4)"
  have r5: "?R w5"
    unfolding w5_def by (rule world_reach.step [OF r4 world_step.request [OF request_step.upgrade]]) (simp_all add: w4_def)
  have only: "j = 2" if "points_to (w_threads w5 j) = Some 0" for j
    using that w2(5) by (auto simp: w5_def w4_def w3 split: if_splits)
  have o: "orphan 2 0 w5"
    unfolding orphan_def by (intro conjI allI impI) (simp_all add: only, simp_all add: w5_def w4_def w3 w2(4))
  show ?thesis by (intro exI [of _ w5] conjI r5 o) (simp add: w5_def)
qed


section \<open>Examples\<close>

definition sample_user :: User where
  "sample_user = \<lparr>u_Name = ''ann'', u_Password = [], u_ReadOnly = False, u_Storage = \<lparr>Storage_Path = ''/srv''\<rparr>\<rparr>"

definition sample_status :: closeStatus where
  "sample_status e = (if e = Some (NetError ''closed'') then 1000 else -1)"

abbreviation log_env :: "(string list, bytes \<times> bytes list) env" where
  "log_env \<equiv> \<lparr>E_sys = log_sys, E_ws = mem_ws, E_unix = linux_amd64\<rparr>"

lemma sample_confined: "users_confined {sample_user} (log_ok ''/srv'') log_sys"
proof -
  have "os_confined ''/srv'' (log_ok ''/srv'') log_sys" by (rule log_confined)
  moreover have "storage_root ''/srv''" by (simp add: storage_root_def IsUrlValid_iff)
  ultimately show ?thesis using os_confinedD(1) by (auto simp: users_confined_def sample_user_def)
qed

theorem sessions_isolated_witness:
  "\<exists>w ob. world_reach log_env sample_status {sample_user} (\<lambda>n. ''id'') (world_start []) w \<and> w_threads w 1 = Running sample_user 0
     \<and> w_objs w 0 = Some ob \<and> s_storage (obj_session ob) = ''/srv'' \<and> server_inv (o_server ob) \<and> log_ok ''/srv'' (w_os w)"
proof -
  let ?R = "world_reach log_env sample_status {sample_user} (\<lambda>n. ''id'') (world_start [])"
  let ?w = "tried_world (\<lambda>n. ''id'') sample_user \<lparr>ids_Uid = 0, ids_Gid = 0, ids_OtherUid = 0, ids_OtherGid = 0\<rparr>
    \<lparr>opt_EnableLink = False, opt_AllowedXAttrPrefix = []\<rparr> (([], []) :: bytes \<times> bytes list) ([] :: string list)"
  have r0: "?R ?w" by (rule tried_world_reach) simp
  obtain ob where ob: "w_objs ?w 0 = Some ob" "o_Username ob = u_Name sample_user" "\<not> o_Lock ob"
    by (simp add: tried_world_def newObj_def)
  have r1: "?R (goto 1 (Upgrade sample_user 0) (put_obj 0 (ob\<lparr>o_Lock := True\<rparr>) ?w))"
    by (rule world_reach.step [OF r0 world_step.request [OF request_step.lock [OF _ ob]]]) (simp add: tried_world_def)
  define w where "w = goto 1 (Running sample_user 0) (put_obj 0 (takeConn ([], []) (ob\<lparr>o_Lock := True\<rparr>))
      (goto 1 (Upgrade sample_user 0) (put_obj 0 (ob\<lparr>o_Lock := True\<rparr>) ?w)))"
  have r2: "?R w"
    unfolding w_def by (rule world_reach.step [OF r1 world_step.request [OF request_step.upgrade]]) simp_all
  have t: "w_threads w 1 = Running sample_user 0" by (simp add: w_def)
  have C: "users_confined {sample_user} (log_ok ''/srv'') (E_sys log_env)" using sample_confined by simp
  have "log_ok ''/srv'' ([] :: string list)" by (simp add: log_ok_def)
  note all = sessions_isolated [OF C this r2]
  from conjunct1 [OF conjunct2 [OF conjunct2 [OF all]], rule_format, OF t]
  obtain ob' where ob': "w_objs w 0 = Some ob'" "server_inv (o_server ob')" "s_storage (obj_session ob') = ''/srv''"
    by (auto simp: sample_user_def)
  show ?thesis by (intro exI [of _ w] exI [of _ ob'] conjI r2 t ob' conjunct1 [OF all])
qed


section \<open>Identifiers are as distinct as their bytes\<close>

lemma randomSessionId_bytes:
  assumes "rd_data r = bs @ rest" and "length bs = sessionIdByteLength"
  shows "\<exists>r'. randomSessionId r = (r', Inr (RawURLEncoding_Encode bs))"
proof -
  obtain r' where "io_ReadFull sessionIdByteLength r = (r', Inr bs)" using io_ReadFull_enough [OF assms] .
  then show ?thesis by (simp add: randomSessionId_def rbind_def rret_def)
qed

lemma sessionId_distinct:
  assumes "length bs = sessionIdByteLength" and "length bs' = sessionIdByteLength"
  shows "length (RawURLEncoding_Encode bs) = 22 \<and> (RawURLEncoding_Encode bs = RawURLEncoding_Encode bs' \<longleftrightarrow> bs = bs')"
  using assms by (simp add: length_RawURLEncoding_Encode RawURLEncoding_Encode_inj)

end
