(* ===== verification/Spec2Isabelle.thy ===== *)
theory Spec2Isabelle
  imports Wsfs_Loop Wsfs_Server_Live Wsfs_Registry
begin

text \<open>
  \<^bold>\<open>WSFS\<close> is a network file system over WebSocket. A server exports storage directories to its users; a client
  connects, sends commands and mounts the storage. This development models the protocol, the server side
  of a session with its registry, and the client side of a session, all from the Go sources under
  \<^verbatim>\<open>src/src/internal\<close>, and proves what makes them correct, alone and connected to each other.

  \<^bold>\<open>The program and how its parts interact.\<close> A client (\<^verbatim>\<open>client/mount.go\<close>) sends an HTTP upgrade request with basic
  authentication. The server authenticates it (\<^verbatim>\<open>server/user.go\<close>, \<^verbatim>\<open>server/storage\<close>), creates or resumes a session
  (\<^verbatim>\<open>server/wsfs/handler.go\<close>, \<^verbatim>\<open>registry.go\<close>) and starts its read loop (\<^verbatim>\<open>session.go\<close>). A message of the client is a mark, a
  command code and an encoded request; the dispatcher (\<^verbatim>\<open>commandCalls.go\<close>) decodes it and runs a handler in a goroutine
  (\<^verbatim>\<open>commands.go\<close>, \<^verbatim>\<open>commands-unix.go\<close>), which works on the storage and answers with messages that carry the mark: any number of
  partial ones and a final one. Large writes go through write streams, which have their own goroutine. On the
  client (\<^verbatim>\<open>client/session\<close>) a request takes a free mark, sends its command, and receives what the read loop delivers for its mark.

  \<^bold>\<open>Theories.\<close>
  \<^item> \<^verbatim>\<open>Wsfs_Prelude\<close>: integers, bytes, strings, little-endian numbers, Go's \<^verbatim>\<open>strings\<close> package, and the collections of simplification rules.
  \<^verbatim>\<open>Wsfs_IO\<close>: writers and readers of byte streams, \<^verbatim>\<open>util.Buffer\<close>, the locale of writers and its instances.
  \<^verbatim>\<open>Wsfs_Base64\<close>: what is used of \<^verbatim>\<open>encoding/base64\<close>.
  \<^item> \<^verbatim>\<open>Wsfs_Const\<close>, \<^verbatim>\<open>Wsfs_Structs\<close>, \<^verbatim>\<open>Wsfs_Codec\<close>, \<^verbatim>\<open>Wsfs_Codec_Amd64\<close>, \<^verbatim>\<open>Wsfs_Command\<close>: the protocol (\<^verbatim>\<open>share/wsfsprotocol\<close>). One record per
  structure, one encoder and one decoder per generated function, for the portable and for the amd64 build, and the
  decoding part of the dispatcher. Shown: sizes are right; decoding undoes encoding across builds and for every way in
  which the network splits the bytes; every proper prefix of a request is rejected.
  \<^item> \<^verbatim>\<open>Wsfs_Path\<close>: the path check (\<^verbatim>\<open>util/url*.go\<close>) and \<^verbatim>\<open>path/filepath\<close>. Shown: checked paths stay inside the storage; on Windows they need not.
  \<^item> \<^verbatim>\<open>Wsfs_Conv\<close>: error codes, modes, open, rename and lock flags, times (\<^verbatim>\<open>share/wsfsunixconv\<close>, \<^verbatim>\<open>timeval\<close>, \<^verbatim>\<open>client/unix/errno.go\<close>). Shown: what survives
  the way from the client's kernel to the server's.
  \<^item> \<^verbatim>\<open>Wsfs_Env\<close>: the operating system and the WebSocket connection, records of operations on an abstract state, and the
  wrappers of the source around system calls.
  \<^item> \<^verbatim>\<open>Wsfs_Session\<close>, \<^verbatim>\<open>Wsfs_Server\<close>, \<^verbatim>\<open>Wsfs_Dispatch\<close>: the session object, every command handler, the dispatcher and the steps of a running session.
  \<^verbatim>\<open>Wsfs_Server_Replies\<close>, \<^verbatim>\<open>Wsfs_Server_Lists\<close>, \<^verbatim>\<open>Wsfs_Server_Data\<close>: every command is answered by one well-formed sequence of responses, and what they
  contain. \<^verbatim>\<open>Wsfs_Server_Confine\<close>: operations outside the storage are never called. \<^verbatim>\<open>Wsfs_Server_Inv\<close>: the session invariant.
  \<^verbatim>\<open>Wsfs_Server_Live\<close>: requests are served, malformed ones are rejected, progress, and a deadlock.
  \<^item> \<^verbatim>\<open>Wsfs_Users\<close>: configuration of storages and users, and authentication. \<^verbatim>\<open>Wsfs_Registry\<close>: any number of sessions, requests, connections and
  the collector, interleaved at every access to shared state. Shown: sessions are isolated from each other and between
  users over their whole life; a closed session can be resumed and is then lost.
  \<^item> \<^verbatim>\<open>Wsfs_Client\<close>, \<^verbatim>\<open>Wsfs_Client_Cmds\<close>, \<^verbatim>\<open>Wsfs_Client_Dirs\<close>, \<^verbatim>\<open>Wsfs_Client_XAttr\<close>: the client session, its commands, listings with prefetch and extended
  attributes. \<^verbatim>\<open>Wsfs_Client_Laws\<close>: what a request returns, proved once for every connection that satisfies the locale of a connection to a
  server. \<^verbatim>\<open>Wsfs_Loop\<close>: that locale interpreted on the server model, and the end-to-end statements: remote calls do what the
  same calls do in the storage directory.

  \<^bold>\<open>How state and operations correspond.\<close> Structures are records with the fields of the source, prefixed; methods are functions
  that take and return the record. Handlers return an option: \<open>None\<close> is a call that never returns. Errors are values of a sum type.
  Tables (\<^verbatim>\<open>sync.Map\<close>) are association lists or maps, mutexes are booleans, channels are lists with their capacity in the guard of the send.
  Definitions keep the source's names; \<open>cl_\<close> marks client functions and \<open>sv_\<close> server functions that share a name.

  \<^bold>\<open>Bounds and fuel.\<close> No definition uses fuel. Loops that end by their data are \<^theory_text>\<open>function\<close>s with a measure; loops that depend on the operating
  system or on other threads (\<^verbatim>\<open>ignoringEINTR\<close>, listings, reads, \<^verbatim>\<open>newFD\<close>, \<^verbatim>\<open>newClientMark\<close>) are partial functions into \<open>option\<close>, and the theorems show that they
  return, from named hypotheses on the operating system such as a bound on consecutive interruptions.
  Integers have the width of the source; the limits 32, 64 and 4 of buffers, command group and stream queues, the message
  size, and the wrap-around of descriptors and marks are those of the source.

  \<^bold>\<open>Hypotheses on code that is not in the repository.\<close> \<open>os_promises\<close>: system calls return what their manual pages say about counts and
  directory ends. \<open>os_confined\<close>: a property of the disk is kept by operations on descriptors and on paths inside a root.
  \<open>ws_reliable\<close>: a connection that does not fail. bcrypt, the status of a WebSocket error and the working directory are arguments.
  Every theorem with a hypothesis has an example that satisfies it.

  \<^bold>\<open>Not modelled.\<close> Page templates, the command line, logging, signals, listeners, TLS, dialling and retry delays are input and output without
  a state of their own. The two code generators run at build time; what they generate is modelled. WebDAV and the web interface are a second access
  path that shares only users and the path check with the modelled parts. The FUSE node methods and the WinFsp file system are
  called by libraries outside the repository and keep time-dependent caches; of them only the
  conversions of modes, flags and errors are modelled. The handlers of the non-Unix build use another operating system interface. Memory
  pools and the remote address have no effect on behaviour. The manifest maps the codec's size functions only as far as
  its number of entries allows.
\<close>

end
